(* ===== verification/Json.thy ===== *)
theory Json
  imports Prelude "HOL-Library.Word"
begin

text \<open>
  \<open>serde_json::Value\<close> as the crate uses it (default features: an object is a
  \<open>BTreeMap\<close>, so its members are in key order). A number is an unsigned or
  a negative signed 64-bit integer, or the bits of a finite IEEE-754 double, as
  \<open>serde_json::Number\<close> holds them. The accessors are the \<open>Value\<close> and
  \<open>Number\<close> methods the source calls.
\<close>

datatype number = PosInt "64 word" | NegInt "64 word" | Float "64 word"

datatype json =
    JNull
  | JBool bool
  | JNum number
  | JStr string
  | JArr "json list"
  | JObj "(string \<times> json) list"

type_synonym object = "(string \<times> json) list"

abbreviation obj_get :: "object \<Rightarrow> string \<Rightarrow> json option" where
  "obj_get m k \<equiv> map_of m k"

abbreviation obj_insert :: "string \<Rightarrow> json \<Rightarrow> object \<Rightarrow> object" where
  "obj_insert \<equiv> bt_insert"

definition contains_key :: "object \<Rightarrow> string \<Rightarrow> bool" where
  "contains_key m k \<longleftrightarrow> obj_get m k \<noteq> None"

fun as_str :: "json \<Rightarrow> string option" where
  "as_str (JStr s) = Some s"
| "as_str _ = None"

fun as_object :: "json \<Rightarrow> object option" where
  "as_object (JObj m) = Some m"
| "as_object _ = None"

fun as_array :: "json \<Rightarrow> json list option" where
  "as_array (JArr a) = Some a"
| "as_array _ = None"

fun number_as_u64 :: "number \<Rightarrow> nat option" where
  "number_as_u64 (PosInt u) = Some (unat u)"
| "number_as_u64 _ = None"

fun number_as_i64 :: "number \<Rightarrow> int option" where
  "number_as_i64 (PosInt u) = (if unat u < 2 ^ 63 then Some (uint u) else None)"
| "number_as_i64 (NegInt i) = Some (sint i)"
| "number_as_i64 (Float _) = None"

fun as_i64 :: "json \<Rightarrow> int option" where
  "as_i64 (JNum n) = number_as_i64 n"
| "as_i64 _ = None"

text \<open>\<open>opt.and_then(Value::as_str)\<close> and its kin on a looked-up member.\<close>

definition get_str :: "object \<Rightarrow> string \<Rightarrow> string option" where
  "get_str m k = Option.bind (obj_get m k) as_str"

definition get_object :: "object \<Rightarrow> string \<Rightarrow> object option" where
  "get_object m k = Option.bind (obj_get m k) as_object"

definition get_i64 :: "object \<Rightarrow> string \<Rightarrow> int option" where
  "get_i64 m k = Option.bind (obj_get m k) as_i64"

section \<open>Well-formed values\<close>

text \<open>
  The representation invariants of \<open>serde_json\<close>: a \<open>NegInt\<close> is negative, a
  \<open>Float\<close> is finite (its exponent field is not all ones), and the members of an
  object are in strictly increasing key order.
\<close>

definition finite_bits :: "64 word \<Rightarrow> bool" where
  "finite_bits b \<longleftrightarrow> unat (drop_bit 52 b) mod 2048 \<noteq> 2047"

fun wf_number :: "number \<Rightarrow> bool" where
  "wf_number (PosInt _) = True"
| "wf_number (NegInt i) = (sint i < 0)"
| "wf_number (Float b) = finite_bits b"

fun wf_json :: "json \<Rightarrow> bool" where
  "wf_json (JNum n) = wf_number n"
| "wf_json (JArr a) = list_all wf_json a"
| "wf_json (JObj m) = (sorted_keys m \<and> list_all (\<lambda>(k, v). wf_json v) m)"
| "wf_json _ = True"

definition wf_object :: "object \<Rightarrow> bool" where
  "wf_object m \<longleftrightarrow> wf_json (JObj m)"

lemma wf_object_iff: "wf_object m \<longleftrightarrow> sorted_keys m \<and> (\<forall>(k, v)\<in>set m. wf_json v)"
  by (simp add: wf_object_def list_all_iff)

lemma wf_object_get: "wf_object m \<Longrightarrow> obj_get m k = Some v \<Longrightarrow> wf_json v"
  by (auto simp: wf_object_iff dest!: map_of_SomeD)

lemma wf_object_insert: "wf_object m \<Longrightarrow> wf_json v \<Longrightarrow> wf_object (obj_insert k v m)"
  using set_bt_insert_subset [of k v m]
  by (auto simp: wf_object_iff sorted_keys_bt_insert)

lemma wf_object_Nil [simp]: "wf_object []"
  by (simp add: wf_object_def)

section \<open>The interface of an ordered object\<close>

text \<open>
  What the code relies on when it edits a context: an insertion is visible to the next
  lookup of its key, invisible to every other lookup, and keeps the representation in key
  order, so that equal contents are equal objects.
\<close>

locale ordered_object =
  fixes get :: "'m \<Rightarrow> 'k \<Rightarrow> 'v option"
    and ins :: "'k \<Rightarrow> 'v \<Rightarrow> 'm \<Rightarrow> 'm"
    and inv :: "'m \<Rightarrow> bool"
  assumes get_ins_same: "get (ins k v m) k = Some v"
    and get_ins_other: "k' \<noteq> k \<Longrightarrow> get (ins k v m) k' = get m k'"
    and inv_ins: "inv m \<Longrightarrow> inv (ins k v m)"
    and extensional: "inv m \<Longrightarrow> inv n \<Longrightarrow> (\<And>k. get m k = get n k) \<Longrightarrow> m = n"
begin

lemma get_ins: "get (ins k v m) k' = (if k' = k then Some v else get m k')"
  by (simp add: get_ins_same get_ins_other)

lemma ins_ins: "inv m \<Longrightarrow> ins k v (ins k w m) = ins k v m"
  by (rule extensional) (simp_all add: inv_ins get_ins)

lemma ins_commute: "inv m \<Longrightarrow> k \<noteq> l \<Longrightarrow> ins k v (ins l w m) = ins l w (ins k v m)"
  by (rule extensional) (auto simp: inv_ins get_ins)

lemma ins_triv: "inv m \<Longrightarrow> get m k = Some v \<Longrightarrow> ins k v m = m"
  by (rule extensional) (auto simp: inv_ins get_ins)

lemma get_fold_ins:
  "k \<notin> fst ` set ps \<Longrightarrow> get (fold (\<lambda>(k, v). ins k v) ps m) k = get m k"
  by (induction ps arbitrary: m) (auto simp: get_ins)

lemma inv_fold_ins: "inv m \<Longrightarrow> inv (fold (\<lambda>(k, v). ins k v) ps m)"
  by (induction ps arbitrary: m) (auto simp: inv_ins)

end

text \<open>
  Two key-ordered lists with the same lookups have the same entries, and a sorted list of
  distinct keys is determined by its set.
\<close>

lemma sorted_keys_extensional:
  assumes "sorted_keys m" "sorted_keys n" and eq: "\<And>k. map_of m k = map_of n k"
  shows "m = n"
proof -
  have "map_of m = map_of n" using eq by (simp add: fun_eq_iff)
  moreover have "distinct (map fst m)" "distinct (map fst n)"
    using assms sorted_keys_distinct by blast+
  ultimately have "set m = set n" by (simp add: map_of_inject_set)
  moreover have "sorted (map fst m)" "sorted (map fst n)"
    using assms by (simp_all add: sorted_keys_def strict_sorted_iff)
  moreover have "inj_on fst (set m \<union> set n)"
    using \<open>distinct (map fst m)\<close> \<open>set m = set n\<close> by (simp add: distinct_map)
  ultimately show ?thesis
    using \<open>distinct (map fst m)\<close> \<open>distinct (map fst n)\<close>
    by (intro map_sorted_distinct_set_unique [of fst]) simp_all
qed

interpretation obj: ordered_object map_of bt_insert sorted_keys
proof unfold_locales
  fix m n :: "('a \<times> 'b) list"
  assume "sorted_keys m" "sorted_keys n" "\<And>k. map_of m k = map_of n k"
  then show "m = n" by (rule sorted_keys_extensional)
qed (simp_all add: map_of_bt_insert sorted_keys_bt_insert)

lemmas get_insert [simp] = map_of_bt_insert

lemma get_str_insert [frame_simps]:
  "get_str (obj_insert k v m) k' = (if k' = k then as_str v else get_str m k')"
  by (simp add: get_str_def)

lemma get_object_insert [frame_simps]:
  "get_object (obj_insert k v m) k' = (if k' = k then as_object v else get_object m k')"
  by (simp add: get_object_def)

lemma get_i64_insert [frame_simps]:
  "get_i64 (obj_insert k v m) k' = (if k' = k then as_i64 v else get_i64 m k')"
  by (simp add: get_i64_def)

end
