(* ===== verification/Jcs.thy ===== *)
theory Jcs
  imports Json
begin

text \<open>
  \<open>jcs.rs\<close>: the RFC 8785 serializer. The code is a \<open>serde_json\<close> formatter
  that collects the members of every open object in a stack of \<open>Entry\<close> buffers and
  writes them sorted by UTF-16 code units when the object closes. \<open>serde_json\<close>
  itself is not part of the sources: \<open>emit_value\<close> drives the formatter in the order the
  \<open>Formatter\<close> trait documents, and \<open>fx\<close>, a parameter throughout, is
  \<open>ryu_js::Buffer::format_finite\<close> on the bits of a finite double.
\<close>

section \<open>Integers as doubles\<close>

text \<open>
  \<open>u64 as f64\<close> and \<open>i64 as f64\<close>: the nearest double, ties to even. The
  fraction may round up to \<open>2 ^ 53\<close>; the carry then moves into the exponent field, as
  it does in the bits.
\<close>

fun floor_log2 :: "nat \<Rightarrow> nat" where
  "floor_log2 n = (if n < 2 then 0 else Suc (floor_log2 (n div 2)))"

declare floor_log2.simps [simp del]

definition round_shift :: "nat \<Rightarrow> nat \<Rightarrow> nat" where
  "round_shift m sh =
     (let q = m div 2 ^ sh; r = m mod 2 ^ sh; half = 2 ^ (sh - 1)
      in if r > half \<or> (r = half \<and> odd q) then q + 1 else q)"

definition f64_of_nat :: "nat \<Rightarrow> nat" where
  "f64_of_nat m =
     (if m = 0 then 0
      else let e = floor_log2 m;
               sig = (if e \<le> 52 then m * 2 ^ (52 - e) else round_shift m (e - 52))
           in (1023 + e) * 2 ^ 52 + (sig - 2 ^ 52))"

definition f64_of_int :: "int \<Rightarrow> 64 word" where
  "f64_of_int i = of_nat (f64_of_nat (nat \<bar>i\<bar>) + (if i < 0 then 2 ^ 63 else 0))"

fun number_f64 :: "number \<Rightarrow> 64 word" where
  "number_f64 (PosInt u) = f64_of_int (uint u)"
| "number_f64 (NegInt i) = f64_of_int (sint i)"
| "number_f64 (Float b) = b"

section \<open>UTF-16 keys\<close>

text \<open>
  \<open>str::encode_utf16\<close> on the UTF-8 bytes of a \<open>str\<close>. A \<open>str\<close> is
  always valid UTF-8; the last equation makes the function total and is not reached on one.
\<close>

definition utf16_of_scalar :: "nat \<Rightarrow> nat list" where
  "utf16_of_scalar cp =
     (if cp < 65536 then [cp]
      else [55296 + (cp - 65536) div 1024, 56320 + (cp - 65536) mod 1024])"

fun utf16_units :: "nat list \<Rightarrow> nat list" where
  "utf16_units [] = []"
| "utf16_units (b # bs) =
     (if b < 128 then b # utf16_units bs
      else case bs of
        [] \<Rightarrow> [b]
      | c # cs \<Rightarrow>
          if b < 224 then utf16_of_scalar ((b - 192) * 64 + (c - 128)) @ utf16_units cs
          else case cs of
            [] \<Rightarrow> [b, c]
          | d # ds \<Rightarrow>
              if b < 240
              then utf16_of_scalar ((b - 224) * 4096 + (c - 128) * 64 + (d - 128)) @ utf16_units ds
              else case ds of
                [] \<Rightarrow> [b, c, d]
              | e # es \<Rightarrow>
                  utf16_of_scalar ((b - 240) * 262144 + (c - 128) * 4096 + (d - 128) * 64 + (e - 128))
                    @ utf16_units es)"

definition utf16 :: "string \<Rightarrow> nat list" where
  "utf16 s = utf16_units (map byte s)"

section \<open>String literals\<close>

definition hex_digit :: "nat \<Rightarrow> char" where
  "hex_digit n = ''0123456789abcdef'' ! n"

text \<open>
  \<open>write_char_escape\<close>, for the bytes \<open>serde_json\<close> escapes (the quote, the
  backslash and the control bytes); every other byte is part of a fragment and is copied.
\<close>

definition write_char_escape :: "char \<Rightarrow> string" where
  "write_char_escape c =
     (let b = byte c in
      if b = 34 then [CHR 0x5C, CHR 0x22]
      else if b = 92 then [CHR 0x5C, CHR 0x5C]
      else if b = 8 then [CHR 0x5C, CHR ''b'']
      else if b = 12 then [CHR 0x5C, CHR ''f'']
      else if b = 10 then [CHR 0x5C, CHR ''n'']
      else if b = 13 then [CHR 0x5C, CHR ''r'']
      else if b = 9 then [CHR 0x5C, CHR ''t'']
      else if b < 32 then CHR 0x5C # ''u00'' @ [hex_digit (b div 16), hex_digit (b mod 16)]
      else [c])"

definition quote_str :: "string \<Rightarrow> string" where
  "quote_str s = CHR 0x22 # concat (map write_char_escape s) @ [CHR 0x22]"

text \<open>
  \<open>from_slice::<Value>(&key)\<close> on a string literal, as \<open>Utf16Key::new\<close> uses
  it: the key bytes are a literal this formatter wrote, so the escapes that occur are the
  ones above; any other input is an error.
\<close>

definition unhex :: "char \<Rightarrow> nat option" where
  "unhex c = (if is_digit c then Some (byte c - 48)
              else if 97 \<le> byte c \<and> byte c \<le> 102 then Some (byte c - 87) else None)"

definition unescape_short :: "char \<Rightarrow> char option" where
  "unescape_short c =
     (if c = CHR 0x22 then Some (CHR 0x22)
      else if c = CHR 0x5C then Some (CHR 0x5C)
      else if c = CHR ''b'' then Some (CHR 0x08)
      else if c = CHR ''f'' then Some (CHR 0x0C)
      else if c = CHR ''n'' then Some (CHR 0x0A)
      else if c = CHR ''r'' then Some (CHR 0x0D)
      else if c = CHR ''t'' then Some (CHR 0x09)
      else None)"

fun unescape :: "string \<Rightarrow> string option" where
  "unescape [] = None"
| "unescape [c] = (if c = CHR 0x22 then Some [] else None)"
| "unescape (c # d # r) =
     (if c = CHR 0x22 then None
      else if c \<noteq> CHR 0x5C then map_option (Cons c) (unescape (d # r))
      else if d = CHR ''u'' then
        (case r of
           z1 # z2 # h # l # r' \<Rightarrow>
             (case (unhex h, unhex l) of
                (Some x, Some y) \<Rightarrow>
                  if z1 = CHR ''0'' \<and> z2 = CHR ''0''
                  then map_option (Cons (char_of (16 * x + y))) (unescape r') else None
              | _ \<Rightarrow> None)
         | _ \<Rightarrow> None)
      else (case unescape_short d of
              None \<Rightarrow> None
            | Some e \<Rightarrow> map_option (Cons e) (unescape r)))"

definition unquote_str :: "string \<Rightarrow> string option" where
  "unquote_str s = (case s of [] \<Rightarrow> None | c # r \<Rightarrow> if c = CHR 0x22 then unescape r else None)"

section \<open>The formatter\<close>

datatype fmt_error = InvalidFloat | InvalidKey | NoObject

text \<open>\<open>Entry\<close>: the members collected so far, under their UTF-16 tag.\<close>

record entry =
  members :: "(nat list \<times> string \<times> string) list"
  next_key :: string
  next_val :: string
  complete :: bool

definition new_entry :: entry where
  "new_entry = \<lparr>members = [], next_key = [], next_val = [], complete = False\<rparr>"

text \<open>\<open>JcsFormatter\<close> with the writer below it; the head of \<open>entries\<close> is the
  last element of the code's vector.\<close>

record formatter =
  entries :: "entry list"
  sink :: string

definition write_all :: "string \<Rightarrow> formatter \<Rightarrow> formatter" where
  "write_all bs st =
     (case entries st of
        [] \<Rightarrow> st\<lparr>sink := sink st @ bs\<rparr>
      | e # es \<Rightarrow>
          if complete e then st\<lparr>entries := e\<lparr>next_val := next_val e @ bs\<rparr> # es\<rparr>
          else st\<lparr>entries := e\<lparr>next_key := next_key e @ bs\<rparr> # es\<rparr>)"

definition write_bool :: "bool \<Rightarrow> formatter \<Rightarrow> formatter" where
  "write_bool b = (if b then write_all ''true'' else write_all ''false'')"

definition write_f64 :: "(64 word \<Rightarrow> string) \<Rightarrow> 64 word \<Rightarrow> formatter \<Rightarrow> fmt_error + formatter" where
  "write_f64 fx b st = (if finite_bits b then Inr (write_all (fx b) st) else Inl InvalidFloat)"

definition begin_object :: "formatter \<Rightarrow> formatter" where
  "begin_object st = st\<lparr>entries := new_entry # entries st\<rparr>"

definition set_complete :: "bool \<Rightarrow> formatter \<Rightarrow> fmt_error + formatter" where
  "set_complete b st =
     (case entries st of
        [] \<Rightarrow> Inl NoObject
      | e # es \<Rightarrow> Inr (st\<lparr>entries := e\<lparr>complete := b\<rparr> # es\<rparr>))"

definition begin_object_key :: "formatter \<Rightarrow> fmt_error + formatter" where
  "begin_object_key = set_complete False"

definition end_object_key :: "formatter \<Rightarrow> fmt_error + formatter" where
  "end_object_key = set_complete True"

definition utf16_key :: "string \<Rightarrow> fmt_error + nat list" where
  "utf16_key key = (case unquote_str key of None \<Rightarrow> Inl InvalidKey | Some s \<Rightarrow> Inr (utf16 s))"

definition end_object_value :: "formatter \<Rightarrow> fmt_error + formatter" where
  "end_object_value st =
     (case entries st of
        [] \<Rightarrow> Inl NoObject
      | e # es \<Rightarrow>
          res_bind (utf16_key (next_key e)) (\<lambda>tag.
            Inr (st\<lparr>entries :=
              e\<lparr>members := bt_insert tag (next_key e, next_val e) (members e),
                next_key := [], next_val := []\<rparr> # es\<rparr>)))"

definition member_text :: "string \<times> string \<Rightarrow> string" where
  "member_text kv = fst kv @ '':'' @ snd kv"

fun comma_join :: "string list \<Rightarrow> string" where
  "comma_join [] = []"
| "comma_join [x] = x"
| "comma_join (x # xs) = x @ '','' @ comma_join xs"

definition end_object :: "formatter \<Rightarrow> fmt_error + formatter" where
  "end_object st =
     (case entries st of
        [] \<Rightarrow> Inl NoObject
      | e # es \<Rightarrow>
          Inr (write_all (''{'' @ comma_join (map (member_text \<circ> snd) (members e)) @ ''}'')
                 (st\<lparr>entries := es\<rparr>)))"

text \<open>The calls \<open>serde_json\<close> makes for one string and for one value.\<close>

definition emit_str :: "string \<Rightarrow> formatter \<Rightarrow> formatter" where
  "emit_str s st =
     write_all [CHR 0x22] (fold (\<lambda>c. write_all (write_char_escape c)) s (write_all [CHR 0x22] st))"

fun emit_value :: "(64 word \<Rightarrow> string) \<Rightarrow> json \<Rightarrow> formatter \<Rightarrow> fmt_error + formatter"
  and emit_elems :: "(64 word \<Rightarrow> string) \<Rightarrow> bool \<Rightarrow> json list \<Rightarrow> formatter \<Rightarrow> fmt_error + formatter"
  and emit_members :: "(64 word \<Rightarrow> string) \<Rightarrow> (string \<times> json) list \<Rightarrow> formatter \<Rightarrow> fmt_error + formatter"
where
  "emit_value fx JNull st = Inr (write_all ''null'' st)"
| "emit_value fx (JBool b) st = Inr (write_bool b st)"
| "emit_value fx (JNum n) st = write_f64 fx (number_f64 n) st"
| "emit_value fx (JStr s) st = Inr (emit_str s st)"
| "emit_value fx (JArr xs) st =
     res_bind (emit_elems fx True xs (write_all ''['' st)) (\<lambda>st. Inr (write_all '']'' st))"
| "emit_value fx (JObj m) st = res_bind (emit_members fx m (begin_object st)) end_object"
| "emit_elems fx first [] st = Inr st"
| "emit_elems fx first (x # xs) st =
     res_bind (emit_value fx x (if first then st else write_all '','' st)) (emit_elems fx False xs)"
| "emit_members fx [] st = Inr st"
| "emit_members fx ((k, v) # m) st =
     res_bind (begin_object_key st) (\<lambda>st.
     res_bind (end_object_key (emit_str k st)) (\<lambda>st.
     res_bind (emit_value fx v st) (\<lambda>st.
     res_bind (end_object_value st) (emit_members fx m))))"

definition jcs_to_string :: "(64 word \<Rightarrow> string) \<Rightarrow> json \<Rightarrow> fmt_error + string" where
  "jcs_to_string fx v =
     res_bind (emit_value fx v \<lparr>entries = [], sink = []\<rparr>) (\<lambda>st. Inr (sink st))"

section \<open>The canonical text\<close>

text \<open>
  The reference the formatter is compared with: a plain recursion on the value, with the
  members of an object sorted once their values are rendered.
\<close>

definition sort_members :: "(string \<times> string) list \<Rightarrow> (nat list \<times> string \<times> string) list" where
  "sort_members m = fold (\<lambda>(k, v). bt_insert (utf16 k) (quote_str k, v)) m []"

fun jcs_text :: "(64 word \<Rightarrow> string) \<Rightarrow> json \<Rightarrow> string" where
  "jcs_text fx JNull = ''null''"
| "jcs_text fx (JBool b) = (if b then ''true'' else ''false'')"
| "jcs_text fx (JNum n) = fx (number_f64 n)"
| "jcs_text fx (JStr s) = quote_str s"
| "jcs_text fx (JArr xs) = ''['' @ comma_join (map (jcs_text fx) xs) @ '']''"
| "jcs_text fx (JObj m) =
     ''{'' @ comma_join (map (member_text \<circ> snd) (sort_members (map (\<lambda>(k, v). (k, jcs_text fx v)) m))) @ ''}''"

subsection \<open>Every 64-bit integer becomes a finite double\<close>

lemma floor_log2_bounds: "0 < n \<Longrightarrow> 2 ^ floor_log2 n \<le> n \<and> n < 2 ^ (floor_log2 n + 1)"
proof (induction n rule: floor_log2.induct)
  case (1 n)
  show ?case
  proof (cases "n < 2")
    case True
    with "1.prems" show ?thesis by (subst (1 2) floor_log2.simps) simp
  next
    case False
    then have "floor_log2 n = Suc (floor_log2 (n div 2))" by (subst floor_log2.simps) simp
    moreover have "2 ^ floor_log2 (n div 2) \<le> n div 2 \<and> n div 2 < 2 ^ (floor_log2 (n div 2) + 1)"
      by (rule "1.IH") (use False in simp_all)
    ultimately show ?thesis by auto
  qed
qed

lemma round_shift_le: "m < 2 ^ (53 + sh) \<Longrightarrow> round_shift m sh \<le> 2 ^ 53"
proof -
  assume "m < 2 ^ (53 + sh)"
  then have "m div 2 ^ sh < 2 ^ 53"
    by (simp add: less_mult_imp_div_less power_add)
  then show ?thesis by (simp add: round_shift_def Let_def)
qed

lemma f64_of_nat_bound:
  assumes "m < 2 ^ 65"
  shows "f64_of_nat m < 2047 * 2 ^ 52"
proof (cases "m = 0")
  case False
  define e where "e = floor_log2 m"
  define sig where "sig = (if e \<le> 52 then m * 2 ^ (52 - e) else round_shift m (e - 52))"
  have e: "2 ^ e \<le> m" "m < 2 ^ (e + 1)" using floor_log2_bounds [of m] False by (simp_all add: e_def)
  from e(1) assms have "2 ^ e < (2::nat) ^ 65" by (rule le_less_trans)
  then have "e < 65" by (rule power_less_imp_less_exp [rotated]) simp
  then have e64: "e \<le> 64" by simp
  have "sig \<le> 2 ^ 53"
  proof (cases "e \<le> 52")
    case True
    have "m * 2 ^ (52 - e) < 2 ^ (e + 1) * 2 ^ (52 - e)" using e(2) by simp
    also have "\<dots> = 2 ^ 53" using True by (simp flip: power_add)
    finally show ?thesis using True by (simp add: sig_def)
  next
    case False
    then have "53 + (e - 52) = e + 1" by simp
    then have "m < 2 ^ (53 + (e - 52))" using e(2) by (simp only:)
    then have "round_shift m (e - 52) \<le> 2 ^ 53" by (rule round_shift_le)
    with False show ?thesis by (simp add: sig_def)
  qed
  moreover have "(1023 + e) * 2 ^ 52 \<le> 1087 * (2::nat) ^ 52" using e64 by simp
  moreover from \<open>sig \<le> 2 ^ 53\<close> have "sig - 2 ^ 52 \<le> 2 ^ 52" by simp
  ultimately have "(1023 + e) * 2 ^ 52 + (sig - 2 ^ 52) \<le> 1087 * 2 ^ 52 + 2 ^ 52"
    by (intro add_mono)
  moreover have "f64_of_nat m = (1023 + e) * 2 ^ 52 + (sig - 2 ^ 52)"
    using False by (simp only: f64_of_nat_def Let_def sig_def e_def if_False)
  ultimately show ?thesis by simp
qed (simp add: f64_of_nat_def)

lemma finite_f64_of_int:
  assumes "\<bar>i\<bar> < 2 ^ 65"
  shows "finite_bits (f64_of_int i)"
proof -
  define n where "n = f64_of_nat (nat \<bar>i\<bar>)"
  have n: "n < 2047 * 2 ^ 52" unfolding n_def by (rule f64_of_nat_bound) (use assms in \<open>simp add: nat_less_iff\<close>)
  define s :: nat where "s = (if i < 0 then 2 ^ 63 else 0)"
  have "n + s < 2 ^ 64" using n by (simp add: s_def)
  then have "unat (of_nat (n + s) :: 64 word) = n + s"
    by (subst unat_of_nat) simp
  moreover have "f64_of_int i = of_nat (n + s)" by (simp add: f64_of_int_def n_def s_def)
  ultimately have "unat (drop_bit 52 (f64_of_int i)) = (n + s) div 2 ^ 52"
    by (simp only: unat_drop_bit_eq) (simp only: drop_bit_eq_div)
  also have "n + s = n + (if i < 0 then 2048 else 0) * 2 ^ 52" by (simp add: s_def)
  also have "\<dots> div 2 ^ 52 = (if i < 0 then 2048 else 0) + n div 2 ^ 52"
    by (rule div_mult_self1) simp
  finally have "unat (drop_bit 52 (f64_of_int i)) mod 2048 = (n div 2 ^ 52) mod 2048" by simp
  moreover have "n div 2 ^ 52 < 2047" using n by (simp add: less_mult_imp_div_less)
  ultimately show ?thesis by (simp add: finite_bits_def)
qed

lemma finite_number_f64: "wf_number n \<Longrightarrow> finite_bits (number_f64 n)"
proof (cases n)
  case (PosInt u)
  have "uint u < 2 ^ 64" using uint_lt2p [of u] by simp
  with PosInt show ?thesis by (simp add: finite_f64_of_int)
next
  case (NegInt i)
  have "- (2 ^ 63) \<le> sint i" "sint i < 2 ^ 63"
    using sint_greater_eq [of i] sint_lt [of i] by simp_all
  with NegInt show ?thesis by (simp add: finite_f64_of_int)
qed simp

subsection \<open>String literals are read back\<close>

lemma hex_digit_unhex: "n < 16 \<Longrightarrow> unhex (hex_digit n) = Some n"
proof -
  have "list_all (\<lambda>n. unhex (hex_digit n) = Some n) [0..<16]" by code_simp
  then show "n < 16 \<Longrightarrow> unhex (hex_digit n) = Some n" by (simp add: list_all_iff)
qed

lemma char_of_byte [simp]: "char_of (byte c) = c"
  by (simp add: byte_def)

lemma byte_eqD: "byte c = n \<Longrightarrow> c = char_of n"
  by (metis char_of_byte)

lemma byte_eqs:
  "byte c = 34 \<longleftrightarrow> c = CHR 0x22" "byte c = 92 \<longleftrightarrow> c = CHR 0x5C"
  "byte c = 8 \<longleftrightarrow> c = CHR 0x08" "byte c = 12 \<longleftrightarrow> c = CHR 0x0C"
  "byte c = 10 \<longleftrightarrow> c = CHR 0x0A" "byte c = 13 \<longleftrightarrow> c = CHR 0x0D"
  "byte c = 9 \<longleftrightarrow> c = CHR 0x09"
  using byte_inject [of c "CHR 0x22"] byte_inject [of c "CHR 0x5C"] byte_inject [of c "CHR 0x08"]
    byte_inject [of c "CHR 0x0C"] byte_inject [of c "CHR 0x0A"] byte_inject [of c "CHR 0x0D"]
    byte_inject [of c "CHR 0x09"]
  by (simp_all add: byte_def)

text \<open>One escaped byte in front of a literal's remaining text is read as that byte.\<close>

lemma unescape_control:
  assumes "byte c < 32" and r: "unescape r = Some s"
  shows "unescape (CHR 0x5C # ''u00'' @ [hex_digit (byte c div 16), hex_digit (byte c mod 16)] @ r) = Some (c # s)"
proof -
  have "byte c div 16 < 16" using assms by simp
  then show ?thesis by (simp add: hex_digit_unhex r)
qed

lemma unescape_step:
  assumes r: "unescape r = Some s"
  shows "unescape (write_char_escape c @ r) = Some (c # s)"
proof -
  obtain d r' where r': "r = d # r'" using r by (cases r) auto
  consider "c = CHR 0x22" | "c = CHR 0x5C" | "c = CHR 0x08" | "c = CHR 0x0C" | "c = CHR 0x0A"
    | "c = CHR 0x0D" | "c = CHR 0x09"
    | "byte c \<notin> {34, 92, 8, 12, 10, 13, 9}" "byte c < 32"
    | "byte c \<notin> {34, 92, 8, 12, 10, 13, 9}" "\<not> byte c < 32"
    unfolding byte_eqs [symmetric] by blast
  then show ?thesis
  proof cases
    case 8
    then have "write_char_escape c = CHR 0x5C # ''u00'' @ [hex_digit (byte c div 16), hex_digit (byte c mod 16)]"
      by (simp add: write_char_escape_def Let_def)
    then show ?thesis using unescape_control [OF 8(2) r] by simp
  next
    case 9
    then have "c \<noteq> CHR 0x22" "c \<noteq> CHR 0x5C" by (auto simp: byte_def)
    with 9 r show ?thesis by (simp add: write_char_escape_def Let_def r')
  qed (simp_all add: write_char_escape_def Let_def byte_def unescape_short_def r)
qed

lemma unescape_escaped: "unescape (concat (map write_char_escape s) @ [CHR 0x22]) = Some s"
  by (induction s) (simp_all add: unescape_step)

lemma unquote_quote [simp]: "unquote_str (quote_str s) = Some s"
  by (simp add: quote_str_def unquote_str_def unescape_escaped)

lemma quote_str_inject: "quote_str s = quote_str t \<longleftrightarrow> s = t"
  by (metis unquote_quote option.inject)

subsection \<open>The formatter computes the canonical text\<close>

lemma write_all_append: "write_all b (write_all a st) = write_all (a @ b) st"
  by (auto simp: write_all_def split: list.splits)

lemma write_all_Nil [simp]: "write_all [] st = st"
  by (auto simp: write_all_def split: list.splits)

lemma write_escapes:
  "fold (\<lambda>c. write_all (write_char_escape c)) s st = write_all (concat (map write_char_escape s)) st"
  by (induction s arbitrary: st) (simp_all add: write_all_append)

lemma emit_str_text: "emit_str s st = write_all (quote_str s) st"
  by (simp add: emit_str_def write_escapes write_all_append quote_str_def)

lemma write_all_key:
  "write_all bs (st\<lparr>entries := e\<lparr>complete := False\<rparr> # es\<rparr>)
     = st\<lparr>entries := e\<lparr>complete := False, next_key := next_key e @ bs\<rparr> # es\<rparr>"
  by (simp add: write_all_def)

lemma write_all_val:
  "write_all bs (st\<lparr>entries := e\<lparr>complete := True\<rparr> # es\<rparr>)
     = st\<lparr>entries := e\<lparr>complete := True, next_val := next_val e @ bs\<rparr> # es\<rparr>"
  by (simp add: write_all_def)

definition comma_rest :: "string list \<Rightarrow> string" where
  "comma_rest xs = concat (map (\<lambda>x. '','' @ x) xs)"

lemma comma_join_Cons: "comma_join (x # xs) = x @ comma_rest xs"
  by (induction xs arbitrary: x) (auto simp: comma_rest_def)

definition add_member :: "(64 word \<Rightarrow> string) \<Rightarrow> string \<times> json \<Rightarrow>
    (nat list \<times> string \<times> string) list \<Rightarrow> (nat list \<times> string \<times> string) list" where
  "add_member fx kv = bt_insert (utf16 (fst kv)) (quote_str (fst kv), jcs_text fx (snd kv))"

lemma sort_members_fold:
  "sort_members (map (\<lambda>(k, v). (k, jcs_text fx v)) m) = fold (add_member fx) m []"
proof -
  have "fold (\<lambda>(k, v). bt_insert (utf16 k) (quote_str k, v)) (map (\<lambda>(k, v). (k, jcs_text fx v)) m) acc
      = fold (add_member fx) m acc" for acc
    by (induction m arbitrary: acc) (auto simp: add_member_def)
  then show ?thesis by (simp add: sort_members_def)
qed

text \<open>One open object absorbs its members; nothing reaches the buffers below it.\<close>

definition idle :: "entry \<Rightarrow> bool" where
  "idle e \<longleftrightarrow> next_key e = [] \<and> next_val e = []"

lemma emit_text:
  "wf_json v \<Longrightarrow> emit_value fx v st = Inr (write_all (jcs_text fx v) st)"
  "list_all wf_json xs \<Longrightarrow> emit_elems fx first xs st =
     Inr (write_all (let ts = map (jcs_text fx) xs in if first then comma_join ts else comma_rest ts) st)"
  "list_all (\<lambda>(k, v). wf_json v) m \<Longrightarrow> entries st = e # es \<Longrightarrow> idle e \<Longrightarrow>
     \<exists>b. emit_members fx m st
       = Inr (st\<lparr>entries := e\<lparr>members := fold (add_member fx) m (members e), complete := b\<rparr> # es\<rparr>)"
proof (induction fx v st and fx first xs st and fx m st
    arbitrary: and and e es rule: emit_value_emit_elems_emit_members.induct)
  case (3 fx n st)
  then show ?case by (simp add: write_f64_def finite_number_f64)
next
  case (6 fx m st)
  obtain b where "emit_members fx m (begin_object st)
      = Inr (st\<lparr>entries := new_entry\<lparr>members := fold (add_member fx) m [], complete := b\<rparr> # entries st\<rparr>)"
    using "6.IH" [of new_entry "entries st"] "6.prems"
    by (auto simp: begin_object_def idle_def new_entry_def)
  then show ?case by (simp add: end_object_def sort_members_fold)
next
  case (8 fx first x xs st)
  then show ?case
    by (cases xs) (auto simp: write_all_append comma_join_Cons comma_rest_def)
next
  case (9 fx st)
  then show ?case by (intro exI [of _ "complete e"]) simp
next
  case (10 fx k v m st)
  define e' where "e' = e\<lparr>members := add_member fx (k, v) (members e), complete := True\<rparr>"
  define st1 where "st1 = st\<lparr>entries := e\<lparr>complete := True, next_key := quote_str k\<rparr> # es\<rparr>"
  have key: "begin_object_key st = Inr (st\<lparr>entries := e\<lparr>complete := False\<rparr> # es\<rparr>)"
    "end_object_key (emit_str k (st\<lparr>entries := e\<lparr>complete := False\<rparr> # es\<rparr>)) = Inr st1"
    using "10.prems"(2,3)
    by (simp_all add: begin_object_key_def end_object_key_def set_complete_def emit_str_text
        write_all_key idle_def st1_def)
  have val: "emit_value fx v st1 = Inr (write_all (jcs_text fx v) st1)"
    using "10.IH"(1) [OF key] "10.prems"(1) by simp
  have fin: "end_object_value (write_all (jcs_text fx v) st1) = Inr (st\<lparr>entries := e' # es\<rparr>)"
    using "10.prems"(3)
    by (simp add: st1_def write_all_def end_object_value_def utf16_key_def e'_def add_member_def idle_def)
  obtain b where "emit_members fx m (st\<lparr>entries := e' # es\<rparr>)
      = Inr (st\<lparr>entries := e'\<lparr>members := fold (add_member fx) m (members e'), complete := b\<rparr> # es\<rparr>)"
    using "10.IH"(2) [OF key val fin, of e' es] "10.prems"(1,3) by (auto simp: e'_def idle_def)
  then show ?case using key val fin by (auto simp: e'_def)
qed (simp_all add: write_bool_def emit_str_text write_all_append comma_rest_def)

text \<open>
  \<open>canonical_json\<close> calls \<open>.expect()\<close> on the serializer's result: on a value
  \<open>serde_json\<close> can hold the error branch is never taken.
\<close>

lemma jcs_to_string_total: "wf_json v \<Longrightarrow> jcs_to_string fx v = Inr (jcs_text fx v)"
  by (simp add: jcs_to_string_def emit_text write_all_def)

definition canonical_json :: "(64 word \<Rightarrow> string) \<Rightarrow> json \<Rightarrow> string" where
  "canonical_json fx v = (case jcs_to_string fx v of Inr s \<Rightarrow> s | Inl _ \<Rightarrow> [])"

lemma canonical_json_text [simp]: "wf_json v \<Longrightarrow> canonical_json fx v = jcs_text fx v"
  by (simp add: canonical_json_def jcs_to_string_total)

end
