(* ===== verification/Core_Types.thy ===== *)
theory Core_Types
  imports Jcs
begin

text \<open>
  \<open>types.rs\<close>: the closed enumerations with their wire names, the verdict and its
  constructors, and \<open>Verdict::validate\<close>, the gate every verdict that comes from
  outside the host crosses.
\<close>

section \<open>Specification versions\<close>

datatype spec_version = V0_1 | Draft

fun spec_name :: "spec_version \<Rightarrow> string" where
  "spec_name V0_1 = ''0.1''"
| "spec_name Draft = ''draft''"

fun spec_wire :: "spec_version \<Rightarrow> string" where
  "spec_wire V0_1 = ''agent-hooks/0.1''"
| "spec_wire Draft = ''agent-hooks/draft''"

definition spec_all :: "spec_version list" where
  "spec_all = [V0_1, Draft]"

definition spec_from_wire :: "string \<Rightarrow> spec_version option" where
  "spec_from_wire w = find (\<lambda>v. spec_wire v = w) spec_all"

definition spec_of_context :: "object \<Rightarrow> spec_version option" where
  "spec_of_context ctx = Option.bind (get_str ctx ''spec'') spec_from_wire"

fun reserves_host_warnings :: "spec_version \<Rightarrow> bool" where
  "reserves_host_warnings V0_1 = False"
| "reserves_host_warnings Draft = True"

fun has_failure_posture :: "spec_version \<Rightarrow> bool" where
  "has_failure_posture V0_1 = False"
| "has_failure_posture Draft = True"

definition DECLARATION_1_0 :: string where
  "DECLARATION_1_0 = ''agent-hooks-declaration/1.0''"

definition DECLARATION_VERSION :: string where
  "DECLARATION_VERSION = ''agent-hooks-declaration/1.1''"

fun declaration_versions :: "spec_version \<Rightarrow> string list" where
  "declaration_versions V0_1 = [DECLARATION_1_0]"
| "declaration_versions Draft = [DECLARATION_1_0, DECLARATION_VERSION]"

fun current_declaration_version :: "spec_version \<Rightarrow> string" where
  "current_declaration_version V0_1 = DECLARATION_1_0"
| "current_declaration_version Draft = DECLARATION_VERSION"

definition accepts_declaration :: "spec_version \<Rightarrow> string \<Rightarrow> bool" where
  "accepts_declaration v d \<longleftrightarrow> d \<in> set (declaration_versions v)"

definition JCS_SHA256 :: string where
  "JCS_SHA256 = ''jcs-sha256''"

section \<open>Interception points\<close>

datatype interception_point =
    AgentStartup | Input | PreModelCall | PostModelCall
  | PreToolCall | PostToolCall | Output | AgentShutdown

fun point_str :: "interception_point \<Rightarrow> string" where
  "point_str AgentStartup = ''agent_startup''"
| "point_str Input = ''input''"
| "point_str PreModelCall = ''pre_model_call''"
| "point_str PostModelCall = ''post_model_call''"
| "point_str PreToolCall = ''pre_tool_call''"
| "point_str PostToolCall = ''post_tool_call''"
| "point_str Output = ''output''"
| "point_str AgentShutdown = ''agent_shutdown''"

fun transform_permitted :: "interception_point \<Rightarrow> bool" where
  "transform_permitted AgentStartup = False"
| "transform_permitted AgentShutdown = False"
| "transform_permitted _ = True"

text \<open>\<open>derive(Ord)\<close>: declaration order, which is the lifecycle order.\<close>

fun point_rank :: "interception_point \<Rightarrow> nat" where
  "point_rank AgentStartup = 0"
| "point_rank Input = 1"
| "point_rank PreModelCall = 2"
| "point_rank PostModelCall = 3"
| "point_rank PreToolCall = 4"
| "point_rank PostToolCall = 5"
| "point_rank Output = 6"
| "point_rank AgentShutdown = 7"

lemma point_rank_inject: "point_rank p = point_rank q \<longleftrightarrow> p = q"
  by (cases p; cases q) simp_all

instantiation interception_point :: linorder
begin

definition less_eq_interception_point :: "interception_point \<Rightarrow> interception_point \<Rightarrow> bool" where
  "less_eq_interception_point p q \<longleftrightarrow> point_rank p \<le> point_rank q"

definition less_interception_point :: "interception_point \<Rightarrow> interception_point \<Rightarrow> bool" where
  "less_interception_point p q \<longleftrightarrow> point_rank p < point_rank q"

instance
  by standard (auto simp: less_eq_interception_point_def less_interception_point_def
      point_rank_inject simp flip: point_rank_inject)

end

section \<open>Decisions, modes, reserved reasons\<close>

datatype decision = Allow | Deny | Transform

fun decision_str :: "decision \<Rightarrow> string" where
  "decision_str Allow = ''allow''"
| "decision_str Deny = ''deny''"
| "decision_str Transform = ''transform''"

fun permits :: "decision \<Rightarrow> bool" where
  "permits Allow = True"
| "permits Transform = True"
| "permits Deny = False"

lemma permits_iff: "permits d \<longleftrightarrow> d \<noteq> Deny"
  by (cases d) simp_all

datatype enforcement_mode = Enforce | EvaluateOnly

datatype host_error =
    ContextInvalid | InterceptorFailed | InterceptorTimeout | VerdictInvalid
  | TransformInvalid | TransformTargetForbidden | TransformConflict
  | CompositionDisagreement | ApprovalResolverFailed | ApprovalUnresolved
  | ApprovalIdentityMismatch | AdapterUnsupported | StreamingUnsupported | NoInterceptor

fun host_error_str :: "host_error \<Rightarrow> string" where
  "host_error_str ContextInvalid = ''host_error:context_invalid''"
| "host_error_str InterceptorFailed = ''host_error:interceptor_failed''"
| "host_error_str InterceptorTimeout = ''host_error:interceptor_timeout''"
| "host_error_str VerdictInvalid = ''host_error:verdict_invalid''"
| "host_error_str TransformInvalid = ''host_error:transform_invalid''"
| "host_error_str TransformTargetForbidden = ''host_error:transform_target_forbidden''"
| "host_error_str TransformConflict = ''host_error:transform_conflict''"
| "host_error_str CompositionDisagreement = ''host_error:composition_disagreement''"
| "host_error_str ApprovalResolverFailed = ''host_error:approval_resolver_failed''"
| "host_error_str ApprovalUnresolved = ''host_error:approval_unresolved''"
| "host_error_str ApprovalIdentityMismatch = ''host_error:approval_identity_mismatch''"
| "host_error_str AdapterUnsupported = ''host_error:adapter_unsupported''"
| "host_error_str StreamingUnsupported = ''host_error:streaming_unsupported''"
| "host_error_str NoInterceptor = ''host_error:no_interceptor''"

fun is_control_failure :: "host_error \<Rightarrow> bool" where
  "is_control_failure InterceptorFailed = True"
| "is_control_failure InterceptorTimeout = True"
| "is_control_failure VerdictInvalid = True"
| "is_control_failure _ = False"

definition host_error_all :: "host_error list" where
  "host_error_all =
     [ContextInvalid, InterceptorFailed, InterceptorTimeout, VerdictInvalid,
      TransformInvalid, TransformTargetForbidden, TransformConflict,
      CompositionDisagreement, ApprovalResolverFailed, ApprovalUnresolved,
      ApprovalIdentityMismatch, AdapterUnsupported, StreamingUnsupported, NoInterceptor]"

definition host_error_from_wire :: "string \<Rightarrow> host_error option" where
  "host_error_from_wire s = find (\<lambda>e. host_error_str e = s) host_error_all"

definition CONTROL_FAILED :: string where
  "CONTROL_FAILED = ''host_warning:control_failed''"

datatype on_error = OE_Deny | OE_Continue

fun on_error_str :: "on_error \<Rightarrow> string" where
  "on_error_str OE_Deny = ''deny''"
| "on_error_str OE_Continue = ''continue''"

definition on_error_from_wire :: "string \<Rightarrow> on_error option" where
  "on_error_from_wire s =
     (if s = ''deny'' then Some OE_Deny else if s = ''continue'' then Some OE_Continue else None)"

section \<open>Verdicts\<close>

record transform =
  t_path :: string
  t_value :: json

record evidence =
  artefact :: "string option"
  verification_pointers :: "(string \<times> string) list"

record warning =
  w_reason :: "string option"
  w_message :: "string option"

record verdict =
  v_decision :: decision
  v_reason :: "string option"
  v_message :: "string option"
  v_warnings :: "warning list"
  v_approval :: "object option"
  v_transform :: "transform option"
  v_evidence :: "evidence option"
  v_labels :: "string list"

definition EVIDENCE_MAX_BYTES :: nat where
  "EVIDENCE_MAX_BYTES = 10240"

definition allow :: verdict where
  "allow = \<lparr>v_decision = Allow, v_reason = None, v_message = None, v_warnings = [],
     v_approval = None, v_transform = None, v_evidence = None, v_labels = []\<rparr>"

definition warn :: "string option \<Rightarrow> string option \<Rightarrow> verdict" where
  "warn r m = allow\<lparr>v_warnings := [\<lparr>w_reason = r, w_message = m\<rparr>]\<rparr>"

definition deny :: "string option \<Rightarrow> string option \<Rightarrow> verdict" where
  "deny r m = allow\<lparr>v_decision := Deny, v_reason := r, v_message := m\<rparr>"

definition escalate :: "string option \<Rightarrow> string option \<Rightarrow> verdict" where
  "escalate r m = allow\<lparr>v_decision := Deny, v_reason := r, v_message := m, v_approval := Some []\<rparr>"

definition host_error :: "host_error \<Rightarrow> string option \<Rightarrow> verdict" where
  "host_error e m = allow\<lparr>v_decision := Deny, v_reason := Some (host_error_str e), v_message := m\<rparr>"

definition host_error_liftable :: "host_error \<Rightarrow> string option \<Rightarrow> verdict" where
  "host_error_liftable e m = (host_error e m)\<lparr>v_approval := Some []\<rparr>"

definition control_failure_message :: "string \<Rightarrow> host_error \<Rightarrow> string" where
  "control_failure_message binding r = binding @ '': '' @ host_error_str r @ ''; host continued''"

definition control_failure_substitute :: "string \<Rightarrow> host_error \<Rightarrow> verdict" where
  "control_failure_substitute binding r =
     warn (Some CONTROL_FAILED) (Some (control_failure_message binding r))"

definition is_control_failure_substitute :: "verdict \<Rightarrow> bool" where
  "is_control_failure_substitute v \<longleftrightarrow>
     v_decision v = Allow \<and> v_reason v = None \<and> v_message v = None \<and> v_approval v = None
     \<and> v_transform v = None \<and> v_evidence v = None \<and> v_labels v = []
     \<and> (case v_warnings v of [w] \<Rightarrow> w_reason w = Some CONTROL_FAILED | _ \<Rightarrow> False)"

definition is_liftable :: "verdict \<Rightarrow> bool" where
  "is_liftable v \<longleftrightarrow> v_decision v = Deny \<and> v_approval v \<noteq> None"

lemmas verdict_makers = allow_def warn_def deny_def escalate_def host_error_def
  host_error_liftable_def control_failure_substitute_def

text \<open>\<open>serde_json::to_value\<close> on the evidence: absent members are skipped.\<close>

definition evidence_json :: "evidence \<Rightarrow> json" where
  "evidence_json e =
     JObj ((case artefact e of None \<Rightarrow> [] | Some a \<Rightarrow> [(''artefact'', JStr a)])
       @ (if verification_pointers e = [] then []
          else [(''verification_pointers'',
                 JObj (map (\<lambda>(k, v). (k, JStr v)) (verification_pointers e)))]))"

section \<open>The verdict gate\<close>

definition host_reserved :: "string \<Rightarrow> bool" where
  "host_reserved s \<longleftrightarrow> starts_with ''host_error:'' s"

definition warning_reserved :: "spec_version \<Rightarrow> string \<Rightarrow> bool" where
  "warning_reserved spec s \<longleftrightarrow>
     host_reserved s \<or> (reserves_host_warnings spec \<and> starts_with ''host_warning:'' s)"

definition opt_holds :: "('a \<Rightarrow> bool) \<Rightarrow> 'a option \<Rightarrow> bool" where
  "opt_holds P x = (case x of None \<Rightarrow> False | Some a \<Rightarrow> P a)"

lemma opt_holds_simps [simp]: "\<not> opt_holds P None" "opt_holds P (Some a) = P a"
  by (simp_all add: opt_holds_def)

definition evidence_len :: "(64 word \<Rightarrow> string) \<Rightarrow> evidence \<Rightarrow> nat" where
  "evidence_len fx e = length (canonical_json fx (evidence_json e))"

definition validate :: "(64 word \<Rightarrow> string) \<Rightarrow> spec_version \<Rightarrow> verdict \<Rightarrow> host_error + unit" where
  "validate fx spec v =
     (if opt_holds host_reserved (v_reason v) then Inl VerdictInvalid
      else if list_ex (\<lambda>w. opt_holds (warning_reserved spec) (w_reason w)) (v_warnings v)
        then Inl VerdictInvalid
      else if v_approval v \<noteq> None \<and> v_decision v \<noteq> Deny then Inl VerdictInvalid
      else if opt_holds (\<lambda>e. evidence_len fx e > EVIDENCE_MAX_BYTES) (v_evidence v)
        then Inl VerdictInvalid
      else if v_decision v = Transform \<and> v_transform v = None then Inl VerdictInvalid
      else if v_decision v \<noteq> Transform \<and> v_transform v \<noteq> None then Inl VerdictInvalid
      else Inr ())"

text \<open>What the gate promises, member by member.\<close>

definition gate_ok :: "(64 word \<Rightarrow> string) \<Rightarrow> spec_version \<Rightarrow> verdict \<Rightarrow> bool" where
  "gate_ok fx spec v \<longleftrightarrow>
     (\<forall>r. v_reason v = Some r \<longrightarrow> \<not> host_reserved r)
     \<and> (\<forall>w\<in>set (v_warnings v). \<forall>r. w_reason w = Some r \<longrightarrow> \<not> warning_reserved spec r)
     \<and> (v_approval v \<noteq> None \<longrightarrow> v_decision v = Deny)
     \<and> (\<forall>e. v_evidence v = Some e \<longrightarrow> evidence_len fx e \<le> EVIDENCE_MAX_BYTES)
     \<and> (v_decision v = Transform \<longleftrightarrow> v_transform v \<noteq> None)"

lemma validate_iff: "validate fx spec v = Inr () \<longleftrightarrow> gate_ok fx spec v"
  unfolding validate_def gate_ok_def opt_holds_def list_ex_iff
  by (auto split: option.splits if_splits simp: not_less)

lemma validate_error: "validate fx spec v = Inl e \<Longrightarrow> e = VerdictInvalid"
  by (auto simp: validate_def split: if_splits)

lemma host_error_str_reserved [simp]: "host_reserved (host_error_str e)"
  by (cases e) (simp_all add: host_reserved_def starts_with_def)

lemma point_str_inject: "point_str p = point_str q \<longleftrightarrow> p = q"
  by (cases p; cases q) simp_all

lemma host_error_from_wire_str: "host_error_from_wire (host_error_str e) = Some e"
  by (cases e) (simp_all add: host_error_from_wire_def host_error_all_def)

lemma host_error_from_wire_sound: "host_error_from_wire s = Some e \<Longrightarrow> host_error_str e = s"
  by (auto simp: host_error_from_wire_def find_Some_iff)

lemma spec_from_wire_str [simp]: "spec_from_wire (spec_wire v) = Some v"
  by (cases v) (simp_all add: spec_from_wire_def spec_all_def)

lemma on_error_from_wire_str: "on_error_from_wire (on_error_str e) = Some e"
  by (cases e) (simp_all add: on_error_from_wire_def)

end
