(* ===== verification/Canonical.thy ===== *)
theory Canonical
  imports Core_Types
begin

text \<open>
  \<open>canonical.rs\<close>: the \<open>jcs-sha256\<close> identity provider. Depth and integer-domain
  guards, the closed projection of a context, the envelope check that runs at the top of
  every emission, and the identity itself. \<open>externs\<close> holds the two third-party
  functions below it: \<open>ryu_js\<close>'s rendering of a finite double and \<open>sha2\<close>'s
  digest.
\<close>

record externs =
  ext_f64 :: "64 word \<Rightarrow> string"
  ext_sha256 :: "string \<Rightarrow> string"

type_synonym failure = "host_error \<times> string"

definition MAX_SAFE_INTEGER :: nat where
  "MAX_SAFE_INTEGER = 9007199254740991"

definition MAX_DEPTH :: nat where
  "MAX_DEPTH = 128"

section \<open>Nesting depth\<close>

definition children :: "json \<Rightarrow> json list" where
  "children v = (case v of JArr a \<Rightarrow> a | JObj m \<Rightarrow> map snd m | _ \<Rightarrow> [])"

lemma children_size: "sum_list (map (\<lambda>c. Suc (size c)) (children v)) < Suc (size v)"
proof (cases v)
  case (JArr a)
  have "sum_list (map (\<lambda>c. Suc (size c)) a) = size_list size a" by (induction a) auto
  with JArr show ?thesis by (simp add: children_def)
next
  case (JObj m)
  have "sum_list (map ((\<lambda>c. Suc (size c)) \<circ> snd) m) \<le> size_list (size_prod (\<lambda>x. 0) size) m"
    by (induction m) auto
  with JObj show ?thesis by (simp add: children_def)
qed (simp_all add: children_def)

definition depth_failure :: failure where
  "depth_failure = (ContextInvalid,
     ''context nests deeper than '' @ dec MAX_DEPTH @ '' levels, see spec '' @ sect @ ''12.3'')"

text \<open>The code's work list; its last element is the head here.\<close>

function depth_loop :: "(json \<times> nat) list \<Rightarrow> failure + unit" where
  "depth_loop [] = Inr ()"
| "depth_loop ((v, d) # stack) =
     (if d > MAX_DEPTH then Inl depth_failure
      else depth_loop (rev (map (\<lambda>c. (c, d + 1)) (children v)) @ stack))"
  by pat_completeness auto
termination
proof (relation "measure (\<lambda>st. sum_list (map (\<lambda>(v, d). Suc (size v)) st))", simp_all)
  fix v :: json and d :: nat and stack :: "(json \<times> nat) list"
  have "sum_list (map (\<lambda>(v, d). Suc (size v)) (rev (map (\<lambda>c. (c, Suc d)) (children v))))
      = sum_list (map (\<lambda>c. Suc (size c)) (children v))"
    by (simp add: rev_map comp_def) (simp add: sum_list_rev flip: rev_map)
  with children_size [of v]
  show "sum_list (map (\<lambda>(v, d). Suc (size v)) (rev (map (\<lambda>c. (c, Suc d)) (children v)))) < Suc (size v)"
    by simp
qed

declare depth_loop.simps(2) [simp del]

definition check_depth :: "json \<Rightarrow> failure + unit" where
  "check_depth v = depth_loop [(v, 1)]"

text \<open>The depth the loop bounds.\<close>

fun json_depth :: "json \<Rightarrow> nat" where
  "json_depth (JArr a) = Suc (foldr max (map json_depth a) 0)"
| "json_depth (JObj m) = Suc (foldr max (map (\<lambda>(k, v). json_depth v) m) 0)"
| "json_depth _ = 1"

lemma foldr_max_le: "foldr max xs (0::nat) \<le> n \<longleftrightarrow> (\<forall>x\<in>set xs. x \<le> n)"
  by (induction xs) auto

lemma json_depth_pos: "1 \<le> json_depth v"
  by (cases v) auto

lemma json_depth_children:
  "json_depth v \<le> Suc n \<longleftrightarrow> (\<forall>c\<in>set (children v). json_depth c \<le> n)"
proof (cases v)
  case (JObj m)
  have "(\<forall>x\<in>set (map (\<lambda>(k, v). json_depth v) m). x \<le> n) \<longleftrightarrow> (\<forall>c\<in>set (map snd m). json_depth c \<le> n)"
    by auto
  with JObj show ?thesis by (simp add: foldr_max_le children_def del: set_map list.set_map)
qed (simp_all add: foldr_max_le children_def)

lemma depth_loop_iff:
  "depth_loop st = Inr () \<longleftrightarrow> (\<forall>(v, d)\<in>set st. d + json_depth v \<le> Suc MAX_DEPTH)"
proof (induction st rule: depth_loop.induct)
  case (2 v d stack)
  show ?case
  proof (cases "d > MAX_DEPTH")
    case True
    with json_depth_pos [of v] show ?thesis by (auto simp: depth_loop.simps(2))
  next
    case False
    define n where "n = MAX_DEPTH - d"
    with False have n: "MAX_DEPTH = d + n" by simp
    have split: "(d + json_depth v \<le> Suc MAX_DEPTH) = (\<forall>c\<in>set (children v). Suc d + json_depth c \<le> Suc MAX_DEPTH)"
      using json_depth_children [of v n] by (simp add: n)
    have "depth_loop ((v, d) # stack) = depth_loop (rev (map (\<lambda>c. (c, d + 1)) (children v)) @ stack)"
      using False by (simp add: depth_loop.simps(2))
    with "2.IH" [OF False] split show ?thesis by (simp add: ball_Un)
  qed
qed simp

lemma check_depth_iff: "check_depth v = Inr () \<longleftrightarrow> json_depth v \<le> MAX_DEPTH"
  by (simp add: check_depth_def depth_loop_iff)

lemma depth_loop_error: "depth_loop st = Inl e \<Longrightarrow> e = depth_failure"
  by (induction st rule: depth_loop.induct) (auto simp: depth_loop.simps(2) split: if_splits)

section \<open>The integer domain\<close>

text \<open>The in-memory half of the domain check.\<close>

definition out_of_range :: "number \<Rightarrow> bool" where
  "out_of_range n =
     (case (number_as_u64 n, number_as_i64 n) of
        (Some u, _) \<Rightarrow> u > MAX_SAFE_INTEGER
      | (None, Some i) \<Rightarrow> nat \<bar>i\<bar> > MAX_SAFE_INTEGER
      | _ \<Rightarrow> False)"

definition range_failure :: "string \<Rightarrow> failure" where
  "range_failure path = (ContextInvalid,
     path @ '': integer exceeds 2^53; string-encode 64-bit identifiers, see spec '' @ sect @ ''4.4'')"

fun check_i_json :: "json \<Rightarrow> string \<Rightarrow> failure + unit"
  and check_i_elems :: "json list \<Rightarrow> nat \<Rightarrow> string \<Rightarrow> failure + unit"
  and check_i_members :: "(string \<times> json) list \<Rightarrow> string \<Rightarrow> failure + unit"
where
  "check_i_json (JNum n) path = (if out_of_range n then Inl (range_failure path) else Inr ())"
| "check_i_json (JArr a) path = check_i_elems a 0 path"
| "check_i_json (JObj m) path = check_i_members m path"
| "check_i_json _ path = Inr ()"
| "check_i_elems [] i path = Inr ()"
| "check_i_elems (x # xs) i path =
     res_bind (check_i_json x (path @ ''['' @ dec i @ '']'')) (\<lambda>_. check_i_elems xs (i + 1) path)"
| "check_i_members [] path = Inr ()"
| "check_i_members ((k, x) # m) path =
     res_bind (check_i_json x (path @ ''.'' @ k)) (\<lambda>_. check_i_members m path)"

fun numbers :: "json \<Rightarrow> number list" where
  "numbers (JNum n) = [n]"
| "numbers (JArr a) = concat (map numbers a)"
| "numbers (JObj m) = concat (map (\<lambda>(k, v). numbers v) m)"
| "numbers _ = []"

lemma check_i_json_iff:
  "check_i_json v path = Inr () \<longleftrightarrow> (\<forall>n\<in>set (numbers v). \<not> out_of_range n)"
  "check_i_elems a i path = Inr () \<longleftrightarrow> (\<forall>v\<in>set a. \<forall>n\<in>set (numbers v). \<not> out_of_range n)"
  "check_i_members m path = Inr () \<longleftrightarrow> (\<forall>(k, v)\<in>set m. \<forall>n\<in>set (numbers v). \<not> out_of_range n)"
  by (induction v path and a i path and m path
      rule: check_i_json_check_i_elems_check_i_members.induct)
     (simp_all add: res_bind_Inr_iff split_beta cong: conj_cong)

text \<open>The raw-text half: tokens in integer syntax, compared digit by digit.\<close>

fun skip_string :: "string \<Rightarrow> string" where
  "skip_string [] = []"
| "skip_string (c # r) =
     (if c = CHR 0x5C then (case r of [] \<Rightarrow> [] | _ # r' \<Rightarrow> skip_string r')
      else if c = CHR 0x22 then r
      else skip_string r)"

definition number_char :: "char \<Rightarrow> bool" where
  "number_char c \<longleftrightarrow> is_digit c \<or> c \<in> {CHR ''-'', CHR ''+'', CHR ''.'', CHR ''e'', CHR ''E''}"

definition LIMIT :: string where
  "LIMIT = ''9007199254740991''"

definition token_over :: "string \<Rightarrow> bool" where
  "token_over token =
     (let ds = (case token of c # r \<Rightarrow> if c = CHR ''-'' then r else token | [] \<Rightarrow> token)
      in length ds > length LIMIT \<or> (length ds = length LIMIT \<and> LIMIT < ds))"

definition integer_syntax :: "string \<Rightarrow> bool" where
  "integer_syntax token \<longleftrightarrow> list_all (\<lambda>c. c \<notin> {CHR ''.'', CHR ''e'', CHR ''E''}) token"

definition raw_failure :: failure where
  "raw_failure = (ContextInvalid,
     ''integer token exceeds 2^53; string-encode 64-bit identifiers, see spec '' @ sect @ ''4.4'')"

lemma skip_string_length: "length (skip_string s) \<le> length s"
proof (induction s rule: skip_string.induct)
  case (2 c r)
  show ?case
  proof (cases "c = CHR 0x5C")
    case True
    with "2.IH"(1) show ?thesis by (cases r) (simp_all add: le_SucI)
  next
    case False
    with "2.IH"(2) show ?thesis by (simp add: le_SucI)
  qed
qed simp

lemma number_char_start: "is_digit c \<Longrightarrow> number_char c" "number_char (CHR ''-'')"
  by (simp_all add: number_char_def)

function scan_raw_integer_domain :: "string \<Rightarrow> failure + unit" where
  "scan_raw_integer_domain [] = Inr ()"
| "scan_raw_integer_domain (c # r) =
     (if c = CHR 0x22 then scan_raw_integer_domain (skip_string r)
      else if c = CHR ''-'' \<or> is_digit c then
        (let token = takeWhile number_char (c # r) in
         if integer_syntax token \<and> token_over token then Inl raw_failure
         else scan_raw_integer_domain (dropWhile number_char (c # r)))
      else scan_raw_integer_domain r)"
  by pat_completeness auto
termination
proof (relation "measure length")
  fix c :: char and r :: string
  show "(skip_string r, c # r) \<in> measure length"
    using skip_string_length [of r] by simp
  show "(r, c # r) \<in> measure length" by simp
  assume "c = CHR ''-'' \<or> is_digit c"
  then have "number_char c" using number_char_start by blast
  then show "(dropWhile number_char (c # r), c # r) \<in> measure length"
    using length_dropWhile_le [of number_char r] by simp
qed simp

subsection \<open>Digit-by-digit comparison is numeric\<close>

lemma undec_Cons: "undec (c # s) = digit_val c * 10 ^ length s + undec s"
proof (induction s rule: rev_induct)
  case (snoc d s)
  then show ?case by (simp add: undec_snoc flip: append_Cons)
qed (simp add: undec_def)

lemma undec_bound: "list_all is_digit s \<Longrightarrow> undec s < 10 ^ length s"
proof (induction s)
  case (Cons c s)
  then have "is_digit c" "undec s < 10 ^ length s" by simp_all
  then have "digit_val c \<le> 9" unfolding digit_val_def is_digit_def by linarith
  then have "digit_val c * 10 ^ length s \<le> 9 * 10 ^ length s" by (intro mult_right_mono) simp_all
  from add_le_less_mono [OF this \<open>undec s < 10 ^ length s\<close>] show ?case by (simp add: undec_Cons)
qed (simp add: undec_def)

lemma digit_less_iff:
  "is_digit c \<Longrightarrow> is_digit d \<Longrightarrow> c < d \<longleftrightarrow> digit_val c < digit_val d"
  by (auto simp: less_char_def is_digit_def digit_val_def byte_def)

lemma digit_eq_iff: "is_digit c \<Longrightarrow> is_digit d \<Longrightarrow> c = d \<longleftrightarrow> digit_val c = digit_val d"
  by (auto simp: is_digit_def digit_val_def simp flip: byte_inject)

lemma undec_less_iff:
  "length s = length t \<Longrightarrow> list_all is_digit s \<Longrightarrow> list_all is_digit t \<Longrightarrow> s < t \<longleftrightarrow> undec s < undec t"
proof (induction s t rule: list_induct2)
  case (Cons c s d t)
  define x y where "x = digit_val c" and "y = digit_val d"
  let ?B = "(10::nat) ^ length s"
  have b: "undec s < ?B" "undec t < ?B"
    using Cons undec_bound [of s] undec_bound [of t] by simp_all
  have ge: "x * ?B + undec s < y * ?B + undec t" if "x < y" for x y :: nat
  proof -
    have "(x + 1) * ?B \<le> y * ?B" using that by (intro mult_right_mono) simp_all
    with b show ?thesis by simp
  qed
  have le: "\<not> x * ?B + undec s < y * ?B + undec t" if "y < x" for x y :: nat
  proof -
    have "(y + 1) * ?B \<le> x * ?B" using that by (intro mult_right_mono) simp_all
    with b show ?thesis by simp
  qed
  have "c # s < d # t \<longleftrightarrow> x < y \<or> (x = y \<and> undec s < undec t)"
    using Cons by (simp add: digit_less_iff digit_eq_iff x_def y_def)
  also have "\<dots> \<longleftrightarrow> x * ?B + undec s < y * ?B + undec t"
    using ge [of x y] le [of y x] by (cases x y rule: linorder_cases) auto
  finally show ?case using Cons.hyps by (simp add: undec_Cons x_def y_def)
qed simp

lemma dec_digits_all [simp]: "list_all is_digit (dec n)"
  by (simp add: list_all_iff dec_digits)

lemma length_dec_le: "0 < k \<Longrightarrow> length (dec n) \<le> k \<longleftrightarrow> n < 10 ^ k"
proof (induction n arbitrary: k rule: dec.induct)
  case (1 n)
  show ?case
  proof (cases "n < 10")
    case True
    have "(10::nat) ^ 1 \<le> 10 ^ k" using "1.prems" by (intro power_increasing) simp_all
    with True "1.prems" show ?thesis by (subst dec.simps) simp
  next
    case False
    then have len: "length (dec n) = Suc (length (dec (n div 10)))" by (subst dec.simps) simp
    show ?thesis
    proof (cases k)
      case (Suc j)
      show ?thesis
      proof (cases "j = 0")
        case True
        with False Suc len show ?thesis by simp
      next
        case j: False
        have "n div 10 < 10 ^ j \<longleftrightarrow> n < 10 ^ j * 10" by (rule div_less_iff_less_mult) simp
        with "1.IH" [OF False, of j] j Suc len show ?thesis by (simp add: mult.commute)
      qed
    qed (use "1.prems" in simp)
  qed
qed

lemma LIMIT_facts: "length LIMIT = 16" "undec LIMIT = MAX_SAFE_INTEGER" "list_all is_digit LIMIT"
  by (simp_all add: LIMIT_def MAX_SAFE_INTEGER_def undec_def digit_val_def is_digit_def byte_def)

lemma dec_no_sign: "case dec n of c # r \<Rightarrow> c \<noteq> CHR ''-'' | [] \<Rightarrow> True"
proof (cases "dec n")
  case (Cons c r)
  then have "is_digit c" using dec_digits [of c n] by simp
  then have "c \<noteq> CHR ''-''" by (auto simp: is_digit_def byte_def)
  with Cons show ?thesis by simp
qed simp

lemma digits_over:
  assumes "ds = dec n"
  shows "length ds > length LIMIT \<or> (length ds = length LIMIT \<and> LIMIT < ds) \<longleftrightarrow> n > MAX_SAFE_INTEGER"
proof -
  have "length ds \<le> 16 \<longleftrightarrow> n < 10 ^ 16" "length ds \<le> 15 \<longleftrightarrow> n < 10 ^ 15"
    using assms length_dec_le [of 16 n] length_dec_le [of 15 n] by simp_all
  moreover have "length ds = 16 \<Longrightarrow> LIMIT < ds \<longleftrightarrow> MAX_SAFE_INTEGER < n"
    using undec_less_iff [of LIMIT ds] LIMIT_facts assms by simp
  ultimately show ?thesis
    using LIMIT_facts(1) by (auto simp: MAX_SAFE_INTEGER_def not_le)
qed

lemma token_over_dec: "token_over (dec n) \<longleftrightarrow> n > MAX_SAFE_INTEGER"
proof (cases "dec n")
  case (Cons c r)
  then have "c \<noteq> CHR ''-''" using dec_no_sign [of n] by simp
  with Cons show ?thesis using digits_over [OF refl, of n] by (simp add: token_over_def)
qed simp

lemma token_over_neg: "token_over (CHR ''-'' # dec n) \<longleftrightarrow> n > MAX_SAFE_INTEGER"
  using digits_over [OF refl, of n] by (simp add: token_over_def)

section \<open>The closed projection\<close>

text \<open>A whitelist entry: the member, and the sub-members kept (\<open>None\<close>: the whole value).\<close>

type_synonym keep = "string \<times> string list option"

definition REQUIRED :: "keep list" where
  "REQUIRED =
     [(''spec'', None), (''interception_point'', None), (''timestamp'', None), (''sequence'', None),
      (''agent'', Some [''id'', ''framework'']), (''session'', Some [''id'']), (''target'', None)]"

fun conditional_point :: "interception_point \<Rightarrow> keep list" where
  "conditional_point AgentStartup = [(''agent_init'', Some [''tools_registered''])]"
| "conditional_point Input = [(''input'', Some [''content'', ''role''])]"
| "conditional_point PreModelCall = [(''model'', Some [''id'']), (''messages'', None)]"
| "conditional_point PostModelCall =
     [(''model'', Some [''id'']), (''response'', Some [''content'', ''tool_calls'', ''finish_reason''])]"
| "conditional_point PreToolCall = [(''tool_call'', Some [''id'', ''name'', ''args''])]"
| "conditional_point PostToolCall =
     [(''tool_call'', Some [''id'', ''name'', ''args'']), (''tool_result'', Some [''value'', ''is_error''])]"
| "conditional_point Output = [(''output'', Some [''content''])]"
| "conditional_point AgentShutdown = [(''summary'', Some [''reason''])]"

definition POINTS :: "interception_point list" where
  "POINTS = [AgentStartup, Input, PreModelCall, PostModelCall,
     PreToolCall, PostToolCall, Output, AgentShutdown]"

text \<open>\<open>FromStr for InterceptionPoint\<close>; the wire names are \<open>point_str\<close>.\<close>

definition point_from_str :: "string \<Rightarrow> interception_point option" where
  "point_from_str s = find (\<lambda>p. point_str p = s) POINTS"

definition conditional_for :: "string \<Rightarrow> keep list" where
  "conditional_for ip = (case point_from_str ip of None \<Rightarrow> [] | Some p \<Rightarrow> conditional_point p)"

definition filter_obj :: "json \<Rightarrow> string list \<Rightarrow> json" where
  "filter_obj v ks = (case v of JObj m \<Rightarrow> JObj (filter (\<lambda>(k, _). k \<in> set ks) m) | _ \<Rightarrow> v)"

definition interception_point_str :: "object \<Rightarrow> failure + string" where
  "interception_point_str ctx =
     (case get_str ctx ''interception_point'' of
        Some ip \<Rightarrow>
          if point_from_str ip \<noteq> None then Inr ip
          else Inl (ContextInvalid,
            ''$.interception_point: not one of the eight closed values (see spec '' @ sect @ ''3)'')
      | None \<Rightarrow> Inl (ContextInvalid,
            ''$.interception_point: missing or not a string (see spec '' @ sect @ ''4.1)''))"

definition project_value :: "string list option \<Rightarrow> json \<Rightarrow> json" where
  "project_value sub v = (case sub of Some ks \<Rightarrow> filter_obj v ks | None \<Rightarrow> v)"

definition project_step :: "object \<Rightarrow> keep \<Rightarrow> object \<Rightarrow> object" where
  "project_step ctx ks out =
     (case obj_get ctx (fst ks) of
        None \<Rightarrow> out
      | Some v \<Rightarrow> obj_insert (fst ks) (project_value (snd ks) v) out)"

definition project_preimage :: "object \<Rightarrow> failure + json" where
  "project_preimage ctx =
     res_bind (interception_point_str ctx) (\<lambda>ip.
       Inr (JObj (fold (project_step ctx) (REQUIRED @ conditional_for ip) [])))"

section \<open>The envelope check\<close>

definition env_err :: "string \<Rightarrow> string \<Rightarrow> failure" where
  "env_err path want = (ContextInvalid,
     ''$.'' @ path @ '': missing or not '' @ want @ '' (see spec '' @ sect @ ''4)'')"

definition framework_char :: "char \<Rightarrow> bool" where
  "framework_char b \<longleftrightarrow> is_lower b \<or> is_digit b \<or> b = CHR ''_'' \<or> b = CHR ''-''"

definition non_empty_str :: "object \<Rightarrow> string \<Rightarrow> bool" where
  "non_empty_str m k \<longleftrightarrow> opt_holds (\<lambda>v. v \<noteq> []) (get_str m k)"

definition framework_ok :: "object \<Rightarrow> bool" where
  "framework_ok a \<longleftrightarrow> opt_holds (\<lambda>v. v \<noteq> [] \<and> list_all framework_char v) (get_str a ''framework'')"

definition session_ok :: "object \<Rightarrow> bool" where
  "session_ok ctx \<longleftrightarrow> opt_holds (\<lambda>o'. non_empty_str o' ''id'') (get_object ctx ''session'')"

definition check_conditional :: "object \<Rightarrow> keep \<Rightarrow> failure + unit" where
  "check_conditional ctx ks =
     (case obj_get ctx (fst ks) of
        None \<Rightarrow> Inl (env_err (fst ks) ''present at this interception point'')
      | Some v \<Rightarrow>
          (case snd ks of
             None \<Rightarrow> Inr ()
           | Some keep \<Rightarrow>
               (case as_object v of
                  None \<Rightarrow> Inl (env_err (fst ks) ''an object'')
                | Some obj \<Rightarrow>
                    check_each (\<lambda>k.
                      if contains_key obj k then Inr ()
                      else Inl (ContextInvalid,
                        ''$.'' @ fst ks @ ''.'' @ k @ '': missing (see spec '' @ sect @ ''4.2)'')) keep)))"

definition check_agent :: "object \<Rightarrow> failure + unit" where
  "check_agent ctx =
     (case get_object ctx ''agent'' of
        None \<Rightarrow> Inl (env_err ''agent'' ''an object'')
      | Some a \<Rightarrow>
          if \<not> non_empty_str a ''id'' then Inl (env_err ''agent.id'' ''a non-empty string'')
          else if \<not> framework_ok a then Inl (env_err ''agent.framework'' ''a ^[a-z0-9_-]+$ string'')
          else Inr ())"

definition validate_envelope :: "object \<Rightarrow> failure + unit" where
  "validate_envelope ctx =
     (if spec_of_context ctx = None
      then Inl (env_err ''spec'' ''a supported wire string (agent-hooks/0.1 or agent-hooks/draft)'')
      else
        res_bind (interception_point_str ctx) (\<lambda>ip.
          if get_str ctx ''timestamp'' = None then Inl (env_err ''timestamp'' ''a string'')
          else if \<not> opt_holds (\<lambda>n. n \<ge> 0) (get_i64 ctx ''sequence'')
            then Inl (env_err ''sequence'' ''an integer >= 0'')
          else
            res_bind (check_agent ctx) (\<lambda>_.
              if \<not> session_ok ctx then Inl (env_err ''session.id'' ''a non-empty string'')
              else if obj_get ctx ''target'' = None then Inl (env_err ''target'' ''present'')
              else check_each (check_conditional ctx) (conditional_for ip))))"

section \<open>The identity\<close>

definition hex_byte :: "char \<Rightarrow> string" where
  "hex_byte b = [hex_digit (byte b div 16), hex_digit (byte b mod 16)]"

definition context_identity :: "externs \<Rightarrow> object \<Rightarrow> failure + string" where
  "context_identity x ctx =
     res_bind (validate_envelope ctx) (\<lambda>_.
     res_bind (project_preimage ctx) (\<lambda>preimage.
     res_bind (check_depth preimage) (\<lambda>_.
     res_bind (check_i_json preimage ''$'') (\<lambda>_.
       Inr (''sha256:'' @ concat (map hex_byte (ext_sha256 x (canonical_json (ext_f64 x) preimage))))))))"

section \<open>What the identity is bound to\<close>

lemma point_from_str_str [simp]: "point_from_str (point_str p) = Some p"
  by (cases p) (simp_all add: point_from_str_def POINTS_def)

lemma point_from_str_Some: "point_from_str s = Some p \<longleftrightarrow> s = point_str p"
  using point_from_str_str by (auto simp: point_from_str_def find_Some_iff simp del: point_from_str_str)

lemma interception_point_str_Inr:
  "interception_point_str ctx = Inr ip \<longleftrightarrow>
     (\<exists>p. ip = point_str p \<and> get_str ctx ''interception_point'' = Some ip)"
  by (auto simp: interception_point_str_def point_from_str_Some split: option.splits)

lemma project_value_None [simp]: "project_value None = (\<lambda>v. v)"
  by (simp add: project_value_def fun_eq_iff)

text \<open>Two contexts the provider cannot tell apart: equal on every whitelisted (sub-)member.\<close>

definition same_projection :: "object \<Rightarrow> object \<Rightarrow> bool" where
  "same_projection c d \<longleftrightarrow>
     (\<forall>ks \<in> set REQUIRED \<union> (\<Union>p. set (conditional_point p)).
        map_option (project_value (snd ks)) (obj_get c (fst ks))
          = map_option (project_value (snd ks)) (obj_get d (fst ks)))"

lemma same_projectionD:
  assumes "same_projection c d" "ks \<in> set REQUIRED \<union> set (conditional_point p)"
  shows "map_option (project_value (snd ks)) (obj_get c (fst ks))
    = map_option (project_value (snd ks)) (obj_get d (fst ks))"
  using assms unfolding same_projection_def by blast

lemma project_step_cong:
  "map_option (project_value (snd ks)) (obj_get c (fst ks))
     = map_option (project_value (snd ks)) (obj_get d (fst ks))
   \<Longrightarrow> project_step c ks = project_step d ks"
  by (cases "obj_get c (fst ks)"; cases "obj_get d (fst ks)") (simp_all add: project_step_def fun_eq_iff)

lemma project_preimage_cong:
  assumes s: "same_projection c d"
  shows "project_preimage c = project_preimage d"
proof -
  have "obj_get c ''interception_point'' = obj_get d ''interception_point''"
    using same_projectionD [OF s, of "(''interception_point'', None)"]
    by (simp add: REQUIRED_def option.map_ident)
  then have ip: "interception_point_str c = interception_point_str d"
    by (simp add: interception_point_str_def get_str_def)
  show ?thesis
  proof (cases "interception_point_str c")
    case (Inr ip)
    then obtain p where "ip = point_str p" by (auto simp: interception_point_str_Inr)
    then have "conditional_for ip = conditional_point p" by (simp add: conditional_for_def)
    then have "fold (project_step c) (REQUIRED @ conditional_for ip) []
        = fold (project_step d) (REQUIRED @ conditional_for ip) []"
      by (intro fold_cong refl project_step_cong same_projectionD [OF s, of _ p]) simp
    with ip [symmetric] Inr show ?thesis by (simp add: project_preimage_def)
  qed (use ip in \<open>simp add: project_preimage_def\<close>)
qed

subsection \<open>The projection, member by member\<close>

lemma obj_get_project_fold:
  assumes "distinct (map fst ks)"
  shows "obj_get (fold (project_step ctx) ks out) k =
    (if k \<in> fst ` set ks \<and> obj_get ctx k \<noteq> None
     then map_option (project_value (the (map_of ks k))) (obj_get ctx k) else obj_get out k)"
  using assms
proof (induction ks arbitrary: out)
  case (Cons p ks)
  obtain key sub where p: "p = (key, sub)" by (cases p)
  have "key \<notin> fst ` set ks" using Cons.prems p by force
  with Cons p show ?case
    by (cases "obj_get ctx key") (auto simp: project_step_def)
qed simp

lemma wf_project_value: "wf_json v \<Longrightarrow> wf_json (project_value sub v)"
proof (cases sub)
  case (Some ks)
  have "sorted_keys m \<Longrightarrow> sorted_keys (filter P m)" for m :: object and P
    unfolding sorted_keys_def by (induction m) auto
  with Some show "wf_json v \<Longrightarrow> ?thesis"
    by (cases v) (auto simp: project_value_def filter_obj_def list_all_iff split_beta)
qed simp

lemma wf_project_fold:
  "wf_object ctx \<Longrightarrow> wf_object out \<Longrightarrow> wf_object (fold (project_step ctx) ks out)"
proof (induction ks arbitrary: out)
  case (Cons p ks)
  have "wf_object (project_step ctx p out)"
    using Cons.prems
    by (cases "obj_get ctx (fst p)")
       (simp_all add: project_step_def wf_object_insert wf_project_value wf_object_get)
  with Cons show ?case by simp
qed simp

lemma wf_project_preimage: "wf_object ctx \<Longrightarrow> project_preimage ctx = Inr v \<Longrightarrow> wf_json v"
proof -
  assume "wf_object ctx" "project_preimage ctx = Inr v"
  then obtain ks where "v = JObj (fold (project_step ctx) ks [])"
    by (auto simp: project_preimage_def res_bind_Inr_iff simp del: fold_append)
  then show ?thesis
    using wf_project_fold [OF \<open>wf_object ctx\<close> wf_object_Nil, of ks] by (simp only: wf_object_def)
qed

lemma context_identity_prefix: "context_identity x ctx = Inr i \<Longrightarrow> starts_with ''sha256:'' i"
  by (auto simp: context_identity_def res_bind_Inr_iff starts_with_def)

lemma context_identity_envelope: "context_identity x ctx = Inr i \<Longrightarrow> validate_envelope ctx = Inr ()"
  by (auto simp: context_identity_def res_bind_Inr_iff)

lemma envelope_point:
  "validate_envelope ctx = Inr () \<Longrightarrow> \<exists>p. get_str ctx ''interception_point'' = Some (point_str p)"
  by (auto simp: validate_envelope_def res_bind_Inr_iff interception_point_str_Inr split: if_splits)

lemma check_each_error: "check_each f xs = Inl e \<Longrightarrow> \<exists>x\<in>set xs. f x = Inl e"
  by (induction xs) (auto simp: res_bind_Inl_iff)

lemma check_conditional_failure: "check_conditional ctx ks = Inl e \<Longrightarrow> fst e = ContextInvalid"
  by (auto simp: check_conditional_def env_err_def split: option.splits if_splits
      dest!: check_each_error)

lemma envelope_failure: "validate_envelope ctx = Inl e \<Longrightarrow> fst e = ContextInvalid"
  by (auto simp: validate_envelope_def res_bind_Inl_iff interception_point_str_def check_agent_def
      env_err_def split: if_splits option.splits dest!: check_each_error dest: check_conditional_failure)

lemma check_i_json_failure:
  "check_i_json v path = Inl e \<Longrightarrow> fst e = ContextInvalid"
  "check_i_elems a i path = Inl e \<Longrightarrow> fst e = ContextInvalid"
  "check_i_members m path = Inl e \<Longrightarrow> fst e = ContextInvalid"
  by (induction v path and a i path and m path
      rule: check_i_json_check_i_elems_check_i_members.induct)
     (auto simp: res_bind_Inl_iff range_failure_def split: if_splits)

lemma context_identity_failure: "context_identity x ctx = Inl e \<Longrightarrow> fst e = ContextInvalid"
  by (auto simp: context_identity_def project_preimage_def check_depth_def res_bind_Inl_iff
      interception_point_str_def depth_failure_def split: option.splits if_splits
      dest: envelope_failure check_i_json_failure depth_loop_error)

end
