(* ===== verification/Composition.thy ===== *)
theory Composition
  imports Core_Types
begin

text \<open>
  \<open>composition.rs\<close>: the closed set of composition profiles with the knobs each one
  consults, and the pure aggregation over the verdicts of one emission: severity-max
  selection, unanimity, the first-seen unions of warnings and labels, and the payload-free
  summaries of the record.
\<close>

section \<open>Profiles and knobs\<close>

datatype composition_profile =
  SequentialFirstDeny | SequentialRunAll | ParallelStrictest | ParallelUnanimous

fun profile_str :: "composition_profile \<Rightarrow> string" where
  "profile_str SequentialFirstDeny = ''sequential/first_deny''"
| "profile_str SequentialRunAll = ''sequential/run_all''"
| "profile_str ParallelStrictest = ''parallel/strictest''"
| "profile_str ParallelUnanimous = ''parallel/unanimous''"

fun is_sequential :: "composition_profile \<Rightarrow> bool" where
  "is_sequential SequentialFirstDeny = True"
| "is_sequential SequentialRunAll = True"
| "is_sequential _ = False"

definition profile_all :: "composition_profile list" where
  "profile_all = [SequentialFirstDeny, SequentialRunAll, ParallelStrictest, ParallelUnanimous]"

definition profile_from_wire :: "string \<Rightarrow> composition_profile option" where
  "profile_from_wire s = find (\<lambda>p. profile_str p = s) profile_all"

fun consulted_knobs :: "composition_profile \<Rightarrow> string list" where
  "consulted_knobs SequentialFirstDeny = [''on_approval'']"
| "consulted_knobs SequentialRunAll = []"
| "consulted_knobs ParallelStrictest = [''on_transform_conflict'']"
| "consulted_knobs ParallelUnanimous = [''on_disagreement'']"

definition knob_values :: "string \<Rightarrow> string list" where
  "knob_values knob =
     (if knob = ''on_approval'' then [''stop'', ''resume'']
      else if knob = ''on_disagreement'' \<or> knob = ''on_transform_conflict'' then [''deny'', ''approval'']
      else [])"

definition knob_default :: "string \<Rightarrow> string option" where
  "knob_default knob =
     (if knob = ''on_approval'' then Some ''stop''
      else if knob = ''on_disagreement'' \<or> knob = ''on_transform_conflict'' then Some ''deny''
      else None)"

datatype on_approval = Stop | Resume

datatype synthesis_policy = SP_Deny | SP_Approval

fun on_approval_str :: "on_approval \<Rightarrow> string" where
  "on_approval_str Stop = ''stop''"
| "on_approval_str Resume = ''resume''"

fun synthesis_policy_str :: "synthesis_policy \<Rightarrow> string" where
  "synthesis_policy_str SP_Deny = ''deny''"
| "synthesis_policy_str SP_Approval = ''approval''"

record composition_config =
  profile :: composition_profile
  on_approval :: "on_approval option"
  on_disagreement :: "synthesis_policy option"
  on_transform_conflict :: "synthesis_policy option"

text \<open>\<open>Option::get_or_insert\<close>.\<close>

definition get_or_insert :: "'a option \<Rightarrow> 'a \<Rightarrow> 'a option" where
  "get_or_insert x d = Some (case x of None \<Rightarrow> d | Some a \<Rightarrow> a)"

definition with_knob_defaults :: "composition_config \<Rightarrow> composition_config" where
  "with_knob_defaults c =
     (case profile c of
        SequentialFirstDeny \<Rightarrow>
          c\<lparr>on_approval := get_or_insert (on_approval c) Stop,
            on_disagreement := None, on_transform_conflict := None\<rparr>
      | SequentialRunAll \<Rightarrow>
          c\<lparr>on_approval := None, on_disagreement := None, on_transform_conflict := None\<rparr>
      | ParallelStrictest \<Rightarrow>
          c\<lparr>on_approval := None, on_disagreement := None,
            on_transform_conflict := get_or_insert (on_transform_conflict c) SP_Deny\<rparr>
      | ParallelUnanimous \<Rightarrow>
          c\<lparr>on_approval := None,
            on_disagreement := get_or_insert (on_disagreement c) SP_Deny,
            on_transform_conflict := None\<rparr>)"

definition default_bare :: "composition_profile \<Rightarrow> composition_config" where
  "default_bare p =
     \<lparr>profile = p, on_approval = None, on_disagreement = None, on_transform_conflict = None\<rparr>"

definition default_composition :: composition_config where
  "default_composition = (default_bare SequentialFirstDeny)\<lparr>on_approval := Some Stop\<rparr>"

definition first_deny_config :: "on_approval \<Rightarrow> composition_config" where
  "first_deny_config k = (default_bare SequentialFirstDeny)\<lparr>on_approval := Some k\<rparr>"

definition run_all_config :: composition_config where
  "run_all_config = default_bare SequentialRunAll"

definition strictest_config :: "synthesis_policy \<Rightarrow> composition_config" where
  "strictest_config k = (default_bare ParallelStrictest)\<lparr>on_transform_conflict := Some k\<rparr>"

definition unanimous_config :: "synthesis_policy \<Rightarrow> synthesis_policy \<Rightarrow> composition_config" where
  "unanimous_config d t =
     (default_bare ParallelUnanimous)\<lparr>on_disagreement := Some d, on_transform_conflict := Some t\<rparr>"

text \<open>The knob members a configuration carries, by wire name.\<close>

definition carried_knobs :: "composition_config \<Rightarrow> (string \<times> string) list" where
  "carried_knobs c =
     (case on_approval c of None \<Rightarrow> [] | Some k \<Rightarrow> [(''on_approval'', on_approval_str k)])
     @ (case on_disagreement c of None \<Rightarrow> [] | Some k \<Rightarrow> [(''on_disagreement'', synthesis_policy_str k)])
     @ (case on_transform_conflict c of None \<Rightarrow> []
        | Some k \<Rightarrow> [(''on_transform_conflict'', synthesis_policy_str k)])"

section \<open>Severity\<close>

definition severity :: "verdict \<Rightarrow> nat" where
  "severity v =
     (case v_decision v of
        Deny \<Rightarrow> (if is_liftable v then 2 else 3)
      | Transform \<Rightarrow> 1
      | Allow \<Rightarrow> 0)"

lemma severity_simps:
  "severity v = 3 \<longleftrightarrow> v_decision v = Deny \<and> \<not> is_liftable v"
  "severity v = 2 \<longleftrightarrow> is_liftable v"
  "severity v = Suc 0 \<longleftrightarrow> v_decision v = Transform"
  "severity v = 0 \<longleftrightarrow> v_decision v = Allow"
  by (auto simp: severity_def is_liftable_def split: decision.splits)

lemma severity_le_3: "severity v \<le> 3"
  by (auto simp: severity_def split: decision.splits)

lemma severity_blocks: "2 \<le> severity v \<longleftrightarrow> v_decision v = Deny"
  by (auto simp: severity_def split: decision.splits)

section \<open>Aggregation\<close>

datatype aggregate = Winner nat | TransformConflictAt "nat list"

definition max_severity :: "verdict list \<Rightarrow> nat" where
  "max_severity vs = foldr max (map severity vs) 0"

definition top_indices :: "verdict list \<Rightarrow> nat list" where
  "top_indices vs =
     map fst (filter (\<lambda>(i, v). severity v = max_severity vs) (enumerate 0 vs))"

definition aggregate_strictest :: "verdict list \<Rightarrow> bool \<Rightarrow> aggregate" where
  "aggregate_strictest vs sequential =
     (let top = top_indices vs in
      if max_severity vs = 1 \<and> length top \<ge> 2
      then if sequential then Winner (last top) else TransformConflictAt top
      else Winner (hd top))"

definition is_unanimous_allow :: "verdict list \<Rightarrow> bool" where
  "is_unanimous_allow vs = list_all (\<lambda>v. v_decision v = Allow) vs"

definition all_denies_liftable :: "verdict list \<Rightarrow> bool" where
  "all_denies_liftable vs = list_all is_liftable (filter (\<lambda>v. v_decision v = Deny) vs)"

definition union_warnings :: "verdict list \<Rightarrow> warning list" where
  "union_warnings vs = fold (\<lambda>v out. foldl add_new out (v_warnings v)) vs []"

definition union_labels :: "verdict list \<Rightarrow> string list" where
  "union_labels vs =
     fold (\<lambda>v out. foldl add_new out (v_labels v)) (filter (\<lambda>v. permits (v_decision v)) vs) []"

record verdict_summary =
  s_index :: nat
  s_decision :: decision
  s_reason :: "string option"
  s_name :: "string option"
  s_substituted_for :: "string option"

definition verdict_summaries :: "verdict list \<Rightarrow> verdict_summary list" where
  "verdict_summaries vs =
     map (\<lambda>(i, v). \<lparr>s_index = i, s_decision = v_decision v, s_reason = v_reason v,
                    s_name = None, s_substituted_for = None\<rparr>) (enumerate 0 vs)"

definition summaries_named :: "verdict list \<Rightarrow> string option list \<Rightarrow> verdict_summary list" where
  "summaries_named vs names =
     map (\<lambda>s. if s_index s < length names then s\<lparr>s_name := names ! s_index s\<rparr> else s)
       (verdict_summaries vs)"

definition with_unions :: "verdict \<Rightarrow> verdict list \<Rightarrow> verdict" where
  "with_unions combined pool =
     (let ws = union_warnings pool;
          c = (if ws = [] then combined else combined\<lparr>v_warnings := ws\<rparr>)
      in if permits (v_decision c)
         then let ls = union_labels pool in if ls = [] then c else c\<lparr>v_labels := ls\<rparr>
         else c)"

section \<open>What aggregation selects\<close>

lemma foldr_max_ge: "x \<in> set xs \<Longrightarrow> x \<le> foldr max xs (0::nat)"
  by (induction xs) auto

lemma foldr_max_mem: "xs \<noteq> [] \<Longrightarrow> foldr max xs (0::nat) \<in> set xs"
proof (induction xs)
  case (Cons x xs)
  then show ?case by (cases "xs = []") (auto simp: max_def)
qed simp

lemma max_severity_ge: "v \<in> set vs \<Longrightarrow> severity v \<le> max_severity vs"
  unfolding max_severity_def by (rule foldr_max_ge) simp

lemma max_severity_mem: "vs \<noteq> [] \<Longrightarrow> \<exists>v\<in>set vs. severity v = max_severity vs"
  using foldr_max_mem [of "map severity vs"] unfolding max_severity_def by auto

lemma set_top_indices:
  "set (top_indices vs) = {i. i < length vs \<and> severity (vs ! i) = max_severity vs}"
  by (auto simp: top_indices_def in_set_enumerate_eq image_iff)

lemma sorted_top_indices: "sorted_wrt (<) (top_indices vs)"
proof -
  have "sorted_wrt (<) (map fst (enumerate n vs))" for n
    by (simp add: strict_sorted_iff)
  then have "sorted_wrt (\<lambda>p q. fst p < fst q) (enumerate 0 vs)"
    unfolding sorted_wrt_map .
  then show ?thesis
    unfolding top_indices_def sorted_wrt_map by (rule sorted_wrt_filter)
qed

lemma top_indices_nonempty: "vs \<noteq> [] \<Longrightarrow> top_indices vs \<noteq> []"
proof -
  assume "vs \<noteq> []"
  then obtain i where "i < length vs" "severity (vs ! i) = max_severity vs"
    using max_severity_mem by (metis in_set_conv_nth)
  then have "i \<in> set (top_indices vs)" by (simp add: set_top_indices)
  then show ?thesis by auto
qed

lemma sorted_wrt_hd_le: "sorted_wrt (<) (xs::nat list) \<Longrightarrow> x \<in> set xs \<Longrightarrow> hd xs \<le> x"
  by (cases xs) auto

lemma sorted_wrt_last_ge: "sorted_wrt (<) (xs::nat list) \<Longrightarrow> x \<in> set xs \<Longrightarrow> x \<le> last xs"
  by (cases xs rule: rev_cases) (auto simp: sorted_wrt_append)

text \<open>The winner: in range, of maximal severity, and placed as the tie rule says.\<close>

lemma aggregate_winner:
  assumes "vs \<noteq> []" and w: "aggregate_strictest vs sequential = Winner i"
  shows "i < length vs" and "severity (vs ! i) = max_severity vs"
    and "\<And>j. j < length vs \<Longrightarrow> severity (vs ! j) \<le> severity (vs ! i)"
    and "\<And>j. j < length vs \<Longrightarrow> severity (vs ! j) = severity (vs ! i) \<Longrightarrow>
      (if severity (vs ! i) = 1 \<and> sequential then j \<le> i else i \<le> j)"
proof -
  note ne = top_indices_nonempty [OF assms(1)]
  have i: "i = last (top_indices vs) \<and> max_severity vs = 1 \<and> sequential \<and> length (top_indices vs) \<ge> 2
      \<or> i = hd (top_indices vs) \<and> (max_severity vs \<noteq> 1 \<or> length (top_indices vs) < 2)"
    using w by (auto simp: aggregate_strictest_def Let_def split: if_splits)
  then have mem: "i \<in> set (top_indices vs)" using ne by auto
  then show i1: "i < length vs" and i2: "severity (vs ! i) = max_severity vs"
    by (simp_all add: set_top_indices)
  show "severity (vs ! j) \<le> severity (vs ! i)" if "j < length vs" for j
    using that i2 by (simp add: max_severity_ge)
  show "if severity (vs ! i) = 1 \<and> sequential then j \<le> i else i \<le> j"
    if "j < length vs" "severity (vs ! j) = severity (vs ! i)" for j
  proof -
    have j: "j \<in> set (top_indices vs)" using that i2 by (simp add: set_top_indices)
    show ?thesis
    proof (cases "length (top_indices vs) < 2")
      case True
      then have "top_indices vs = [i]" using mem by (cases "top_indices vs") auto
      with j show ?thesis by simp
    next
      case False
      with i i2 j sorted_wrt_hd_le [OF sorted_top_indices j] sorted_wrt_last_ge [OF sorted_top_indices j]
      show ?thesis by auto
    qed
  qed
qed

lemma aggregate_conflict:
  assumes "aggregate_strictest vs sequential = TransformConflictAt is"
  shows "\<not> sequential" and "2 \<le> length is" and "\<forall>v\<in>set vs. v_decision v \<noteq> Deny"
    and "set is = {i. i < length vs \<and> v_decision (vs ! i) = Transform}"
proof -
  have top: "is = top_indices vs" "max_severity vs = 1" "\<not> sequential" "2 \<le> length is"
    using assms by (auto simp: aggregate_strictest_def Let_def split: if_splits)
  then show "\<not> sequential" "2 \<le> length is" by simp_all
  show "\<forall>v\<in>set vs. v_decision v \<noteq> Deny"
    using top(2) max_severity_ge [of _ vs] by (fastforce simp flip: severity_blocks)
  show "set is = {i. i < length vs \<and> v_decision (vs ! i) = Transform}"
    using top(1,2) by (simp add: set_top_indices severity_simps)
qed

text \<open>A plain deny dominates: whoever wins, the winner is a plain deny.\<close>

lemma aggregate_plain_deny:
  assumes "v \<in> set vs" "v_decision v = Deny" "\<not> is_liftable v"
  shows "\<exists>i. aggregate_strictest vs sequential = Winner i \<and> i < length vs
    \<and> v_decision (vs ! i) = Deny \<and> \<not> is_liftable (vs ! i)"
proof -
  have "severity v = 3" using assms by (simp add: severity_simps)
  then have ge: "3 \<le> max_severity vs" using max_severity_ge [OF assms(1)] by simp
  obtain i where i: "aggregate_strictest vs sequential = Winner i"
    using ge by (auto simp: aggregate_strictest_def Let_def)
  have "vs \<noteq> []" using assms(1) by auto
  note w = aggregate_winner(1,2) [OF this i]
  then have "severity (vs ! i) = 3" using ge severity_le_3 [of "vs ! i"] by simp
  with i w show ?thesis by (simp add: severity_simps)
qed

section \<open>Unions\<close>

lemma fold_foldl_concat: "fold (\<lambda>v out. foldl g out (f v)) vs a = foldl g a (concat (map f vs))"
  by (induction vs arbitrary: a) auto

lemma union_warnings_seen: "union_warnings vs = union_seen (concat (map v_warnings vs))"
  by (simp add: union_warnings_def union_seen_def fold_foldl_concat)

lemma union_labels_seen:
  "union_labels vs = union_seen (concat (map v_labels (filter (\<lambda>v. permits (v_decision v)) vs)))"
  by (simp add: union_labels_def union_seen_def fold_foldl_concat)

lemma with_unions_decision [simp]: "v_decision (with_unions c pool) = v_decision c"
  by (simp add: with_unions_def Let_def)

lemma with_unions_frame [simp]:
  "v_reason (with_unions c pool) = v_reason c" "v_message (with_unions c pool) = v_message c"
  "v_approval (with_unions c pool) = v_approval c" "v_transform (with_unions c pool) = v_transform c"
  "v_evidence (with_unions c pool) = v_evidence c"
  by (simp_all add: with_unions_def Let_def)

lemma is_liftable_with_unions [simp]: "is_liftable (with_unions c pool) = is_liftable c"
  by (simp add: is_liftable_def)

lemma with_unions_warnings:
  "v_warnings (with_unions c pool) =
     (if concat (map v_warnings pool) = [] then v_warnings c else union_warnings pool)"
  by (simp add: with_unions_def Let_def union_warnings_seen del: concat_eq_Nil_conv)

lemma with_unions_labels:
  "v_labels (with_unions c pool) =
     (if permits (v_decision c) \<and> union_labels pool \<noteq> [] then union_labels pool else v_labels c)"
  by (simp add: with_unions_def Let_def)

section \<open>Summaries\<close>

lemma length_verdict_summaries [simp]: "length (verdict_summaries vs) = length vs"
  by (simp add: verdict_summaries_def)

lemma length_summaries_named [simp]: "length (summaries_named vs names) = length vs"
  by (simp add: summaries_named_def)

lemma nth_summaries_named:
  "i < length vs \<Longrightarrow> summaries_named vs names ! i =
     \<lparr>s_index = i, s_decision = v_decision (vs ! i), s_reason = v_reason (vs ! i),
      s_name = (if i < length names then names ! i else None), s_substituted_for = None\<rparr>"
  by (simp add: summaries_named_def verdict_summaries_def nth_enumerate_eq)

section \<open>Knobs\<close>

lemma with_knob_defaults_profile [simp]: "profile (with_knob_defaults c) = profile c"
  by (simp add: with_knob_defaults_def split: composition_profile.splits)

lemma with_knob_defaults_idem: "with_knob_defaults (with_knob_defaults c) = with_knob_defaults c"
  by (simp add: with_knob_defaults_def get_or_insert_def split: composition_profile.splits)

lemma carried_knobs_defaults:
  "map fst (carried_knobs (with_knob_defaults c)) = consulted_knobs (profile c)"
  by (cases "profile c")
     (simp_all add: carried_knobs_def with_knob_defaults_def get_or_insert_def)

lemma knob_default_value: "knob_default k = Some d \<Longrightarrow> d \<in> set (knob_values k)"
  by (auto simp: knob_default_def knob_values_def split: if_splits)

lemma profile_from_wire_str: "profile_from_wire (profile_str p) = Some p"
  by (cases p) (simp_all add: profile_from_wire_def profile_all_def)

end
