(* ===== verification/Path_Subset.thy ===== *)
theory Path_Subset
  imports Core_Types
begin

text \<open>
  \<open>path.rs\<close>: the \<open>$target\<close> path language of transforms. The parser's index
  loop over the bytes is a recursion on the bytes that are left; \<open>&mut\<close> walking is
  a recursion that writes the changed child back into its slot.
\<close>

datatype segment = Member string | Index nat

definition is_member_char :: "char \<Rightarrow> bool" where
  "is_member_char c \<longleftrightarrow> is_alnum c \<or> c = CHR ''_'' \<or> c = CHR ''-''"

text \<open>\<open>str::parse::<usize>\<close> on a non-empty run of digits: only an overflow fails.\<close>

definition parse_usize :: "string \<Rightarrow> nat option" where
  "parse_usize ds = (if undec ds < 2 ^ 64 then Some (undec ds) else None)"

lemma length_dropWhile_less: "length (dropWhile P xs) < Suc (length xs)"
  using length_dropWhile_le [of P xs] by simp

function parse_segs :: "string \<Rightarrow> host_error + segment list" where
  "parse_segs [] = Inr []"
| "parse_segs (c # r) =
     (if c = CHR ''.'' then
        let m = takeWhile is_member_char r; rest = dropWhile is_member_char r in
        if m = [] then Inl TransformInvalid
        else res_bind (parse_segs rest) (\<lambda>ss. Inr (Member m # ss))
      else if c = CHR ''['' then
        (if r \<noteq> [] \<and> hd r = CHR 0x22 then
           let m = takeWhile (\<lambda>b. b \<noteq> CHR 0x22) (tl r);
               rest = dropWhile (\<lambda>b. b \<noteq> CHR 0x22) (tl r) in
           if \<not> list_all is_member_char m then Inl TransformInvalid
           else if take 2 rest \<noteq> [CHR 0x22, CHR '']''] then Inl TransformInvalid
           else res_bind (parse_segs (drop 2 rest)) (\<lambda>ss. Inr (Member m # ss))
         else
           let ds = takeWhile is_digit r; rest = dropWhile is_digit r in
           if ds = [] \<or> take 1 rest \<noteq> '']'' then Inl TransformInvalid
           else (case parse_usize ds of
                   None \<Rightarrow> Inl TransformInvalid
                 | Some i \<Rightarrow> res_bind (parse_segs (drop 1 rest)) (\<lambda>ss. Inr (Index i # ss))))
      else Inl TransformInvalid)"
  by pat_completeness auto
termination
proof (relation "measure length", simp_all add: length_dropWhile_less)
  fix r :: string
  have "length (dropWhile (\<lambda>b. b \<noteq> CHR 0x22) (tl r)) \<le> length r"
    using length_dropWhile_le [of _ "tl r"] by (metis le_trans length_tl diff_le_self)
  then show "length (dropWhile (\<lambda>b. b \<noteq> CHR 0x22) (tl r)) - 2 < Suc (length r)" by simp
  have "length (dropWhile is_digit r) \<le> length r" by (rule length_dropWhile_le)
  then show "length (dropWhile is_digit r) - Suc 0 < Suc (length r)" by simp
qed

definition parse :: "string \<Rightarrow> host_error + segment list" where
  "parse path =
     (case strip_prefix ''$target'' path of
        Some rest \<Rightarrow> parse_segs rest
      | None \<Rightarrow>
          (case strip_prefix ''$policy_target'' path of
             Some rest \<Rightarrow> parse_segs rest
           | None \<Rightarrow> Inl TransformTargetForbidden))"

section \<open>Resolution and replacement\<close>

fun step :: "json \<Rightarrow> segment \<Rightarrow> host_error + json" where
  "step (JObj m) (Member k) =
     (case obj_get m k of None \<Rightarrow> Inl TransformInvalid | Some v \<Rightarrow> Inr v)"
| "step (JArr a) (Index i) = (if i < length a then Inr (a ! i) else Inl TransformInvalid)"
| "step _ _ = Inl TransformInvalid"

fun resolve_segs :: "json \<Rightarrow> segment list \<Rightarrow> host_error + json" where
  "resolve_segs cur [] = Inr cur"
| "resolve_segs cur (s # ss) = res_bind (step cur s) (\<lambda>c. resolve_segs c ss)"

definition resolve :: "json \<Rightarrow> string \<Rightarrow> host_error + json" where
  "resolve target path = res_bind (parse path) (resolve_segs target)"

text \<open>Store \<open>v\<close> into the slot that \<open>step_mut\<close> returned a reference to.\<close>

fun put :: "json \<Rightarrow> segment \<Rightarrow> json \<Rightarrow> json" where
  "put (JObj m) (Member k) v = JObj (obj_insert k v m)"
| "put (JArr a) (Index i) v = JArr (a[i := v])"
| "put t _ _ = t"

fun replace_leaf :: "json \<Rightarrow> segment \<Rightarrow> json \<Rightarrow> host_error + json" where
  "replace_leaf (JObj m) (Member k) v =
     (if contains_key m k then Inr (JObj (obj_insert k v m)) else Inl TransformInvalid)"
| "replace_leaf (JArr a) (Index i) v =
     (if i < length a then Inr (JArr (a[i := v])) else Inl TransformInvalid)"
| "replace_leaf _ _ _ = Inl TransformInvalid"

fun apply_segs :: "json \<Rightarrow> segment list \<Rightarrow> json \<Rightarrow> host_error + json" where
  "apply_segs t [] v = Inr v"
| "apply_segs t [s] v = replace_leaf t s v"
| "apply_segs t (s # s' # ss) v =
     res_bind (step t s) (\<lambda>c. res_bind (apply_segs c (s' # ss) v) (\<lambda>c'. Inr (put t s c')))"

definition apply_path :: "json \<Rightarrow> string \<Rightarrow> json \<Rightarrow> host_error + json" where
  "apply_path target path v = res_bind (parse path) (\<lambda>segs. apply_segs target segs v)"

section \<open>One slot\<close>

lemma replace_leaf_put: "replace_leaf t s v = res_bind (step t s) (\<lambda>_. Inr (put t s v))"
  by (cases t; cases s) (auto simp: contains_key_def split: option.splits)

text \<open>The two cases of the code's loop are one recursion.\<close>

lemma apply_segs_Cons:
  "apply_segs t (s # ss) v =
     res_bind (step t s) (\<lambda>c. res_bind (apply_segs c ss v) (\<lambda>c'. Inr (put t s c')))"
  by (cases ss) (auto simp: replace_leaf_put intro: res_bind_cong)

lemma step_put_same: "step t s = Inr c \<Longrightarrow> step (put t s v) s = Inr v"
  by (cases t; cases s) (auto split: option.splits if_splits)

lemma step_put_other: "s' \<noteq> s \<Longrightarrow> step (put t s v) s' = step t s'"
  by (cases t; cases s; cases s') auto

lemma put_put: "put (put t s v) s w = put t s w" if "wf_json t"
  using that by (cases t; cases s) (auto simp: obj.ins_ins)

lemma put_step: "wf_json t \<Longrightarrow> step t s = Inr c \<Longrightarrow> put t s c = t"
  by (cases t; cases s) (auto simp: obj.ins_triv split: option.splits if_splits)

lemma wf_step: "wf_json t \<Longrightarrow> step t s = Inr c \<Longrightarrow> wf_json c"
  by (cases t; cases s)
     (auto simp: list_all_iff split: option.splits if_splits dest!: map_of_SomeD)

lemma wf_put: "wf_json t \<Longrightarrow> wf_json v \<Longrightarrow> wf_json (put t s v)"
proof (cases t; cases s)
  fix m k
  assume "wf_json t" "wf_json v" "t = JObj m" "s = Member k"
  then show ?thesis using wf_object_insert [of m v k] by (simp add: wf_object_def)
next
  fix a i
  assume wf: "wf_json t" "wf_json v" and "t = JArr a" "s = Index i"
  then show ?thesis
    using set_update_subset_insert [of a i v] by (auto simp: list_all_iff)
qed auto

lemma wf_resolve_segs: "wf_json t \<Longrightarrow> resolve_segs t ss = Inr c \<Longrightarrow> wf_json c"
  by (induction ss arbitrary: t) (auto simp: res_bind_Inr_iff dest: wf_step)

lemma wf_apply_segs:
  "wf_json t \<Longrightarrow> wf_json v \<Longrightarrow> apply_segs t ss v = Inr t' \<Longrightarrow> wf_json t'"
proof (induction ss arbitrary: t t')
  case (Cons s ss)
  then obtain c c' where "step t s = Inr c" "apply_segs c ss v = Inr c'" "t' = put t s c'"
    by (auto simp: apply_segs_Cons res_bind_Inr_iff)
  with Cons show ?case by (blast intro: wf_put wf_step)
qed simp

section \<open>A path is a lens\<close>

text \<open>
  The contract transforms rely on: a write succeeds exactly where a read does, is read
  back, forgets what was there, and changes nothing when it writes what it read.
\<close>

locale partial_lens =
  fixes view :: "'s \<Rightarrow> 'e + 'v"
    and set :: "'s \<Rightarrow> 'v \<Rightarrow> 'e + 's"
    and wf :: "'s \<Rightarrow> bool"
  assumes set_ok: "view s = Inr u \<Longrightarrow> \<exists>s'. set s v = Inr s'"
    and set_fail: "view s = Inl e \<Longrightarrow> set s v = Inl e"
    and view_set: "set s v = Inr s' \<Longrightarrow> view s' = Inr v"
    and set_view: "wf s \<Longrightarrow> view s = Inr v \<Longrightarrow> set s v = Inr s"
    and set_set: "wf s \<Longrightarrow> set s v = Inr s' \<Longrightarrow> set s' w = set s w"
begin

lemma set_ok_iff: "res_ok (set s v) \<longleftrightarrow> res_ok (view s)"
proof (cases "view s")
  case (Inl e)
  then show ?thesis by (simp add: set_fail)
next
  case (Inr u)
  with set_ok [of s u v] show ?thesis by auto
qed

lemma set_ok_any: "res_ok (set s v) \<longleftrightarrow> res_ok (set s w)"
  by (simp add: set_ok_iff)

lemma set_idem: "wf s \<Longrightarrow> set s v = Inr s' \<Longrightarrow> set s' v = Inr s'"
  by (simp add: set_set)

lemma set_inject: "set s v = Inr s' \<Longrightarrow> set s w = Inr s' \<Longrightarrow> v = w"
  by (metis view_set sum.inject(2))

lemma set_undo: "wf s \<Longrightarrow> view s = Inr u \<Longrightarrow> set s v = Inr s' \<Longrightarrow> set s' u = Inr s"
  by (simp add: set_set set_view)

end

lemma apply_segs_fail: "resolve_segs t ss = Inl e \<Longrightarrow> apply_segs t ss v = Inl e"
  by (induction ss arbitrary: t) (auto simp: apply_segs_Cons res_bind_Inl_iff)

lemma apply_segs_ok: "resolve_segs t ss = Inr u \<Longrightarrow> \<exists>t'. apply_segs t ss v = Inr t'"
proof (induction ss arbitrary: t)
  case (Cons s ss)
  then obtain c where c: "step t s = Inr c" "resolve_segs c ss = Inr u"
    by (auto simp: res_bind_Inr_iff)
  with Cons.IH obtain c' where "apply_segs c ss v = Inr c'" by blast
  with c show ?case by (simp add: apply_segs_Cons)
qed simp

lemma resolve_apply_segs: "apply_segs t ss v = Inr t' \<Longrightarrow> resolve_segs t' ss = Inr v"
  by (induction ss arbitrary: t t')
     (auto simp: apply_segs_Cons res_bind_Inr_iff step_put_same)

lemma apply_segs_same: "wf_json t \<Longrightarrow> resolve_segs t ss = Inr v \<Longrightarrow> apply_segs t ss v = Inr t"
proof (induction ss arbitrary: t)
  case (Cons s ss)
  then obtain c where c: "step t s = Inr c" "resolve_segs c ss = Inr v"
    by (auto simp: res_bind_Inr_iff)
  with Cons have "apply_segs c ss v = Inr c" by (blast intro: wf_step)
  with c Cons.prems(1) show ?case by (simp add: apply_segs_Cons put_step)
qed simp

lemma apply_segs_twice:
  "wf_json t \<Longrightarrow> apply_segs t ss v = Inr t' \<Longrightarrow> apply_segs t' ss w = apply_segs t ss w"
proof (induction ss arbitrary: t t')
  case (Cons s ss)
  then obtain c c' where c: "step t s = Inr c" "apply_segs c ss v = Inr c'" "t' = put t s c'"
    by (auto simp: apply_segs_Cons res_bind_Inr_iff)
  have "apply_segs c' ss w = apply_segs c ss w"
    using Cons.IH [OF wf_step [OF Cons.prems(1) c(1)] c(2)] .
  with c Cons.prems(1) show ?case by (simp add: apply_segs_Cons step_put_same put_put)
qed simp

interpretation path: partial_lens "\<lambda>t. resolve_segs t ss" "\<lambda>t v. apply_segs t ss v" wf_json for ss
  by unfold_locales
     (fact apply_segs_ok apply_segs_fail resolve_apply_segs apply_segs_same apply_segs_twice)+

text \<open>A path that forks off elsewhere reads what it read before.\<close>

lemma resolve_apply_other:
  assumes "x \<noteq> y" and "apply_segs t (xs @ x # zs) v = Inr t'"
  shows "resolve_segs t' (xs @ y # ys) = resolve_segs t (xs @ y # ys)"
  using assms(2)
proof (induction xs arbitrary: t t')
  case Nil
  with assms(1) show ?case
    by (auto simp: apply_segs_Cons res_bind_Inr_iff step_put_other)
next
  case (Cons s xs)
  then obtain c c' where "step t s = Inr c" "apply_segs c (xs @ x # zs) v = Inr c'" "t' = put t s c'"
    by (auto simp: apply_segs_Cons res_bind_Inr_iff)
  with Cons.IH show ?case by (simp add: step_put_same)
qed

section \<open>The grammar\<close>

text \<open>
  \<open>path-grammar.abnf\<close> as rules, one per kind of segment. \<open>empty_ok\<close> says
  whether a bracket member may be empty: the grammar says no (\<open>1*(...)\<close>), the
  parser says yes.
\<close>

inductive seg_gram :: "bool \<Rightarrow> string \<Rightarrow> segment \<Rightarrow> bool" for empty_ok where
  dot: "m \<noteq> [] \<Longrightarrow> list_all is_member_char m \<Longrightarrow> seg_gram empty_ok (CHR ''.'' # m) (Member m)"
| brk: "m \<noteq> [] \<or> empty_ok \<Longrightarrow> list_all is_member_char m \<Longrightarrow>
     seg_gram empty_ok (CHR ''['' # CHR 0x22 # m @ [CHR 0x22, CHR '']'']) (Member m)"
| idx: "ds \<noteq> [] \<Longrightarrow> list_all is_digit ds \<Longrightarrow>
     seg_gram empty_ok (CHR ''['' # ds @ '']'') (Index (undec ds))"

inductive segs_gram :: "bool \<Rightarrow> string \<Rightarrow> segment list \<Rightarrow> bool" for empty_ok where
  none: "segs_gram empty_ok [] []"
| more: "seg_gram empty_ok p s \<Longrightarrow> segs_gram empty_ok q ss \<Longrightarrow> segs_gram empty_ok (p @ q) (s # ss)"

inductive_cases seg_gramE: "seg_gram empty_ok p s"
inductive_cases segs_gramE: "segs_gram empty_ok p ss"
inductive_simps segs_gram_Nil_iff: "segs_gram empty_ok p []"

definition index_ok :: "segment \<Rightarrow> bool" where
  "index_ok s = (case s of Member _ \<Rightarrow> True | Index i \<Rightarrow> i < 2 ^ 64)"

lemma not_member_chars:
  "\<not> is_member_char (CHR ''.'')" "\<not> is_member_char (CHR ''['')" "\<not> is_member_char (CHR 0x22)"
  "\<not> is_digit (CHR '']'')" "\<not> is_digit (CHR 0x22)"
  by (simp_all add: is_member_char_def is_alnum_def is_digit_def is_lower_def is_upper_def byte_def)

lemma segs_gram_head: "segs_gram e q ss \<Longrightarrow> q = [] \<or> hd q = CHR ''.'' \<or> hd q = CHR ''[''"
  by (induction rule: segs_gram.induct) (auto elim!: seg_gramE)

lemma takeWhile_all_append:
  "list_all P m \<Longrightarrow> q = [] \<or> \<not> P (hd q) \<Longrightarrow> takeWhile P (m @ q) = m \<and> dropWhile P (m @ q) = q"
  by (induction m) (cases q; auto)+

lemma parse_seg:
  assumes g: "seg_gram True p s" and q: "q = [] \<or> hd q = CHR ''.'' \<or> hd q = CHR ''[''"
    and i: "index_ok s"
  shows "parse_segs (p @ q) = res_bind (parse_segs q) (\<lambda>ss. Inr (s # ss))"
  using g
proof cases
  case (dot m)
  have "q = [] \<or> \<not> is_member_char (hd q)" using q not_member_chars by auto
  from takeWhile_all_append [OF dot(4) this] dot show ?thesis by simp
next
  case (brk m)
  have "list_all (\<lambda>b. b \<noteq> CHR 0x22) m"
    using brk(4) not_member_chars(3) by (auto simp: list_all_iff)
  from takeWhile_all_append [OF this, of "CHR 0x22 # CHR '']'' # q"] brk show ?thesis by simp
next
  case (idx ds)
  have h: "hd (ds @ '']'' @ q) \<noteq> CHR 0x22"
    using idx(3,4) not_member_chars(5) by (cases ds) auto
  have "parse_usize ds = Some (undec ds)"
    using i idx(2) by (simp add: parse_usize_def index_ok_def)
  with takeWhile_all_append [OF idx(4), of "CHR '']'' # q"] h idx not_member_chars(4) show ?thesis
    by simp
qed

lemma parse_segs_complete:
  "segs_gram True p ss \<Longrightarrow> list_all index_ok ss \<Longrightarrow> parse_segs p = Inr ss"
  by (induction rule: segs_gram.induct) (simp_all add: parse_seg segs_gram_head)

lemma list_all_takeWhile: "list_all P (takeWhile P xs)"
  by (auto simp: list_all_iff dest: set_takeWhileD)

lemma take_2_eq: "take 2 xs = [a, b] \<Longrightarrow> xs = a # b # drop 2 xs"
  by (cases xs; cases "tl xs") auto

lemma take_1_eq: "take 1 xs = [a] \<Longrightarrow> xs = a # drop 1 xs"
  by (cases xs) auto

lemma parse_segs_sound:
  "parse_segs p = Inr ss \<Longrightarrow> segs_gram True p ss \<and> list_all index_ok ss"
proof (induction p arbitrary: ss rule: parse_segs.induct)
  case 1
  then show ?case by (simp add: segs_gram.none)
next
  case (2 c r)
  consider (dot) "c = CHR ''.''"
    | (brk) "c = CHR ''[''" "r \<noteq> []" "hd r = CHR 0x22"
    | (idx) "c = CHR ''[''" "\<not> (r \<noteq> [] \<and> hd r = CHR 0x22)"
    | (bad) "c \<noteq> CHR ''.''" "c \<noteq> CHR ''[''" by blast
  then show ?case
  proof cases
    case dot
    define m where "m = takeWhile is_member_char r"
    define rest where "rest = dropWhile is_member_char r"
    from dot "2.prems" obtain ss' where ss: "m \<noteq> []" "parse_segs rest = Inr ss'" "ss = Member m # ss'"
      by (auto simp: m_def rest_def Let_def res_bind_Inr_iff split: if_splits)
    with "2.IH"(1) [OF dot refl refl] have "segs_gram True rest ss' \<and> list_all index_ok ss'"
      by (simp add: m_def rest_def)
    moreover have "seg_gram True (c # m) (Member m)"
      using ss dot by (auto intro: seg_gram.dot simp: m_def list_all_takeWhile)
    ultimately have "segs_gram True ((c # m) @ rest) ss \<and> list_all index_ok ss"
      unfolding ss(3) by (auto simp: index_ok_def simp del: append_Cons intro: segs_gram.more)
    then show ?thesis by (simp add: m_def rest_def)
  next
    case brk
    define m where "m = takeWhile (\<lambda>b. b \<noteq> CHR 0x22) (tl r)"
    define rest where "rest = dropWhile (\<lambda>b. b \<noteq> CHR 0x22) (tl r)"
    from brk "2.prems" obtain ss' where ss: "list_all is_member_char m"
      "take 2 rest = [CHR 0x22, CHR '']'']" "parse_segs (drop 2 rest) = Inr ss'" "ss = Member m # ss'"
      by (auto simp: m_def rest_def Let_def res_bind_Inr_iff split: if_splits)
    with "2.IH"(2) brk have "segs_gram True (drop 2 rest) ss' \<and> list_all index_ok ss'"
      by (simp add: m_def rest_def)
    moreover have "seg_gram True (c # CHR 0x22 # m @ [CHR 0x22, CHR '']'']) (Member m)"
      using ss brk by (auto intro: seg_gram.brk)
    ultimately have "segs_gram True ((c # CHR 0x22 # m @ [CHR 0x22, CHR '']'']) @ drop 2 rest) ss
        \<and> list_all index_ok ss"
      unfolding ss(4) by (auto simp: index_ok_def simp del: append_Cons intro: segs_gram.more)
    moreover have "r = CHR 0x22 # m @ rest"
      using brk by (cases r) (simp_all add: m_def rest_def)
    ultimately show ?thesis using take_2_eq [OF ss(2)] by simp
  next
    case idx
    define ds where "ds = takeWhile is_digit r"
    define rest where "rest = dropWhile is_digit r"
    from idx "2.prems" obtain ss' where ss: "ds \<noteq> []" "take 1 rest = '']''" "undec ds < 2 ^ 64"
      "parse_segs (drop 1 rest) = Inr ss'" "ss = Index (undec ds) # ss'"
      by (auto simp: ds_def rest_def Let_def res_bind_Inr_iff parse_usize_def split: if_splits)
    with "2.IH"(3) idx have "segs_gram True (drop 1 rest) ss' \<and> list_all index_ok ss'"
      by (simp add: ds_def rest_def parse_usize_def)
    moreover have "seg_gram True (c # ds @ '']'') (Index (undec ds))"
      using ss idx by (auto intro: seg_gram.idx simp: ds_def list_all_takeWhile)
    ultimately have "segs_gram True ((c # ds @ '']'') @ drop 1 rest) ss \<and> list_all index_ok ss"
      unfolding ss(5) using ss(3) by (auto simp: index_ok_def simp del: append_Cons intro: segs_gram.more)
    moreover have "r = ds @ rest" by (simp add: ds_def rest_def)
    ultimately show ?thesis using take_1_eq [OF ss(2)] by simp
  next
    case bad
    with "2.prems" show ?thesis by simp
  qed
qed

text \<open>Printing a segment list, for the round trip.\<close>

definition segment_str :: "segment \<Rightarrow> string" where
  "segment_str s =
     (case s of
        Member m \<Rightarrow> CHR ''['' # CHR 0x22 # m @ [CHR 0x22, CHR '']'']
      | Index i \<Rightarrow> CHR ''['' # dec i @ '']'')"

definition path_str :: "segment list \<Rightarrow> string" where
  "path_str ss = ''$target'' @ concat (map segment_str ss)"

fun segment_ok :: "segment \<Rightarrow> bool" where
  "segment_ok (Member m) = list_all is_member_char m"
| "segment_ok (Index i) = (i < 2 ^ 64)"

lemma segment_str_gram: "segment_ok s \<Longrightarrow> seg_gram True (segment_str s) s \<and> index_ok s"
proof (cases s)
  case (Member m)
  then show "segment_ok s \<Longrightarrow> ?thesis" by (auto simp: segment_str_def index_ok_def intro: seg_gram.brk)
next
  case (Index i)
  have "seg_gram True (CHR ''['' # dec i @ '']'') (Index (undec (dec i)))"
    by (rule seg_gram.idx) (auto simp: list_all_iff dec_digits)
  with Index show "segment_ok s \<Longrightarrow> ?thesis" by (simp add: segment_str_def index_ok_def)
qed

lemma parse_print: "list_all segment_ok ss \<Longrightarrow> parse (path_str ss) = Inr ss"
proof -
  have "list_all segment_ok ss \<Longrightarrow> segs_gram True (concat (map segment_str ss)) ss \<and> list_all index_ok ss"
    by (induction ss) (auto intro: segs_gram.intros dest: segment_str_gram)
  then show "list_all segment_ok ss \<Longrightarrow> ?thesis"
    by (simp add: parse_def path_str_def parse_segs_complete del: append_Cons)
qed

lemma segs_gram_mono: "segs_gram False p ss \<Longrightarrow> segs_gram True p ss"
  by (induction rule: segs_gram.induct) (auto intro: segs_gram.intros seg_gram.intros elim!: seg_gramE)

end
