(* ===== verification/Enforce.thy ===== *)
theory Enforce
  imports Canonical Composition Path_Subset
begin

text \<open>
  \<open>enforce.rs\<close> with the record types of \<open>types.rs\<close>: applying a transform to
  an agent context (and mirroring it into the member the target aliases), the payload-free
  projection, and \<open>finalize\<close>, which turns one completed emission into its record.
\<close>

section \<open>Transforms on a context\<close>

definition interception_point_of :: "object \<Rightarrow> host_error + interception_point" where
  "interception_point_of ctx =
     (case get_str ctx ''interception_point'' of
        None \<Rightarrow> Inl ContextInvalid
      | Some s \<Rightarrow> (case point_from_str s of None \<Rightarrow> Inl ContextInvalid | Some p \<Rightarrow> Inr p))"

definition write_nested :: "string \<Rightarrow> string \<Rightarrow> json \<Rightarrow> object \<Rightarrow> object" where
  "write_nested outer inner v ctx =
     (case obj_get ctx outer of
        Some (JObj m) \<Rightarrow> obj_insert outer (JObj (obj_insert inner v m)) ctx
      | _ \<Rightarrow> ctx)"

fun write_back_target :: "interception_point \<Rightarrow> json \<Rightarrow> object \<Rightarrow> object" where
  "write_back_target Input v ctx = obj_insert ''input'' v ctx"
| "write_back_target PreModelCall v ctx = obj_insert ''messages'' v ctx"
| "write_back_target PostModelCall v ctx = obj_insert ''response'' v ctx"
| "write_back_target PreToolCall v ctx = write_nested ''tool_call'' ''args'' v ctx"
| "write_back_target PostToolCall v ctx = write_nested ''tool_result'' ''value'' v ctx"
| "write_back_target Output v ctx = obj_insert ''output'' v ctx"
| "write_back_target AgentStartup v ctx = ctx"
| "write_back_target AgentShutdown v ctx = ctx"

definition target_of :: "object \<Rightarrow> json" where
  "target_of ctx = (case obj_get ctx ''target'' of None \<Rightarrow> JNull | Some v \<Rightarrow> v)"

definition apply_transform_to_ctx :: "object \<Rightarrow> transform \<Rightarrow> host_error + object" where
  "apply_transform_to_ctx ctx t =
     res_bind (interception_point_of ctx) (\<lambda>ip.
       if \<not> transform_permitted ip then Inl TransformTargetForbidden
       else res_bind (apply_path (target_of ctx) (t_path t) (t_value t)) (\<lambda>applied.
         Inr (write_back_target ip applied (obj_insert ''target'' applied ctx))))"

definition validate_transform :: "object \<Rightarrow> transform \<Rightarrow> host_error + unit" where
  "validate_transform ctx t =
     res_bind (interception_point_of ctx) (\<lambda>ip.
       if \<not> transform_permitted ip then Inl TransformTargetForbidden
       else res_bind (apply_path (target_of ctx) (t_path t) (t_value t)) (\<lambda>_. Inr ()))"

section \<open>The payload-free projection\<close>

text \<open>\<open>str::is_char_boundary\<close> inside a string: not a UTF-8 continuation byte.\<close>

definition is_char_boundary :: "string \<Rightarrow> nat \<Rightarrow> bool" where
  "is_char_boundary s i \<longleftrightarrow>
     i = 0 \<or> i = length s \<or> (i < length s \<and> \<not> (128 \<le> byte (s ! i) \<and> byte (s ! i) < 192))"

fun floor_boundary :: "string \<Rightarrow> nat \<Rightarrow> nat" where
  "floor_boundary s 0 = 0"
| "floor_boundary s (Suc n) = (if is_char_boundary s (Suc n) then Suc n else floor_boundary s n)"

definition MESSAGE_MAX :: nat where
  "MESSAGE_MAX = 256"

definition ellipsis :: string where
  "ellipsis = [CHR 0xE2, CHR 0x80, CHR 0xA6]"

definition truncate_message :: "string \<Rightarrow> string" where
  "truncate_message s =
     (if length s \<le> MESSAGE_MAX then s else take (floor_boundary s MESSAGE_MAX) s @ ellipsis)"

definition payload_free_projection :: "verdict \<Rightarrow> verdict" where
  "payload_free_projection v =
     \<lparr>v_decision = v_decision v,
      v_reason = v_reason v,
      v_message = map_option truncate_message (v_message v),
      v_warnings = map (\<lambda>w. \<lparr>w_reason = w_reason w, w_message = map_option truncate_message (w_message w)\<rparr>)
        (v_warnings v),
      v_approval = map_option (\<lambda>_. []) (v_approval v),
      v_transform = map_option (\<lambda>t. \<lparr>t_path = t_path t, t_value = JNull\<rparr>) (v_transform v),
      v_evidence = v_evidence v,
      v_labels = v_labels v\<rparr>"

section \<open>Records\<close>

record trace_context =
  trace_id :: "string option"
  span_id :: "string option"

record interception_record =
  r_point :: interception_point
  r_mode :: enforcement_mode
  r_verdict :: verdict
  r_input_identity :: "string option"
  r_enforced_identity :: "string option"
  r_identity_provider :: "string option"
  r_session_id :: string
  r_sequence :: int
  r_timestamp :: "string option"
  r_trace :: "trace_context option"
  r_decided_by :: "nat option"
  r_composition :: composition_config
  r_declaration :: "string option"
  r_verdicts :: "verdict_summary list"
  r_fold_truncated :: "bool option"
  r_resolved_by :: "string option"
  r_registered :: nat

definition proceeds :: "interception_record \<Rightarrow> bool" where
  "proceeds r \<longleftrightarrow> r_mode r = EvaluateOnly \<or> permits (v_decision (r_verdict r))"

record finalize_meta =
  m_input_identity :: "string option"
  m_identity_provider :: "string option"
  m_enforced_identity :: "string option"
  m_jcs_input_rejected :: bool
  m_unchanged :: bool
  m_decided_by :: "nat option"
  m_composition :: composition_config
  m_declaration :: "string option"
  m_verdicts :: "verdict_summary list"
  m_fold_truncated :: "bool option"
  m_resolved_by :: "string option"
  m_registered :: nat

definition is_context_invalid :: "verdict \<Rightarrow> bool" where
  "is_context_invalid v \<longleftrightarrow>
     v_decision v = Deny \<and> v_reason v = Some ''host_error:context_invalid''"

definition trace_of :: "object \<Rightarrow> trace_context option" where
  "trace_of ctx =
     Option.bind (get_object ctx ''trace'') (\<lambda>t.
       let tc = \<lparr>trace_id = get_str t ''trace_id'', span_id = get_str t ''span_id''\<rparr> in
       if trace_id tc \<noteq> None \<or> span_id tc \<noteq> None then Some tc else None)"

definition session_id_of :: "object \<Rightarrow> string" where
  "session_id_of ctx =
     (case Option.bind (get_object ctx ''session'') (\<lambda>s. get_str s ''id'') of
        None \<Rightarrow> [] | Some i \<Rightarrow> i)"

text \<open>
  The match that computes \<open>enforced_identity\<close>; its arms may also replace the verdict
  and clear \<open>decided_by\<close>, so both are threaded through.
\<close>

definition post_fold_detail :: string where
  "post_fold_detail =
     ''post-fold context left the I-JSON domain; string-encode 64-bit identifiers, see spec ''
       @ sect @ ''4.4''"

definition enforced_arm ::
  "externs \<Rightarrow> object \<Rightarrow> finalize_meta \<Rightarrow> bool \<Rightarrow> verdict \<Rightarrow> nat option
     \<Rightarrow> string option \<times> verdict \<times> nat option" where
  "enforced_arm x ctx meta envelope_invalid v decided =
     (if envelope_invalid then (None, v, decided)
      else case m_identity_provider meta of
        None \<Rightarrow> (None, v, decided)
      | Some name \<Rightarrow>
          if name \<noteq> JCS_SHA256 then (m_enforced_identity meta, v, decided)
          else if m_jcs_input_rejected meta then
            (if m_input_identity meta \<noteq> None \<and> permits (v_decision v)
             then (None, host_error ContextInvalid (Some post_fold_detail), None)
             else (None, v, decided))
          else if m_unchanged meta \<and> m_input_identity meta \<noteq> None
            then (m_input_identity meta, v, decided)
          else (case context_identity x ctx of
                  Inr i \<Rightarrow> (Some i, v, decided)
                | Inl (e, detail) \<Rightarrow>
                    if permits (v_decision v) then (None, host_error e (Some detail), None)
                    else (None, v, decided)))"

definition finalize ::
  "externs \<Rightarrow> object \<Rightarrow> verdict \<Rightarrow> enforcement_mode \<Rightarrow> finalize_meta \<Rightarrow> interception_record" where
  "finalize x ctx verdict mode meta =
     (let envelope = validate_envelope ctx;
          envelope_invalid = (\<not> res_ok envelope);
          (v0, d0) =
            (case envelope of
               Inl (e, detail) \<Rightarrow>
                 if is_context_invalid verdict then (verdict, m_decided_by meta)
                 else (host_error e (Some detail), None)
             | Inr _ \<Rightarrow> (verdict, m_decided_by meta));
          (enforced, v1, d1) = enforced_arm x ctx meta envelope_invalid v0 d0
      in \<lparr>r_point = (case interception_point_of ctx of Inr p \<Rightarrow> p | Inl _ \<Rightarrow> AgentStartup),
          r_mode = mode,
          r_verdict = payload_free_projection v1,
          r_input_identity = (if envelope_invalid then None else m_input_identity meta),
          r_enforced_identity = enforced,
          r_identity_provider = m_identity_provider meta,
          r_session_id = session_id_of ctx,
          r_sequence = (case get_i64 ctx ''sequence'' of None \<Rightarrow> -1 | Some n \<Rightarrow> n),
          r_timestamp = get_str ctx ''timestamp'',
          r_trace = trace_of ctx,
          r_decided_by = d1,
          r_composition = with_knob_defaults (m_composition meta),
          r_declaration = m_declaration meta,
          r_verdicts = m_verdicts meta,
          r_fold_truncated = m_fold_truncated meta,
          r_resolved_by = m_resolved_by meta,
          r_registered = m_registered meta\<rparr>)"

section \<open>What a transform may touch\<close>

definition mutable_members :: "string list" where
  "mutable_members =
     [''target'', ''input'', ''messages'', ''response'', ''tool_call'', ''tool_result'', ''output'']"

definition same_envelope :: "object \<Rightarrow> object \<Rightarrow> bool" where
  "same_envelope c d \<longleftrightarrow> (\<forall>k. k \<notin> set mutable_members \<longrightarrow> obj_get c k = obj_get d k)"

lemma same_envelope_refl [simp]: "same_envelope c c"
  by (simp add: same_envelope_def)

lemma same_envelope_trans: "same_envelope a b \<Longrightarrow> same_envelope b c \<Longrightarrow> same_envelope a c"
  by (simp add: same_envelope_def)

lemma same_envelope_get: "same_envelope c d \<Longrightarrow> k \<notin> set mutable_members \<Longrightarrow> obj_get d k = obj_get c k"
  by (simp add: same_envelope_def)

lemma same_envelope_str:
  "same_envelope c d \<Longrightarrow> k \<notin> set mutable_members \<Longrightarrow> get_str d k = get_str c k"
  by (simp add: get_str_def same_envelope_get)

lemma same_envelope_insert:
  "k \<in> set mutable_members \<Longrightarrow> same_envelope c (obj_insert k v d) \<longleftrightarrow> same_envelope c d"
  by (auto simp: same_envelope_def)

lemma write_back_envelope: "same_envelope c d \<Longrightarrow> same_envelope c (write_back_target ip v d)"
proof (cases ip)
  case PreToolCall
  assume "same_envelope c d"
  with PreToolCall show ?thesis
    by (simp add: write_nested_def same_envelope_insert mutable_members_def split: option.split json.split)
next
  case PostToolCall
  assume "same_envelope c d"
  with PostToolCall show ?thesis
    by (simp add: write_nested_def same_envelope_insert mutable_members_def split: option.split json.split)
qed (simp_all add: same_envelope_insert mutable_members_def)

lemma apply_transform_envelope: "apply_transform_to_ctx ctx t = Inr ctx' \<Longrightarrow> same_envelope ctx ctx'"
  by (auto simp: apply_transform_to_ctx_def res_bind_Inr_iff same_envelope_insert mutable_members_def
      intro!: write_back_envelope split: if_splits)

lemma point_keys: "''interception_point'' \<notin> set mutable_members" "''spec'' \<notin> set mutable_members"
  by (simp_all add: mutable_members_def)

lemma same_envelope_point:
  "same_envelope c d \<Longrightarrow> interception_point_of d = interception_point_of c"
  by (simp add: interception_point_of_def same_envelope_str point_keys)

text \<open>Validation succeeds exactly where application does, with the same error otherwise.\<close>

lemma validate_transform_apply:
  "validate_transform ctx t = res_bind (apply_transform_to_ctx ctx t) (\<lambda>_. Inr ())"
  by (cases "interception_point_of ctx";
      cases "apply_path (target_of ctx) (t_path t) (t_value t)")
     (simp_all add: validate_transform_def apply_transform_to_ctx_def)

lemma apply_transform_permitted:
  "apply_transform_to_ctx ctx t = Inr ctx' \<Longrightarrow>
     \<exists>p. get_str ctx ''interception_point'' = Some (point_str p) \<and> transform_permitted p"
  by (auto simp: apply_transform_to_ctx_def interception_point_of_def res_bind_Inr_iff
      point_from_str_Some split: if_splits option.splits)

lemma target_write_back: "target_of (write_back_target ip v ctx) = target_of ctx"
  by (cases ip) (simp_all add: target_of_def write_nested_def split: option.split json.split)

lemma apply_transform_target:
  assumes "apply_transform_to_ctx ctx t = Inr ctx'"
  shows "apply_path (target_of ctx) (t_path t) (t_value t) = Inr (target_of ctx')"
  using assms
  by (auto simp: apply_transform_to_ctx_def res_bind_Inr_iff target_write_back split: if_splits)
     (simp add: target_of_def)

lemma wf_write_back:
  assumes "wf_object ctx" "wf_json v"
  shows "wf_object (write_back_target ip v ctx)"
proof -
  have nested: "wf_object (write_nested a b v ctx)" for a b
  proof (cases "obj_get ctx a")
    case (Some w)
    then have "wf_json w" using assms wf_object_get by blast
    have "wf_json (JObj (obj_insert b v m))" if "w = JObj m" for m
      using \<open>wf_json w\<close> assms(2) that wf_object_insert [of m v b] by (simp only: wf_object_def)
    then show ?thesis
      using Some assms by (cases w) (simp_all add: write_nested_def wf_object_insert)
  qed (use assms in \<open>simp add: write_nested_def\<close>)
  show ?thesis using assms nested by (cases ip) (simp_all add: wf_object_insert)
qed

lemma apply_transform_wf:
  assumes "wf_object ctx" "wf_json (t_value t)" and r: "apply_transform_to_ctx ctx t = Inr ctx'"
  shows "wf_object ctx'"
proof -
  have "wf_json (target_of ctx)"
    using assms(1) by (auto simp: target_of_def dest: wf_object_get split: option.split)
  moreover from r obtain ip applied where
    a: "apply_path (target_of ctx) (t_path t) (t_value t) = Inr applied"
    and ctx': "ctx' = write_back_target ip applied (obj_insert ''target'' applied ctx)"
    unfolding apply_transform_to_ctx_def res_bind_Inr_iff by (auto simp: res_bind_Inr_iff split: if_splits)
  moreover from a obtain segs where "apply_segs (target_of ctx) segs (t_value t) = Inr applied"
    by (auto simp: apply_path_def res_bind_Inr_iff)
  ultimately have "wf_json applied" using assms(2) wf_apply_segs by blast
  with assms(1) show ?thesis unfolding ctx' by (intro wf_write_back wf_object_insert)
qed

section \<open>Truncation\<close>

lemma floor_boundary_le: "floor_boundary s n \<le> n"
  by (induction n) (auto simp: le_SucI)

lemma floor_boundary_boundary: "is_char_boundary s (floor_boundary s n)"
  by (induction n) (auto simp: is_char_boundary_def)

lemma truncate_length: "length (truncate_message s) \<le> 259"
  using floor_boundary_le [of s MESSAGE_MAX]
  by (simp add: truncate_message_def MESSAGE_MAX_def ellipsis_def)

section \<open>The projection carries no payload\<close>

definition payload_free :: "verdict \<Rightarrow> bool" where
  "payload_free v \<longleftrightarrow>
     (\<forall>t. v_transform v = Some t \<longrightarrow> t_value t = JNull)
     \<and> (\<forall>m. v_approval v = Some m \<longrightarrow> m = [])
     \<and> (\<forall>s. v_message v = Some s \<longrightarrow> length s \<le> 259)
     \<and> (\<forall>w\<in>set (v_warnings v). \<forall>s. w_message w = Some s \<longrightarrow> length s \<le> 259)"

lemma payload_free_projection_ok: "payload_free (payload_free_projection v)"
  by (auto simp: payload_free_def payload_free_projection_def truncate_length)

lemma projection_decision [simp]: "v_decision (payload_free_projection v) = v_decision v"
  by (simp add: payload_free_projection_def)

lemma projection_reason [simp]: "v_reason (payload_free_projection v) = v_reason v"
  by (simp add: payload_free_projection_def)

section \<open>What finalize guarantees\<close>

lemma host_error_decision [simp]: "v_decision (host_error e m) = Deny"
  by (simp add: host_error_def)

lemma host_error_reason [simp]: "v_reason (host_error e m) = Some (host_error_str e)"
  by (simp add: host_error_def)

lemma host_error_liftable [simp]: "\<not> is_liftable (host_error e m)"
  by (simp add: host_error_def allow_def is_liftable_def)

lemma is_context_invalid_host_error [simp]: "is_context_invalid (host_error ContextInvalid m)"
  by (simp add: is_context_invalid_def)

text \<open>The arms only ever turn a permit into the context-invalid deny.\<close>

lemma enforced_arm_verdict:
  assumes "enforced_arm x ctx meta ei v d = (i, v', d')"
  shows "(v' = v \<and> d' = d)
    \<or> (permits (v_decision v) \<and> is_context_invalid v' \<and> d' = None \<and> i = None)"
  using assms context_identity_failure [of x ctx]
  by (auto simp: enforced_arm_def split: if_splits option.splits sum.splits)

lemma finalize_simps [simp]:
  "r_mode (finalize x ctx v mode meta) = mode"
  "r_identity_provider (finalize x ctx v mode meta) = m_identity_provider meta"
  "r_verdicts (finalize x ctx v mode meta) = m_verdicts meta"
  "r_resolved_by (finalize x ctx v mode meta) = m_resolved_by meta"
  "r_fold_truncated (finalize x ctx v mode meta) = m_fold_truncated meta"
  "r_registered (finalize x ctx v mode meta) = m_registered meta"
  "r_composition (finalize x ctx v mode meta) = with_knob_defaults (m_composition meta)"
  "r_declaration (finalize x ctx v mode meta) = m_declaration meta"
  by (simp_all add: finalize_def Let_def split_beta)

lemma finalize_payload_free: "payload_free (r_verdict (finalize x ctx v mode meta))"
  by (simp add: finalize_def Let_def split_beta payload_free_projection_ok)

lemma finalize_envelope_ok:
  assumes "validate_envelope ctx = Inr ()" and "enforced_arm x ctx meta False v (m_decided_by meta) = (i, v', d')"
  shows "r_verdict (finalize x ctx v mode meta) = payload_free_projection v'"
    and "r_enforced_identity (finalize x ctx v mode meta) = i"
    and "r_decided_by (finalize x ctx v mode meta) = d'"
    and "r_input_identity (finalize x ctx v mode meta) = m_input_identity meta"
  using assms by (simp_all add: finalize_def Let_def)

lemma finalize_envelope_bad:
  assumes "validate_envelope ctx = Inl e"
  shows "is_context_invalid (r_verdict (finalize x ctx v mode meta))"
    and "r_input_identity (finalize x ctx v mode meta) = None"
    and "r_enforced_identity (finalize x ctx v mode meta) = None"
  using assms envelope_failure [OF assms]
  by (cases e; simp add: finalize_def Let_def enforced_arm_def is_context_invalid_def)+

text \<open>A permit on the record was a permit in the composition.\<close>

lemma finalize_permits:
  assumes "permits (v_decision (r_verdict (finalize x ctx v mode meta)))"
  shows "validate_envelope ctx = Inr ()" and "permits (v_decision v)"
    and "r_verdict (finalize x ctx v mode meta) = payload_free_projection v"
proof -
  show env: "validate_envelope ctx = Inr ()"
  proof (cases "validate_envelope ctx")
    case (Inl e)
    from finalize_envelope_bad(1) [OF this, of x v mode meta] assms show ?thesis
      by (simp add: is_context_invalid_def permits_iff)
  qed simp
  obtain i v' d' where arm: "enforced_arm x ctx meta False v (m_decided_by meta) = (i, v', d')"
    by (metis prod_cases3)
  note r = finalize_envelope_ok(1) [OF env arm, of mode]
  from enforced_arm_verdict [OF arm] r assms have "v' = v"
    by (auto simp: is_context_invalid_def permits_iff)
  with r assms show "permits (v_decision v)"
    "r_verdict (finalize x ctx v mode meta) = payload_free_projection v" by simp_all
qed

end
