(* ===== verification/Emitter.thy ===== *)
theory Emitter
  imports Enforce
begin

text \<open>
  \<open>emitter.rs\<close>, the host-side emitter: registration, one emission (envelope check,
  input identity, dispatch by profile, approval seam, finalize, delivery). Host callbacks
  are parameters: an interceptor, a resolver or a notifier is a function that sees every
  event of the emission so far (so it may keep state) and says how its call ended. The
  events, the calls into host code in order, are threaded through as a log.
\<close>

section \<open>Callbacks and events\<close>

text \<open>\<open>ManagedInterceptorOutcome\<close>.\<close>

datatype managed_outcome =
  MVerdict verdict | MTimeout | MCancelled | MFailed "string option"

datatype approval_outcome = Approve | Reject | Unresolved

record approval_request =
  q_context_identity :: "string option"
  q_point :: interception_point
  q_verdict :: verdict
  q_context :: object

record approval_resolution =
  a_outcome :: approval_outcome
  a_context_identity :: "string option"
  a_verdict :: "verdict option"

record notice =
  n_point :: "interception_point option"
  n_index :: nat
  n_binding :: string
  n_reason :: string
  n_message :: string

datatype event =
    Invoked nat object
  | Notified notice
  | Consulted approval_request
  | Delivered interception_record

text \<open>
  \<open>run\<close> is \<open>None\<close> when the call panics; \<open>overruns\<close> says whether
  \<open>tokio::time::timeout\<close> gives up on it under a bound in milliseconds.
\<close>

record std_interceptor =
  run :: "event list \<Rightarrow> object \<Rightarrow> verdict option"
  overruns :: "event list \<Rightarrow> object \<Rightarrow> nat \<Rightarrow> bool"

type_synonym managed_interceptor = "event list \<Rightarrow> object \<Rightarrow> nat option \<Rightarrow> managed_outcome option"

record resolver =
  resolve_call :: "event list \<Rightarrow> approval_request \<Rightarrow> approval_resolution option"
  resolver_overruns :: "event list \<Rightarrow> approval_request \<Rightarrow> nat \<Rightarrow> bool"

text \<open>A notifier call returns (\<open>True\<close>) or panics (\<open>False\<close>).\<close>

type_synonym notifier = "event list \<Rightarrow> notice \<Rightarrow> bool"

text \<open>A redactor or an identity function is pure; \<open>None\<close> is a panic.\<close>

type_synonym redactor = "object \<Rightarrow> object option"

datatype identity_provider =
  JcsSha256 | NullIdentity | CustomIdentity string "object \<Rightarrow> string option"

datatype bound_timeout = Inherit | Unbounded | Bounded nat

datatype bound_interceptor = Standard std_interceptor | Managed managed_interceptor

record bound =
  b_interceptor :: bound_interceptor
  b_name :: "string option"
  b_at :: "interception_point set option"
  b_timeout :: bound_timeout
  b_on_error :: on_error

text \<open>\<open>e_tokio\<close> is the build's \<open>tokio-timeout\<close> feature; \<open>e_sink\<close>
  says whether a record sink is set (its panics are swallowed, so it has no other effect).\<close>

record emitter =
  e_interceptors :: "bound list"
  e_resolver :: "resolver option"
  e_mode :: enforcement_mode
  e_composition :: composition_config
  e_identity :: identity_provider
  e_redactor :: "redactor option"
  e_timeout :: "nat option"
  e_resolver_timeout :: "nat option"
  e_sink :: bool
  e_notifier :: "notifier option"
  e_max_records :: "nat option"
  e_records_dropped :: nat
  e_records :: "interception_record list"
  e_sealed :: bool
  e_spec :: spec_version
  e_declaration :: "string option"
  e_tokio :: bool

definition new_emitter :: "bool \<Rightarrow> spec_version \<Rightarrow> enforcement_mode \<Rightarrow> resolver option \<Rightarrow> emitter" where
  "new_emitter tokio spec mode res =
     \<lparr>e_interceptors = [], e_resolver = res, e_mode = mode, e_composition = default_composition,
      e_identity = JcsSha256, e_redactor = None, e_timeout = None, e_resolver_timeout = None,
      e_sink = False, e_notifier = None, e_max_records = None, e_records_dropped = 0,
      e_records = [], e_sealed = False, e_spec = spec, e_declaration = None, e_tokio = tokio\<rparr>"

section \<open>Identity providers\<close>

definition validate_provider_name :: "string \<Rightarrow> failure + unit" where
  "validate_provider_name name =
     (let head_ok = (case name of [] \<Rightarrow> False | c # _ \<Rightarrow> is_lower c);
          rest_ok = list_all (\<lambda>c. is_lower c \<or> is_digit c \<or> c = CHR ''_'' \<or> c = CHR ''-'') (tl name)
      in if \<not> head_ok \<or> \<not> rest_ok
         then Inl (ContextInvalid, ''identity provider name must match ^[a-z][a-z0-9_-]*$ (see spec 10.1)'')
         else if starts_with ''jcs'' name
         then Inl (ContextInvalid,
           ''identity provider names beginning with '' @ [CHR 0x27] @ ''jcs'' @ [CHR 0x27]
             @ '' are reserved (see spec 10.1)'')
         else Inr ())"

fun identity_name :: "identity_provider \<Rightarrow> string option" where
  "identity_name JcsSha256 = Some JCS_SHA256"
| "identity_name NullIdentity = None"
| "identity_name (CustomIdentity name _) = Some name"

fun identity_compute :: "externs \<Rightarrow> identity_provider \<Rightarrow> object \<Rightarrow> failure + string option" where
  "identity_compute x JcsSha256 ctx = res_bind (context_identity x ctx) (\<lambda>i. Inr (Some i))"
| "identity_compute x NullIdentity ctx = Inr None"
| "identity_compute x (CustomIdentity _ f) ctx =
     (case f ctx of
        Some i \<Rightarrow> Inr (Some i)
      | None \<Rightarrow> Inl (ContextInvalid, ''identity provider failed (see spec '' @ sect @ ''10.1)''))"

section \<open>Configuration\<close>

datatype config_error =
    Panicked string
  | RegistrationError string
  | ProviderName failure

text \<open>\<open>unsealed\<close> asserts: on a declaration-built emitter the setter panics.\<close>

definition unsealed :: "emitter \<Rightarrow> string \<Rightarrow> config_error + unit" where
  "unsealed em what =
     (if e_sealed em
      then Inl (Panicked (what @ '': this emitter was built from a host declaration and is sealed (see spec ''
        @ sect @ ''7.7.7)''))
      else Inr ())"

definition set_composition :: "composition_config \<Rightarrow> emitter \<Rightarrow> config_error + emitter" where
  "set_composition c em = res_bind (unsealed em ''set_composition'') (\<lambda>_. Inr (em\<lparr>e_composition := c\<rparr>))"

definition set_identity_provider :: "identity_provider \<Rightarrow> emitter \<Rightarrow> config_error + emitter" where
  "set_identity_provider p em =
     res_bind (unsealed em ''set_identity_provider'') (\<lambda>_.
       case p of
         CustomIdentity name _ \<Rightarrow>
           (case validate_provider_name name of
              Inl f \<Rightarrow> Inl (ProviderName f)
            | Inr _ \<Rightarrow> Inr (em\<lparr>e_identity := p\<rparr>))
       | _ \<Rightarrow> Inr (em\<lparr>e_identity := p\<rparr>))"

definition set_record_sink :: "emitter \<Rightarrow> emitter" where
  "set_record_sink em = em\<lparr>e_sink := True\<rparr>"

definition set_control_failure_notifier :: "notifier \<Rightarrow> emitter \<Rightarrow> emitter" where
  "set_control_failure_notifier f em = em\<lparr>e_notifier := Some f\<rparr>"

definition set_max_records :: "nat \<Rightarrow> emitter \<Rightarrow> config_error + emitter" where
  "set_max_records m em = res_bind (unsealed em ''set_max_records'') (\<lambda>_. Inr (em\<lparr>e_max_records := Some m\<rparr>))"

definition set_timeout :: "nat \<Rightarrow> emitter \<Rightarrow> config_error + emitter" where
  "set_timeout d em = res_bind (unsealed em ''set_timeout'') (\<lambda>_. Inr (em\<lparr>e_timeout := Some d\<rparr>))"

definition set_approval_redactor :: "redactor \<Rightarrow> emitter \<Rightarrow> config_error + emitter" where
  "set_approval_redactor f em =
     res_bind (unsealed em ''set_approval_redactor'') (\<lambda>_. Inr (em\<lparr>e_redactor := Some f\<rparr>))"

definition take_records :: "emitter \<Rightarrow> interception_record list \<times> emitter" where
  "take_records em = (e_records em, em\<lparr>e_records := []\<rparr>)"

record registration_options =
  o_name :: "string option"
  o_at :: "interception_point set option"
  o_on_error :: on_error

definition default_options :: registration_options where
  "default_options = \<lparr>o_name = None, o_at = None, o_on_error = OE_Deny\<rparr>"

definition push_bound :: "bound_interceptor \<Rightarrow> registration_options \<Rightarrow> emitter \<Rightarrow> config_error + emitter" where
  "push_bound i opts em =
     res_bind (unsealed em ''register'') (\<lambda>_.
       let label = (case o_name opts of None \<Rightarrow> ''unnamed registration'' | Some n \<Rightarrow> n) in
       if o_on_error opts = OE_Continue \<and> \<not> has_failure_posture (e_spec em)
       then Inl (RegistrationError (label @ '': on_error is continue, which '' @ spec_wire (e_spec em)
         @ '' does not define; only an emitter under '' @ spec_wire Draft @ '' accepts it (see spec 6.3.1)''))
       else if o_on_error opts = OE_Continue \<and> e_notifier em = None
       then Inl (RegistrationError (label
         @ '': on_error is continue but the emitter has no control failure notifier; ''
         @ ''call set_control_failure_notifier first (see spec 6.3)''))
       else Inr (em\<lparr>e_interceptors := e_interceptors em @
         [\<lparr>b_interceptor = i, b_name = o_name opts, b_at = o_at opts, b_timeout = Inherit,
           b_on_error = o_on_error opts\<rparr>]\<rparr>))"

definition register_at ::
  "std_interceptor \<Rightarrow> string option \<Rightarrow> interception_point set option \<Rightarrow> emitter \<Rightarrow> config_error + emitter" where
  "register_at i name at em =
     push_bound (Standard i) \<lparr>o_name = name, o_at = at, o_on_error = OE_Deny\<rparr> em"

definition register :: "std_interceptor \<Rightarrow> emitter \<Rightarrow> config_error + emitter" where
  "register i = register_at i None None"

definition register_with_options ::
  "std_interceptor \<Rightarrow> registration_options \<Rightarrow> emitter \<Rightarrow> config_error + emitter" where
  "register_with_options i = push_bound (Standard i)"

definition register_managed ::
  "managed_interceptor \<Rightarrow> registration_options \<Rightarrow> emitter \<Rightarrow> config_error + emitter" where
  "register_managed m = push_bound (Managed m)"

definition point_of :: "object \<Rightarrow> interception_point option" where
  "point_of ctx = Option.bind (get_str ctx ''interception_point'') point_from_str"

definition runs_at :: "bound \<Rightarrow> interception_point option \<Rightarrow> bool" where
  "runs_at b point =
     (case (b_at b, point) of
        (None, _) \<Rightarrow> True
      | (Some s, Some p) \<Rightarrow> p \<in> s
      | (Some _, None) \<Rightarrow> True)"

definition active :: "emitter \<Rightarrow> object \<Rightarrow> bound list" where
  "active em ctx = filter (\<lambda>b. runs_at b (point_of ctx)) (e_interceptors em)"

definition limit :: "emitter \<Rightarrow> bound \<Rightarrow> nat option" where
  "limit em b =
     (case b_timeout b of Inherit \<Rightarrow> e_timeout em | Unbounded \<Rightarrow> None | Bounded d \<Rightarrow> Some d)"

section \<open>One interceptor call\<close>

record call_failure =
  cf_reason :: host_error
  cf_detail :: "string option"
  cf_continuable :: bool

definition covered :: "host_error \<Rightarrow> string option \<Rightarrow> call_failure" where
  "covered r d = \<lparr>cf_reason = r, cf_detail = d, cf_continuable = True\<rparr>"

definition call_isolated ::
  "emitter \<Rightarrow> bound \<Rightarrow> object \<Rightarrow> event list \<Rightarrow> call_failure + verdict" where
  "call_isolated em b ctx log =
     (case b_interceptor b of
        Managed m \<Rightarrow>
          (case m log ctx (limit em b) of
             None \<Rightarrow> Inl (covered InterceptorFailed (Some ''managed interceptor panicked (see spec 6.3)''))
           | Some (MVerdict v) \<Rightarrow> Inr v
           | Some MTimeout \<Rightarrow> Inl (covered InterceptorTimeout None)
           | Some MCancelled \<Rightarrow>
               Inl \<lparr>cf_reason = InterceptorFailed,
                    cf_detail = Some ''managed interceptor was cancelled (see spec 6.3)'',
                    cf_continuable = False\<rparr>
           | Some (MFailed d) \<Rightarrow> Inl (covered InterceptorFailed d))
      | Standard i \<Rightarrow>
          (if e_tokio em \<and> opt_holds (overruns i log ctx) (limit em b)
           then Inl (covered InterceptorTimeout None)
           else (case run i log ctx of
                   Some v \<Rightarrow> Inr v
                 | None \<Rightarrow> Inl (covered InterceptorFailed
                     (Some (''interceptor panicked (see spec '' @ sect @ ''6.3)''))))))"

record settled =
  st_verdict :: verdict
  st_substituted_for :: "string option"

definition settle ::
  "emitter \<Rightarrow> object \<Rightarrow> nat \<Rightarrow> bound \<Rightarrow> call_failure \<Rightarrow> event list \<Rightarrow> settled \<times> event list" where
  "settle em ctx idx b f log =
     (let deny = (\<lambda>d. \<lparr>st_verdict = host_error (cf_reason f) d, st_substituted_for = None\<rparr>) in
      if b_on_error b \<noteq> OE_Continue \<or> \<not> cf_continuable f then (deny (cf_detail f), log)
      else
        let binding = (case b_name b of Some n \<Rightarrow> n | None \<Rightarrow> ''interceptor-'' @ dec idx);
            notice = \<lparr>n_point = point_of ctx, n_index = idx, n_binding = binding,
                      n_reason = host_error_str (cf_reason f),
                      n_message = control_failure_message binding (cf_reason f)\<rparr>
        in case e_notifier em of
             None \<Rightarrow>
               (deny (Some (''on_error: continue without a control failure notifier; ''
                  @ ''the deny stands (see spec 6.3)'')), log)
           | Some notify \<Rightarrow>
               if \<not> notify log notice
               then (deny (Some ''control failure notifier panicked; the deny stands (see spec 6.3)''),
                     log @ [Notified notice])
               else (\<lparr>st_verdict = control_failure_substitute binding (cf_reason f),
                      st_substituted_for = Some (host_error_str (cf_reason f))\<rparr>,
                     log @ [Notified notice]))"

definition invoke ::
  "externs \<Rightarrow> emitter \<Rightarrow> object \<Rightarrow> nat \<Rightarrow> bound \<Rightarrow> event list \<Rightarrow> settled \<times> event list" where
  "invoke x em ctx idx b log =
     (let log' = log @ [Invoked idx ctx] in
      case call_isolated em b ctx log of
        Inr v \<Rightarrow>
          if res_ok (validate (ext_f64 x) (e_spec em) v)
          then (\<lparr>st_verdict = v, st_substituted_for = None\<rparr>, log')
          else settle em ctx idx b (covered VerdictInvalid None) log'
      | Inl f \<Rightarrow> settle em ctx idx b f log')"

section \<open>The approval seam\<close>

datatype consultation = NotConsulted | Substituted verdict bool

definition failed :: "host_error \<Rightarrow> string option \<Rightarrow> consultation" where
  "failed e d = Substituted (host_error e d) False"

definition judge_resolution ::
  "externs \<Rightarrow> emitter \<Rightarrow> string option \<Rightarrow> approval_resolution \<Rightarrow> consultation" where
  "judge_resolution x em identity res =
     (if a_context_identity res \<noteq> identity then failed ApprovalIdentityMismatch None
      else case a_verdict res of
        None \<Rightarrow> failed ApprovalUnresolved None
      | Some rv \<Rightarrow>
          if a_outcome res = Unresolved then failed ApprovalUnresolved None
          else if \<not> res_ok (validate (ext_f64 x) (e_spec em) rv) then failed VerdictInvalid None
          else if a_outcome res = Approve
            then if permits (v_decision rv) then Substituted rv True else failed VerdictInvalid None
          else if v_decision rv = Deny then Substituted rv False else failed VerdictInvalid None)"

definition consult ::
  "externs \<Rightarrow> emitter \<Rightarrow> object \<Rightarrow> verdict \<Rightarrow> event list \<Rightarrow> consultation \<times> event list" where
  "consult x em ctx v log =
     (if \<not> is_liftable v \<or> e_mode em \<noteq> Enforce then (NotConsulted, log)
      else if get_str ctx ''interception_point'' = Some ''agent_shutdown'' then (NotConsulted, log)
      else case e_resolver em of
        None \<Rightarrow> (NotConsulted, log)
      | Some resolver \<Rightarrow>
          (case (case e_redactor em of None \<Rightarrow> Some ctx | Some f \<Rightarrow> f ctx) of
             None \<Rightarrow>
               (failed ApprovalResolverFailed
                  (Some (''approval redactor panicked (see spec '' @ sect @ ''9)'')), log)
           | Some presented \<Rightarrow>
               (case identity_compute x (e_identity em) presented of
                  Inl (e, detail) \<Rightarrow> (failed e (Some detail), log)
                | Inr identity \<Rightarrow>
                    let request = \<lparr>q_context_identity = identity,
                          q_point = (case point_of ctx of None \<Rightarrow> AgentStartup | Some p \<Rightarrow> p),
                          q_verdict = v, q_context = presented\<rparr>;
                        log' = log @ [Consulted request]
                    in if e_tokio em \<and> opt_holds (resolver_overruns resolver log request) (e_resolver_timeout em)
                       then (failed ApprovalResolverFailed
                               (Some (''resolver timed out (see spec '' @ sect @ ''9)'')), log')
                       else (case resolve_call resolver log request of
                               None \<Rightarrow> (failed ApprovalResolverFailed
                                 (Some (''resolver panicked (see spec '' @ sect @ ''9)'')), log')
                             | Some res \<Rightarrow> (judge_resolution x em identity res, log')))))"

section \<open>Folding a transform\<close>

definition fold_transform :: "emitter \<Rightarrow> object \<Rightarrow> verdict \<Rightarrow> verdict \<times> object" where
  "fold_transform em ctx v =
     (case v_transform v of
        None \<Rightarrow> (host_error TransformInvalid None, ctx)
      | Some t \<Rightarrow>
          (case e_mode em of
             Enforce \<Rightarrow>
               (case apply_transform_to_ctx ctx t of
                  Inr ctx' \<Rightarrow> (v, ctx')
                | Inl e \<Rightarrow> (host_error e (Some (t_path t)), ctx))
           | EvaluateOnly \<Rightarrow>
               (case validate_transform ctx t of
                  Inr _ \<Rightarrow> (v, ctx)
                | Inl e \<Rightarrow> (host_error e (Some (t_path t)), ctx))))"

end
