(* ===== verification/Dispatch.thy ===== *)
theory Dispatch
  imports Emitter
begin

text \<open>
  \<open>emitter.rs\<close>, the composition profiles: the three dispatch loops over the bound
  interceptors of a point, the shared aggregation and approval handling, and \<open>dispatch\<close>
  which picks the profile. The context the code mutates through \<open>&mut\<close> and the event
  log are passed in and returned.
\<close>

section \<open>Outcomes\<close>

record outcome =
  d_combined :: verdict
  d_decided_by :: "nat option"
  d_verdicts :: "verdict_summary list"
  d_fold_truncated :: "bool option"
  d_resolved_by :: "string option"

type_synonym 'a emission = "'a \<times> object \<times> event list"

definition synthesized :: "host_error \<Rightarrow> string option \<Rightarrow> outcome" where
  "synthesized e d =
     \<lparr>d_combined = host_error e d, d_decided_by = None, d_verdicts = [],
      d_fold_truncated = None, d_resolved_by = None\<rparr>"

definition is_host_synthesized :: "verdict \<Rightarrow> bool" where
  "is_host_synthesized v \<longleftrightarrow> opt_holds (starts_with ''host_error:'') (v_reason v)"

definition summaries :: "verdict list \<Rightarrow> bound list \<Rightarrow> string option list \<Rightarrow> verdict_summary list" where
  "summaries verdicts act substituted =
     map (\<lambda>s. if s_index s < length substituted
              then (case substituted ! s_index s of
                      Some reason \<Rightarrow> s\<lparr>s_substituted_for := Some reason\<rparr>
                    | None \<Rightarrow> s)
              else s)
       (summaries_named verdicts (map b_name act))"

definition resolution_name :: "bool \<Rightarrow> string" where
  "resolution_name permitted = (if permitted then ''approval'' else ''rejection'')"

text \<open>An approved resolution's transform folds like an interceptor's.\<close>

definition fold_resolution :: "emitter \<Rightarrow> object \<Rightarrow> verdict \<Rightarrow> verdict \<times> object" where
  "fold_resolution em ctx v = (if v_decision v = Transform then fold_transform em ctx v else (v, ctx))"

section \<open>Sequential, first deny\<close>

record fold_state =
  f_verdicts :: "verdict list"
  f_substituted :: "string option list"
  f_pool :: "verdict list"
  f_last :: "(nat \<times> verdict) option"
  f_resolved :: "string option"

definition fold_start :: fold_state where
  "fold_start = \<lparr>f_verdicts = [], f_substituted = [], f_pool = [], f_last = None, f_resolved = None\<rparr>"

text \<open>The early returns of the loop body share their metadata.\<close>

definition stop_at :: "bound list \<Rightarrow> nat \<Rightarrow> fold_state \<Rightarrow> verdict \<Rightarrow> nat option \<Rightarrow> outcome" where
  "stop_at act i s combined decided =
     \<lparr>d_combined = combined, d_decided_by = decided,
      d_verdicts = summaries (f_verdicts s) act (f_substituted s),
      d_fold_truncated = Some (i + 1 < length act), d_resolved_by = f_resolved s\<rparr>"

text \<open>What follows a permitted resolution: it folds, then the emission stops or resumes.\<close>

definition first_deny_approved ::
  "emitter \<Rightarrow> bound list \<Rightarrow> on_approval \<Rightarrow> nat \<Rightarrow> fold_state \<Rightarrow> verdict \<Rightarrow> object \<Rightarrow> event list
     \<Rightarrow> (outcome + fold_state) emission" where
  "first_deny_approved em act knob i s verdict ctx log =
     (let (sub, ctx') = fold_resolution em ctx verdict in
      if \<not> permits (v_decision sub) then (Inl (stop_at act i s sub None), ctx', log)
      else
        let s' = s\<lparr>f_pool := f_pool s @ [sub]\<rparr> in
        case knob of
          Stop \<Rightarrow> (Inl (stop_at act i s' (with_unions sub (f_pool s')) (Some i)), ctx', log)
        | Resume \<Rightarrow>
            (Inr (if v_decision sub = Transform then s'\<lparr>f_last := Some (i, sub)\<rparr> else s'), ctx', log))"

text \<open>The deny arm: consult, and stop unless the resolution permits.\<close>

definition first_deny_denied ::
  "externs \<Rightarrow> emitter \<Rightarrow> bound list \<Rightarrow> on_approval \<Rightarrow> nat \<Rightarrow> fold_state \<Rightarrow> verdict \<Rightarrow> object \<Rightarrow> event list
     \<Rightarrow> (outcome + fold_state) emission" where
  "first_deny_denied x em act knob i s v ctx log =
     (case consult x em ctx v log of
        (NotConsulted, log') \<Rightarrow>
          (Inl (stop_at act i s (with_unions v (f_pool s)) (Some i)), ctx, log')
      | (Substituted verdict permitted, log') \<Rightarrow>
          let s' = s\<lparr>f_resolved := Some (resolution_name permitted)\<rparr> in
          if \<not> permitted
          then (Inl (stop_at act i s' (with_unions verdict (f_pool s'))
                  (if is_host_synthesized verdict then None else Some i)), ctx, log')
          else first_deny_approved em act knob i s' verdict ctx log')"

definition first_deny_match ::
  "externs \<Rightarrow> emitter \<Rightarrow> bound list \<Rightarrow> on_approval \<Rightarrow> nat \<Rightarrow> fold_state \<Rightarrow> verdict \<Rightarrow> object \<Rightarrow> event list
     \<Rightarrow> (outcome + fold_state) emission" where
  "first_deny_match x em act knob i s v ctx log =
     (if is_host_synthesized v
      then (Inl (stop_at act i s (with_unions v (f_pool s)) (Some i)), ctx, log)
      else case v_decision v of
        Deny \<Rightarrow> first_deny_denied x em act knob i s v ctx log
      | Transform \<Rightarrow>
          (let (v', ctx') = fold_transform em ctx v in
           if \<not> permits (v_decision v') then (Inl (stop_at act i s v' None), ctx', log)
           else (Inr (s\<lparr>f_last := Some (i, v')\<rparr>), ctx', log))
      | Allow \<Rightarrow> (Inr s, ctx, log))"

definition push_settled :: "settled \<Rightarrow> fold_state \<Rightarrow> fold_state" where
  "push_settled st s =
     s\<lparr>f_verdicts := f_verdicts s @ [st_verdict st],
       f_substituted := f_substituted s @ [st_substituted_for st],
       f_pool := f_pool s @ [st_verdict st]\<rparr>"

definition first_deny_step ::
  "externs \<Rightarrow> emitter \<Rightarrow> bound list \<Rightarrow> on_approval \<Rightarrow> nat \<Rightarrow> bound \<Rightarrow> fold_state \<Rightarrow> object \<Rightarrow> event list
     \<Rightarrow> (outcome + fold_state) emission" where
  "first_deny_step x em act knob i b s ctx log =
     (let (st, log1) = invoke x em ctx i b log in
      first_deny_match x em act knob i (push_settled st s) (st_verdict st) ctx log1)"

fun first_deny_loop ::
  "externs \<Rightarrow> emitter \<Rightarrow> bound list \<Rightarrow> on_approval \<Rightarrow> nat \<Rightarrow> bound list \<Rightarrow> fold_state \<Rightarrow> object \<Rightarrow> event list
     \<Rightarrow> (outcome + fold_state) emission" where
  "first_deny_loop x em act knob i [] s ctx log = (Inr s, ctx, log)"
| "first_deny_loop x em act knob i (b # bs) s ctx log =
     (case first_deny_step x em act knob i b s ctx log of
        (Inl d, ctx', log') \<Rightarrow> (Inl d, ctx', log')
      | (Inr s', ctx', log') \<Rightarrow> first_deny_loop x em act knob (Suc i) bs s' ctx' log')"

definition fold_finish :: "bound list \<Rightarrow> fold_state \<Rightarrow> outcome" where
  "fold_finish act s =
     (let (combined, decided) =
            (case f_last s of Some (i, v) \<Rightarrow> (v, Some i) | None \<Rightarrow> (allow, None))
      in \<lparr>d_combined = with_unions combined (f_pool s), d_decided_by = decided,
          d_verdicts = summaries (f_verdicts s) act (f_substituted s),
          d_fold_truncated = Some False, d_resolved_by = f_resolved s\<rparr>)"

definition dispatch_first_deny ::
  "externs \<Rightarrow> emitter \<Rightarrow> object \<Rightarrow> bound list \<Rightarrow> event list \<Rightarrow> outcome emission" where
  "dispatch_first_deny x em ctx act log =
     (let knob = (case on_approval (e_composition em) of None \<Rightarrow> Stop | Some k \<Rightarrow> k) in
      case first_deny_loop x em act knob 0 act fold_start ctx log of
        (Inl d, ctx', log') \<Rightarrow> (d, ctx', log')
      | (Inr s, ctx', log') \<Rightarrow> (fold_finish act s, ctx', log'))"

section \<open>Synthesis and aggregation\<close>

text \<open>Decimal index lists as Rust's \<open>{:?}\<close> prints them.\<close>

definition debug_indices :: "nat list \<Rightarrow> string" where
  "debug_indices is =
     ''['' @ (case map dec is of [] \<Rightarrow> [] | s # ss \<Rightarrow> s @ concat (map (\<lambda>t. '', '' @ t) ss)) @ '']''"

definition synthesize_and_maybe_consult ::
  "externs \<Rightarrow> emitter \<Rightarrow> object \<Rightarrow> host_error \<Rightarrow> string \<Rightarrow> synthesis_policy \<Rightarrow> verdict list
     \<Rightarrow> string option \<Rightarrow> event list \<Rightarrow> (verdict \<times> string option) emission" where
  "synthesize_and_maybe_consult x em ctx err detail policy pool resolved log =
     (case policy of
        SP_Deny \<Rightarrow> ((with_unions (host_error err (Some detail)) pool, resolved), ctx, log)
      | SP_Approval \<Rightarrow>
          let liftable = host_error_liftable err (Some detail) in
          case consult x em ctx liftable log of
            (NotConsulted, log') \<Rightarrow> ((with_unions liftable pool, resolved), ctx, log')
          | (Substituted verdict permitted, log') \<Rightarrow>
              let resolved' = Some (resolution_name permitted) in
              if permitted then
                let (sub, ctx') = fold_resolution em ctx verdict in
                if permits (v_decision sub)
                then ((with_unions sub (pool @ [sub]), resolved'), ctx', log')
                else ((sub, resolved'), ctx', log')
              else ((with_unions verdict pool, resolved'), ctx, log'))"

text \<open>The winner of the aggregation is a deny.\<close>

definition deny_winner ::
  "externs \<Rightarrow> emitter \<Rightarrow> object \<Rightarrow> verdict list \<Rightarrow> nat \<Rightarrow> verdict_summary list \<Rightarrow> string option \<Rightarrow> event list
     \<Rightarrow> outcome emission" where
  "deny_winner x em ctx all i verdicts resolved log =
     (let winner = all ! i;
          out = (\<lambda>combined decided res.
            \<lparr>d_combined = combined, d_decided_by = decided, d_verdicts = verdicts,
             d_fold_truncated = None, d_resolved_by = res\<rparr>)
      in case consult x em ctx winner log of
           (NotConsulted, log') \<Rightarrow> (out (with_unions winner all) (Some i) resolved, ctx, log')
         | (Substituted verdict permitted, log') \<Rightarrow>
             let (combined, ctx') =
                   (if permitted then
                      let (sub, ctx') = fold_resolution em ctx verdict in
                      if permits (v_decision sub) then (with_unions sub (all @ [sub]), ctx')
                      else (sub, ctx')
                    else (with_unions verdict all, ctx))
             in (out combined (if is_host_synthesized verdict \<and> \<not> permitted then None else Some i)
                   (Some (resolution_name permitted)), ctx', log'))"

definition aggregate_and_consult ::
  "externs \<Rightarrow> emitter \<Rightarrow> object \<Rightarrow> verdict list \<Rightarrow> bool \<Rightarrow> string option \<Rightarrow> bound list \<Rightarrow> string option list
     \<Rightarrow> event list \<Rightarrow> outcome emission" where
  "aggregate_and_consult x em ctx all sequential resolved act substituted log =
     (let verdicts = summaries all act substituted;
          out = (\<lambda>combined decided res.
            \<lparr>d_combined = combined, d_decided_by = decided, d_verdicts = verdicts,
             d_fold_truncated = None, d_resolved_by = res\<rparr>)
      in case aggregate_strictest all sequential of
           TransformConflictAt idxs \<Rightarrow>
             let detail = ''conflicting transforms from interceptors '' @ debug_indices idxs;
                 policy = (case on_transform_conflict (e_composition em) of None \<Rightarrow> SP_Deny | Some p \<Rightarrow> p);
                 ((combined, res), ctx', log') =
                   synthesize_and_maybe_consult x em ctx TransformConflict detail policy all resolved log
             in (out combined None res, ctx', log')
         | Winner i \<Rightarrow>
             (let winner = all ! i in
              case v_decision winner of
                Deny \<Rightarrow> deny_winner x em ctx all i verdicts resolved log
              | Transform \<Rightarrow>
                  if sequential then (out (with_unions winner all) (Some i) resolved, ctx, log)
                  else
                    let (folded, ctx') = fold_transform em ctx winner in
                    if \<not> permits (v_decision folded) then (out folded None resolved, ctx', log)
                    else (out (with_unions folded all) (Some i) resolved, ctx', log)
              | Allow \<Rightarrow> (out (with_unions allow all) None resolved, ctx, log)))"

definition aggregate_unanimous ::
  "externs \<Rightarrow> emitter \<Rightarrow> object \<Rightarrow> verdict list \<Rightarrow> bound list \<Rightarrow> string option list \<Rightarrow> event list
     \<Rightarrow> outcome emission" where
  "aggregate_unanimous x em ctx all act substituted log =
     (let verdicts = summaries all act substituted;
          out = (\<lambda>combined res.
            \<lparr>d_combined = combined, d_decided_by = None, d_verdicts = verdicts,
             d_fold_truncated = None, d_resolved_by = res\<rparr>)
      in if is_unanimous_allow all then (out (with_unions allow all) None, ctx, log)
         else
           let policy = (case on_disagreement (e_composition em) of None \<Rightarrow> SP_Deny | Some p \<Rightarrow> p);
               ((combined, res), ctx', log') =
                 synthesize_and_maybe_consult x em ctx CompositionDisagreement
                   ''non-unanimous outcome under parallel/unanimous'' policy all None log
           in (out combined res, ctx', log'))"

section \<open>Run all, parallel, dispatch\<close>

text \<open>
  The loop of \<open>dispatch_run_all\<close>; \<open>Inl\<close> is its early return, with the
  verdicts so far in \<open>all\<close>.
\<close>

fun run_all_loop ::
  "externs \<Rightarrow> emitter \<Rightarrow> bound list \<Rightarrow> nat \<Rightarrow> bound list \<Rightarrow> verdict list \<Rightarrow> string option list
     \<Rightarrow> object \<Rightarrow> event list \<Rightarrow> (outcome + verdict list \<times> string option list) emission" where
  "run_all_loop x em act i [] all subs ctx log = (Inr (all, subs), ctx, log)"
| "run_all_loop x em act i (b # bs) all subs ctx log =
     (let (st, log1) = invoke x em ctx i b log;
          v = st_verdict st;
          subs1 = subs @ [st_substituted_for st]
      in if v_decision v = Transform then
           let (folded, ctx1) = fold_transform em ctx v in
           if \<not> permits (v_decision folded)
           then (Inl \<lparr>d_combined = folded, d_decided_by = None,
                      d_verdicts = summaries (all @ [folded]) act subs1,
                      d_fold_truncated = None, d_resolved_by = None\<rparr>, ctx1, log1)
           else run_all_loop x em act (Suc i) bs (all @ [folded]) subs1 ctx1 log1
         else run_all_loop x em act (Suc i) bs (all @ [v]) subs1 ctx log1)"

definition dispatch_run_all ::
  "externs \<Rightarrow> emitter \<Rightarrow> object \<Rightarrow> bound list \<Rightarrow> event list \<Rightarrow> outcome emission" where
  "dispatch_run_all x em ctx act log =
     (case run_all_loop x em act 0 act [] [] ctx log of
        (Inl d, ctx', log') \<Rightarrow> (d, ctx', log')
      | (Inr (all, subs), ctx', log') \<Rightarrow>
          aggregate_and_consult x em ctx' all True None act subs log')"

fun parallel_loop ::
  "externs \<Rightarrow> emitter \<Rightarrow> object \<Rightarrow> nat \<Rightarrow> bound list \<Rightarrow> verdict list \<Rightarrow> string option list \<Rightarrow> event list
     \<Rightarrow> verdict list \<times> string option list \<times> event list" where
  "parallel_loop x em snapshot i [] all subs log = (all, subs, log)"
| "parallel_loop x em snapshot i (b # bs) all subs log =
     (let (st, log1) = invoke x em snapshot i b log in
      parallel_loop x em snapshot (Suc i) bs (all @ [st_verdict st])
        (subs @ [st_substituted_for st]) log1)"

definition dispatch_parallel ::
  "externs \<Rightarrow> emitter \<Rightarrow> object \<Rightarrow> bound list \<Rightarrow> event list \<Rightarrow> outcome emission" where
  "dispatch_parallel x em ctx act log =
     (let (all, subs, log') = parallel_loop x em ctx 0 act [] [] log in
      if profile (e_composition em) = ParallelUnanimous
      then aggregate_unanimous x em ctx all act subs log'
      else aggregate_and_consult x em ctx all False None act subs log')"

definition dispatch :: "externs \<Rightarrow> emitter \<Rightarrow> object \<Rightarrow> event list \<Rightarrow> outcome emission" where
  "dispatch x em ctx log =
     (let act = active em ctx in
      if act = [] then (synthesized NoInterceptor None, ctx, log)
      else case profile (e_composition em) of
        SequentialFirstDeny \<Rightarrow> dispatch_first_deny x em ctx act log
      | SequentialRunAll \<Rightarrow> dispatch_run_all x em ctx act log
      | ParallelStrictest \<Rightarrow> dispatch_parallel x em ctx act log
      | ParallelUnanimous \<Rightarrow> dispatch_parallel x em ctx act log)"

section \<open>Frames\<close>

text \<open>
  A relation between the states (context and log) before and after part of an emission
  that holds across one fold, one call of an interceptor and one consultation, and that
  is reflexive and transitive, holds across the whole dispatch.
\<close>

locale emission_frame =
  fixes R :: "externs \<Rightarrow> emitter \<Rightarrow> object \<times> event list \<Rightarrow> object \<times> event list \<Rightarrow> bool"
  assumes R_refl: "R x em s s"
    and R_trans: "R x em s t \<Longrightarrow> R x em t u \<Longrightarrow> R x em s u"
    and R_fold: "fold_transform em c v = (v', c') \<Longrightarrow> R x em (c, l) (c', l)"
    and R_invoke: "b \<in> set (e_interceptors em) \<Longrightarrow> invoke x em c i b l = (st, l') \<Longrightarrow> R x em (c, l) (c, l')"
    and R_consult: "consult x em c v l = (k, l') \<Longrightarrow> R x em (c, l) (c, l')"
begin

lemma R_resolution: "fold_resolution em c v = (v', c') \<Longrightarrow> R x em (c, l) (c', l)"
  by (auto simp: fold_resolution_def R_refl split: if_splits intro: R_fold)

lemma R_approved:
  "first_deny_approved em act k i s v c l = (r, c', l') \<Longrightarrow> R x em (c, l) (c', l')"
  by (auto simp: first_deny_approved_def Let_def intro: R_resolution
      split: prod.splits if_splits on_approval.splits)

lemma R_denied:
  assumes "first_deny_denied x em act k i s v c l = (r, c', l')"
  shows "R x em (c, l) (c', l')"
proof -
  obtain q l1 where q: "consult x em c v l = (q, l1)" by (cases "consult x em c v l")
  note Rq = R_consult [OF q]
  show ?thesis
    using assms q Rq
    by (auto simp: first_deny_denied_def Let_def split: if_splits consultation.splits
        intro: R_trans [OF Rq] R_approved)
qed

lemma R_match: "first_deny_match x em act k i s v c l = (r, c', l') \<Longrightarrow> R x em (c, l) (c', l')"
  by (auto simp: first_deny_match_def R_refl split: if_splits decision.splits prod.splits
      intro: R_fold R_denied)

lemma R_step:
  assumes "b \<in> set (e_interceptors em)" and step: "first_deny_step x em act k i b s c l = (r, c', l')"
  shows "R x em (c, l) (c', l')"
proof -
  obtain st l1 where i: "invoke x em c i b l = (st, l1)" by (cases "invoke x em c i b l")
  with step have "first_deny_match x em act k i (push_settled st s) (st_verdict st) c l1 = (r, c', l')"
    by (simp add: first_deny_step_def)
  from R_trans [OF R_invoke [OF assms(1) i] R_match [OF this]] show ?thesis .
qed

lemma R_first_deny_loop:
  "set bs \<subseteq> set (e_interceptors em) \<Longrightarrow> first_deny_loop x em act k i bs s c l = (r, c', l')
     \<Longrightarrow> R x em (c, l) (c', l')"
proof (induction bs arbitrary: i s c l)
  case (Cons b bs)
  obtain q c1 l1 where st: "first_deny_step x em act k i b s c l = (q, c1, l1)"
    by (cases "first_deny_step x em act k i b s c l")
  have "R x em (c, l) (c1, l1)" using Cons.prems(1) by (intro R_step [OF _ st]) simp
  with Cons st show ?case by (cases q) (auto intro: R_trans)
qed (simp add: R_refl)

lemma R_synthesize:
  assumes "synthesize_and_maybe_consult x em c e d p pool r l = (z, c', l')"
  shows "R x em (c, l) (c', l')"
proof -
  obtain q l1 where q: "consult x em c (host_error_liftable e (Some d)) l = (q, l1)"
    by (cases "consult x em c (host_error_liftable e (Some d)) l")
  note Rq = R_consult [OF q]
  show ?thesis
    using assms q Rq
    by (auto simp: synthesize_and_maybe_consult_def Let_def R_refl
        split: synthesis_policy.splits consultation.splits if_splits prod.splits
        intro: R_trans [OF Rq] R_resolution)
qed

lemma R_deny_winner:
  assumes "deny_winner x em c all i vs r l = (z, c', l')"
  shows "R x em (c, l) (c', l')"
proof -
  obtain q l1 where q: "consult x em c (all ! i) l = (q, l1)" by (cases "consult x em c (all ! i) l")
  note Rq = R_consult [OF q]
  show ?thesis
    using assms q Rq
    by (auto simp: deny_winner_def Let_def split: consultation.splits if_splits prod.splits
        intro: R_trans [OF Rq] R_resolution)
qed

lemma R_aggregate:
  assumes "aggregate_and_consult x em c all sq r act subs l = (z, c', l')"
  shows "R x em (c, l) (c', l')"
  using assms
  by (auto simp: aggregate_and_consult_def Let_def R_refl
      split: aggregate.splits decision.splits if_splits prod.splits
      intro: R_synthesize R_deny_winner R_fold)

lemma R_unanimous:
  assumes "aggregate_unanimous x em c all act subs l = (z, c', l')"
  shows "R x em (c, l) (c', l')"
  using assms
  by (auto simp: aggregate_unanimous_def Let_def R_refl split: if_splits prod.splits intro: R_synthesize)

lemma R_run_all_loop:
  "set bs \<subseteq> set (e_interceptors em) \<Longrightarrow> run_all_loop x em act i bs all subs c l = (r, c', l')
     \<Longrightarrow> R x em (c, l) (c', l')"
proof (induction bs arbitrary: i all subs c l)
  case (Cons b bs)
  obtain st l1 where i: "invoke x em c i b l = (st, l1)" by (cases "invoke x em c i b l")
  obtain v' c1 where f: "fold_transform em c (st_verdict st) = (v', c1)"
    by (cases "fold_transform em c (st_verdict st)")
  have Ri: "R x em (c, l) (c, l1)" using Cons.prems(1) by (intro R_invoke [OF _ i]) simp
  have Rf: "R x em (c, l) (c1, l1)" by (rule R_trans [OF Ri R_fold [OF f]])
  show ?case
    using Cons.prems i f Cons.IH Rf Ri by (auto simp: Let_def split: if_splits intro: R_trans)
qed (simp add: R_refl)

lemma R_parallel_loop:
  "set bs \<subseteq> set (e_interceptors em) \<Longrightarrow> parallel_loop x em c i bs all subs l = (all', subs', l')
     \<Longrightarrow> R x em (c, l) (c, l')"
proof (induction bs arbitrary: i all subs l)
  case (Cons b bs)
  obtain st l1 where i: "invoke x em c i b l = (st, l1)" by (cases "invoke x em c i b l")
  have "R x em (c, l) (c, l1)" using Cons.prems(1) by (intro R_invoke [OF _ i]) simp
  with Cons i show ?case by (auto intro: R_trans)
qed (simp add: R_refl)

lemma R_first_deny:
  assumes "set act \<subseteq> set (e_interceptors em)" "dispatch_first_deny x em c act l = (z, c', l')"
  shows "R x em (c, l) (c', l')"
  using assms R_first_deny_loop [OF assms(1)]
  by (auto simp: dispatch_first_deny_def Let_def split: prod.splits sum.splits)

lemma R_run_all:
  assumes "set act \<subseteq> set (e_interceptors em)" "dispatch_run_all x em c act l = (z, c', l')"
  shows "R x em (c, l) (c', l')"
proof -
  obtain r c1 l1 where r: "run_all_loop x em act 0 act [] [] c l = (r, c1, l1)"
    by (cases "run_all_loop x em act 0 act [] [] c l")
  note R1 = R_run_all_loop [OF assms(1) r]
  show ?thesis
    using assms(2) r R1
    by (auto simp: dispatch_run_all_def split: sum.splits intro: R_trans [OF R1] R_aggregate)
qed

lemma R_parallel:
  assumes "set act \<subseteq> set (e_interceptors em)" "dispatch_parallel x em c act l = (z, c', l')"
  shows "R x em (c, l) (c', l')"
proof -
  obtain all subs l1 where r: "parallel_loop x em c 0 act [] [] l = (all, subs, l1)"
    by (cases "parallel_loop x em c 0 act [] [] l")
  note R1 = R_parallel_loop [OF assms(1) r]
  show ?thesis
    using assms(2) r
    by (auto simp: dispatch_parallel_def split: if_splits intro: R_trans [OF R1] R_aggregate R_unanimous)
qed

lemma R_dispatch:
  assumes "dispatch x em c l = (z, c', l')"
  shows "R x em (c, l) (c', l')"
proof -
  have act: "set (active em c) \<subseteq> set (e_interceptors em)" by (auto simp: active_def)
  show ?thesis
    using assms R_first_deny [OF act] R_run_all [OF act] R_parallel [OF act]
    by (auto simp: dispatch_def Let_def R_refl split: if_splits composition_profile.splits)
qed

end

end
