(* ===== verification/Dispatch_Laws.thy ===== *)
theory Dispatch_Laws
  imports Dispatch
begin

text \<open>
  What dispatch guarantees under every profile: the frames that hold across it, as
  interpretations of \<open>emission_frame\<close>, and the soundness of its outcome: a permit
  rests on verdicts none of which denies, or on an approval the resolver gave under the
  echo rule.
\<close>

section \<open>Single steps\<close>

lemma invoke_log:
  assumes "invoke x em ctx i b l = (st, l')"
  obtains "l' = l @ [Invoked i ctx]"
  | n where "l' = l @ [Invoked i ctx, Notified n]" "b_on_error b = OE_Continue" "e_notifier em \<noteq> None"
  using assms
  by (auto simp: invoke_def settle_def Let_def split: sum.splits if_splits option.splits)

lemma consult_not: "consult x em c v l = (NotConsulted, l') \<Longrightarrow> l' = l"
  by (auto simp: consult_def Let_def failed_def judge_resolution_def
      split: if_splits option.splits sum.splits)

lemma consult_enforce: "e_mode em \<noteq> Enforce \<Longrightarrow> consult x em c v l = (NotConsulted, l)"
  by (simp add: consult_def)

text \<open>An approval the code may act on: who was asked what, and how the answer echoes it.\<close>

definition approval_given :: "externs \<Rightarrow> emitter \<Rightarrow> event list \<Rightarrow> approval_request \<Rightarrow> verdict \<Rightarrow> bool" where
  "approval_given x em pre q rv \<longleftrightarrow>
     (\<exists>r res. e_resolver em = Some r \<and> resolve_call r pre q = Some res
        \<and> a_outcome res = Approve \<and> a_context_identity res = q_context_identity q
        \<and> a_verdict res = Some rv \<and> permits (v_decision rv) \<and> gate_ok (ext_f64 x) (e_spec em) rv)
     \<and> identity_compute x (e_identity em) (q_context q) = Inr (q_context_identity q)
     \<and> is_liftable (q_verdict q) \<and> e_mode em = Enforce"

lemma judge_approved:
  "judge_resolution x em i res = Substituted rv True \<longleftrightarrow>
     a_context_identity res = i \<and> a_outcome res = Approve \<and> a_verdict res = Some rv
     \<and> permits (v_decision rv) \<and> gate_ok (ext_f64 x) (e_spec em) rv"
  by (cases "a_outcome res")
     (auto simp: judge_resolution_def failed_def res_ok_iff simp flip: validate_iff split: option.splits)

lemma judge_rejected: "judge_resolution x em i res = Substituted rv False \<Longrightarrow> v_decision rv = Deny"
  by (cases "a_outcome res")
     (auto simp: judge_resolution_def failed_def split: option.splits if_splits)

lemma judge_consulted: "judge_resolution x em i res \<noteq> NotConsulted"
  by (auto simp: judge_resolution_def failed_def split: option.splits)

lemma consult_approved:
  assumes "consult x em c v l = (Substituted rv True, l')"
  shows "\<exists>q. l' = l @ [Consulted q] \<and> q_verdict q = v \<and> approval_given x em l q rv"
  using assms
  by (auto simp: consult_def Let_def failed_def judge_approved approval_given_def
      split: if_splits option.splits sum.splits)

lemma consult_rejected:
  assumes "consult x em c v l = (Substituted rv False, l')"
  shows "v_decision rv = Deny" and "l' = l \<or> (\<exists>q. l' = l @ [Consulted q])"
  using assms
  by (auto simp: consult_def Let_def failed_def dest: judge_rejected
      split: if_splits option.splits sum.splits)

lemma consult_request:
  assumes "consult x em c v l = (k, l')" "l' \<noteq> l"
  shows "\<exists>q. l' = l @ [Consulted q] \<and> q_verdict q = v \<and> is_liftable v \<and> e_mode em = Enforce
    \<and> e_resolver em \<noteq> None
    \<and> identity_compute x (e_identity em) (q_context q) = Inr (q_context_identity q)"
  using assms
  by (auto simp: consult_def Let_def failed_def split: if_splits option.splits sum.splits)

lemma fold_transform_cases:
  assumes "fold_transform em c v = (v', c')"
  obtains "v' = v" "e_mode em = Enforce" "v_transform v \<noteq> None"
      "apply_transform_to_ctx c (the (v_transform v)) = Inr c'"
  | "v' = v" "c' = c" "e_mode em = EvaluateOnly" "v_transform v \<noteq> None"
  | e d where "v' = host_error e d" "c' = c"
  using assms
  by (auto simp: fold_transform_def split: option.splits enforcement_mode.splits sum.splits)

section \<open>Frames of dispatch\<close>

text \<open>No fold reaches outside the projections of the target.\<close>

interpretation envelope: emission_frame "\<lambda>x em s t. same_envelope (fst s) (fst t)"
  by unfold_locales
     (auto elim!: fold_transform_cases intro: same_envelope_trans apply_transform_envelope)

definition consultations :: "event list \<Rightarrow> approval_request list" where
  "consultations l = List.map_filter (\<lambda>e. case e of Consulted q \<Rightarrow> Some q | _ \<Rightarrow> None) l"

lemma consultations_append [simp]: "consultations (a @ b) = consultations a @ consultations b"
  by (simp add: consultations_def map_filter_def)

lemma consultations_simps [simp]:
  "consultations [] = []"
  "consultations (Consulted q # l) = q # consultations l"
  "consultations (Invoked i c # l) = consultations l"
  "consultations (Notified n # l) = consultations l"
  "consultations (Delivered r # l) = consultations l"
  by (simp_all add: consultations_def map_filter_simps)

lemma invoke_consultations [simp]:
  "invoke x em c i b l = (st, l') \<Longrightarrow> consultations l' = consultations l"
  by (erule invoke_log) simp_all

text \<open>Evaluation leaves the context as it is and asks nobody.\<close>

interpretation evaluation: emission_frame
  "\<lambda>x em s t. e_mode em = EvaluateOnly \<longrightarrow> fst t = fst s \<and> consultations (snd t) = consultations (snd s)"
  by unfold_locales (auto elim!: fold_transform_cases simp: consult_enforce)

text \<open>What dispatch appends to the log.\<close>

definition event_ok :: "externs \<Rightarrow> emitter \<Rightarrow> event \<Rightarrow> bool" where
  "event_ok x em e =
     (case e of
        Invoked i c \<Rightarrow> True
      | Notified n \<Rightarrow> e_notifier em \<noteq> None \<and> list_ex (\<lambda>b. b_on_error b = OE_Continue) (e_interceptors em)
      | Consulted q \<Rightarrow>
          e_mode em = Enforce \<and> e_resolver em \<noteq> None \<and> is_liftable (q_verdict q)
          \<and> identity_compute x (e_identity em) (q_context q) = Inr (q_context_identity q)
      | Delivered r \<Rightarrow> False)"

definition log_grows :: "externs \<Rightarrow> emitter \<Rightarrow> event list \<Rightarrow> event list \<Rightarrow> bool" where
  "log_grows x em l l' \<longleftrightarrow> (\<exists>es. l' = l @ es \<and> list_all (event_ok x em) es)"

lemma log_grows_refl [simp]: "log_grows x em l l"
  by (simp add: log_grows_def)

lemma log_grows_trans: "log_grows x em l m \<Longrightarrow> log_grows x em m n \<Longrightarrow> log_grows x em l n"
  by (auto simp: log_grows_def)

lemma log_grows_invoke:
  assumes "b \<in> set (e_interceptors em)" "invoke x em c i b l = (st, l')"
  shows "log_grows x em l l'"
  using assms(2)
  by (rule invoke_log) (use assms(1) in \<open>auto simp: log_grows_def event_ok_def list_ex_iff\<close>)

lemma log_grows_consult: "consult x em c v l = (k, l') \<Longrightarrow> log_grows x em l l'"
  by (cases "l' = l") (auto simp: log_grows_def event_ok_def dest!: consult_request)

interpretation log: emission_frame "\<lambda>x em s t. log_grows x em (snd s) (snd t)"
  by unfold_locales (auto intro: log_grows_trans log_grows_invoke log_grows_consult)

section \<open>Soundness of the outcome\<close>

text \<open>Some consultation after \<open>l\<close> was approved.\<close>

definition approved_since :: "externs \<Rightarrow> emitter \<Rightarrow> event list \<Rightarrow> event list \<Rightarrow> bool" where
  "approved_since x em l l' \<longleftrightarrow>
     (\<exists>pre q post rv. l' = l @ pre @ Consulted q # post \<and> approval_given x em (l @ pre) q rv)"

lemma approved_since_left: "log_grows x em l m \<Longrightarrow> approved_since x em m n \<Longrightarrow> approved_since x em l n"
  by (clarsimp simp: log_grows_def approved_since_def) (metis append.assoc)

lemma approved_since_right: "approved_since x em l m \<Longrightarrow> log_grows x em m n \<Longrightarrow> approved_since x em l n"
  by (fastforce simp: log_grows_def approved_since_def)

lemma approved_now:
  assumes "consult x em c v l = (Substituted rv True, l')"
  shows "approved_since x em l l'"
  using consult_approved [OF assms] by (fastforce simp: approved_since_def)

definition no_transform :: "verdict list \<Rightarrow> bool" where
  "no_transform vs \<longleftrightarrow> (\<forall>v\<in>set vs. v_decision v \<noteq> Transform)"

definition no_deny :: "verdict list \<Rightarrow> bool" where
  "no_deny vs \<longleftrightarrow> (\<forall>v\<in>set vs. v_decision v \<noteq> Deny)"

lemma none_append [simp]:
  "no_transform (vs @ ws) \<longleftrightarrow> no_transform vs \<and> no_transform ws"
  "no_deny (vs @ ws) \<longleftrightarrow> no_deny vs \<and> no_deny ws"
  "no_transform []" "no_deny []"
  "no_transform (v # vs) \<longleftrightarrow> v_decision v \<noteq> Transform \<and> no_transform vs"
  "no_deny (v # vs) \<longleftrightarrow> v_decision v \<noteq> Deny \<and> no_deny vs"
  by (auto simp: no_transform_def no_deny_def)

text \<open>
  The outcome of a stretch of the emission from \<open>(c, l)\<close> to \<open>(c', l')\<close> in
  which the interceptors returned \<open>vs\<close>: the combined verdict \<open>v\<close> with the
  resolution \<open>r\<close>.
\<close>

definition sound ::
  "externs \<Rightarrow> emitter \<Rightarrow> object \<Rightarrow> event list \<Rightarrow> verdict list \<Rightarrow> verdict \<Rightarrow> string option \<Rightarrow> object \<Rightarrow> event list \<Rightarrow> bool" where
  "sound x em c l vs v r c' l' \<longleftrightarrow>
     (permits (v_decision v) \<longrightarrow>
        r = None \<and> no_deny vs \<or> r = Some ''approval'' \<and> approved_since x em l l')
     \<and> (r = None \<longrightarrow> consultations l' = consultations l)
     \<and> (r = None \<and> v_decision v \<noteq> Transform \<and> no_transform vs \<longrightarrow> c' = c)"

definition sound_outcome where
  "sound_outcome x em c l p \<longleftrightarrow>
     (case p of (d, c', l') \<Rightarrow>
        \<exists>vs. map s_decision (d_verdicts d) = map v_decision vs
          \<and> sound x em c l vs (d_combined d) (d_resolved_by d) c' l')"

lemma summaries_decision: "map s_decision (summaries vs act subs) = map v_decision vs"
  by (auto simp: summaries_def nth_summaries_named intro!: nth_equalityI split: option.split)

text \<open>A deny in the middle of the log, seen before the seam.\<close>

lemma sound_deny:
  "v_decision v = Deny \<Longrightarrow> consultations l' = consultations l \<Longrightarrow> c' = c \<Longrightarrow> sound x em c l vs v None c' l'"
  by (simp add: sound_def)

lemma sound_rejection: "v_decision v = Deny \<Longrightarrow> sound x em c l vs v (Some ''rejection'') c' l'"
  by (simp add: sound_def)

lemma sound_approval: "approved_since x em l l' \<Longrightarrow> sound x em c l vs v (Some ''approval'') c' l'"
  by (simp add: sound_def)

section \<open>Soundness under first deny\<close>

definition fold_sound ::
  "externs \<Rightarrow> emitter \<Rightarrow> object \<Rightarrow> event list \<Rightarrow> fold_state \<Rightarrow> object \<Rightarrow> event list \<Rightarrow> bool" where
  "fold_sound x em c l s c' l' \<longleftrightarrow>
     (case f_resolved s of
        None \<Rightarrow> no_deny (f_verdicts s) \<and> consultations l' = consultations l
          \<and> (no_transform (f_verdicts s) \<longrightarrow> c' = c)
      | Some r \<Rightarrow> r = ''approval'' \<and> approved_since x em l l')
     \<and> log_grows x em l l'
     \<and> (\<forall>i v. f_last s = Some (i, v) \<longrightarrow> permits (v_decision v))"

lemma stop_at_sound:
  "sound x em c l (f_verdicts s) v (f_resolved s) c' l' \<Longrightarrow>
     sound_outcome x em c l (stop_at act i s v d, c', l')"
  by (auto simp: sound_outcome_def stop_at_def summaries_decision)

lemma fold_sound_deny:
  assumes "fold_sound x em c l s c1 l1" "v_decision v = Deny" "log_grows x em l1 l2"
    "consultations l2 = consultations l1" "c2 = c1 \<or> v_decision w = Transform"
  shows "sound x em c l (f_verdicts s @ [w]) v (f_resolved s) c2 l2"
  using assms
  by (auto simp: fold_sound_def sound_def split: option.splits intro: approved_since_right)

lemma fold_sound_extend:
  assumes "fold_sound x em c l s c1 l1" "log_grows x em l1 l2" "consultations l2 = consultations l1"
    "f_verdicts s' = f_verdicts s @ [w]" "v_decision w \<noteq> Deny" "f_resolved s' = f_resolved s"
    "c2 = c1 \<or> v_decision w = Transform"
    "\<forall>i v. f_last s' = Some (i, v) \<longrightarrow> permits (v_decision v)"
  shows "fold_sound x em c l s' c2 l2"
  using assms
  by (auto simp: fold_sound_def split: option.splits intro: approved_since_right log_grows_trans)

lemma fold_sound_approved:
  assumes "approved_since x em l l2" "log_grows x em l l2" "f_resolved s' = Some ''approval''"
    "\<forall>i v. f_last s' = Some (i, v) \<longrightarrow> permits (v_decision v)"
  shows "fold_sound x em c l s' c2 l2"
  using assms by (simp add: fold_sound_def)

lemma fold_transform_permits:
  "fold_transform em c v = (v', c') \<Longrightarrow> permits (v_decision v') \<Longrightarrow> v' = v"
  by (erule fold_transform_cases) simp_all

lemma fold_transform_denied:
  "fold_transform em c v = (v', c') \<Longrightarrow> \<not> permits (v_decision v') \<Longrightarrow> v_decision v \<noteq> Deny \<Longrightarrow> c' = c"
  by (erule fold_transform_cases) (simp_all add: permits_iff)

lemma first_deny_approved_sound:
  assumes "first_deny_approved em act k i s v c1 l2 = (r, c2, l3)"
    and a: "approved_since x em l l2" "log_grows x em l l2" "f_resolved s = Some ''approval''"
    and last: "\<forall>i v. f_last s = Some (i, v) \<longrightarrow> permits (v_decision v)"
  shows "case r of Inl d \<Rightarrow> sound_outcome x em c l (d, c2, l3) | Inr s' \<Rightarrow> fold_sound x em c l s' c2 l3"
  using assms
  by (auto simp: first_deny_approved_def Let_def split: prod.splits if_splits on_approval.splits
      intro!: stop_at_sound fold_sound_approved sound_approval)

lemma invoke_synthesized:
  assumes "invoke x em c i b l = (st, l')" "is_host_synthesized (st_verdict st)"
  shows "v_decision (st_verdict st) = Deny"
proof -
  have sub: "\<not> is_host_synthesized (control_failure_substitute n e)" for n e
    by (simp add: is_host_synthesized_def verdict_makers)
  have gate: "\<not> is_host_synthesized v" if "res_ok (validate fx spec v)" for v fx spec
    using that by (cases "v_reason v")
      (auto simp: res_ok_iff validate_iff gate_ok_def is_host_synthesized_def host_reserved_def)
  show ?thesis
    using assms sub gate
    by (auto simp: invoke_def settle_def Let_def split: sum.splits if_splits option.splits)
qed

lemma first_deny_denied_sound:
  assumes inv: "fold_sound x em c l s c1 l1" "log_grows x em l1 m" "consultations m = consultations l1"
    and v: "v_decision v = Deny" and s': "f_verdicts s' = f_verdicts s @ [v]" "f_resolved s' = f_resolved s"
      "f_last s' = f_last s"
    and step: "first_deny_denied x em act k i s' v c1 m = (r, c2, l2)"
  shows "case r of Inl d \<Rightarrow> sound_outcome x em c l (d, c2, l2) | Inr s' \<Rightarrow> fold_sound x em c l s' c2 l2"
proof (cases "consult x em c1 v m")
  case (Pair q n)
  have lm: "log_grows x em l m" using inv by (auto simp: fold_sound_def intro: log_grows_trans)
  show ?thesis
  proof (cases q)
    case NotConsulted
    with Pair have "n = m" by (simp add: consult_not)
    have "sound x em c l (f_verdicts s') (with_unions v (f_pool s')) (f_resolved s') c1 m"
      unfolding s' by (rule fold_sound_deny [OF inv(1) _ inv(2,3)]) (simp_all add: v)
    with step Pair NotConsulted \<open>n = m\<close> show ?thesis
      by (auto simp: first_deny_denied_def Let_def intro: stop_at_sound)
  next
    case (Substituted w permitted)
    show ?thesis
    proof (cases permitted)
      case True
      with Pair Substituted have con: "consult x em c1 v m = (Substituted w True, n)" by simp
      have "first_deny_approved em act k i (s'\<lparr>f_resolved := Some ''approval''\<rparr>) w c1 n = (r, c2, l2)"
        using step con by (simp add: first_deny_denied_def Let_def resolution_name_def)
      then show ?thesis
        using inv(1) s' approved_since_left [OF lm approved_now [OF con]]
          log_grows_trans [OF lm log_grows_consult [OF con]]
        by (intro first_deny_approved_sound) (auto simp: fold_sound_def)
    next
      case False
      with Pair Substituted have con: "consult x em c1 v m = (Substituted w False, n)" by simp
      show ?thesis
        using step con consult_rejected(1) [OF con]
        by (auto simp: first_deny_denied_def Let_def resolution_name_def
            intro!: stop_at_sound sound_rejection)
    qed
  qed
qed

lemma first_deny_step_sound:
  assumes inv: "fold_sound x em c l s c1 l1" and b: "b \<in> set (e_interceptors em)"
    and step: "first_deny_step x em act k i b s c1 l1 = (r, c2, l2)"
  shows "case r of Inl d \<Rightarrow> sound_outcome x em c l (d, c2, l2) | Inr s' \<Rightarrow> fold_sound x em c l s' c2 l2"
proof -
  obtain st m where i: "invoke x em c1 i b l1 = (st, m)" by (cases "invoke x em c1 i b l1")
  note grow = log_grows_invoke [OF b i] and cons = invoke_consultations [OF i]
  define v where "v = st_verdict st"
  define s1 where "s1 = push_settled st s"
  have s1: "f_verdicts s1 = f_verdicts s @ [v]" "f_resolved s1 = f_resolved s" "f_last s1 = f_last s"
    by (simp_all add: s1_def push_settled_def v_def)
  have last: "\<forall>i v. f_last s = Some (i, v) \<longrightarrow> permits (v_decision v)"
    using inv by (simp add: fold_sound_def)
  have stop: "sound_outcome x em c l (stop_at act i s1 w d, c2, m)"
    if "v_decision w = Deny" "c2 = c1 \<or> v_decision v = Transform" for w d
    using fold_sound_deny [OF inv that(1) grow cons that(2)] s1 by (intro stop_at_sound) simp
  have match: "first_deny_match x em act k i s1 v c1 m = (r, c2, l2)"
    using step i by (simp add: first_deny_step_def v_def s1_def)
  have denied: ?thesis if "v_decision v = Deny" "first_deny_denied x em act k i s1 v c1 m = (r, c2, l2)"
    using first_deny_denied_sound [OF inv grow cons that(1) s1 that(2)] .
  have synth: "v_decision v = Deny" if "is_host_synthesized v"
    using invoke_synthesized [OF i] that by (simp add: v_def)
  show ?thesis
  proof (cases "is_host_synthesized v")
    case True
    with match synth stop show ?thesis by (auto simp: first_deny_match_def)
  next
    case False
    show ?thesis
    proof (cases "v_decision v")
      case Allow
      have "fold_sound x em c l s1 c1 m"
        by (rule fold_sound_extend [OF inv grow cons s1(1) _ s1(2)]) (simp_all add: Allow s1 last)
      with match False Allow show ?thesis by (auto simp: first_deny_match_def)
    next
      case Deny
      with match False denied show ?thesis by (simp add: first_deny_match_def)
    next
      case Transform
      obtain v' c' where f: "fold_transform em c1 v = (v', c')" by (cases "fold_transform em c1 v")
      show ?thesis
      proof (cases "permits (v_decision v')")
        case True
        have "fold_sound x em c l (s1\<lparr>f_last := Some (i, v')\<rparr>) c' m"
          by (rule fold_sound_extend [OF inv grow cons, where w = v]) (use s1 True Transform in simp_all)
        with match False Transform f True show ?thesis by (auto simp: first_deny_match_def)
      next
        case no: False
        with match False Transform f stop show ?thesis by (auto simp: first_deny_match_def permits_iff)
      qed
    qed
  qed
qed

lemma first_deny_loop_sound:
  assumes "fold_sound x em c l s c1 l1" "set bs \<subseteq> set (e_interceptors em)"
    "first_deny_loop x em act k i bs s c1 l1 = (r, c2, l2)"
  shows "case r of Inl d \<Rightarrow> sound_outcome x em c l (d, c2, l2) | Inr s' \<Rightarrow> fold_sound x em c l s' c2 l2"
  using assms
proof (induction bs arbitrary: i s c1 l1)
  case (Cons b bs)
  obtain q c3 l3 where st: "first_deny_step x em act k i b s c1 l1 = (q, c3, l3)"
    by (cases "first_deny_step x em act k i b s c1 l1")
  have b: "b \<in> set (e_interceptors em)" using Cons.prems(2) by simp
  note inv = first_deny_step_sound [OF Cons.prems(1) b st]
  show ?case
  proof (cases q)
    case (Inl d)
    with Cons.prems(3) st inv show ?thesis by auto
  next
    case (Inr s')
    with Cons.prems st inv show ?thesis by (intro Cons.IH) auto
  qed
qed auto

lemma fold_start_sound: "fold_sound x em c l fold_start c l"
  by (simp add: fold_sound_def fold_start_def)

lemma fold_finish_sound:
  assumes "fold_sound x em c l s c' l'"
  shows "sound_outcome x em c l (fold_finish act s, c', l')"
proof -
  have "sound x em c l (f_verdicts s) (d_combined (fold_finish act s)) (f_resolved s) c' l'"
    using assms
    by (auto simp: sound_def fold_sound_def fold_finish_def Let_def split_beta split: option.splits)
  then show ?thesis
    by (auto simp: sound_outcome_def fold_finish_def Let_def split_beta summaries_decision)
qed

lemma first_deny_sound:
  assumes "set act \<subseteq> set (e_interceptors em)"
  shows "sound_outcome x em c l (dispatch_first_deny x em c act l)"
proof -
  define k where "k = (case on_approval (e_composition em) of None \<Rightarrow> Stop | Some k \<Rightarrow> k)"
  obtain r c1 l1 where r: "first_deny_loop x em act k 0 act fold_start c l = (r, c1, l1)"
    by (cases "first_deny_loop x em act k 0 act fold_start c l")
  from first_deny_loop_sound [OF fold_start_sound assms r] r show ?thesis
    by (cases r) (auto simp: dispatch_first_deny_def Let_def fold_finish_sound simp flip: k_def)
qed

section \<open>Soundness of the aggregating profiles\<close>

text \<open>
  The seam after a deny \<open>v\<close> that the aggregation produced: the verdict it leaves and
  the resolution it records.
\<close>

lemma fold_resolution_permits:
  "fold_resolution em c v = (v', c') \<Longrightarrow> permits (v_decision v') \<Longrightarrow> v' = v"
  by (auto simp: fold_resolution_def dest: fold_transform_permits split: if_splits)

lemma synthesize_sound:
  assumes s: "synthesize_and_maybe_consult x em c e d p pool None l1 = ((w, r), c', l')"
    and g: "log_grows x em l l1" "consultations l1 = consultations l"
  shows "sound x em c l vs w r c' l'"
proof (cases p)
  case SP_Deny
  with s g show ?thesis by (auto simp: synthesize_and_maybe_consult_def intro!: sound_deny)
next
  case SP_Approval
  obtain q n where q: "consult x em c (host_error_liftable e (Some d)) l1 = (q, n)"
    by (cases "consult x em c (host_error_liftable e (Some d)) l1")
  show ?thesis
  proof (cases q)
    case NotConsulted
    with q have "n = l1" by (simp add: consult_not)
    with s g q NotConsulted SP_Approval show ?thesis
      by (auto simp: synthesize_and_maybe_consult_def Let_def host_error_liftable_def intro!: sound_deny)
  next
    case (Substituted u permitted)
    have rej: "v_decision u = Deny" if "\<not> permitted"
      using q Substituted that consult_rejected(1) by simp
    have app: "approved_since x em l n" if permitted
      using q Substituted that approved_since_left [OF g(1) approved_now] by simp
    show ?thesis
      using s q Substituted SP_Approval rej app
      by (auto simp: synthesize_and_maybe_consult_def Let_def resolution_name_def
          split: if_splits prod.splits intro!: sound_rejection sound_approval)
  qed
qed

lemma deny_winner_sound:
  assumes s: "deny_winner x em c all i vs None l1 = (out, c', l')"
    and v: "v_decision (all ! i) = Deny" and c: "c0 = c \<or> \<not> no_transform all"
    and g: "log_grows x em l l1" "consultations l1 = consultations l"
  shows "sound x em c0 l all (d_combined out) (d_resolved_by out) c' l' \<and> d_verdicts out = vs"
proof -
  obtain q n where q: "consult x em c (all ! i) l1 = (q, n)" by (cases "consult x em c (all ! i) l1")
  show ?thesis
  proof (cases q)
    case NotConsulted
    with q have "n = l1" by (simp add: consult_not)
    with s v g c q NotConsulted show ?thesis by (auto simp: deny_winner_def Let_def sound_def)
  next
    case (Substituted u permitted)
    have rej: "v_decision u = Deny" if "\<not> permitted"
      using q Substituted that consult_rejected(1) by simp
    have app: "approved_since x em l n" if permitted
      using q Substituted that approved_since_left [OF g(1) approved_now] by simp
    show ?thesis
      using s q Substituted rej app
      by (auto simp: deny_winner_def Let_def resolution_name_def
          split: if_splits prod.splits intro!: sound_rejection sound_approval)
  qed
qed

text \<open>
  The aggregation, after the interceptors returned \<open>all\<close> and, in the sequential
  profile, their transforms folded.
\<close>

lemma aggregate_sound:
  assumes s: "aggregate_and_consult x em c all sq None act subs l1 = (out, c', l')"
    and ne: "all \<noteq> []" and c: "c0 = c \<or> sq \<and> \<not> no_transform all"
    and g: "log_grows x em l l1" "consultations l1 = consultations l"
  shows "sound_outcome x em c0 l (out, c', l')"
proof (cases "aggregate_strictest all sq")
  case (TransformConflictAt idxs)
  from aggregate_conflict(1) [OF this] c have "c0 = c" by simp
  with s TransformConflictAt show ?thesis
    by (fastforce simp: aggregate_and_consult_def Let_def sound_outcome_def summaries_decision
        split: prod.splits intro: synthesize_sound [OF _ g])
next
  case (Winner i)
  note w = aggregate_winner [OF ne Winner]
  have low: "no_deny all" if "v_decision (all ! i) \<noteq> Deny"
  proof -
    have "severity (all ! i) < 2" using that by (simp flip: severity_blocks add: not_le)
    then have "severity v < 2" if "v \<in> set all" for v
      using w(3) that by (metis in_set_conv_nth le_less_trans)
    then show ?thesis by (auto simp: no_deny_def simp flip: severity_blocks not_le)
  qed
  have mem: "all ! i \<in> set all" using w(1) by simp
  show ?thesis
  proof (cases "v_decision (all ! i)")
    case Deny
    with s Winner have "deny_winner x em c all i (summaries all act subs) None l1 = (out, c', l')"
      by (simp add: aggregate_and_consult_def Let_def)
    from deny_winner_sound [OF this Deny _ g, of c0] c show ?thesis
      by (auto simp: sound_outcome_def summaries_decision)
  next
    case Allow
    with s Winner low c g show ?thesis
      by (auto simp: aggregate_and_consult_def Let_def sound_outcome_def sound_def summaries_decision
          allow_def intro!: exI [of _ all])
  next
    case Transform
    then have nt: "\<not> no_transform all" using mem by (auto simp: no_transform_def)
    with s Winner Transform low g show ?thesis
      by (auto simp: aggregate_and_consult_def Let_def sound_outcome_def sound_def summaries_decision
          split: if_splits prod.splits intro!: exI [of _ all])
  qed
qed

lemma unanimous_sound:
  assumes s: "aggregate_unanimous x em c all act subs l1 = (out, c', l')"
    and g: "log_grows x em l l1" "consultations l1 = consultations l"
  shows "sound_outcome x em c l (out, c', l')"
proof (cases "is_unanimous_allow all")
  case True
  with s g show ?thesis
    by (auto simp: aggregate_unanimous_def Let_def sound_outcome_def sound_def summaries_decision
        is_unanimous_allow_def list_all_iff no_deny_def allow_def intro!: exI [of _ all])
next
  case False
  with s show ?thesis
    by (fastforce simp: aggregate_unanimous_def Let_def sound_outcome_def summaries_decision
        split: prod.splits intro: synthesize_sound [OF _ g])
qed

definition run_sound ::
  "externs \<Rightarrow> emitter \<Rightarrow> object \<Rightarrow> event list \<Rightarrow> verdict list \<Rightarrow> object \<Rightarrow> event list \<Rightarrow> bool" where
  "run_sound x em c l all c' l' \<longleftrightarrow>
     log_grows x em l l' \<and> consultations l' = consultations l \<and> (c = c' \<or> \<not> no_transform all)"

lemma run_sound_invoke:
  assumes "run_sound x em c l all c1 l1" "b \<in> set (e_interceptors em)" "invoke x em c1 i b l1 = (st, l2)"
    "c2 = c1 \<or> v_decision v = Transform"
  shows "run_sound x em c l (all @ [v]) c2 l2"
  using assms log_grows_invoke [OF assms(2,3)]
  by (auto simp: run_sound_def intro: log_grows_trans)

lemma run_all_loop_sound:
  assumes "run_sound x em c l all c1 l1" "set bs \<subseteq> set (e_interceptors em)"
    "run_all_loop x em act i bs all subs c1 l1 = (r, c2, l2)"
  shows "case r of Inl d \<Rightarrow> sound_outcome x em c l (d, c2, l2)
    | Inr (all', subs') \<Rightarrow> run_sound x em c l all' c2 l2 \<and> length all' = length all + length bs"
  using assms
proof (induction bs arbitrary: i all subs c1 l1)
  case (Cons b bs)
  obtain st l3 where i: "invoke x em c1 i b l1 = (st, l3)" by (cases "invoke x em c1 i b l1")
  have b: "b \<in> set (e_interceptors em)" and bs: "set bs \<subseteq> set (e_interceptors em)"
    using Cons.prems(2) by simp_all
  note inv = run_sound_invoke [OF Cons.prems(1) b i]
  define v where "v = st_verdict st"
  note run = Cons.prems(3)
  show ?case
  proof (cases "v_decision v = Transform")
    case False
    from run i False have
      "run_all_loop x em act (Suc i) bs (all @ [v]) (subs @ [st_substituted_for st]) c1 l3 = (r, c2, l2)"
      by (simp add: v_def)
    from Cons.IH [OF inv bs this] show ?thesis by (auto split: sum.splits)
  next
    case True
    obtain w c3 where f: "fold_transform em c1 v = (w, c3)" by (cases "fold_transform em c1 v")
    show ?thesis
    proof (cases "permits (v_decision w)")
      case yes: True
      have "w = v" by (rule fold_transform_permits [OF f yes])
      with run i True f yes have
        "run_all_loop x em act (Suc i) bs (all @ [v]) (subs @ [st_substituted_for st]) c3 l3 = (r, c2, l2)"
        by (simp add: v_def)
      from Cons.IH [OF inv bs this] True show ?thesis by (auto split: sum.splits)
    next
      case no: False
      have "c3 = c1" by (rule fold_transform_denied [OF f no]) (simp add: True)
      with inv [of c1 w] no
      have "sound x em c l (all @ [w]) w None c3 l3" by (auto simp: run_sound_def sound_def permits_iff)
      with run i True f no show ?thesis
        by (auto simp: v_def sound_outcome_def summaries_decision intro!: exI [of _ "all @ [w]"])
    qed
  qed
qed auto

lemma run_all_sound:
  assumes "set act \<subseteq> set (e_interceptors em)" "act \<noteq> []"
  shows "sound_outcome x em c l (dispatch_run_all x em c act l)"
proof -
  obtain r c1 l1 where r: "run_all_loop x em act 0 act [] [] c l = (r, c1, l1)"
    by (cases "run_all_loop x em act 0 act [] [] c l")
  have "run_sound x em c l [] c l" by (simp add: run_sound_def)
  note inv = run_all_loop_sound [OF this assms(1) r]
  show ?thesis
  proof (cases r)
    case (Inl d)
    with inv r show ?thesis by (simp add: dispatch_run_all_def)
  next
    case (Inr p)
    obtain all subs where p: "p = (all, subs)" by (cases p)
    obtain out c2 l2 where a: "aggregate_and_consult x em c1 all True None act subs l1 = (out, c2, l2)"
      by (cases "aggregate_and_consult x em c1 all True None act subs l1")
    have "all \<noteq> []" using inv Inr p assms(2) by auto
    with aggregate_sound [OF a, of c l] inv Inr p a r show ?thesis
      by (simp add: dispatch_run_all_def run_sound_def)
  qed
qed

lemma parallel_loop_sound:
  assumes "set bs \<subseteq> set (e_interceptors em)" "parallel_loop x em c i bs all subs l1 = (all', subs', l2)"
    "log_grows x em l l1" "consultations l1 = consultations l"
  shows "log_grows x em l l2 \<and> consultations l2 = consultations l \<and> length all' = length all + length bs"
  using assms
proof (induction bs arbitrary: i all subs l1)
  case (Cons b bs)
  obtain st l3 where i: "invoke x em c i b l1 = (st, l3)" by (cases "invoke x em c i b l1")
  have b: "b \<in> set (e_interceptors em)" using Cons.prems(1) by simp
  have "parallel_loop x em c (Suc i) bs (all @ [st_verdict st]) (subs @ [st_substituted_for st]) l3
      = (all', subs', l2)"
    using Cons.prems(2) i by simp
  from Cons.IH [OF _ this] Cons.prems i log_grows_invoke [OF b i] show ?case
    by (auto intro: log_grows_trans)
qed simp

lemma parallel_sound:
  assumes "set act \<subseteq> set (e_interceptors em)" "act \<noteq> []"
  shows "sound_outcome x em c l (dispatch_parallel x em c act l)"
proof -
  obtain all subs l1 where r: "parallel_loop x em c 0 act [] [] l = (all, subs, l1)"
    by (cases "parallel_loop x em c 0 act [] [] l")
  from parallel_loop_sound [OF assms(1) r, of l] have g: "log_grows x em l l1" "consultations l1 = consultations l"
    and ne: "all \<noteq> []" using assms(2) by auto
  obtain out c2 l2 where a: "aggregate_and_consult x em c all False None act subs l1 = (out, c2, l2)"
    by (cases "aggregate_and_consult x em c all False None act subs l1")
  obtain out' c3 l3 where u: "aggregate_unanimous x em c all act subs l1 = (out', c3, l3)"
    by (cases "aggregate_unanimous x em c all act subs l1")
  from aggregate_sound [OF a ne _ g, of c] unanimous_sound [OF u g] r a u show ?thesis
    by (simp add: dispatch_parallel_def)
qed

lemma dispatch_sound: "sound_outcome x em c l (dispatch x em c l)"
proof (cases "active em c = []")
  case True
  have "sound x em c l [] (host_error NoInterceptor None) None c l" by (simp add: sound_def)
  with True show ?thesis
    by (simp add: dispatch_def synthesized_def sound_outcome_def)
next
  case False
  have act: "set (active em c) \<subseteq> set (e_interceptors em)" by (auto simp: active_def)
  show ?thesis
    using False first_deny_sound [OF act] run_all_sound [OF act False] parallel_sound [OF act False]
    by (simp add: dispatch_def Let_def split: composition_profile.split)
qed

end
