(* ===== verification/Dispatch_Order.thy ===== *)
theory Dispatch_Order
  imports Dispatch_Laws
begin

text \<open>
  Which interceptors run, in which order and on which context: every profile calls a prefix
  of the active registrations in order, with one summary per call; the parallel profiles call
  all of them on the context as it was before the emission.
\<close>

definition invocations :: "event list \<Rightarrow> (nat \<times> object) list" where
  "invocations l = List.map_filter (\<lambda>e. case e of Invoked i c \<Rightarrow> Some (i, c) | _ \<Rightarrow> None) l"

lemma invocations_append [simp]: "invocations (a @ b) = invocations a @ invocations b"
  by (simp add: invocations_def map_filter_def)

lemma invocations_simps [simp]:
  "invocations [] = []"
  "invocations (Invoked i c # l) = (i, c) # invocations l"
  "invocations (Consulted q # l) = invocations l"
  "invocations (Notified n # l) = invocations l"
  "invocations (Delivered r # l) = invocations l"
  by (simp_all add: invocations_def map_filter_simps)

lemma invoke_invocations:
  "invoke x em c i b l = (st, l') \<Longrightarrow> invocations l' = invocations l @ [(i, c)]"
  by (erule invoke_log) simp_all

lemma consult_invocations: "consult x em c v l = (k, l') \<Longrightarrow> invocations l' = invocations l"
  by (cases "l' = l") (auto dest!: consult_request)

lemma summaries_index: "map s_index (summaries vs act subs) = [0..<length vs]"
  by (auto simp: summaries_def nth_summaries_named intro!: nth_equalityI split: option.split)

text \<open>The calls made since \<open>l\<close> are the first \<open>length vs\<close> registrations.\<close>

definition in_order :: "event list \<Rightarrow> event list \<Rightarrow> nat \<Rightarrow> bool" where
  "in_order l l' n \<longleftrightarrow> map fst (invocations l') = map fst (invocations l) @ [0..<n]"

lemma in_order_start [simp]: "in_order l l 0"
  by (simp add: in_order_def)

lemma in_order_invoke:
  "in_order l l1 i \<Longrightarrow> invoke x em c i b l1 = (st, l2) \<Longrightarrow> in_order l l2 (Suc i)"
  by (simp add: in_order_def invoke_invocations)

lemma in_order_consult: "consult x em c v l1 = (k, l2) \<Longrightarrow> in_order l l2 n = in_order l l1 n"
  by (simp add: in_order_def consult_invocations)

lemma in_order_synthesize:
  "synthesize_and_maybe_consult x em c e d p pool r l1 = (z, c', l2) \<Longrightarrow> in_order l l2 n = in_order l l1 n"
  by (auto simp: synthesize_and_maybe_consult_def Let_def
      split: synthesis_policy.splits prod.splits consultation.splits if_splits dest: in_order_consult)

lemma in_order_deny_winner:
  "deny_winner x em c all i vs r l1 = (z, c', l2) \<Longrightarrow> in_order l l2 n = in_order l l1 n"
  by (auto simp: deny_winner_def Let_def
      split: prod.splits consultation.splits if_splits dest: in_order_consult)

lemma in_order_aggregate:
  "aggregate_and_consult x em c all sq r act subs l1 = (z, c', l2) \<Longrightarrow> in_order l l2 n = in_order l l1 n"
  by (auto simp: aggregate_and_consult_def Let_def
      split: prod.splits aggregate.splits decision.splits if_splits
      dest: in_order_synthesize in_order_deny_winner)

lemma in_order_unanimous:
  "aggregate_unanimous x em c all act subs l1 = (z, c', l2) \<Longrightarrow> in_order l l2 n = in_order l l1 n"
  by (auto simp: aggregate_unanimous_def Let_def split: prod.splits if_splits dest: in_order_synthesize)

text \<open>An outcome with one summary for each of the calls made.\<close>

definition outcome_in_order :: "nat \<Rightarrow> event list \<Rightarrow> outcome emission \<Rightarrow> bool" where
  "outcome_in_order n l p \<longleftrightarrow>
     (case p of (d, c', l') \<Rightarrow>
        \<exists>k\<le>n. map s_index (d_verdicts d) = [0..<k] \<and> in_order l l' k)"

lemma denied_in_order:
  assumes "in_order l l1 (length (f_verdicts s))"
    and "first_deny_denied x em act k i s v c l1 = (r, c2, l2)"
  shows "in_order l l2 (length (f_verdicts s)) \<and>
    (case r of Inl d \<Rightarrow> map s_index (d_verdicts d) = [0..<length (f_verdicts s)]
     | Inr s' \<Rightarrow> f_verdicts s' = f_verdicts s)"
proof -
  obtain q l3 where q: "consult x em c v l1 = (q, l3)" by (cases "consult x em c v l1")
  from assms q in_order_consult [OF q, of l "length (f_verdicts s)"] show ?thesis
    by (auto simp: first_deny_denied_def first_deny_approved_def Let_def stop_at_def summaries_index
        split: consultation.splits if_splits on_approval.splits prod.splits)
qed

lemma first_deny_step_in_order:
  assumes "in_order l l1 i" "length (f_verdicts s) = i"
    and step: "first_deny_step x em act k i b s c l1 = (r, c2, l2)"
  shows "in_order l l2 (Suc i) \<and>
    (case r of Inl d \<Rightarrow> map s_index (d_verdicts d) = [0..<Suc i] | Inr s' \<Rightarrow> length (f_verdicts s') = Suc i)"
proof -
  obtain st l3 where i: "invoke x em c i b l1 = (st, l3)" by (cases "invoke x em c i b l1")
  define s1 where "s1 = push_settled st s"
  have s1: "length (f_verdicts s1) = Suc i" using assms(2) by (simp add: s1_def push_settled_def)
  have o3: "in_order l l3 (Suc i)" by (rule in_order_invoke [OF assms(1) i])
  have match: "first_deny_match x em act k i s1 (st_verdict st) c l3 = (r, c2, l2)"
    using step i by (simp add: first_deny_step_def s1_def)
  show ?thesis
  proof (cases "\<not> is_host_synthesized (st_verdict st) \<and> v_decision (st_verdict st) = Deny")
    case True
    with match have "first_deny_denied x em act k i s1 (st_verdict st) c l3 = (r, c2, l2)"
      by (simp add: first_deny_match_def)
    from denied_in_order [OF _ this, of l] o3 s1 show ?thesis
      by (auto split: sum.splits)
  next
    case False
    with match o3 s1 show ?thesis
      by (auto simp: first_deny_match_def stop_at_def summaries_index
          split: if_splits decision.splits prod.splits)
  qed
qed

lemma first_deny_loop_in_order:
  assumes "in_order l l1 i" "length (f_verdicts s) = i"
    "first_deny_loop x em act k i bs s c l1 = (r, c2, l2)"
  shows "\<exists>n\<le>i + length bs. in_order l l2 n \<and>
    (case r of Inl d \<Rightarrow> map s_index (d_verdicts d) = [0..<n] | Inr s' \<Rightarrow> length (f_verdicts s') = n)"
  using assms
proof (induction bs arbitrary: i s c l1)
  case (Cons b bs)
  obtain q c3 l3 where st: "first_deny_step x em act k i b s c l1 = (q, c3, l3)"
    by (cases "first_deny_step x em act k i b s c l1")
  note inv = first_deny_step_in_order [OF Cons.prems(1,2) st]
  show ?case
  proof (cases q)
    case (Inl d)
    with Cons.prems(3) st inv show ?thesis by (auto intro!: exI [of _ "Suc i"])
  next
    case (Inr s')
    with Cons.prems(3) st have "first_deny_loop x em act k (Suc i) bs s' c3 l3 = (r, c2, l2)" by simp
    from Cons.IH [OF _ _ this] inv Inr show ?thesis by auto
  qed
qed auto

lemma run_all_loop_in_order:
  assumes "in_order l l1 i" "length all = i"
    "run_all_loop x em act i bs all subs c l1 = (r, c2, l2)"
  shows "\<exists>n\<le>i + length bs. in_order l l2 n \<and>
    (case r of Inl d \<Rightarrow> map s_index (d_verdicts d) = [0..<n] | Inr p \<Rightarrow> length (fst p) = n)"
  using assms
proof (induction bs arbitrary: i all subs c l1)
  case (Cons b bs)
  obtain st l3 where i: "invoke x em c i b l1 = (st, l3)" by (cases "invoke x em c i b l1")
  obtain w c3 where f: "fold_transform em c (st_verdict st) = (w, c3)"
    by (cases "fold_transform em c (st_verdict st)")
  note o3 = in_order_invoke [OF Cons.prems(1) i]
  show ?case
  proof (cases "v_decision (st_verdict st) = Transform \<and> \<not> permits (v_decision w)")
    case True
    with Cons.prems(2,3) i f o3 show ?thesis
      by (auto simp: summaries_index intro!: exI [of _ "Suc i"])
  next
    case False
    let ?t = "v_decision (st_verdict st) = Transform"
    have "run_all_loop x em act (Suc i) bs (all @ [if ?t then w else st_verdict st])
        (subs @ [st_substituted_for st]) (if ?t then c3 else c) l3 = (r, c2, l2)"
      using Cons.prems(3) i f False by (auto simp: Let_def)
    from Cons.IH [OF o3 _ this] Cons.prems(2) show ?thesis by auto
  qed
qed auto

text \<open>The parallel loop hands the same snapshot to everyone.\<close>

lemma parallel_loop_invocations:
  "parallel_loop x em c i bs all subs l1 = (all', subs', l2) \<Longrightarrow>
     invocations l2 = invocations l1 @ map (\<lambda>j. (j, c)) [i..<i + length bs]
     \<and> length all' = length all + length bs"
proof (induction bs arbitrary: i all subs l1)
  case (Cons b bs)
  obtain st l3 where i: "invoke x em c i b l1 = (st, l3)" by (cases "invoke x em c i b l1")
  with Cons.prems have "parallel_loop x em c (Suc i) bs (all @ [st_verdict st])
      (subs @ [st_substituted_for st]) l3 = (all', subs', l2)"
    by simp
  moreover have "[i..<i + length (b # bs)] = i # [Suc i..<Suc i + length bs]"
    by (simp add: upt_conv_Cons del: upt_Suc)
  ultimately show ?case using Cons.IH i by (simp add: invoke_invocations del: upt_Suc)
qed simp

lemma dispatch_first_deny_in_order:
  "outcome_in_order (length act) l (dispatch_first_deny x em c act l)"
proof -
  define k where "k = (case on_approval (e_composition em) of None \<Rightarrow> Stop | Some k \<Rightarrow> k)"
  obtain r c1 l1 where r: "first_deny_loop x em act k 0 act fold_start c l = (r, c1, l1)"
    by (cases "first_deny_loop x em act k 0 act fold_start c l")
  have "length (f_verdicts fold_start) = 0" by (simp add: fold_start_def)
  note o1 = first_deny_loop_in_order [OF in_order_start this r]
  have finish: "map s_index (d_verdicts (fold_finish act s)) = [0..<length (f_verdicts s)]" for s
    by (simp add: fold_finish_def Let_def split_beta summaries_index)
  have "dispatch_first_deny x em c act l = (case r of Inl d \<Rightarrow> (d, c1, l1) | Inr s \<Rightarrow> (fold_finish act s, c1, l1))"
    by (simp add: dispatch_first_deny_def Let_def r flip: k_def split: sum.split)
  with o1 finish show ?thesis
    by (cases r) (auto simp: outcome_in_order_def)
qed

lemma aggregate_summaries:
  "aggregate_and_consult x em c all sq r act subs l = (d, c', l') \<Longrightarrow> d_verdicts d = summaries all act subs"
  by (auto simp: aggregate_and_consult_def deny_winner_def Let_def
      split: prod.splits aggregate.splits decision.splits if_splits consultation.splits)

lemma unanimous_summaries:
  "aggregate_unanimous x em c all act subs l = (d, c', l') \<Longrightarrow> d_verdicts d = summaries all act subs"
  by (auto simp: aggregate_unanimous_def Let_def split: prod.splits if_splits)

lemma dispatch_run_all_in_order: "outcome_in_order (length act) l (dispatch_run_all x em c act l)"
proof -
  obtain r c1 l1 where r: "run_all_loop x em act 0 act [] [] c l = (r, c1, l1)"
    by (cases "run_all_loop x em act 0 act [] [] c l")
  note o1 = run_all_loop_in_order [OF in_order_start _ r]
  show ?thesis
  proof (cases r)
    case (Inl d)
    with o1 r show ?thesis by (auto simp: outcome_in_order_def dispatch_run_all_def)
  next
    case (Inr p)
    obtain all subs where p: "p = (all, subs)" by (cases p)
    obtain d c2 l2 where a: "aggregate_and_consult x em c1 all True None act subs l1 = (d, c2, l2)"
      by (cases "aggregate_and_consult x em c1 all True None act subs l1")
    from o1 Inr p r a aggregate_summaries [OF a] in_order_aggregate [OF a] show ?thesis
      by (auto simp: outcome_in_order_def dispatch_run_all_def summaries_index)
  qed
qed

lemma dispatch_parallel_in_order: "outcome_in_order (length act) l (dispatch_parallel x em c act l)"
proof -
  obtain all subs l1 where r: "parallel_loop x em c 0 act [] [] l = (all, subs, l1)"
    by (cases "parallel_loop x em c 0 act [] [] l")
  obtain d c2 l2 where d: "dispatch_parallel x em c act l = (d, c2, l2)"
    by (cases "dispatch_parallel x em c act l")
  from parallel_loop_invocations [OF r] have o1: "in_order l l1 (length act)" and n: "length all = length act"
    by (simp_all add: in_order_def comp_def)
  have "d_verdicts d = summaries all act subs \<and> in_order l l2 (length act)"
    using d r o1 by (auto simp: dispatch_parallel_def in_order_aggregate in_order_unanimous
        dest: aggregate_summaries unanimous_summaries split: if_splits)
  with d n show ?thesis by (auto simp: outcome_in_order_def summaries_index)
qed

lemma dispatch_in_order: "outcome_in_order (length (active em c)) l (dispatch x em c l)"
proof (cases "active em c = []")
  case False
  then show ?thesis
    by (simp add: dispatch_def Let_def dispatch_first_deny_in_order dispatch_run_all_in_order
        dispatch_parallel_in_order split: composition_profile.split)
qed (simp add: dispatch_def outcome_in_order_def synthesized_def)

end
