(* ===== verification/Emission.thy ===== *)
theory Emission
  imports Dispatch_Order
begin

text \<open>
  \<open>emitter.rs\<close>, one whole emission: the envelope and version checks, the input
  identity, dispatch, the record, its delivery, and the blocked or proceeding answer the
  host gets. A projection failure of the host takes the same record stream.
\<close>

section \<open>Delivery\<close>

text \<open>The eviction loop: \<open>max.max(1)\<close> keeps it from running on an empty buffer.\<close>

function evict :: "nat \<Rightarrow> 'r list \<Rightarrow> nat \<Rightarrow> 'r list \<times> nat" where
  "evict m recs dropped =
     (if length recs \<ge> max m 1 then evict m (tl recs) (dropped + 1) else (recs, dropped))"
  by pat_completeness auto
termination by (relation "measure (\<lambda>(m, recs, n). length recs)") auto

declare evict.simps [simp del]

text \<open>\<open>deliver\<close>: the sink's panics are swallowed, so the buffer always gets the record.\<close>

definition deliver ::
  "interception_record \<Rightarrow> emitter \<Rightarrow> event list \<Rightarrow> interception_record \<times> emitter \<times> event list" where
  "deliver rec em log =
     (let log' = (if e_sink em then log @ [Delivered rec] else log);
          (kept, dropped) =
            (case e_max_records em of
               Some m \<Rightarrow> evict m (e_records em) (e_records_dropped em)
             | None \<Rightarrow> (e_records em, e_records_dropped em))
      in (rec, em\<lparr>e_records := kept @ [rec], e_records_dropped := dropped\<rparr>, log'))"

section \<open>One emission\<close>

definition spec_detail :: "emitter \<Rightarrow> string" where
  "spec_detail em = ''$.spec: this emitter runs '' @ spec_wire (e_spec em)
     @ ''; the context names another version (see spec '' @ sect @ ''4)''"

text \<open>What the envelope and version checks synthesize, if anything.\<close>

definition precheck :: "emitter \<Rightarrow> object \<Rightarrow> outcome option" where
  "precheck em ctx =
     (case validate_envelope ctx of
        Inl (e, detail) \<Rightarrow> Some (synthesized e (Some detail))
      | Inr _ \<Rightarrow>
          if spec_of_context ctx \<noteq> Some (e_spec em)
          then Some (synthesized ContextInvalid (Some (spec_detail em)))
          else None)"

text \<open>Whether the context's bytes cannot have changed since the input identity.\<close>

definition unchanged_since_input :: "emitter \<Rightarrow> outcome \<Rightarrow> bool" where
  "unchanged_since_input em d \<longleftrightarrow>
     e_mode em = EvaluateOnly
     \<or> (d_resolved_by d = None \<and> v_decision (d_combined d) \<noteq> Transform
        \<and> list_all (\<lambda>s. s_decision s \<noteq> Transform) (d_verdicts d))"

definition emission_meta ::
  "externs \<Rightarrow> emitter \<Rightarrow> bool \<Rightarrow> string option \<Rightarrow> outcome \<Rightarrow> object \<Rightarrow> finalize_meta" where
  "emission_meta x em envelope_invalid input_identity d ctx' =
     \<lparr>m_input_identity = input_identity,
      m_identity_provider = identity_name (e_identity em),
      m_enforced_identity =
        (case e_identity em of
           CustomIdentity _ _ \<Rightarrow>
             if \<not> envelope_invalid
             then (case identity_compute x (e_identity em) ctx' of Inr i \<Rightarrow> i | Inl _ \<Rightarrow> None)
             else None
         | _ \<Rightarrow> None),
      m_jcs_input_rejected = False,
      m_unchanged = unchanged_since_input em d,
      m_decided_by = d_decided_by d,
      m_composition = e_composition em,
      m_declaration = e_declaration em,
      m_verdicts = d_verdicts d,
      m_fold_truncated = d_fold_truncated d,
      m_resolved_by = d_resolved_by d,
      m_registered = length (active em ctx')\<rparr>"

definition emit_unchecked ::
  "externs \<Rightarrow> emitter \<Rightarrow> object \<Rightarrow> event list
     \<Rightarrow> interception_record \<times> emitter \<times> object \<times> event list" where
  "emit_unchecked x em ctx log =
     (let early = precheck em ctx;
          envelope_invalid = (early \<noteq> None);
          (input_identity, early') =
            (if envelope_invalid then (None, early)
             else case identity_compute x (e_identity em) ctx of
               Inr i \<Rightarrow> (i, None)
             | Inl (e, detail) \<Rightarrow> (None, Some (synthesized e (Some detail))));
          (d, ctx', log1) =
            (case early' of Some d \<Rightarrow> (d, ctx, log) | None \<Rightarrow> dispatch x em ctx log);
          meta = emission_meta x em envelope_invalid input_identity d ctx';
          (rec, em', log2) = deliver (finalize x ctx' (d_combined d) (e_mode em) meta) em log1
      in (rec, em', ctx', log2))"

record emit_outcome =
  eo_record :: interception_record
  eo_target :: json

text \<open>\<open>Inl\<close> is \<open>InterceptionBlocked\<close> with the record.\<close>

definition emit ::
  "externs \<Rightarrow> emitter \<Rightarrow> object \<Rightarrow> event list
     \<Rightarrow> (interception_record + emit_outcome) \<times> emitter \<times> object \<times> event list" where
  "emit x em ctx log =
     (let (rec, em', ctx', log') = emit_unchecked x em ctx log in
      (if proceeds rec
       then Inr \<lparr>eo_record = rec,
                 eo_target = (case obj_get ctx' ''target'' of None \<Rightarrow> JNull | Some t \<Rightarrow> t)\<rparr>
       else Inl rec, em', ctx', log'))"

section \<open>Host projection failures\<close>

record host_failure =
  hf_detail :: "string option"
  hf_session_id :: "string option"
  hf_sequence :: "int option"
  hf_timestamp :: "string option"

definition i64_number :: "int \<Rightarrow> number" where
  "i64_number n = (if n \<ge> 0 then PosInt (word_of_int n) else NegInt (word_of_int n))"

definition failure_basis :: "interception_point \<Rightarrow> host_failure \<Rightarrow> object" where
  "failure_basis point hf =
     (let b0 = obj_insert ''interception_point'' (JStr (point_str point)) [];
          b1 = (case hf_session_id hf of None \<Rightarrow> b0
                | Some sid \<Rightarrow> obj_insert ''session'' (JObj [(''id'', JStr sid)]) b0);
          b2 = (case hf_sequence hf of None \<Rightarrow> b1
                | Some n \<Rightarrow> obj_insert ''sequence'' (JNum (i64_number n)) b1)
      in case hf_timestamp hf of None \<Rightarrow> b2
         | Some ts \<Rightarrow> obj_insert ''timestamp'' (JStr ts) b2)"

definition record_host_failure ::
  "externs \<Rightarrow> emitter \<Rightarrow> interception_point \<Rightarrow> host_failure \<Rightarrow> event list
     \<Rightarrow> interception_record \<times> emitter \<times> event list" where
  "record_host_failure x em point hf log =
     (let meta =
            \<lparr>m_input_identity = None, m_identity_provider = identity_name (e_identity em),
             m_enforced_identity = None, m_jcs_input_rejected = False, m_unchanged = False,
             m_decided_by = None, m_composition = e_composition em, m_declaration = e_declaration em,
             m_verdicts = [], m_fold_truncated = None, m_resolved_by = None,
             m_registered = length (filter (\<lambda>b. runs_at b (Some point)) (e_interceptors em))\<rparr>
      in deliver
           (finalize x (failure_basis point hf) (host_error ContextInvalid (hf_detail hf)) (e_mode em) meta)
           em log)"

section \<open>The record stream\<close>

lemma evict_drop:
  "evict m recs n = (let k = length recs + 1 - max m 1 in (drop k recs, n + k))"
proof (induction m recs n rule: evict.induct)
  case (1 m recs n)
  show ?case
  proof (cases "length recs \<ge> max m 1")
    case True
    define k where "k = length (tl recs) + 1 - max m 1"
    have k: "length recs + 1 - max m 1 = Suc k" 
      using True by (cases recs) (auto simp: k_def Suc_diff_le)
    have "evict m recs n = evict m (tl recs) (n + 1)" using True by (subst evict.simps) simp
    also have "\<dots> = (drop k (tl recs), n + 1 + k)" using "1.IH" [OF True] by (simp add: k_def Let_def)
    finally show ?thesis unfolding k Let_def by (simp add: drop_Suc)
  next
    case False
    then have "length recs + 1 - max m 1 = 0" by arith
    with False show ?thesis by (auto simp: evict.simps [of m recs n])
  qed
qed

lemma deliver_record [simp]: "fst (deliver rec em log) = rec"
  by (simp add: deliver_def Let_def split_beta)

lemma deliver_config:
  assumes "deliver rec em log = (rec', em', log')"
  shows "rec' = rec" and "em' = em\<lparr>e_records := e_records em', e_records_dropped := e_records_dropped em'\<rparr>"
    and "log' = log \<or> log' = log @ [Delivered rec]"
  using assms by (auto simp: deliver_def Let_def split_beta)

lemma deliver_buffer:
  assumes "deliver rec em log = (rec', em', log')"
  shows "\<exists>k. e_records em' = drop k (e_records em) @ [rec] \<and> k \<le> length (e_records em)
    \<and> e_records_dropped em' = e_records_dropped em + k
    \<and> (case e_max_records em of None \<Rightarrow> k = 0 | Some m \<Rightarrow> length (e_records em') \<le> max m 1)"
  using assms
  by (cases "e_max_records em")
     (auto simp: deliver_def evict_drop Let_def intro!: exI [of _ 0]
        exI [of _ "length (e_records em) + 1 - max _ 1"])

section \<open>The shape of an emission\<close>

text \<open>
  An emission that stops before dispatch leaves the context and calls nobody; otherwise
  its record is the finalized outcome of dispatch.
\<close>

lemma precheck_None:
  "precheck em ctx = None \<longleftrightarrow> validate_envelope ctx = Inr () \<and> spec_of_context ctx = Some (e_spec em)"
  by (auto simp: precheck_def split: sum.splits if_splits)

lemma emit_unchecked_early:
  assumes "precheck em ctx = Some d"
  shows "emit_unchecked x em ctx log =
    (let (rec, em', log') = deliver (finalize x ctx (d_combined d) (e_mode em)
        (emission_meta x em True None d ctx)) em log
     in (rec, em', ctx, log'))"
  using assms by (simp add: emit_unchecked_def)

lemma emit_unchecked_no_identity:
  assumes "precheck em ctx = None" "identity_compute x (e_identity em) ctx = Inl (e, m)"
  shows "emit_unchecked x em ctx log =
    (let d = synthesized e (Some m);
         (rec, em', log') = deliver (finalize x ctx (d_combined d) (e_mode em)
           (emission_meta x em False None d ctx)) em log
     in (rec, em', ctx, log'))"
  using assms by (simp add: emit_unchecked_def Let_def)

lemma emit_unchecked_dispatch:
  assumes "precheck em ctx = None" "identity_compute x (e_identity em) ctx = Inr i"
    "dispatch x em ctx log = (d, ctx', log1)"
  shows "emit_unchecked x em ctx log =
    (let (rec, em', log') = deliver (finalize x ctx' (d_combined d) (e_mode em)
        (emission_meta x em False i d ctx')) em log1
     in (rec, em', ctx', log'))"
  using assms by (simp add: emit_unchecked_def Let_def)

end
