(* ===== verification/Emission_Laws.thy ===== *)
theory Emission_Laws
  imports Emission
begin

text \<open>
  What one emission guarantees to the host: where a permit can come from, what the two
  identities of the record bind, what happens to the context, and how a failing control is
  handled. The reachable emitters, and the invariant the registration checks keep.
\<close>

section \<open>Permits\<close>

lemma precheck_denies:
  assumes "precheck em ctx = Some d"
  shows "\<exists>m. d = synthesized ContextInvalid m"
  using assms envelope_failure [of ctx]
  by (cases "validate_envelope ctx") (auto simp: precheck_def split: if_splits)

lemma finalize_deny:
  "v_decision v = Deny \<Longrightarrow> \<not> permits (v_decision (r_verdict (finalize x ctx v mode meta)))"
  by (auto dest: finalize_permits(2))

lemma deliver_shape:
  "deliver rec em log = (rec', em', log') \<Longrightarrow> rec' = rec \<and> (log' = log \<or> log' = log @ [Delivered rec])"
  by (simp add: deliver_config(1) deliver_config(3))

text \<open>A permit on the record is the outcome of a dispatch that ran.\<close>

lemma emit_permit:
  assumes e: "emit_unchecked x em ctx log = (rec, em', ctx', log')"
    and p: "permits (v_decision (r_verdict rec))"
  obtains i d log1 where "validate_envelope ctx = Inr ()" "spec_of_context ctx = Some (e_spec em)"
    "identity_compute x (e_identity em) ctx = Inr i" "dispatch x em ctx log = (d, ctx', log1)"
    "permits (v_decision (d_combined d))" "validate_envelope ctx' = Inr ()"
    "r_verdict rec = payload_free_projection (d_combined d)"
    "r_verdicts rec = d_verdicts d" "r_resolved_by rec = d_resolved_by d"
    "log' = log1 \<or> log' = log1 @ [Delivered rec]"
proof (cases "precheck em ctx")
  case (Some d)
  then obtain m where "d = synthesized ContextInvalid m" by (auto dest: precheck_denies)
  with e Some p have False
    by (auto simp: emit_unchecked_early Let_def synthesized_def split: prod.splits
        dest!: deliver_config(1) simp: finalize_deny)
  then show ?thesis ..
next
  case None
  show ?thesis
  proof (cases "identity_compute x (e_identity em) ctx")
    case (Inl f)
    obtain k m where f: "f = (k, m)" by (cases f)
    with e Inl None p have False
      by (auto simp: emit_unchecked_no_identity Let_def synthesized_def split: prod.splits
          dest!: deliver_config(1) simp: finalize_deny)
    then show ?thesis ..
  next
    case (Inr i)
    obtain d c1 log1 where d: "dispatch x em ctx log = (d, c1, log1)" by (cases "dispatch x em ctx log")
    define fin where "fin = finalize x c1 (d_combined d) (e_mode em) (emission_meta x em False i d c1)"
    have del: "deliver fin em log1 = (rec, em', log')" and c1: "c1 = ctx'"
      using e emit_unchecked_dispatch [OF None Inr d] by (simp_all add: fin_def Let_def split: prod.splits)
    from deliver_config(1) [OF del] have rec: "rec = fin" .
    note perm = finalize_permits [OF p [unfolded rec fin_def]]
    show ?thesis
      using that [OF _ _ Inr, of d log1] None d c1 perm deliver_config(3) [OF del] rec
      by (auto simp: precheck_None fin_def emission_meta_def)
  qed
qed

lemma approved_since_append: "approved_since x em l m \<Longrightarrow> approved_since x em l (m @ k)"
  by (fastforce simp: approved_since_def)

section \<open>The context\<close>

lemma emit_context:
  assumes "emit_unchecked x em ctx log = (rec, em', ctx', log')"
  obtains "ctx' = ctx" "log' = log \<or> log' = log @ [Delivered rec]"
  | d log1 where "dispatch x em ctx log = (d, ctx', log1)" "log' = log1 \<or> log' = log1 @ [Delivered rec]"
      "precheck em ctx = None"
proof (cases "precheck em ctx")
  case (Some d)
  with assms show ?thesis
    by (intro that(1)) (auto simp: emit_unchecked_early Let_def split: prod.splits
        dest!: deliver_shape)
next
  case None
  show ?thesis
  proof (cases "identity_compute x (e_identity em) ctx")
    case (Inl f)
    obtain k m where "f = (k, m)" by (cases f)
    with assms Inl None show ?thesis
      by (intro that(1)) (auto simp: emit_unchecked_no_identity Let_def split: prod.splits
          dest!: deliver_shape)
  next
    case (Inr i)
    obtain d c1 log1 where d: "dispatch x em ctx log = (d, c1, log1)" by (cases "dispatch x em ctx log")
    with assms None Inr show ?thesis
      by (intro that(2)) (auto simp: emit_unchecked_dispatch Let_def split: prod.splits
          dest!: deliver_shape)
  qed
qed

lemma emit_same_envelope:
  assumes "emit_unchecked x em ctx log = (rec, em', ctx', log')"
  shows "same_envelope ctx ctx'"
  using assms
  by (rule emit_context) (auto dest: envelope.R_dispatch)

lemma emit_evaluate_only:
  assumes "emit_unchecked x em ctx log = (rec, em', ctx', log')" "e_mode em = EvaluateOnly"
  shows "ctx' = ctx" and "consultations log' = consultations log"
  using assms
  by (auto elim!: emit_context dest: evaluation.R_dispatch)

lemma emit_mode:
  assumes "emit_unchecked x em ctx log = (rec, em', ctx', log')"
  shows "r_mode rec = e_mode em"
  using assms
  by (auto simp: emit_unchecked_def Let_def split: prod.splits if_splits sum.splits option.splits
      dest!: deliver_config(1))

section \<open>Identities\<close>

text \<open>The shortcut that reuses the input identity is only taken on an unchanged context.\<close>

lemma unchanged_context:
  assumes d: "dispatch x em ctx log = (d, ctx', log')" and u: "unchanged_since_input em d"
  shows "ctx' = ctx"
proof (cases "e_mode em")
  case EvaluateOnly
  with evaluation.R_dispatch [OF d] show ?thesis by simp
next
  case Enforce
  from dispatch_sound [of x em ctx log] d obtain vs where
    vs: "map s_decision (d_verdicts d) = map v_decision vs"
    and s: "sound x em ctx log vs (d_combined d) (d_resolved_by d) ctx' log'"
    by (auto simp: sound_outcome_def)
  have "no_transform vs"
  proof -
    have "\<forall>k\<in>set (map s_decision (d_verdicts d)). k \<noteq> Transform"
      using u Enforce by (simp add: unchanged_since_input_def list_all_iff)
    then show ?thesis unfolding vs by (simp add: no_transform_def)
  qed
  with s u Enforce show ?thesis by (simp add: sound_def unchanged_since_input_def)
qed

lemma finalize_jcs_enforced:
  assumes "r_enforced_identity (finalize x ctx v mode meta) = Some e"
    and "m_identity_provider meta = Some JCS_SHA256" "\<not> m_jcs_input_rejected meta"
  shows "m_unchanged meta \<and> m_input_identity meta = Some e \<or> context_identity x ctx = Inr e"
proof (cases "validate_envelope ctx")
  case (Inl f)
  with finalize_envelope_bad(3) [OF Inl] assms(1) show ?thesis by simp
next
  case (Inr u)
  then have env: "validate_envelope ctx = Inr ()" by simp
  obtain i v' d' where a: "enforced_arm x ctx meta False v (m_decided_by meta) = (i, v', d')"
    by (cases "enforced_arm x ctx meta False v (m_decided_by meta)")
  with finalize_envelope_ok(2) [OF env a] assms show ?thesis
    by (auto simp: enforced_arm_def split: if_splits sum.splits)
qed

lemma finalize_input_identity:
  "r_input_identity (finalize x ctx v mode meta) \<in> {None, m_input_identity meta}"
  by (simp add: finalize_def Let_def split_beta)

lemma emission_meta_simps [simp]:
  "m_input_identity (emission_meta x em ei i d c) = i"
  "m_identity_provider (emission_meta x em ei i d c) = identity_name (e_identity em)"
  "m_jcs_input_rejected (emission_meta x em ei i d c) = False"
  "m_unchanged (emission_meta x em ei i d c) = unchanged_since_input em d"
  "m_verdicts (emission_meta x em ei i d c) = d_verdicts d"
  "m_resolved_by (emission_meta x em ei i d c) = d_resolved_by d"
  "m_fold_truncated (emission_meta x em ei i d c) = d_fold_truncated d"
  "m_decided_by (emission_meta x em ei i d c) = d_decided_by d"
  "m_composition (emission_meta x em ei i d c) = e_composition em"
  "m_registered (emission_meta x em ei i d c) = length (active em c)"
  by (simp_all add: emission_meta_def)

lemma emit_jcs_identities:
  assumes e: "emit_unchecked x em ctx log = (rec, em', ctx', log')" and id: "e_identity em = JcsSha256"
  shows "r_input_identity rec = Some i \<Longrightarrow> context_identity x ctx = Inr i"
    and "r_enforced_identity rec = Some i \<Longrightarrow> context_identity x ctx' = Inr i"
proof -
  have early: "rec = finalize x ctx (d_combined d) (e_mode em) (emission_meta x em ei None d ctx)
      \<Longrightarrow> ctx' = ctx \<Longrightarrow> r_input_identity rec = None \<and>
        (r_enforced_identity rec = Some i \<longrightarrow> context_identity x ctx' = Inr i)" for d ei
    using finalize_input_identity [of x ctx "d_combined d" "e_mode em" "emission_meta x em ei None d ctx"]
      finalize_jcs_enforced [of x ctx "d_combined d" "e_mode em" "emission_meta x em ei None d ctx" i]
    by (auto simp: id)
  have goal: "(r_input_identity rec = Some i \<longrightarrow> context_identity x ctx = Inr i)
    \<and> (r_enforced_identity rec = Some i \<longrightarrow> context_identity x ctx' = Inr i)"
  proof (cases "precheck em ctx")
    case (Some d)
    with e have "rec = finalize x ctx (d_combined d) (e_mode em) (emission_meta x em True None d ctx)"
      "ctx' = ctx"
      by (auto simp: emit_unchecked_early Let_def split: prod.splits dest!: deliver_shape)
    from early [OF this] show ?thesis by simp
  next
    case None
    show ?thesis
    proof (cases "context_identity x ctx")
      case (Inl f)
      obtain k m where f: "f = (k, m)" by (cases f)
      have "identity_compute x (e_identity em) ctx = Inl (k, m)" using Inl f id by simp
      from e emit_unchecked_no_identity [OF None this]
      have "rec = finalize x ctx (d_combined (synthesized k (Some m))) (e_mode em)
          (emission_meta x em False None (synthesized k (Some m)) ctx)" "ctx' = ctx"
        by (auto simp: Let_def split: prod.splits dest!: deliver_shape)
      from early [OF this] show ?thesis by simp
    next
      case (Inr j)
      then have j: "identity_compute x (e_identity em) ctx = Inr (Some j)" using id by simp
      obtain d c1 log1 where d: "dispatch x em ctx log = (d, c1, log1)" by (cases "dispatch x em ctx log")
      define meta where "meta = emission_meta x em False (Some j) d c1"
      have rec: "rec = finalize x c1 (d_combined d) (e_mode em) meta" and c1: "c1 = ctx'"
        using e emit_unchecked_dispatch [OF None j d]
        by (auto simp: meta_def Let_def split: prod.splits dest!: deliver_shape)
      have "context_identity x ctx' = Inr i" if "r_enforced_identity rec = Some i"
        using finalize_jcs_enforced [OF that [unfolded rec]] unchanged_context [OF d] Inr c1 id
        by (auto simp: meta_def)
      moreover have "r_input_identity rec \<in> {None, Some j}"
        using finalize_input_identity [of x c1 "d_combined d" "e_mode em" meta] rec by (simp add: meta_def)
      ultimately show ?thesis using Inr by auto
    qed
  qed
  then show "r_input_identity rec = Some i \<Longrightarrow> context_identity x ctx = Inr i"
    and "r_enforced_identity rec = Some i \<Longrightarrow> context_identity x ctx' = Inr i" by simp_all
qed

lemma emit_permit_identities:
  assumes e: "emit_unchecked x em ctx log = (rec, em', ctx', log')" and id: "e_identity em = JcsSha256"
    and p: "permits (v_decision (r_verdict rec))"
  shows "r_input_identity rec \<noteq> None" and "r_enforced_identity rec \<noteq> None"
proof -
  from e p obtain i d log1 where pre: "validate_envelope ctx = Inr ()" "spec_of_context ctx = Some (e_spec em)"
    and i: "identity_compute x (e_identity em) ctx = Inr i" and d: "dispatch x em ctx log = (d, ctx', log1)"
    and env: "validate_envelope ctx' = Inr ()" and v: "permits (v_decision (d_combined d))"
    by (rule emit_permit)
  have None: "precheck em ctx = None" using pre by (simp add: precheck_None)
  obtain j where j: "i = Some j" using i id by (auto simp: res_bind_Inr_iff)
  define meta where "meta = emission_meta x em False i d ctx'"
  have rec: "rec = finalize x ctx' (d_combined d) (e_mode em) meta"
    using e emit_unchecked_dispatch [OF None i d]
    by (auto simp: meta_def Let_def split: prod.splits dest!: deliver_shape)
  obtain e' v' d' where a: "enforced_arm x ctx' meta False (d_combined d) (m_decided_by meta) = (e', v', d')"
    by (cases "enforced_arm x ctx' meta False (d_combined d) (m_decided_by meta)")
  note fin = finalize_envelope_ok [OF env a, of "e_mode em", folded rec]
  from fin(4) j show "r_input_identity rec \<noteq> None" by (simp add: meta_def)
  have "permits (v_decision v')" using p fin(1) by simp
  with a id j show "r_enforced_identity rec \<noteq> None"
    by (auto simp: fin(2) enforced_arm_def meta_def JCS_SHA256_def dest!: context_identity_failure
        split: if_splits sum.splits)
qed

section \<open>A failing control\<close>

text \<open>A registration whose calls fail and whose failures \<open>on_error\<close> does not forgive.\<close>

definition fails_closed :: "emitter \<Rightarrow> bound \<Rightarrow> bool" where
  "fails_closed em b \<longleftrightarrow>
     (\<forall>c l. case call_isolated em b c l of
        Inl f \<Rightarrow> b_on_error b = OE_Deny \<or> \<not> cf_continuable f
      | Inr v \<Rightarrow> False)"

lemma invoke_fails_closed:
  assumes "fails_closed em b" "invoke x em c i b l = (st, l')"
  obtains e m where "st_verdict st = host_error e m"
proof -
  obtain f where f: "call_isolated em b c l = Inl f" "b_on_error b = OE_Deny \<or> \<not> cf_continuable f"
    using assms(1) [unfolded fails_closed_def, rule_format, of c l]
    by (cases "call_isolated em b c l") auto
  with assms(2) have "st_verdict st = host_error (cf_reason f) (cf_detail f)"
    by (auto simp: invoke_def settle_def Let_def split: if_splits option.splits)
  then show ?thesis by (rule that)
qed

lemma host_error_synthesized [simp]: "is_host_synthesized (host_error e m)"
  by (cases e) (simp_all add: is_host_synthesized_def starts_with_def)

lemma first_deny_step_resume:
  assumes "first_deny_step x em act Resume i b s c l = (Inl d, c', l')"
  shows "\<not> permits (v_decision (d_combined d))"
proof -
  obtain st l1 where i: "invoke x em c i b l = (st, l1)" by (cases "invoke x em c i b l")
  define s1 where "s1 = push_settled st s"
  have match: "first_deny_match x em act Resume i s1 (st_verdict st) c l1 = (Inl d, c', l')"
    using assms i by (simp add: first_deny_step_def s1_def)
  obtain q l2 where q: "consult x em c (st_verdict st) l1 = (q, l2)"
    by (cases "consult x em c (st_verdict st) l1")
  from match invoke_synthesized [OF i] q consult_rejected(1) [of x em c "st_verdict st" l1 _ l2] show ?thesis
    by (fastforce simp: first_deny_match_def first_deny_denied_def first_deny_approved_def stop_at_def Let_def
        split: if_splits decision.splits prod.splits consultation.splits)
qed

lemma first_deny_loop_fails:
  assumes "b \<in> set bs" "fails_closed em b" "first_deny_loop x em act Resume i bs s c l = (r, c', l')"
  shows "\<exists>d. r = Inl d \<and> \<not> permits (v_decision (d_combined d))"
  using assms
proof (induction bs arbitrary: i s c l)
  case (Cons a bs)
  obtain q c1 l1 where st: "first_deny_step x em act Resume i a s c l = (q, c1, l1)"
    by (cases "first_deny_step x em act Resume i a s c l")
  show ?case
  proof (cases q)
    case (Inl d)
    with Cons.prems(3) st first_deny_step_resume show ?thesis by auto
  next
    case (Inr s')
    have "a \<noteq> b"
    proof
      assume ab: "a = b"
      obtain t l2 where i: "invoke x em c i b l = (t, l2)" by (cases "invoke x em c i b l")
      obtain e m where "st_verdict t = host_error e m" by (rule invoke_fails_closed [OF Cons.prems(2) i])
      with st ab i Inr show False by (simp add: first_deny_step_def first_deny_match_def)
    qed
    with Cons.prems have "b \<in> set bs" by simp
    from Cons.IH [OF this Cons.prems(2)] Cons.prems(3) st Inr show ?thesis by simp
  qed
qed simp

lemma run_all_loop_fails:
  assumes "b \<in> set bs" "fails_closed em b" "run_all_loop x em act i bs all subs c l = (r, c', l')"
  shows "case r of Inl d \<Rightarrow> \<not> permits (v_decision (d_combined d))
    | Inr p \<Rightarrow> \<exists>e m. host_error e m \<in> set (fst p)"
proof -
  have keep: "set all \<subseteq> set (fst p)" if "run_all_loop x em act i bs all subs c l = (Inr p, c', l')"
    for i bs all subs c l c' l' p
    using that by (induction bs arbitrary: i all subs c l) (fastforce simp: Let_def split: prod.splits if_splits)+
  show ?thesis
    using assms
  proof (induction bs arbitrary: i all subs c l)
    case (Cons a bs)
    obtain t l2 where i: "invoke x em c i a l = (t, l2)" by (cases "invoke x em c i a l")
    show ?case
    proof (cases "b \<in> set bs")
      case True
      note ih = Cons.IH [OF True Cons.prems(2)]
      from Cons.prems(3) i ih show ?thesis
        by (auto simp: Let_def split: if_splits prod.splits)
    next
      case False
      with Cons.prems(1) have "a = b" by simp
      then obtain e m where v: "st_verdict t = host_error e m"
        using invoke_fails_closed [OF Cons.prems(2)] i by metis
      with Cons.prems(3) i have run: "run_all_loop x em act (Suc i) bs (all @ [host_error e m])
          (subs @ [st_substituted_for t]) c l2 = (r, c', l')"
        by simp
      show ?thesis
      proof (cases r)
        case (Inl d)
        have "\<not> permits (v_decision (d_combined d))"
          if "run_all_loop x em act i bs all subs c l = (Inl d, c', l')" for i bs all subs c l
          using that
          by (induction bs arbitrary: i all subs c l) (auto simp: Let_def split: prod.splits if_splits)
        with run Inl show ?thesis by auto
      next
        case (Inr p)
        with keep [OF run [unfolded Inr]] show ?thesis by auto
      qed
    qed
  qed simp
qed

lemma parallel_loop_fails:
  assumes "b \<in> set bs" "fails_closed em b" "parallel_loop x em c i bs all subs l = (all', subs', l')"
  shows "\<exists>e m. host_error e m \<in> set all'"
proof -
  have keep: "set all \<subseteq> set all'" if "parallel_loop x em c i bs all subs l = (all', subs', l')"
    for i bs all subs l
    using that by (induction bs arbitrary: i all subs l) (fastforce split: prod.splits)+
  show ?thesis
    using assms
  proof (induction bs arbitrary: i all subs l)
    case (Cons a bs)
    obtain t l2 where i: "invoke x em c i a l = (t, l2)" by (cases "invoke x em c i a l")
    then have run: "parallel_loop x em c (Suc i) bs (all @ [st_verdict t])
        (subs @ [st_substituted_for t]) l2 = (all', subs', l')"
      using Cons.prems(3) by simp
    show ?case
    proof (cases "b \<in> set bs")
      case True
      from Cons.IH [OF True Cons.prems(2) run] show ?thesis .
    next
      case False
      with Cons.prems(1) have "a = b" by simp
      then obtain e m where "st_verdict t = host_error e m"
        using invoke_fails_closed [OF Cons.prems(2)] i by metis
      with keep [OF run] show ?thesis by auto
    qed
  qed simp
qed

text \<open>One plain deny decides the aggregation: no seam, no permit.\<close>

lemma aggregate_plain:
  assumes "v \<in> set all" "v_decision v = Deny" "\<not> is_liftable v"
    and a: "aggregate_and_consult x em c all sq None act subs l = (d, c', l')"
  shows "v_decision (d_combined d) = Deny" and "\<not> is_liftable (d_combined d)" and "l' = l" and "c' = c"
proof -
  from aggregate_plain_deny [OF assms(1-3), of sq] obtain i where
    i: "aggregate_strictest all sq = Winner i" "v_decision (all ! i) = Deny" "\<not> is_liftable (all ! i)" by blast
  then have "consult x em c (all ! i) l = (NotConsulted, l)" by (simp add: consult_def)
  with a i show "v_decision (d_combined d) = Deny" "\<not> is_liftable (d_combined d)" "l' = l" "c' = c"
    by (auto simp: aggregate_and_consult_def deny_winner_def Let_def)
qed

lemma unanimous_deny_policy:
  assumes "aggregate_unanimous x em c all act subs l = (d, c', l')"
    "on_disagreement (e_composition em) \<noteq> Some SP_Approval" "v \<in> set all" "v_decision v \<noteq> Allow"
  shows "\<not> permits (v_decision (d_combined d))"
proof -
  have "\<not> is_unanimous_allow all" using assms(3,4) by (auto simp: is_unanimous_allow_def list_all_iff)
  moreover have "(case on_disagreement (e_composition em) of None \<Rightarrow> SP_Deny | Some p \<Rightarrow> p) = SP_Deny"
    using assms(2) by (auto split: option.split intro: synthesis_policy.exhaust)
  ultimately show ?thesis
    using assms(1) by (auto simp: aggregate_unanimous_def synthesize_and_maybe_consult_def)
qed

text \<open>The knobs under which no approval can override an earlier or a parallel failure.\<close>

definition strict_knobs :: "composition_config \<Rightarrow> bool" where
  "strict_knobs c \<longleftrightarrow>
     (case profile c of
        SequentialFirstDeny \<Rightarrow> on_approval c = Some Resume
      | ParallelUnanimous \<Rightarrow> on_disagreement c \<noteq> Some SP_Approval
      | _ \<Rightarrow> True)"

lemma dispatch_fails_closed:
  assumes b: "b \<in> set (active em c)" "fails_closed em b" and k: "strict_knobs (e_composition em)"
    and d: "dispatch x em c l = (d, c', l')"
  shows "\<not> permits (v_decision (d_combined d))"
proof -
  define act where "act = active em c"
  have act: "act \<noteq> []" "b \<in> set act" using b by (auto simp: act_def)
  have par: "\<not> permits (v_decision (d_combined d))"
    if p: "dispatch_parallel x em c act l = (d, c', l')"
      and k: "profile (e_composition em) = ParallelUnanimous \<longrightarrow>
        on_disagreement (e_composition em) \<noteq> Some SP_Approval"
  proof -
    obtain all subs l1 where r: "parallel_loop x em c 0 act [] [] l = (all, subs, l1)"
      by (cases "parallel_loop x em c 0 act [] [] l")
    from parallel_loop_fails [OF act(2) b(2) r] obtain e m where h: "host_error e m \<in> set all" by blast
    from p r k unanimous_deny_policy [of x em c all act subs l1 d c' l', OF _ _ h]
      aggregate_plain(1) [OF h, of x em c False act subs l1 d c' l']
    show ?thesis by (auto simp: dispatch_parallel_def split: if_splits)
  qed
  show ?thesis
  proof (cases "profile (e_composition em)")
    case SequentialFirstDeny
    then have knob: "on_approval (e_composition em) = Some Resume" using k by (simp add: strict_knobs_def)
    obtain r c1 l1 where r: "first_deny_loop x em act Resume 0 act fold_start c l = (r, c1, l1)"
      by (cases "first_deny_loop x em act Resume 0 act fold_start c l")
    from first_deny_loop_fails [OF act(2) b(2) r] r d act(1) SequentialFirstDeny knob show ?thesis
      by (auto simp: dispatch_def dispatch_first_deny_def Let_def simp flip: act_def)
  next
    case SequentialRunAll
    obtain r c1 l1 where r: "run_all_loop x em act 0 act [] [] c l = (r, c1, l1)"
      by (cases "run_all_loop x em act 0 act [] [] c l")
    have d': "dispatch_run_all x em c act l = (d, c', l')"
      using d act(1) SequentialRunAll by (simp add: dispatch_def flip: act_def)
    show ?thesis
    proof (cases r)
      case (Inl e)
      with run_all_loop_fails [OF act(2) b(2) r] r d' show ?thesis by (simp add: dispatch_run_all_def)
    next
      case (Inr p)
      obtain all subs where p: "p = (all, subs)" by (cases p)
      from run_all_loop_fails [OF act(2) b(2) r] Inr p obtain e m where h: "host_error e m \<in> set all" by auto
      from d' r Inr p have "aggregate_and_consult x em c1 all True None act subs l1 = (d, c', l')"
        by (simp add: dispatch_run_all_def)
      from aggregate_plain(1) [OF h _ _ this] show ?thesis by simp
    qed
  next
    case ParallelStrictest
    with par d act(1) show ?thesis by (simp add: dispatch_def flip: act_def)
  next
    case ParallelUnanimous
    then have "on_disagreement (e_composition em) \<noteq> Some SP_Approval" using k by (simp add: strict_knobs_def)
    with ParallelUnanimous par d act(1) show ?thesis by (simp add: dispatch_def flip: act_def)
  qed
qed

section \<open>Host projection failures\<close>

text \<open>The given sequence number survives the detour over a JSON number.\<close>

lemma i64_number_value:
  assumes "- (2 ^ 63) \<le> n" "n < 2 ^ 63"
  shows "number_as_i64 (i64_number n) = Some n"
proof (cases "n \<ge> 0")
  case True
  with assms have "uint (word_of_int n :: 64 word) = n" by (simp add: uint_word_of_int)
  moreover from this True assms(2) have "unat (word_of_int n :: 64 word) < 2 ^ 63"
    by (simp add: unat_eq_nat_uint nat_less_iff)
  ultimately show ?thesis using True by (simp add: i64_number_def)
next
  case False
  with assms have "sint (word_of_int n :: 64 word) = n"
    by (simp add: sint_sbintrunc' signed_take_bit_int_eq_self_iff)
  with False show ?thesis by (simp add: i64_number_def)
qed

end
