(* ===== verification/Emission_Lifecycle.thy ===== *)
theory Emission_Lifecycle
  imports Emission_Laws
begin

text \<open>
  The life of an emitter: what a host can do with it, as a step relation, and the
  invariant every reachable emitter keeps. How often one emission asks the resolver.
\<close>

section \<open>Steps of the host\<close>

inductive host_step :: "externs \<Rightarrow> emitter \<Rightarrow> emitter \<Rightarrow> bool" for x where
  composition: "set_composition c em = Inr em' \<Longrightarrow> host_step x em em'"
| identity: "set_identity_provider p em = Inr em' \<Longrightarrow> host_step x em em'"
| sink: "host_step x em (set_record_sink em)"
| notifier: "host_step x em (set_control_failure_notifier f em)"
| max_records: "set_max_records m em = Inr em' \<Longrightarrow> host_step x em em'"
| timeout: "set_timeout d em = Inr em' \<Longrightarrow> host_step x em em'"
| redactor: "set_approval_redactor r em = Inr em' \<Longrightarrow> host_step x em em'"
| take: "host_step x em (snd (take_records em))"
| registration: "register_at i n at em = Inr em' \<Longrightarrow> host_step x em em'"
| registration_options: "register_with_options i opts em = Inr em' \<Longrightarrow> host_step x em em'"
| managed: "register_managed m opts em = Inr em' \<Longrightarrow> host_step x em em'"
| emission: "emit_unchecked x em ctx log = (rec, em', ctx', log') \<Longrightarrow> host_step x em em'"
| projection_failure: "record_host_failure x em point hf log = (rec, em', log') \<Longrightarrow> host_step x em em'"

inductive reachable :: "externs \<Rightarrow> emitter \<Rightarrow> bool" for x where
  start: "reachable x (new_emitter tokio spec mode res)"
| step: "reachable x em \<Longrightarrow> host_step x em em' \<Longrightarrow> reachable x em'"

inductive_cases host_stepE: "host_step x em em'"

section \<open>The invariant\<close>

text \<open>A registration that continues past a failure has its notifier, and a version that allows it.\<close>

definition posture_ok :: "emitter \<Rightarrow> bool" where
  "posture_ok em \<longleftrightarrow>
     (\<forall>b\<in>set (e_interceptors em).
        b_on_error b = OE_Continue \<longrightarrow> e_notifier em \<noteq> None \<and> has_failure_posture (e_spec em))"

definition provider_ok :: "emitter \<Rightarrow> bool" where
  "provider_ok em \<longleftrightarrow>
     (case e_identity em of CustomIdentity name f \<Rightarrow> \<not> starts_with ''jcs'' name | _ \<Rightarrow> True)"

definition emitter_inv :: "emitter \<Rightarrow> bool" where
  "emitter_inv em \<longleftrightarrow>
     posture_ok em \<and> provider_ok em \<and> (\<forall>r\<in>set (e_records em). payload_free (r_verdict r))"

lemma validate_provider_name_ok:
  "validate_provider_name name = Inr u \<Longrightarrow> name \<noteq> [] \<and> \<not> starts_with ''jcs'' name"
  by (auto simp: validate_provider_name_def Let_def split: if_splits)

lemma setters_inv:
  assumes "emitter_inv em"
  shows "set_composition c em = Inr em' \<Longrightarrow> emitter_inv em'"
    and "set_max_records m em = Inr em' \<Longrightarrow> emitter_inv em'"
    and "set_timeout d em = Inr em' \<Longrightarrow> emitter_inv em'"
    and "set_approval_redactor r em = Inr em' \<Longrightarrow> emitter_inv em'"
    and "emitter_inv (set_record_sink em)"
    and "emitter_inv (set_control_failure_notifier f em)"
    and "emitter_inv (snd (take_records em))"
  using assms
  by (auto simp: emitter_inv_def posture_ok_def provider_ok_def res_bind_Inr_iff set_composition_def
      set_max_records_def set_timeout_def set_approval_redactor_def set_record_sink_def
      set_control_failure_notifier_def take_records_def)

lemma identity_inv: "emitter_inv em \<Longrightarrow> set_identity_provider p em = Inr em' \<Longrightarrow> emitter_inv em'"
  by (auto simp: emitter_inv_def posture_ok_def provider_ok_def set_identity_provider_def res_bind_Inr_iff
      dest: validate_provider_name_ok split: identity_provider.splits sum.splits)

lemma push_bound_inv: "emitter_inv em \<Longrightarrow> push_bound i opts em = Inr em' \<Longrightarrow> emitter_inv em'"
  by (auto simp: emitter_inv_def posture_ok_def provider_ok_def push_bound_def res_bind_Inr_iff Let_def
      split: if_splits)

lemma deliver_inv:
  assumes "deliver rec em log = (rec', em', log')" "emitter_inv em" "payload_free (r_verdict rec)"
  shows "emitter_inv em'"
proof -
  from deliver_buffer [OF assms(1)] obtain k where "e_records em' = drop k (e_records em) @ [rec]" by blast
  then have "\<forall>r\<in>set (e_records em'). payload_free (r_verdict r)"
    using assms(2,3) by (auto simp: emitter_inv_def dest: in_set_dropD)
  moreover have "posture_ok em' \<and> provider_ok em'"
    using assms(2) by (subst (1 2) deliver_config(2) [OF assms(1)])
      (simp add: emitter_inv_def posture_ok_def provider_ok_def)
  ultimately show ?thesis by (simp add: emitter_inv_def)
qed

lemma emit_deliver:
  assumes "emit_unchecked x em ctx log = (rec, em', ctx', log')"
  obtains v meta log1 where "deliver (finalize x ctx' v (e_mode em) meta) em log1 = (rec, em', log')"
  using assms
  by (auto simp: emit_unchecked_def Let_def split: prod.splits if_splits sum.splits option.splits
      intro: that)

lemma emit_inv:
  assumes "emitter_inv em" "emit_unchecked x em ctx log = (rec, em', ctx', log')"
  shows "emitter_inv em'"
  using assms(2) by (rule emit_deliver) (rule deliver_inv [OF _ assms(1) finalize_payload_free])

lemma host_failure_inv:
  assumes "emitter_inv em" "record_host_failure x em point hf log = (rec, em', log')"
  shows "emitter_inv em'"
  using assms(2) unfolding record_host_failure_def Let_def
  by (rule deliver_inv [OF _ assms(1) finalize_payload_free])

lemma host_step_inv: "host_step x em em' \<Longrightarrow> emitter_inv em \<Longrightarrow> emitter_inv em'"
  by (erule host_stepE)
     (auto simp: register_at_def register_with_options_def register_managed_def
       intro: setters_inv identity_inv push_bound_inv emit_inv host_failure_inv)

lemma new_emitter_inv: "emitter_inv (new_emitter tokio spec mode res)"
  by (simp add: emitter_inv_def posture_ok_def provider_ok_def new_emitter_def)

lemma reachable_inv: "reachable x em \<Longrightarrow> emitter_inv em"
  by (induction rule: reachable.induct) (auto intro: new_emitter_inv host_step_inv)

section \<open>How often the resolver is asked\<close>

lemma consult_once:
  "consult x em c v l = (k, l') \<Longrightarrow> length (consultations l') \<le> Suc (length (consultations l))"
  by (cases "l' = l") (auto dest!: consult_request)

lemma approved_consultations:
  "first_deny_approved em act k i s v c l = (r, c', l') \<Longrightarrow> l' = l"
  by (auto simp: first_deny_approved_def Let_def split: prod.splits if_splits on_approval.splits)

lemma first_deny_step_once:
  assumes "first_deny_step x em act k i b s c l = (r, c', l')"
  shows "length (consultations l') \<le> Suc (length (consultations l))"
    and "k = Stop \<Longrightarrow> r = Inr s' \<Longrightarrow> consultations l' = consultations l"
proof -
  obtain st l1 where i: "invoke x em c i b l = (st, l1)" by (cases "invoke x em c i b l")
  obtain q l2 where q: "consult x em c (st_verdict st) l1 = (q, l2)"
    by (cases "consult x em c (st_verdict st) l1")
  note le = consult_once [OF q, unfolded invoke_consultations [OF i]]
  show "length (consultations l') \<le> Suc (length (consultations l))"
    using assms i q le invoke_consultations [OF i]
    by (auto simp: first_deny_step_def first_deny_match_def first_deny_denied_def Let_def
        split: if_splits decision.splits prod.splits consultation.splits dest!: approved_consultations)
  show "consultations l' = consultations l" if "k = Stop" "r = Inr s'"
    using assms i q that invoke_consultations [OF i]
    by (auto simp: first_deny_step_def first_deny_match_def first_deny_denied_def first_deny_approved_def
        Let_def split: if_splits decision.splits prod.splits consultation.splits)
qed

lemma first_deny_loop_once:
  assumes "first_deny_loop x em act Stop i bs s c l = (r, c', l')"
  shows "length (consultations l') \<le> Suc (length (consultations l))"
  using assms
proof (induction bs arbitrary: i s c l)
  case (Cons b bs)
  obtain q c1 l1 where st: "first_deny_step x em act Stop i b s c l = (q, c1, l1)"
    by (cases "first_deny_step x em act Stop i b s c l")
  from Cons st first_deny_step_once [OF st] show ?case by (cases q) fastforce+
qed simp

lemma synthesize_once:
  assumes "synthesize_and_maybe_consult x em c e d p pool r l = (z, c', l')"
  shows "length (consultations l') \<le> Suc (length (consultations l))"
  using assms
  by (auto simp: synthesize_and_maybe_consult_def Let_def
      split: synthesis_policy.splits prod.splits consultation.splits if_splits dest!: consult_once)

lemma aggregate_once:
  assumes "aggregate_and_consult x em c all sq r act subs l = (z, c', l')"
  shows "length (consultations l') \<le> Suc (length (consultations l))"
  using assms
  by (auto simp: aggregate_and_consult_def deny_winner_def Let_def
      split: aggregate.splits decision.splits prod.splits consultation.splits if_splits
      dest!: consult_once synthesize_once)

lemma unanimous_once:
  assumes "aggregate_unanimous x em c all act subs l = (z, c', l')"
  shows "length (consultations l') \<le> Suc (length (consultations l))"
  using assms
  by (auto simp: aggregate_unanimous_def Let_def split: prod.splits if_splits dest!: synthesize_once)

lemma run_all_loop_consultations:
  "run_all_loop x em act i bs all subs c l = (r, c', l') \<Longrightarrow> consultations l' = consultations l"
proof (induction bs arbitrary: i all subs c l)
  case (Cons b bs)
  obtain st l1 where i: "invoke x em c i b l = (st, l1)" by (cases "invoke x em c i b l")
  from Cons i invoke_consultations [OF i] show ?case
    by (auto simp: Let_def split: if_splits prod.splits)
qed simp

lemma parallel_loop_consultations:
  "parallel_loop x em c i bs all subs l = (all', subs', l') \<Longrightarrow> consultations l' = consultations l"
proof (induction bs arbitrary: i all subs l)
  case (Cons b bs)
  obtain st l1 where i: "invoke x em c i b l = (st, l1)" by (cases "invoke x em c i b l")
  from Cons i invoke_consultations [OF i] show ?case by auto
qed simp

lemma dispatch_once:
  assumes d: "dispatch x em c l = (d, c', l')"
    and k: "profile (e_composition em) = SequentialFirstDeny \<longrightarrow> on_approval (e_composition em) \<noteq> Some Resume"
  shows "length (consultations l') \<le> Suc (length (consultations l))"
proof -
  define act where "act = active em c"
  show ?thesis
  proof (cases "act = []")
    case True
    with d show ?thesis by (simp add: dispatch_def flip: act_def)
  next
    case False
    show ?thesis
    proof (cases "profile (e_composition em)")
      case SequentialFirstDeny
      then have "(case on_approval (e_composition em) of None \<Rightarrow> Stop | Some k \<Rightarrow> k) = Stop"
        using k by (auto split: option.split intro: on_approval.exhaust)
      with SequentialFirstDeny d False show ?thesis
        by (auto simp: dispatch_def dispatch_first_deny_def simp flip: act_def
            split: prod.splits sum.splits dest!: first_deny_loop_once)
    next
      case SequentialRunAll
      with d False show ?thesis
        by (auto simp: dispatch_def dispatch_run_all_def simp flip: act_def
            split: prod.splits sum.splits dest!: aggregate_once run_all_loop_consultations)
    next
      case ParallelStrictest
      with d False show ?thesis
        by (auto simp: dispatch_def dispatch_parallel_def simp flip: act_def
            split: prod.splits if_splits dest!: aggregate_once parallel_loop_consultations)
    next
      case ParallelUnanimous
      with d False show ?thesis
        by (auto simp: dispatch_def dispatch_parallel_def simp flip: act_def
            split: prod.splits if_splits dest!: unanimous_once parallel_loop_consultations)
    qed
  qed
qed

section \<open>Aggregation calls no interceptor\<close>

lemma synthesize_invocations:
  "synthesize_and_maybe_consult x em c e d p pool r l = (z, c', l') \<Longrightarrow> invocations l' = invocations l"
  by (auto simp: synthesize_and_maybe_consult_def Let_def
      split: synthesis_policy.splits prod.splits consultation.splits if_splits dest: consult_invocations)

lemma aggregate_invocations:
  "aggregate_and_consult x em c all sq r act subs l = (z, c', l') \<Longrightarrow> invocations l' = invocations l"
  by (auto simp: aggregate_and_consult_def deny_winner_def Let_def
      split: aggregate.splits decision.splits prod.splits consultation.splits if_splits
      dest: consult_invocations synthesize_invocations)

lemma unanimous_invocations:
  "aggregate_unanimous x em c all act subs l = (z, c', l') \<Longrightarrow> invocations l' = invocations l"
  by (auto simp: aggregate_unanimous_def Let_def split: prod.splits if_splits dest: synthesize_invocations)

end
