(* ===== verification/Samples.thy ===== *)
theory Samples
  imports Emission_Lifecycle
begin

text \<open>
  Concrete inputs for the witnesses: an \<open>externs\<close> instance, a context of every
  kind the properties need, and emitters with scripted interceptors and resolvers.
\<close>

definition sample_externs :: externs where
  "sample_externs = \<lparr>ext_f64 = (\<lambda>_. ''0''), ext_sha256 = (\<lambda>s. take 32 (rev s))\<rparr>"

definition ctx_with :: "string \<Rightarrow> object" where
  "ctx_with content =
     [(''agent'', JObj [(''framework'', JStr ''rust''), (''id'', JStr ''a'')]),
      (''interception_point'', JStr ''output''),
      (''output'', JObj [(''content'', JStr content)]),
      (''sequence'', JNum (PosInt 1)),
      (''session'', JObj [(''id'', JStr ''s'')]),
      (''spec'', JStr ''agent-hooks/draft''),
      (''target'', JObj [(''content'', JStr content)]),
      (''timestamp'', JStr ''2025-01-01T00:00:00Z'')]"

definition sample_id :: "string \<Rightarrow> string" where
  "sample_id content =
     (case context_identity sample_externs (ctx_with content) of Inr i \<Rightarrow> i | Inl _ \<Rightarrow> [])"

definition scripted :: "verdict \<Rightarrow> std_interceptor" where
  "scripted v = \<lparr>run = (\<lambda>_ _. Some v), overruns = (\<lambda>_ _ _. False)\<rparr>"

definition crashing :: std_interceptor where
  "crashing = \<lparr>run = (\<lambda>_ _. None), overruns = (\<lambda>_ _ _. False)\<rparr>"

definition redact :: verdict where
  "redact = allow\<lparr>v_decision := Transform,
     v_transform := Some \<lparr>t_path = ''$target.content'', t_value = JStr ''x''\<rparr>\<rparr>"

definition echoing :: "approval_outcome \<Rightarrow> verdict \<Rightarrow> resolver" where
  "echoing k v =
     \<lparr>resolve_call = (\<lambda>_ q. Some \<lparr>a_outcome = k, a_context_identity = q_context_identity q,
        a_verdict = Some v\<rparr>),
      resolver_overruns = (\<lambda>_ _ _. False)\<rparr>"

definition bind :: "std_interceptor \<Rightarrow> bound" where
  "bind i = \<lparr>b_interceptor = Standard i, b_name = None, b_at = None, b_timeout = Inherit,
     b_on_error = OE_Deny\<rparr>"

definition sample_emitter ::
  "composition_config \<Rightarrow> enforcement_mode \<Rightarrow> resolver option \<Rightarrow> std_interceptor list \<Rightarrow> emitter" where
  "sample_emitter c mode res is =
     (new_emitter False Draft mode res)\<lparr>e_composition := c, e_interceptors := map bind is\<rparr>"

definition run_sample ::
  "composition_config \<Rightarrow> enforcement_mode \<Rightarrow> resolver option \<Rightarrow> std_interceptor list
     \<Rightarrow> interception_record \<times> emitter \<times> object \<times> event list" where
  "run_sample c mode res is =
     emit_unchecked sample_externs (sample_emitter c mode res is) (ctx_with ''hi'') []"

section \<open>The sample context\<close>

lemma sample_envelope: "validate_envelope (ctx_with s) = Inr ()"
  by (simp add: validate_envelope_def ctx_with_def spec_of_context_def get_str_def get_object_def
      get_i64_def spec_from_wire_def spec_all_def interception_point_str_def POINTS_def check_agent_def
      non_empty_str_def framework_ok_def framework_char_def session_ok_def conditional_for_def
      point_from_str_def check_conditional_def contains_key_def is_lower_def is_digit_def byte_def)

lemma sample_spec: "spec_of_context (ctx_with s) = Some Draft"
  by (simp add: ctx_with_def spec_of_context_def get_str_def spec_from_wire_def spec_all_def)

lemma sample_point:
  "interception_point_of (ctx_with s) = Inr Output"
  "get_str (ctx_with s) ''interception_point'' = Some ''output''" "point_of (ctx_with s) = Some Output"
  by (simp_all add: ctx_with_def interception_point_of_def point_of_def get_str_def point_from_str_def POINTS_def)

lemma sample_identity: "context_identity sample_externs (ctx_with s) = Inr (sample_id s)"
proof -
  have "\<exists>p. project_preimage (ctx_with s) = Inr p \<and> check_depth p = Inr () \<and> check_i_json p ''$'' = Inr ()"
    by (simp add: project_preimage_def interception_point_str_def sample_point point_from_str_def POINTS_def
        project_step_def project_value_def filter_obj_def REQUIRED_def conditional_for_def ctx_with_def
        check_depth_iff MAX_DEPTH_def range_failure_def out_of_range_def MAX_SAFE_INTEGER_def get_str_def)
  then have "\<exists>i. context_identity sample_externs (ctx_with s) = Inr i"
    by (auto simp: context_identity_def sample_envelope)
  then show ?thesis by (auto simp: sample_id_def)
qed

lemma sample_path: "parse ''$target.content'' = Inr [Member ''content'']"
  by (simp add: parse_def strip_prefix_def starts_with_def parse_segs.simps is_member_char_def is_alnum_def
      is_lower_def is_upper_def is_digit_def byte_def)

lemma sample_target: "target_of (ctx_with s) = JObj [(''content'', JStr s)]"
  by (simp add: target_of_def ctx_with_def)

lemma sample_applied:
  "apply_transform_to_ctx (ctx_with s) \<lparr>t_path = ''$target.content'', t_value = JStr t\<rparr> = Inr (ctx_with t)"
  by (simp add: apply_transform_to_ctx_def sample_point sample_target apply_path_def sample_path contains_key_def)
     (simp add: ctx_with_def)

section \<open>The sample emitters\<close>

lemma sample_emitter_simps [simp]:
  "e_mode (sample_emitter c m r is) = m" "e_identity (sample_emitter c m r is) = JcsSha256"
  "e_composition (sample_emitter c m r is) = c" "e_resolver (sample_emitter c m r is) = r"
  "e_interceptors (sample_emitter c m r is) = map bind is" "e_spec (sample_emitter c m r is) = Draft"
  "e_redactor (sample_emitter c m r is) = None" "e_tokio (sample_emitter c m r is) = False"
  "e_notifier (sample_emitter c m r is) = None" "e_sink (sample_emitter c m r is) = False"
  "e_max_records (sample_emitter c m r is) = None" "e_records (sample_emitter c m r is) = []"
  by (simp_all add: sample_emitter_def new_emitter_def)

lemma sample_active [simp]: "active (sample_emitter c m r is) (ctx_with s) = map bind is"
  by (auto simp: active_def bind_def runs_at_def)

lemma sample_precheck [simp]: "precheck (sample_emitter c m r is) (ctx_with s) = None"
  by (simp add: precheck_None sample_envelope sample_spec)

lemma sample_compute [simp]:
  "identity_compute sample_externs (e_identity (sample_emitter c m r is)) (ctx_with s) = Inr (Some (sample_id s))"
  by (simp add: sample_identity)

lemmas sample_eval = dispatch_def dispatch_run_all_def dispatch_first_deny_def first_deny_step_def
  first_deny_match_def first_deny_denied_def first_deny_approved_def push_settled_def fold_start_def
  fold_resolution_def is_host_synthesized_def stop_at_def invoke_def call_isolated_def settle_def bind_def
  scripted_def crashing_def validate_def opt_holds_def verdict_makers redact_def run_all_config_def
  first_deny_config_def default_bare_def fold_transform_def aggregate_and_consult_def deny_winner_def
  aggregate_strictest_def top_indices_def max_severity_def severity_def consult_def is_liftable_def
  judge_resolution_def echoing_def sample_point covered_def Let_def

text \<open>A run-all emission with a transform, an approved escalation, a crash, an evaluation.\<close>

lemma sample_run_all:
  "\<exists>d. dispatch sample_externs (sample_emitter run_all_config Enforce None [scripted allow, scripted redact])
       (ctx_with ''hi'') [] =
     (d, ctx_with ''x'', [Invoked 0 (ctx_with ''hi''), Invoked 1 (ctx_with ''hi'')])
     \<and> v_decision (d_combined d) = Transform"
  by (simp add: sample_eval sample_applied)

lemma sample_approved:
  "\<exists>d q. dispatch sample_externs (sample_emitter (first_deny_config Stop) Enforce (Some (echoing Approve allow))
        [scripted (escalate None None), scripted allow]) (ctx_with ''hi'') [] =
     (d, ctx_with ''hi'', [Invoked 0 (ctx_with ''hi''), Consulted q])
     \<and> v_decision (d_combined d) = Allow \<and> d_resolved_by d = Some ''approval''"
  by (simp add: sample_eval sample_identity resolution_name_def)

lemma sample_crash:
  "\<exists>d. dispatch sample_externs (sample_emitter run_all_config Enforce None [crashing, scripted allow])
       (ctx_with ''hi'') [] =
     (d, ctx_with ''hi'', [Invoked 0 (ctx_with ''hi''), Invoked 1 (ctx_with ''hi'')])
     \<and> v_decision (d_combined d) = Deny"
  by (simp add: sample_eval)

text \<open>The record of a sample emission, from the outcome of its dispatch.\<close>

lemma sample_outcome:
  assumes "dispatch sample_externs (sample_emitter c m r is) (ctx_with s) [] = (d, ctx', l')"
    and e: "emit_unchecked sample_externs (sample_emitter c m r is) (ctx_with s) [] = (rec, em', ctx'', log')"
  shows "ctx'' = ctx'" and "log' = l'"
    and "ctx' = ctx_with t \<Longrightarrow> v_decision (r_verdict rec) = v_decision (d_combined d)"
    and "r_resolved_by rec = d_resolved_by d"
proof -
  define em where "em = sample_emitter c m r is"
  have d: "dispatch sample_externs em (ctx_with s) [] = (d, ctx', l')" using assms(1) by (simp add: em_def)
  define meta where "meta = emission_meta sample_externs em False (Some (sample_id s)) d ctx'"
  define fin where "fin = finalize sample_externs ctx' (d_combined d) (e_mode em) meta"
  have del: "deliver fin em l' = (rec, em', log')" and c: "ctx'' = ctx'"
    using e emit_unchecked_dispatch [OF sample_precheck sample_compute assms(1)]
    by (auto simp: em_def fin_def meta_def Let_def split: prod.splits)
  show "ctx'' = ctx'" by (rule c)
  show "log' = l'" using del by (auto simp: deliver_def em_def Let_def)
  have rec: "rec = fin" using deliver_shape [OF del] by simp
  then show "r_resolved_by rec = d_resolved_by d" by (simp add: fin_def meta_def)
  assume ctx': "ctx' = ctx_with t"
  obtain i v' d' where arm: "enforced_arm sample_externs ctx' meta False (d_combined d) (m_decided_by meta) = (i, v', d')"
    by (cases "enforced_arm sample_externs ctx' meta False (d_combined d) (m_decided_by meta)")
  then have "v' = d_combined d"
    by (auto simp: enforced_arm_def ctx' sample_identity meta_def split: option.splits if_splits)
  with finalize_envelope_ok(1) [OF _ arm, of "e_mode em"]
  show "v_decision (r_verdict rec) = v_decision (d_combined d)"
    by (simp add: rec fin_def ctx' sample_envelope)
qed

end
