(* ===== verification/Verdict_Wire.thy ===== *)
theory Verdict_Wire
  imports Enforce
begin

text \<open>
  \<open>verdict.rs\<close>, the verdict wire gate, and the serde derives of \<open>types.rs\<close>
  that write a verdict back. An error is its \<open>HostError\<close>; the texts of the
  details, which never reach a record, are left out. Duplicate members are
  rejected while the text is parsed (\<open>response.rs\<close>), so a value has none.
\<close>

section \<open>Serialization\<close>

text \<open>\<open>skip_serializing_if\<close>: an absent member is not written.\<close>

definition put_opt :: "string \<Rightarrow> json option \<Rightarrow> object \<Rightarrow> object" where
  "put_opt k v m = (case v of None \<Rightarrow> m | Some j \<Rightarrow> obj_insert k j m)"

definition warning_json :: "warning \<Rightarrow> json" where
  "warning_json w =
     JObj (put_opt ''message'' (map_option JStr (w_message w))
       (put_opt ''reason'' (map_option JStr (w_reason w)) []))"

definition transform_json :: "transform \<Rightarrow> json" where
  "transform_json t =
     JObj (put_opt ''value'' (if t_value t = JNull then None else Some (t_value t))
       (obj_insert ''path'' (JStr (t_path t)) []))"

definition verdict_object :: "verdict \<Rightarrow> object" where
  "verdict_object v =
     put_opt ''result_labels'' (if v_labels v = [] then None else Some (JArr (map JStr (v_labels v))))
    (put_opt ''evidence'' (map_option evidence_json (v_evidence v))
    (put_opt ''transform'' (map_option transform_json (v_transform v))
    (put_opt ''approval'' (map_option JObj (v_approval v))
    (put_opt ''warnings'' (if v_warnings v = [] then None else Some (JArr (map warning_json (v_warnings v))))
    (put_opt ''message'' (map_option JStr (v_message v))
    (put_opt ''reason'' (map_option JStr (v_reason v))
    (obj_insert ''decision'' (JStr (decision_str (v_decision v))) [])))))))"

definition verdict_json :: "verdict \<Rightarrow> json" where
  "verdict_json v = JObj (verdict_object v)"

section \<open>The wire gate\<close>

definition check_json_domain :: "json \<Rightarrow> host_error + unit" where
  "check_json_domain raw = (case check_depth raw of Inl _ \<Rightarrow> Inl VerdictInvalid | Inr u \<Rightarrow> Inr ())"

definition require_members :: "object \<Rightarrow> string list \<Rightarrow> host_error + unit" where
  "require_members m allowed =
     (if list_ex (\<lambda>(k, _). k \<notin> set allowed) m then Inl VerdictInvalid else Inr ())"

text \<open>\<open>None | Some(Value::Null)\<close> is absence; a string is taken; anything else is an error.\<close>

definition opt_string :: "object \<Rightarrow> string \<Rightarrow> host_error + string option" where
  "opt_string m k =
     (case obj_get m k of
        None \<Rightarrow> Inr None
      | Some JNull \<Rightarrow> Inr None
      | Some (JStr s) \<Rightarrow> Inr (Some s)
      | Some _ \<Rightarrow> Inl VerdictInvalid)"

definition decision_from_wire :: "object \<Rightarrow> host_error + decision" where
  "decision_from_wire m =
     (let d = get_str m ''decision'' in
      if d = Some ''allow'' then Inr Allow
      else if d = Some ''deny'' then Inr Deny
      else if d = Some ''transform'' then Inr Transform
      else Inl VerdictInvalid)"

definition reason_from_wire :: "object \<Rightarrow> host_error + string option" where
  "reason_from_wire m =
     res_bind (opt_string m ''reason'') (\<lambda>r.
       if opt_holds (starts_with ''host_error:'') r then Inl VerdictInvalid else Inr r)"

definition warning_from_wire :: "spec_version \<Rightarrow> json \<Rightarrow> host_error + warning" where
  "warning_from_wire spec w =
     (case w of
        JObj m \<Rightarrow>
          res_bind (require_members m [''reason'', ''message'']) (\<lambda>_.
          res_bind (case obj_get m ''reason'' of
                      None \<Rightarrow> Inr None
                    | Some JNull \<Rightarrow> Inr None
                    | Some (JStr s) \<Rightarrow>
                        if starts_with ''host_error:'' s
                           \<or> (reserves_host_warnings spec \<and> starts_with ''host_warning:'' s)
                        then Inl VerdictInvalid else Inr (Some s)
                    | Some _ \<Rightarrow> Inl VerdictInvalid) (\<lambda>r.
          res_bind (opt_string m ''message'') (\<lambda>msg.
            Inr \<lparr>w_reason = r, w_message = msg\<rparr>)))
      | _ \<Rightarrow> Inl VerdictInvalid)"

definition warnings_from_wire :: "spec_version \<Rightarrow> object \<Rightarrow> host_error + warning list" where
  "warnings_from_wire spec m =
     (case obj_get m ''warnings'' of
        None \<Rightarrow> Inr []
      | Some JNull \<Rightarrow> Inr []
      | Some (JArr a) \<Rightarrow> traverse (warning_from_wire spec) a
      | Some _ \<Rightarrow> Inl VerdictInvalid)"

definition approval_from_wire :: "decision \<Rightarrow> object \<Rightarrow> host_error + object option" where
  "approval_from_wire d m =
     (case obj_get m ''approval'' of
        None \<Rightarrow> Inr None
      | Some JNull \<Rightarrow> Inr None
      | Some (JObj a) \<Rightarrow> if d \<noteq> Deny then Inl VerdictInvalid else Inr (Some a)
      | Some _ \<Rightarrow> Inl VerdictInvalid)"

definition transform_from_wire :: "object \<Rightarrow> host_error + transform option" where
  "transform_from_wire m =
     (case obj_get m ''transform'' of
        None \<Rightarrow> Inr None
      | Some JNull \<Rightarrow> Inr None
      | Some (JObj t) \<Rightarrow>
          res_bind (require_members t [''path'', ''value'']) (\<lambda>_.
            case get_str t ''path'' of
              None \<Rightarrow> Inl VerdictInvalid
            | Some path \<Rightarrow>
                (case parse path of
                   Inl e \<Rightarrow> Inl e
                 | Inr _ \<Rightarrow>
                     Inr (Some \<lparr>t_path = path,
                       t_value = (case obj_get t ''value'' of None \<Rightarrow> JNull | Some v \<Rightarrow> v)\<rparr>)))
      | Some _ \<Rightarrow> Inl VerdictInvalid)"

text \<open>The derived \<open>Deserialize\<close> of the evidence.\<close>

definition pointers_from_value :: "object \<Rightarrow> host_error + (string \<times> string) list" where
  "pointers_from_value m =
     traverse (\<lambda>(k, v). case v of JStr s \<Rightarrow> Inr (k, s) | _ \<Rightarrow> Inl VerdictInvalid) m"

definition evidence_from_value :: "object \<Rightarrow> host_error + evidence" where
  "evidence_from_value m =
     res_bind (opt_string m ''artefact'') (\<lambda>a.
     res_bind (case obj_get m ''verification_pointers'' of
                 None \<Rightarrow> Inr []
               | Some (JObj p) \<Rightarrow> pointers_from_value p
               | Some _ \<Rightarrow> Inl VerdictInvalid) (\<lambda>p.
       Inr \<lparr>artefact = a, verification_pointers = p\<rparr>))"

definition evidence_from_wire :: "(64 word \<Rightarrow> string) \<Rightarrow> object \<Rightarrow> host_error + evidence option" where
  "evidence_from_wire fx m =
     (case obj_get m ''evidence'' of
        None \<Rightarrow> Inr None
      | Some JNull \<Rightarrow> Inr None
      | Some (JObj o') \<Rightarrow>
          res_bind (require_members o' [''artefact'', ''verification_pointers'']) (\<lambda>_.
          res_bind (evidence_from_value o') (\<lambda>e.
            if evidence_len fx e > EVIDENCE_MAX_BYTES then Inl VerdictInvalid else Inr (Some e)))
      | Some _ \<Rightarrow> Inl VerdictInvalid)"

definition labels_from_wire :: "object \<Rightarrow> host_error + string list" where
  "labels_from_wire m =
     (case obj_get m ''result_labels'' of
        None \<Rightarrow> Inr []
      | Some JNull \<Rightarrow> Inr []
      | Some (JArr a) \<Rightarrow> traverse (\<lambda>v. case as_str v of None \<Rightarrow> Inl VerdictInvalid | Some s \<Rightarrow> Inr s) a
      | Some _ \<Rightarrow> Inl VerdictInvalid)"

definition verdict_members :: "string list" where
  "verdict_members =
     [''decision'', ''reason'', ''message'', ''warnings'', ''approval'', ''transform'', ''evidence'',
      ''result_labels'']"

definition verdict_from_wire ::
  "(64 word \<Rightarrow> string) \<Rightarrow> spec_version \<Rightarrow> json \<Rightarrow> host_error + verdict" where
  "verdict_from_wire fx spec raw =
     res_bind (check_json_domain raw) (\<lambda>_.
     case as_object raw of
       None \<Rightarrow> Inl VerdictInvalid
     | Some m \<Rightarrow>
         res_bind (require_members m verdict_members) (\<lambda>_.
         res_bind (decision_from_wire m) (\<lambda>d.
         res_bind (reason_from_wire m) (\<lambda>r.
         res_bind (opt_string m ''message'') (\<lambda>msg.
         res_bind (warnings_from_wire spec m) (\<lambda>ws.
         res_bind (approval_from_wire d m) (\<lambda>a.
         res_bind (transform_from_wire m) (\<lambda>t.
         if d = Transform \<and> t = None then Inl VerdictInvalid
         else if d \<noteq> Transform \<and> t \<noteq> None then Inl VerdictInvalid
         else
         res_bind (evidence_from_wire fx m) (\<lambda>e.
         res_bind (labels_from_wire m) (\<lambda>ls.
           Inr \<lparr>v_decision = d, v_reason = r, v_message = msg, v_warnings = ws, v_approval = a,
                v_transform = t, v_evidence = e, v_labels = ls\<rparr>))))))))))"

section \<open>The wire gate implies the verdict gate\<close>

lemma check_json_domain_iff: "check_json_domain v = Inr () \<longleftrightarrow> json_depth v \<le> MAX_DEPTH"
  unfolding check_depth_iff [symmetric] by (auto simp: check_json_domain_def split: sum.split)

lemma warning_from_wire_reason:
  "warning_from_wire spec w = Inr v \<Longrightarrow> w_reason v = Some r \<Longrightarrow> \<not> warning_reserved spec r"
  by (auto simp: warning_from_wire_def res_bind_Inr_iff warning_reserved_def host_reserved_def
      split: json.splits option.splits if_splits)

lemma verdict_from_wire_gate:
  assumes "verdict_from_wire fx spec raw = Inr v"
  shows "gate_ok fx spec v" and "\<forall>t. v_transform v = Some t \<longrightarrow> res_ok (parse (t_path t))"
    and "json_depth raw \<le> MAX_DEPTH"
proof -
  from assms obtain m d r msg ws a t e ls where
    dom: "check_json_domain raw = Inr ()"
    and r: "reason_from_wire m = Inr r" and ws: "warnings_from_wire spec m = Inr ws"
    and a: "approval_from_wire d m = Inr a" and t: "transform_from_wire m = Inr t"
    and dt: "\<not> (d = Transform \<and> t = None)" "\<not> (d \<noteq> Transform \<and> t \<noteq> None)"
    and e: "evidence_from_wire fx m = Inr e"
    and v: "v = \<lparr>v_decision = d, v_reason = r, v_message = msg, v_warnings = ws, v_approval = a,
                v_transform = t, v_evidence = e, v_labels = ls\<rparr>"
    unfolding verdict_from_wire_def
    by (auto simp: res_bind_Inr_iff split: option.splits if_splits)
  have "\<forall>s. r = Some s \<longrightarrow> \<not> host_reserved s"
    using r by (auto simp: reason_from_wire_def res_bind_Inr_iff host_reserved_def opt_holds_def split: if_splits)
  moreover have "\<forall>w\<in>set ws. \<forall>s. w_reason w = Some s \<longrightarrow> \<not> warning_reserved spec s"
    using ws warning_from_wire_reason
    by (fastforce simp: warnings_from_wire_def traverse_Inr_iff list_all2_conv_all_nth in_set_conv_nth
        split: option.splits json.splits)
  moreover have "a \<noteq> None \<longrightarrow> d = Deny"
    using a by (auto simp: approval_from_wire_def split: option.splits json.splits if_splits)
  moreover have "\<forall>k. e = Some k \<longrightarrow> evidence_len fx k \<le> EVIDENCE_MAX_BYTES"
    using e by (auto simp: evidence_from_wire_def res_bind_Inr_iff split: option.splits json.splits if_splits)
  moreover have "(d = Transform) = (t \<noteq> None)" using dt by auto
  ultimately show "gate_ok fx spec v" by (simp add: gate_ok_def v)
  show "\<forall>t. v_transform v = Some t \<longrightarrow> res_ok (parse (t_path t))"
    using t by (auto simp: v transform_from_wire_def res_bind_Inr_iff
        split: option.splits json.splits sum.splits)
  show "json_depth raw \<le> MAX_DEPTH"
    using dom by (simp add: check_json_domain_iff)
qed

section \<open>Reading a written verdict\<close>

lemma get_put_opt [simp]:
  "obj_get (put_opt k v m) k' = (if k' = k \<and> v \<noteq> None then v else obj_get m k')"
  by (cases v) (simp_all add: put_opt_def)

lemma keys_put_opt: "fst ` set (put_opt k v m) = (if v = None then {} else {k}) \<union> fst ` set m"
  by (cases v) (auto simp: put_opt_def keys_bt_insert)

lemma require_members_ok: "require_members m allowed = Inr () \<longleftrightarrow> fst ` set m \<subseteq> set allowed"
  by (auto simp: require_members_def list_ex_iff)

lemma opt_string_written:
  "obj_get m k = map_option JStr v \<Longrightarrow> opt_string m k = Inr v"
  by (cases v) (simp_all add: opt_string_def)

lemma warning_round_trip:
  assumes "\<forall>r. w_reason w = Some r \<longrightarrow> \<not> warning_reserved spec r"
  shows "warning_from_wire spec (warning_json w) = Inr w"
proof -
  define m where "m = put_opt ''message'' (map_option JStr (w_message w))
       (put_opt ''reason'' (map_option JStr (w_reason w)) [])"
  have "require_members m [''reason'', ''message''] = Inr ()"
    by (auto simp: require_members_ok m_def keys_put_opt)
  moreover have "opt_string m ''message'' = Inr (w_message w)"
    by (rule opt_string_written) (simp add: m_def)
  moreover have "obj_get m ''reason'' = map_option JStr (w_reason w)"
    by (simp add: m_def)
  moreover have "warning_json w = JObj m" by (simp only: warning_json_def m_def)
  ultimately show ?thesis
    using assms
    by (cases "w_reason w") (auto simp: warning_from_wire_def warning_reserved_def host_reserved_def)
qed

lemma transform_round_trip:
  assumes "obj_get m ''transform'' = map_option transform_json t"
    and "\<forall>u. t = Some u \<longrightarrow> res_ok (parse (t_path u))"
  shows "transform_from_wire m = Inr t"
proof (cases t)
  case (Some u)
  define k where "k = put_opt ''value'' (if t_value u = JNull then None else Some (t_value u))
       (obj_insert ''path'' (JStr (t_path u)) [])"
  have "require_members k [''path'', ''value''] = Inr ()"
    by (auto simp: require_members_ok k_def keys_put_opt keys_bt_insert)
  moreover have "get_str k ''path'' = Some (t_path u)" by (simp add: get_str_def k_def)
  moreover have "(case obj_get k ''value'' of None \<Rightarrow> JNull | Some v \<Rightarrow> v) = t_value u" by (simp add: k_def)
  moreover have "transform_json u = JObj k" by (simp only: transform_json_def k_def)
  ultimately show ?thesis
    using assms Some by (auto simp: transform_from_wire_def res_ok_iff)
qed (use assms in \<open>simp add: transform_from_wire_def\<close>)

lemma pointers_round_trip: "pointers_from_value (map (\<lambda>(k, v). (k, JStr v)) p) = Inr p"
  by (induction p) (auto simp: pointers_from_value_def)

lemma evidence_round_trip:
  assumes "obj_get m ''evidence'' = map_option evidence_json e"
    and "\<forall>k. e = Some k \<longrightarrow> evidence_len fx k \<le> EVIDENCE_MAX_BYTES"
  shows "evidence_from_wire fx m = Inr e"
proof (cases e)
  case (Some k)
  obtain o' where o': "evidence_json k = JObj o'" by (simp add: evidence_json_def)
  then have o'_def: "o' = (case artefact k of None \<Rightarrow> [] | Some a \<Rightarrow> [(''artefact'', JStr a)])
       @ (if verification_pointers k = [] then []
          else [(''verification_pointers'', JObj (map (\<lambda>(k, v). (k, JStr v)) (verification_pointers k)))])"
    by (simp add: evidence_json_def)
  have "require_members o' [''artefact'', ''verification_pointers''] = Inr ()"
    by (auto simp: require_members_ok o'_def split: option.splits if_splits)
  moreover have "opt_string o' ''artefact'' = Inr (artefact k)"
    by (rule opt_string_written) (simp add: o'_def split: option.split)
  moreover have "obj_get o' ''verification_pointers'' =
      (if verification_pointers k = [] then None
       else Some (JObj (map (\<lambda>(k, v). (k, JStr v)) (verification_pointers k))))"
    by (simp add: o'_def split: option.split)
  ultimately have "res_bind (require_members o' [''artefact'', ''verification_pointers'']) (\<lambda>_. evidence_from_value o')
      = Inr k"
    by (simp add: evidence_from_value_def pointers_round_trip)
  then show ?thesis
    using assms Some o' by (auto simp: evidence_from_wire_def res_bind_Inr_iff)
qed (use assms in \<open>simp add: evidence_from_wire_def\<close>)

lemma verdict_round_trip:
  assumes gate: "gate_ok fx spec v" and path: "\<forall>t. v_transform v = Some t \<longrightarrow> res_ok (parse (t_path t))"
    and depth: "json_depth (verdict_json v) \<le> MAX_DEPTH"
  shows "verdict_from_wire fx spec (verdict_json v) = Inr v"
proof -
  define m where "m = verdict_object v"
  have get: "obj_get m ''decision'' = Some (JStr (decision_str (v_decision v)))"
    "obj_get m ''reason'' = map_option JStr (v_reason v)"
    "obj_get m ''message'' = map_option JStr (v_message v)"
    "obj_get m ''warnings'' = (if v_warnings v = [] then None else Some (JArr (map warning_json (v_warnings v))))"
    "obj_get m ''approval'' = map_option JObj (v_approval v)"
    "obj_get m ''transform'' = map_option transform_json (v_transform v)"
    "obj_get m ''evidence'' = map_option evidence_json (v_evidence v)"
    "obj_get m ''result_labels'' = (if v_labels v = [] then None else Some (JArr (map JStr (v_labels v))))"
    by (simp_all add: m_def verdict_object_def)
  have mem: "require_members m verdict_members = Inr ()"
    unfolding require_members_ok m_def verdict_object_def verdict_members_def
    by (simp add: keys_put_opt keys_bt_insert)
  have dom: "check_json_domain (verdict_json v) = Inr ()"
    using depth by (simp add: check_json_domain_iff)
  have d: "decision_from_wire m = Inr (v_decision v)"
    by (cases "v_decision v") (simp_all add: decision_from_wire_def get_str_def get Let_def)
  have r: "reason_from_wire m = Inr (v_reason v)"
    using gate by (auto simp: reason_from_wire_def opt_string_written [OF get(2)] opt_holds_def gate_ok_def
        host_reserved_def split: option.splits)
  have ws: "warnings_from_wire spec m = Inr (v_warnings v)"
    using gate by (auto simp: warnings_from_wire_def get traverse_Inr_iff list_all2_map1 gate_ok_def
        intro!: list_all2_refl warning_round_trip list.rel_refl_strong)
  have a: "approval_from_wire (v_decision v) m = Inr (v_approval v)"
    using gate by (cases "v_approval v") (auto simp: approval_from_wire_def get gate_ok_def)
  have t: "transform_from_wire m = Inr (v_transform v)"
    by (rule transform_round_trip [OF get(6) path])
  have e: "evidence_from_wire fx m = Inr (v_evidence v)"
    by (rule evidence_round_trip [OF get(7)]) (use gate in \<open>simp add: gate_ok_def\<close>)
  have ls: "labels_from_wire m = Inr (v_labels v)"
    by (auto simp: labels_from_wire_def get traverse_Inr_iff list_all2_map1 intro!: list.rel_refl_strong)
  have dt: "(v_decision v = Transform) = (v_transform v \<noteq> None)" using gate by (simp add: gate_ok_def)
  have "as_object (verdict_json v) = Some m" by (simp add: verdict_json_def m_def)
  then show ?thesis
    unfolding verdict_from_wire_def
    using dt by (simp add: dom mem d r ws a t e ls opt_string_written [OF get(3)])
qed

end
