(* ===== verification/Response.thy ===== *)
theory Response
  imports Verdict_Wire
begin

text \<open>
  \<open>response.rs\<close>, the hosted-interceptor response: the duplicate-rejecting visitor
  that builds a value while the text is parsed, the envelope with its namespaced
  extensions, and its serialization. The text parser itself is \<open>serde_json\<close>'s; a
  \<open>raw\<close> tree is what it feeds the visitor. \<open>from_json\<close>, which also scans the
  raw text of the extensions, is in \<open>Ffi_Surface\<close>.
\<close>

section \<open>The checking visitor\<close>

datatype raw = RNull | RBool bool | RNum number | RStr string | RArr "raw list" | RObj "(string \<times> raw) list"

definition visit_number :: "number \<Rightarrow> host_error + json" where
  "visit_number n =
     (case n of Float b \<Rightarrow> if finite_bits b then Inr (JNum n) else Inl VerdictInvalid | _ \<Rightarrow> Inr (JNum n))"

fun visit :: "raw \<Rightarrow> host_error + json"
  and visit_seq :: "raw list \<Rightarrow> json list \<Rightarrow> host_error + json list"
  and visit_map :: "(string \<times> raw) list \<Rightarrow> object \<Rightarrow> host_error + object" where
  "visit RNull = Inr JNull"
| "visit (RBool b) = Inr (JBool b)"
| "visit (RNum n) = visit_number n"
| "visit (RStr s) = Inr (JStr s)"
| "visit (RArr xs) = res_bind (visit_seq xs []) (\<lambda>a. Inr (JArr a))"
| "visit (RObj m) = res_bind (visit_map m []) (\<lambda>out. Inr (JObj out))"
| "visit_seq [] out = Inr out"
| "visit_seq (x # xs) out = res_bind (visit x) (\<lambda>v. visit_seq xs (out @ [v]))"
| "visit_map [] out = Inr out"
| "visit_map ((k, x) # m) out =
     (if contains_key out k then Inl VerdictInvalid
      else res_bind (visit x) (\<lambda>v. visit_map m (obj_insert k v out)))"

text \<open>No object of the text, at any depth, names a member twice.\<close>

fun no_duplicates :: "raw \<Rightarrow> bool" where
  "no_duplicates (RArr xs) = list_all no_duplicates xs"
| "no_duplicates (RObj m) = (distinct (map fst m) \<and> list_all (\<lambda>(k, x). no_duplicates x) m)"
| "no_duplicates (RNum n) = (case n of Float b \<Rightarrow> finite_bits b | _ \<Rightarrow> True)"
| "no_duplicates _ = True"

lemma contains_key_insert [simp]: "contains_key (obj_insert k v m) k' \<longleftrightarrow> k' = k \<or> contains_key m k'"
  by (simp add: contains_key_def)

lemma visit_iff:
  "res_ok (visit r) \<longleftrightarrow> no_duplicates r"
  "res_ok (visit_seq xs a) \<longleftrightarrow> list_all no_duplicates xs"
  "res_ok (visit_map m out) \<longleftrightarrow>
     distinct (map fst m) \<and> list_all (\<lambda>(k, x). no_duplicates x) m \<and> (\<forall>k\<in>fst ` set m. \<not> contains_key out k)"
proof (induction r and xs a and m out rule: visit_visit_seq_visit_map.induct)
  case (3 n)
  then show ?case by (cases n) (simp_all add: visit_number_def)
next
  case (5 xs)
  then show ?case by (cases "visit_seq xs []") (auto simp: res_ok_iff)
next
  case (6 m)
  then show ?case by (cases "visit_map m []") (auto simp: res_ok_iff contains_key_def)
next
  case (8 x xs out)
  then show ?case by (cases "visit x") auto
next
  case (10 k x m out)
  then show ?case by (cases "visit x") auto
qed auto

section \<open>The response\<close>

record interceptor_response =
  i_verdict :: verdict
  i_extensions :: object

definition RESPONSE_METADATA_MAX_BYTES :: nat where
  "RESPONSE_METADATA_MAX_BYTES = 65536"

definition valid_namespace :: "string \<Rightarrow> bool" where
  "valid_namespace s =
     (case s of
        [] \<Rightarrow> False
      | c # r \<Rightarrow> is_lower c \<and> list_all (\<lambda>c. is_lower c \<or> is_digit c \<or> c = CHR ''_'') r)"

definition extensions_from_wire :: "object \<Rightarrow> host_error + json option" where
  "extensions_from_wire m =
     (case obj_get m ''extensions'' of
        None \<Rightarrow> Inr None
      | Some (JObj e) \<Rightarrow>
          if list_all (\<lambda>(k, _). valid_namespace k) e then Inr (Some (JObj e)) else Inl VerdictInvalid
      | Some _ \<Rightarrow> Inl VerdictInvalid)"

definition response_from_wire ::
  "(64 word \<Rightarrow> string) \<Rightarrow> spec_version \<Rightarrow> json \<Rightarrow> host_error + interceptor_response" where
  "response_from_wire fx spec raw =
     res_bind (check_json_domain raw) (\<lambda>_.
     case as_object raw of
       None \<Rightarrow> Inl VerdictInvalid
     | Some m \<Rightarrow>
         (case obj_get m ''verdict'' of
            None \<Rightarrow>
              res_bind (verdict_from_wire fx spec raw) (\<lambda>v.
                Inr \<lparr>i_verdict = v, i_extensions = []\<rparr>)
          | Some w \<Rightarrow>
              res_bind (require_members m [''verdict'', ''extensions'']) (\<lambda>_.
              res_bind (verdict_from_wire fx spec w) (\<lambda>v.
              res_bind (extensions_from_wire m) (\<lambda>ext.
              res_bind (case ext of
                          None \<Rightarrow> Inr ()
                        | Some e \<Rightarrow> (case check_i_json e ''$'' of Inl _ \<Rightarrow> Inl VerdictInvalid | Inr _ \<Rightarrow> Inr ()))
                (\<lambda>_.
                 let bytes = (case ext of None \<Rightarrow> 0 | Some e \<Rightarrow> length (canonical_json fx e)) in
                 if bytes > RESPONSE_METADATA_MAX_BYTES then Inl VerdictInvalid
                 else Inr \<lparr>i_verdict = v,
                   i_extensions = (case Option.bind ext as_object of None \<Rightarrow> [] | Some e \<Rightarrow> e)\<rparr>))))))"

definition to_envelope_value :: "interceptor_response \<Rightarrow> json" where
  "to_envelope_value r =
     JObj (put_opt ''extensions'' (if i_extensions r = [] then None else Some (JObj (i_extensions r)))
       (obj_insert ''verdict'' (verdict_json (i_verdict r)) []))"

definition to_wire_value :: "interceptor_response \<Rightarrow> json" where
  "to_wire_value r =
     (if i_extensions r = [] then verdict_json (i_verdict r) else to_envelope_value r)"

section \<open>What a response carries\<close>

text \<open>The bounds the envelope check enforces on what it lets through.\<close>

definition response_ok :: "(64 word \<Rightarrow> string) \<Rightarrow> spec_version \<Rightarrow> interceptor_response \<Rightarrow> bool" where
  "response_ok fx spec r \<longleftrightarrow>
     gate_ok fx spec (i_verdict r)
     \<and> (\<forall>t. v_transform (i_verdict r) = Some t \<longrightarrow> res_ok (parse (t_path t)))
     \<and> (\<forall>k\<in>fst ` set (i_extensions r). valid_namespace k)
     \<and> (i_extensions r \<noteq> [] \<longrightarrow>
          (\<forall>n\<in>set (numbers (JObj (i_extensions r))). \<not> out_of_range n)
          \<and> length (canonical_json fx (JObj (i_extensions r))) \<le> RESPONSE_METADATA_MAX_BYTES)"

lemma extensions_from_wire_object:
  "extensions_from_wire m = Inr (Some e) \<Longrightarrow> \<exists>o'. e = JObj o' \<and> (\<forall>k\<in>fst ` set o'. valid_namespace k)"
  by (fastforce simp: extensions_from_wire_def list_all_iff split: option.splits json.splits if_splits)

lemma response_from_wire_ok:
  assumes "response_from_wire fx spec raw = Inr r"
  shows "response_ok fx spec r"
proof -
  from assms obtain m where dom: "check_json_domain raw = Inr ()" and m: "as_object raw = Some m"
    by (auto simp: response_from_wire_def res_bind_Inr_iff split: option.splits)
  show ?thesis
  proof (cases "obj_get m ''verdict''")
    case None
    with assms m dom obtain v where "verdict_from_wire fx spec raw = Inr v"
      "r = \<lparr>i_verdict = v, i_extensions = []\<rparr>"
      by (auto simp: response_from_wire_def res_bind_Inr_iff)
    then show ?thesis
      using verdict_from_wire_gate by (simp add: response_ok_def)
  next
    case (Some w)
    with assms m dom obtain v ext where v: "verdict_from_wire fx spec w = Inr v"
      and ext: "extensions_from_wire m = Inr ext"
      and dom': "\<forall>e. ext = Some e \<longrightarrow> check_i_json e ''$'' = Inr ()"
      and size: "\<forall>e. ext = Some e \<longrightarrow> length (canonical_json fx e) \<le> RESPONSE_METADATA_MAX_BYTES"
      and r: "r = \<lparr>i_verdict = v, i_extensions = (case Option.bind ext as_object of None \<Rightarrow> [] | Some e \<Rightarrow> e)\<rparr>"
      by (auto simp: response_from_wire_def res_bind_Inr_iff Let_def split: option.splits sum.splits if_splits)
    show ?thesis
    proof (cases ext)
      case None
      with v r show ?thesis using verdict_from_wire_gate by (simp add: response_ok_def)
    next
      case (Some e)
      with ext obtain o' where o': "e = JObj o'" "\<forall>k\<in>fst ` set o'. valid_namespace k"
        using extensions_from_wire_object by blast
      from dom' Some o'(1) have "\<forall>n\<in>set (numbers (JObj o')). \<not> out_of_range n"
        by (simp only: check_i_json_iff(1) [of _ "''$''", symmetric])
      with v r Some o' size show ?thesis
        using verdict_from_wire_gate [OF v] by (simp add: response_ok_def)
    qed
  qed
qed

lemma verdict_object_no_verdict: "obj_get (verdict_object v) ''verdict'' = None"
  by (simp add: verdict_object_def)

lemma response_round_trip:
  assumes ok: "response_ok fx spec r" and depth: "json_depth (to_wire_value r) \<le> MAX_DEPTH"
  shows "response_from_wire fx spec (to_wire_value r) = Inr r"
proof (cases "i_extensions r = []")
  case True
  then have w: "to_wire_value r = verdict_json (i_verdict r)" by (simp add: to_wire_value_def)
  have "verdict_from_wire fx spec (verdict_json (i_verdict r)) = Inr (i_verdict r)"
    using ok depth by (intro verdict_round_trip) (simp_all add: response_ok_def w)
  moreover have "check_json_domain (verdict_json (i_verdict r)) = Inr ()"
    using depth by (simp add: w check_json_domain_iff)
  ultimately show ?thesis
    using True by (simp add: response_from_wire_def w verdict_json_def verdict_object_no_verdict)
next
  case False
  define e where "e = JObj (i_extensions r)"
  define m where "m = put_opt ''extensions'' (Some e) (obj_insert ''verdict'' (verdict_json (i_verdict r)) [])"
  have w: "to_wire_value r = JObj m"
    using False by (simp only: to_wire_value_def to_envelope_value_def m_def e_def if_False)
  have dom: "check_json_domain (JObj m) = Inr ()"
    using depth by (simp only: w check_json_domain_iff)
  have get: "obj_get m ''verdict'' = Some (verdict_json (i_verdict r))" "obj_get m ''extensions'' = Some e"
    by (simp_all add: m_def)
  have "json_depth (verdict_json (i_verdict r)) \<le> MAX_DEPTH"
  proof -
    have "verdict_json (i_verdict r) \<in> set (children (JObj m))"
      using get(1) by (force simp: children_def dest: map_of_SomeD)
    with depth json_depth_children [of "JObj m" "MAX_DEPTH - 1"] show ?thesis
      by (auto simp: w MAX_DEPTH_def simp del: json_depth.simps)
  qed
  then have v: "verdict_from_wire fx spec (verdict_json (i_verdict r)) = Inr (i_verdict r)"
    using ok by (intro verdict_round_trip) (simp_all add: response_ok_def)
  have mem: "require_members m [''verdict'', ''extensions''] = Inr ()"
    by (auto simp: require_members_ok m_def keys_put_opt keys_bt_insert)
  have ext: "extensions_from_wire m = Inr (Some e)"
    using ok by (auto simp: extensions_from_wire_def get e_def response_ok_def list_all_iff)
  have ij: "check_i_json e ''$'' = Inr ()" and size: "length (canonical_json fx e) \<le> RESPONSE_METADATA_MAX_BYTES"
    using ok False by (simp_all only: check_i_json_iff(1) e_def response_ok_def) simp_all
  show ?thesis
    unfolding w response_from_wire_def
    using size by (simp add: dom get v mem ext ij Let_def) (simp add: e_def)
qed

end
