(* ===== verification/Builder.thy ===== *)
theory Builder
  imports Enforce "HOL-Library.Signed_Division"
begin

text \<open>
  \<open>builder.rs\<close>, the context builder of Rust-native hosts: the calendar conversion of
  its clock, the envelope with the session's sequence number, and one constructor per
  interception point. The timestamp provider is a callback, so its answer is an argument.
\<close>

section \<open>The clock\<close>

text \<open>Rust's \<open>/\<close> on \<open>i64\<close> truncates, as \<open>sdiv\<close> does.\<close>

definition civil_from_days :: "int \<Rightarrow> int \<times> int \<times> int" where
  "civil_from_days z0 =
     (let z = z0 + 719468;
          era = (if z \<ge> 0 then z else z - 146096) sdiv 146097;
          doe = z - era * 146097;
          yoe = (doe - doe div 1460 + doe div 36524 - doe div 146096) div 365;
          y = yoe + era * 400;
          doy = doe - (365 * yoe + yoe div 4 - yoe div 100);
          mp = (5 * doy + 2) div 153;
          d = doy - (153 * mp + 2) div 5 + 1;
          m = (if mp < 10 then mp + 3 else mp - 9)
      in (if m \<le> 2 then y + 1 else y, m, d))"

text \<open>\<open>{n:0w}\<close>: zero-padded to at least \<open>w\<close> digits.\<close>

definition padded :: "nat \<Rightarrow> int \<Rightarrow> string" where
  "padded w n = (let s = dec (nat n) in replicate (w - length s) CHR ''0'' @ s)"

definition rfc3339 :: "int \<Rightarrow> int \<Rightarrow> string" where
  "rfc3339 secs millis =
     (let (y, m, d) = civil_from_days (secs div 86400); sod = secs mod 86400 in
      padded 4 y @ ''-'' @ padded 2 m @ ''-'' @ padded 2 d @ ''T''
      @ padded 2 (sod div 3600) @ '':'' @ padded 2 (sod div 60 mod 60) @ '':'' @ padded 2 (sod mod 60)
      @ ''.'' @ padded 3 millis @ ''Z'')"

section \<open>The builder\<close>

record builder =
  bl_agent :: object
  bl_session :: object
  bl_seq :: "64 word"
  bl_optional :: object
  bl_spec :: spec_version

definition new_builder :: "spec_version \<Rightarrow> string \<Rightarrow> string \<Rightarrow> string \<Rightarrow> builder" where
  "new_builder spec agent_id framework session_id =
     \<lparr>bl_agent = obj_insert ''framework'' (JStr framework) (obj_insert ''id'' (JStr agent_id) []),
      bl_session = obj_insert ''id'' (JStr session_id) [],
      bl_seq = 0, bl_optional = [], bl_spec = spec\<rparr>"

definition with_optional :: "string \<Rightarrow> json \<Rightarrow> builder \<Rightarrow> builder" where
  "with_optional k v b = b\<lparr>bl_optional := obj_insert k v (bl_optional b)\<rparr>"

definition envelope :: "interception_point \<Rightarrow> json \<Rightarrow> string \<Rightarrow> builder \<Rightarrow> object \<times> builder" where
  "envelope ip target now b =
     (let core = obj_insert ''target'' target
          (obj_insert ''session'' (JObj (bl_session b))
          (obj_insert ''agent'' (JObj (bl_agent b))
          (obj_insert ''sequence'' (JNum (PosInt (bl_seq b)))
          (obj_insert ''timestamp'' (JStr now)
          (obj_insert ''interception_point'' (JStr (point_str ip))
          (obj_insert ''spec'' (JStr (spec_wire (bl_spec b))) []))))))
      in (fold (\<lambda>(k, v) ctx. obj_insert k v ctx) (bl_optional b) core, b\<lparr>bl_seq := bl_seq b + 1\<rparr>))"

definition agent_startup :: "string list \<Rightarrow> string \<Rightarrow> builder \<Rightarrow> object \<times> builder" where
  "agent_startup tools now b =
     (let init = JObj [(''tools_registered'', JArr (map JStr tools))];
          (ctx, b') = envelope AgentStartup init now b
      in (obj_insert ''agent_init'' init ctx, b'))"

definition input :: "json \<Rightarrow> string \<Rightarrow> string \<Rightarrow> builder \<Rightarrow> object \<times> builder" where
  "input content role now b =
     (let v = JObj [(''content'', content), (''role'', JStr role)];
          (ctx, b') = envelope Input v now b
      in (obj_insert ''input'' v ctx, b'))"

definition pre_model_call :: "string \<Rightarrow> json list \<Rightarrow> string \<Rightarrow> builder \<Rightarrow> object \<times> builder" where
  "pre_model_call model messages now b =
     (let msgs = JArr messages;
          (ctx, b') = envelope PreModelCall msgs now b
      in (obj_insert ''messages'' msgs (obj_insert ''model'' (JObj [(''id'', JStr model)]) ctx), b'))"

definition post_model_call ::
  "string \<Rightarrow> json \<Rightarrow> json list \<Rightarrow> string \<Rightarrow> string \<Rightarrow> builder \<Rightarrow> object \<times> builder" where
  "post_model_call model content tool_calls finish now b =
     (let resp = JObj [(''content'', content), (''finish_reason'', JStr finish),
            (''tool_calls'', JArr tool_calls)];
          (ctx, b') = envelope PostModelCall resp now b
      in (obj_insert ''response'' resp (obj_insert ''model'' (JObj [(''id'', JStr model)]) ctx), b'))"

definition tool_call_json :: "string \<Rightarrow> string \<Rightarrow> json \<Rightarrow> json" where
  "tool_call_json call_id name args =
     JObj [(''args'', args), (''id'', JStr call_id), (''name'', JStr name)]"

definition pre_tool_call :: "string \<Rightarrow> string \<Rightarrow> json \<Rightarrow> string \<Rightarrow> builder \<Rightarrow> object \<times> builder" where
  "pre_tool_call call_id name args now b =
     (let (ctx, b') = envelope PreToolCall args now b
      in (obj_insert ''tool_call'' (tool_call_json call_id name args) ctx, b'))"

definition post_tool_call ::
  "string \<Rightarrow> string \<Rightarrow> json \<Rightarrow> json \<Rightarrow> bool \<Rightarrow> string \<Rightarrow> builder \<Rightarrow> object \<times> builder" where
  "post_tool_call call_id name args value is_error now b =
     (let (ctx, b') = envelope PostToolCall value now b
      in (obj_insert ''tool_result'' (JObj [(''is_error'', JBool is_error), (''value'', value)])
           (obj_insert ''tool_call'' (tool_call_json call_id name args) ctx), b'))"

definition output_ctx :: "json \<Rightarrow> string \<Rightarrow> builder \<Rightarrow> object \<times> builder" where
  "output_ctx content now b =
     (let v = JObj [(''content'', content)];
          (ctx, b') = envelope Output v now b
      in (obj_insert ''output'' v ctx, b'))"

definition agent_shutdown :: "string \<Rightarrow> string \<Rightarrow> builder \<Rightarrow> object \<times> builder" where
  "agent_shutdown reason now b =
     (let v = JObj [(''reason'', JStr reason)];
          (ctx, b') = envelope AgentShutdown v now b
      in (obj_insert ''summary'' v ctx, b'))"

section \<open>What the builder produces\<close>

definition core_members :: "string list" where
  "core_members =
     [''spec'', ''interception_point'', ''timestamp'', ''sequence'', ''agent'', ''session'', ''target'']"

text \<open>
  The builder's side of the envelope check: usable names, a sequence number that fits
  \<open>i64\<close>, and session-wide members that do not replace the core.
\<close>

definition builder_ok :: "builder \<Rightarrow> bool" where
  "builder_ok b \<longleftrightarrow>
     non_empty_str (bl_agent b) ''id'' \<and> framework_ok (bl_agent b)
     \<and> non_empty_str (bl_session b) ''id'' \<and> unat (bl_seq b) < 2 ^ 63
     \<and> (\<forall>k\<in>set core_members. k \<notin> fst ` set (bl_optional b))"

text \<open>The members of a context that only the envelope writes.\<close>

definition core_ok :: "builder \<Rightarrow> interception_point \<Rightarrow> json \<Rightarrow> string \<Rightarrow> object \<Rightarrow> bool" where
  "core_ok b ip target now ctx \<longleftrightarrow>
     obj_get ctx ''spec'' = Some (JStr (spec_wire (bl_spec b)))
     \<and> obj_get ctx ''interception_point'' = Some (JStr (point_str ip))
     \<and> obj_get ctx ''timestamp'' = Some (JStr now)
     \<and> obj_get ctx ''sequence'' = Some (JNum (PosInt (bl_seq b)))
     \<and> obj_get ctx ''agent'' = Some (JObj (bl_agent b))
     \<and> obj_get ctx ''session'' = Some (JObj (bl_session b))
     \<and> obj_get ctx ''target'' = Some target"

lemma envelope_core:
  assumes "builder_ok b" "envelope ip target now b = (ctx, b')"
  shows "core_ok b ip target now ctx" and "b' = b\<lparr>bl_seq := bl_seq b + 1\<rparr>"
proof -
  have frame: "obj_get (fold (\<lambda>(k, v) ctx. obj_insert k v ctx) (bl_optional b) m) k = obj_get m k"
    if "k \<in> set core_members" for k m
    using assms(1) that by (intro obj.get_fold_ins) (simp add: builder_ok_def)
  define core where "core = obj_insert ''target'' target
      (obj_insert ''session'' (JObj (bl_session b))
      (obj_insert ''agent'' (JObj (bl_agent b))
      (obj_insert ''sequence'' (JNum (PosInt (bl_seq b)))
      (obj_insert ''timestamp'' (JStr now)
      (obj_insert ''interception_point'' (JStr (point_str ip))
      (obj_insert ''spec'' (JStr (spec_wire (bl_spec b))) []))))))"
  have "ctx = fold (\<lambda>(k, v) ctx. obj_insert k v ctx) (bl_optional b) core"
    using assms(2) by (simp only: envelope_def Let_def core_def prod.inject)
  then have "\<forall>k\<in>set core_members. obj_get ctx k = obj_get core k" using frame by simp
  then show "core_ok b ip target now ctx" by (simp add: core_ok_def core_members_def core_def)
  show "b' = b\<lparr>bl_seq := bl_seq b + 1\<rparr>" using assms(2) by (simp add: envelope_def Let_def)
qed

lemma core_ok_insert [simp]:
  "k \<notin> set core_members \<Longrightarrow> core_ok b ip t now (obj_insert k v ctx) \<longleftrightarrow> core_ok b ip t now ctx"
proof -
  assume "k \<notin> set core_members"
  then have "\<forall>j\<in>set core_members. obj_get (obj_insert k v ctx) j = obj_get ctx j" by auto
  then show ?thesis by (simp add: core_ok_def core_members_def del: get_insert)
qed

lemma core_valid:
  assumes "builder_ok b" "core_ok b ip t now ctx"
    and "check_each (check_conditional ctx) (conditional_point ip) = Inr ()"
  shows "validate_envelope ctx = Inr ()"
proof -
  have point: "point_from_str (point_str ip) = Some ip"
    by (cases ip) (simp_all add: point_from_str_def POINTS_def)
  have "check_agent ctx = Inr ()" "session_ok ctx"
    using assms(1,2)
    by (simp_all add: check_agent_def session_ok_def builder_ok_def core_ok_def get_object_def)
  moreover have "get_i64 ctx ''sequence'' = Some (uint (bl_seq b))"
    using assms(1,2) by (simp add: builder_ok_def core_ok_def get_i64_def)
  moreover have "spec_of_context ctx = Some (bl_spec b)" "interception_point_str ctx = Inr (point_str ip)"
    "get_str ctx ''timestamp'' = Some now"
    using assms(2) by (simp_all add: core_ok_def spec_of_context_def interception_point_str_def get_str_def point)
  ultimately show ?thesis
    using assms(2,3)
    by (simp add: validate_envelope_def conditional_for_def point core_ok_def)
qed

lemmas point_builders = agent_startup_def input_def pre_model_call_def post_model_call_def
  pre_tool_call_def post_tool_call_def output_ctx_def agent_shutdown_def tool_call_json_def

text \<open>The contexts of one builder, whatever the point and the arguments.\<close>

inductive builds :: "builder \<Rightarrow> interception_point \<Rightarrow> object \<Rightarrow> builder \<Rightarrow> bool" for b where
  "agent_startup tools now b = (ctx, b') \<Longrightarrow> builds b AgentStartup ctx b'"
| "input content role now b = (ctx, b') \<Longrightarrow> builds b Input ctx b'"
| "pre_model_call model msgs now b = (ctx, b') \<Longrightarrow> builds b PreModelCall ctx b'"
| "post_model_call model content calls finish now b = (ctx, b') \<Longrightarrow> builds b PostModelCall ctx b'"
| "pre_tool_call cid name args now b = (ctx, b') \<Longrightarrow> builds b PreToolCall ctx b'"
| "post_tool_call cid name args val err now b = (ctx, b') \<Longrightarrow> builds b PostToolCall ctx b'"
| "output_ctx content now b = (ctx, b') \<Longrightarrow> builds b Output ctx b'"
| "agent_shutdown reason now b = (ctx, b') \<Longrightarrow> builds b AgentShutdown ctx b'"

text \<open>Each builder adds its conditional members to an envelope.\<close>

lemma envelope_core_ex:
  "builder_ok b \<Longrightarrow> envelope ip target now b = (ctx, b') \<Longrightarrow> \<exists>t now. core_ok b ip t now ctx"
  using envelope_core(1) by blast

lemma builds_core:
  assumes "builds b ip ctx b'" "builder_ok b"
  shows "\<exists>t now. core_ok b ip t now ctx"
  using assms
  by (induction rule: builds.induct)
     (auto simp: point_builders Let_def core_members_def split: prod.splits dest: envelope_core_ex [OF assms(2)])

lemma envelope_seq: "envelope ip t now b = (c, b') \<Longrightarrow> b' = b\<lparr>bl_seq := bl_seq b + 1\<rparr>"
  by (simp add: envelope_def Let_def)

lemma builds_seq: "builds b ip ctx b' \<Longrightarrow> b' = b\<lparr>bl_seq := bl_seq b + 1\<rparr>"
  by (induction rule: builds.induct)
     (auto simp: point_builders Let_def split: prod.splits dest: envelope_seq)

lemma builds_conditional:
  "builds b ip ctx b' \<Longrightarrow> check_each (check_conditional ctx) (conditional_point ip) = Inr ()"
  by (induction rule: builds.induct)
     (auto simp: point_builders Let_def check_conditional_def contains_key_def split: prod.splits)

end
