(* ===== verification/Calendar.thy ===== *)
theory Calendar
  imports Builder
begin

text \<open>
  The calendar behind \<open>civil_from_days\<close>: the proleptic Gregorian calendar as a
  successor function on dates, and the day count of the years that begin in March, in which the
  code's arithmetic works.
\<close>

section \<open>The Gregorian calendar\<close>

definition leap :: "int \<Rightarrow> bool" where
  "leap y \<longleftrightarrow> 4 dvd y \<and> (\<not> 100 dvd y \<or> 400 dvd y)"

definition month_days :: "int \<Rightarrow> int \<Rightarrow> int" where
  "month_days y m =
     (if m = 2 then if leap y then 29 else 28 else if m \<in> {4, 6, 9, 11} then 30 else 31)"

fun next_date :: "int \<times> int \<times> int \<Rightarrow> int \<times> int \<times> int" where
  "next_date (y, m, d) =
     (if d < month_days y m then (y, m, d + 1) else if m < 12 then (y, m + 1, 1) else (y + 1, 1, 1))"

section \<open>Years from March\<close>

text \<open>The days before the first of March of the year \<open>y\<close>, and the length of the year that starts there.\<close>

definition march :: "int \<Rightarrow> int" where
  "march y = 365 * y + y div 4 - y div 100 + y div 400"

definition march_len :: "int \<Rightarrow> int" where
  "march_len y = (if leap (y + 1) then 366 else 365)"

definition month_of :: "int \<Rightarrow> int" where
  "month_of doy = (let mp = (5 * doy + 2) div 153 in if mp < 10 then mp + 3 else mp - 9)"

definition day_of :: "int \<Rightarrow> int" where
  "day_of doy = (let mp = (5 * doy + 2) div 153 in doy - (153 * mp + 2) div 5 + 1)"

definition from_march :: "int \<Rightarrow> int \<Rightarrow> int \<times> int \<times> int" where
  "from_march y doy = (if month_of doy \<le> 2 then y + 1 else y, month_of doy, day_of doy)"

lemma div_Suc:
  fixes y k :: int
  assumes "0 < k"
  shows "(y + 1) div k = y div k + (if k dvd y + 1 then 1 else 0)"
proof (cases "y mod k = k - 1")
  case True
  have y: "y + 1 = k * (y div k + 1) + 0"
    using mult_div_mod_eq [of k y] True by (simp add: algebra_simps)
  then have "(y + 1) div k = y div k + 1" using assms by (intro int_div_pos_eq) auto
  moreover from y have "k dvd y + 1" by (metis add_0_right dvd_triv_left)
  ultimately show ?thesis by simp
next
  case False
  have r: "0 \<le> y mod k + 1" "y mod k + 1 < k" using False assms pos_mod_bound [of k y] pos_mod_sign [of k y] by linarith+
  have y: "y + 1 = k * (y div k) + (y mod k + 1)" by simp
  have "(y + 1) div k = y div k" by (rule int_div_pos_eq [OF y r])
  moreover have "(y + 1) mod k = y mod k + 1" by (rule int_mod_pos_eq [OF y r])
  then have "\<not> k dvd y + 1" using pos_mod_sign [OF assms, of y] by (simp add: dvd_eq_mod_eq_0)
  ultimately show ?thesis by simp
qed

lemma march_Suc: "march (y + 1) = march y + march_len y"
proof -
  have dvd: "400 dvd y + 1 \<longrightarrow> 100 dvd y + 1" "100 dvd y + 1 \<longrightarrow> 4 dvd y + 1"
    using dvd_trans [of 100 400 "y + 1"] dvd_trans [of 4 100 "y + 1"] by simp_all
  have div: "(y + 1) div 4 = y div 4 + (if 4 dvd y + 1 then 1 else 0)"
    "(y + 1) div 100 = y div 100 + (if 100 dvd y + 1 then 1 else 0)"
    "(y + 1) div 400 = y div 400 + (if 400 dvd y + 1 then 1 else 0)"
    by (rule div_Suc, simp)+
  define p q r where "p = (4 dvd y + 1)" and "q = (100 dvd y + 1)" and "r = (400 dvd y + 1)"
  have "(r \<longrightarrow> q) \<and> (q \<longrightarrow> p)" using dvd by (simp add: p_def q_def r_def)
  then show ?thesis
    unfolding march_def march_len_def leap_def div p_def [symmetric] q_def [symmetric] r_def [symmetric]
    by (cases p; cases q; cases r) simp_all
qed

lemma march_mono: "march y \<le> march (y + int n)"
proof (induction n)
  case (Suc n)
  have "march (y + int (Suc n)) = march (y + int n) + march_len (y + int n)"
    using march_Suc [of "y + int n"] by (simp add: algebra_simps)
  moreover have "0 \<le> march_len (y + int n)" by (simp add: march_len_def)
  ultimately show ?case using Suc.IH by linarith
qed simp

lemma march_unique:
  assumes "march y + u = march y' + u'" "0 \<le> u" "u < march_len y" "0 \<le> u'" "u' < march_len y'"
  shows "y = y' \<and> u = u'"
proof -
  have le: "\<not> y < y'" if "march y + u = march y' + u'" "u < march_len y" "0 \<le> u'" for y u y' u'
  proof
    assume "y < y'"
    then obtain n where "y' = y + 1 + int n" by (metis zless_iff_Suc_zadd zadd_int_left add.commute of_nat_Suc add.assoc)
    with march_mono [of "y + 1" n] march_Suc [of y] that show False by simp
  qed
  from le [of y u y' u'] le [of y' u' y u] assms have "y = y'" by simp
  with assms show ?thesis by simp
qed

text \<open>A year of the 400-year cycle as centuries, four-year groups and years.\<close>

lemma cycle_day:
  assumes "0 \<le> doe" "doe < 146097"
  obtains a b c u :: int where "doe = 36524 * a + 1461 * b + 365 * c + u" "0 \<le> a" "a \<le> 3" "0 \<le> b" "b \<le> 24"
    "0 \<le> c" "c \<le> 3" "0 \<le> u" "u \<le> 365" "u = 365 \<longrightarrow> c = 3 \<and> (b = 24 \<longrightarrow> a = 3)"
proof -
  define a where "a = min 3 (doe div 36524)"
  define r where "r = doe - 36524 * a"
  define b where "b = r div 1461"
  define s where "s = r - 1461 * b"
  define c where "c = min 3 (s div 365)"
  define u where "u = s - 365 * c"
  have a: "0 \<le> a" "a \<le> 3" using assms by (simp_all add: a_def)
  have r: "0 \<le> r" "r \<le> 36524" "r = 36524 \<Longrightarrow> a = 3" using assms unfolding r_def a_def by linarith+
  have b: "0 \<le> b" "b \<le> 24" using r unfolding b_def by linarith+
  have s: "0 \<le> s" "s \<le> 1460" unfolding s_def b_def by linarith+
  have c: "0 \<le> c" "c \<le> 3" using s by (simp_all add: c_def)
  have u: "0 \<le> u" "u \<le> 365" "u = 365 \<Longrightarrow> c = 3" using s unfolding u_def c_def by linarith+
  have "doe = 36524 * a + 1461 * b + 365 * c + u" by (simp add: r_def s_def u_def)
  moreover have "a = 3" if "u = 365" "b = 24"
  proof (rule r(3))
    show "r = 36524" using u(3) [OF that(1)] that by (simp add: u_def s_def)
  qed
  ultimately show ?thesis using that [of a b c u] a b c u by blast
qed

lemma march_cycle:
  assumes "0 \<le> a" "a \<le> 3" "0 \<le> b" "b \<le> 24" "0 \<le> c" "c \<le> 3"
  shows "march (100 * a + 4 * b + c) = 36524 * a + 1461 * b + 365 * c"
proof -
  have "(100 * a + 4 * b + c) div 4 = 25 * a + b" "(100 * a + 4 * b + c) div 100 = a"
    "(100 * a + 4 * b + c) div 400 = 0" using assms by linarith+
  then show ?thesis by (simp add: march_def)
qed

lemma march_era: "march (y + 400 * e) = march y + 146097 * e"
proof -
  have "(y + 400 * e) div 4 = y div 4 + 100 * e" "(y + 400 * e) div 100 = y div 100 + 4 * e"
    "(y + 400 * e) div 400 = y div 400 + e" by linarith+
  then show ?thesis by (simp add: march_def)
qed

lemma march_len_cycle:
  assumes "0 \<le> a" "a \<le> 3" "0 \<le> b" "b \<le> 24" "u \<le> (365::int)" "u = 365 \<longrightarrow> c = 3 \<and> (b = 24 \<longrightarrow> a = 3)"
  shows "u < march_len (100 * a + 4 * b + c + 400 * e)"
proof (cases "u = 365")
  case True
  with assms have c: "c = 3" and ab: "b = 24 \<longrightarrow> a = 3" by auto
  have n: "100 * a + 4 * b + c + 400 * e + 1 = 4 * (b + 1) + 100 * (a + 4 * e)" using c by simp
  have "4 dvd 100 * a + 4 * b + c + 400 * e + 1" unfolding n by (intro dvd_add dvd_mult2) simp_all
  moreover have "\<not> 100 dvd 100 * a + 4 * b + c + 400 * e + 1" if "b \<noteq> 24"
  proof
    assume "100 dvd 100 * a + 4 * b + c + 400 * e + 1"
    then have "100 dvd 4 * (b + 1)" unfolding n by (simp only: dvd_add_times_triv_right_iff dvd_add_left_iff dvd_triv_left)
    then have "100 \<le> 4 * (b + 1)" using assms(3) by (intro zdvd_imp_le) simp_all
    with assms(4) that show False by simp
  qed
  moreover have "400 dvd 100 * a + 4 * b + c + 400 * e + 1" if "b = 24"
  proof -
    have "100 * a + 4 * b + c + 400 * e + 1 = 400 * (e + 1)" using c ab that by simp
    then show ?thesis by (simp only: dvd_triv_left)
  qed
  ultimately have "leap (100 * a + 4 * b + c + 400 * e + 1)" unfolding leap_def by blast
  with True show ?thesis by (simp add: march_len_def)
next
  case False
  with assms show ?thesis by (auto simp: march_len_def)
qed

text \<open>The code's year of the cycle.\<close>

lemma year_of_cycle:
  assumes "0 \<le> a" "a \<le> 3" "0 \<le> b" "b \<le> 24" "0 \<le> c" "c \<le> 3" "0 \<le> u" "u \<le> (365::int)"
    "u = 365 \<longrightarrow> c = 3 \<and> (b = 24 \<longrightarrow> a = 3)"
    "doe = 36524 * a + 1461 * b + 365 * c + u"
  shows "(doe - doe div 1460 + doe div 36524 - doe div 146096) div 365 = 100 * a + 4 * b + c"
proof -
  define last where "last = (u = 365 \<and> b = 24)"
  have l: "doe div 146096 = (if last then 1 else 0)" "doe div 36524 = a + (if last then 1 else 0)"
  proof -
    have "(if last then 36524 else 0) \<le> 1461 * b + 365 * c + u"
      "1461 * b + 365 * c + u < (if last then 36525 else 36524)" "last \<longrightarrow> a = 3"
      using assms(1-9) by (auto simp: last_def)
    then have q: "0 \<le> 1461 * b + 365 * c + u - (if last then 36524 else 0)"
      "1461 * b + 365 * c + u - (if last then 36524 else 0) < (if last then 1 else 36524)"
      and "last \<longrightarrow> a = 3" by (simp_all split: if_splits)
    have "doe = 36524 * (a + (if last then 1 else 0)) + (1461 * b + 365 * c + u - (if last then 36524 else 0))"
      using assms(10) by simp
    then show "doe div 36524 = a + (if last then 1 else 0)"
      by (rule int_div_pos_eq) (use q in \<open>simp_all split: if_splits\<close>)
    have "doe = 146096 * (if last then 1 else 0) + (if last then doe - 146096 else doe)" by simp
    then show "doe div 146096 = (if last then 1 else 0)"
      by (rule int_div_pos_eq) (use q \<open>last \<longrightarrow> a = 3\<close> assms(1,2,10) in \<open>auto split: if_splits\<close>)
  qed
  define k where "k = (24 * a + b + 365 * c + u) div 1460"
  have k: "doe div 1460 = 25 * a + b + k" unfolding assms(10) k_def by linarith
  have "doe - doe div 1460 + doe div 36524 - doe div 146096 = 365 * (100 * a + 4 * b + c) + (u - k)"
    unfolding l k using assms(10) by simp
  moreover have "0 \<le> u - k" "u - k < 365"
  proof -
    have "k \<le> 1" "0 \<le> k" using assms unfolding k_def by linarith+
    moreover have "k = 1 \<Longrightarrow> u > 0" using assms(1-8) unfolding k_def by linarith
    moreover have "u = 365 \<Longrightarrow> k = 1" using assms unfolding k_def by linarith
    ultimately show "0 \<le> u - k" "u - k < 365" using assms(7,8) by linarith+
  qed
  ultimately show ?thesis by (metis int_div_pos_eq)
qed

section \<open>The conversion\<close>

text \<open>Every day count is a day of exactly one year from March, and the code finds both.\<close>

lemma civil_from_march:
  obtains y u where "z + 719468 = march y + u" "0 \<le> u" "u < march_len y" "civil_from_days z = from_march y u"
proof -
  define e where "e = (z + 719468) div 146097"
  define doe where "doe = (z + 719468) mod 146097"
  have doe: "0 \<le> doe" "doe < 146097" by (simp_all add: doe_def)
  have z: "z + 719468 = e * 146097 + doe" by (simp add: e_def doe_def)
  have era: "(if z + 719468 \<ge> 0 then z + 719468 else z + 719468 - 146096) sdiv 146097 = e"
  proof (cases "z + 719468 \<ge> 0")
    case True
    then show ?thesis by (simp add: signed_divide_int_def e_def sgn_if)
  next
    case False
    have "(146096 - (z + 719468)) div 146097 = - e"
      by (rule int_div_pos_eq [of _ _ _ "146096 - doe"]) (use z doe in simp_all)
    with False show ?thesis by (simp add: signed_divide_int_def sgn_if)
  qed
  from doe obtain a b c u where d: "doe = 36524 * a + 1461 * b + 365 * c + u" and
    r: "0 \<le> a" "a \<le> 3" "0 \<le> b" "b \<le> 24" "0 \<le> c" "c \<le> 3" "0 \<le> u" "u \<le> 365"
      "u = 365 \<longrightarrow> c = 3 \<and> (b = 24 \<longrightarrow> a = 3)" by (rule cycle_day)
  define yoe where "yoe = 100 * a + 4 * b + c"
  have yoe: "(doe - doe div 1460 + doe div 36524 - doe div 146096) div 365 = yoe"
    unfolding yoe_def using r d by (rule year_of_cycle)
  have m: "march yoe = 36524 * a + 1461 * b + 365 * c" unfolding yoe_def using r(1-6) by (rule march_cycle)
  have "yoe div 400 = 0" unfolding yoe_def using r by linarith
  with m d have u: "doe - (365 * yoe + yoe div 4 - yoe div 100) = u" by (simp add: march_def)
  have "z + 719468 - e * 146097 = doe" using z by simp
  then have "civil_from_days z = from_march (yoe + e * 400) u"
    unfolding civil_from_days_def Let_def era from_march_def month_of_def day_of_def by (simp only: yoe u)
  then have "civil_from_days z = from_march (yoe + 400 * e) u" by (simp only: mult.commute)
  moreover have "z + 719468 = march (yoe + 400 * e) + u" using z d m by (simp add: march_era)
  moreover have "u < march_len (yoe + 400 * e)"
    unfolding yoe_def using r(1-4) r(8,9) by (rule march_len_cycle)
  ultimately show ?thesis using r(7) that by blast
qed

text \<open>Inside a year the month table of the code is the calendar's.\<close>

definition month_step :: "int \<Rightarrow> bool" where
  "month_step u \<longleftrightarrow>
     (if day_of u < month_days 1 (month_of u)
      then month_of (u + 1) = month_of u \<and> day_of (u + 1) = day_of u + 1
      else month_of u \<noteq> 2 \<and> day_of (u + 1) = 1
        \<and> month_of (u + 1) = (if month_of u = 12 then 1 else month_of u + 1))"

lemma month_steps: "list_all month_step [0..363]"
  by code_simp

lemma from_march_Suc:
  assumes "0 \<le> u" "u + 1 < march_len y"
  shows "from_march y (u + 1) = next_date (from_march y u)"
proof (cases "u = 364")
  case True
  with assms have "leap (y + 1)" by (simp add: march_len_def split: if_splits)
  with True show ?thesis by (simp add: from_march_def month_of_def day_of_def month_days_def)
next
  case False
  with assms have "u \<in> set [0..363]" by (simp add: march_len_def split: if_splits)
  with month_steps have "month_step u" unfolding list_all_iff by blast
  moreover have "month_of u \<noteq> 2 \<Longrightarrow> month_days y (month_of u) = month_days 1 (month_of u)"
    "month_of u \<noteq> 2 \<Longrightarrow> month_days (y + 1) (month_of u) = month_days 1 (month_of u)"
    by (simp_all add: month_days_def)
  moreover have "month_of u = 2 \<Longrightarrow> month_days 1 (month_of u) \<le> month_days (y + 1) (month_of u)"
    by (simp add: month_days_def leap_def)
  moreover have "month_of u \<le> 12" "1 \<le> month_of u"
  proof -
    have "0 \<le> (5 * u + 2) div 153" "(5 * u + 2) div 153 \<le> 11"
      using assms by (simp_all add: march_len_def split: if_splits)
    then show "month_of u \<le> 12" "1 \<le> month_of u" by (simp_all add: month_of_def Let_def)
  qed
  ultimately show ?thesis unfolding month_step_def from_march_def next_date.simps
    by (cases "month_of u = 2"; cases "day_of u < month_days 1 (month_of u)"; cases "month_of u = 12") simp_all
qed

lemma from_march_last: "from_march (y + 1) 0 = next_date (from_march y (march_len y - 1))"
  by (simp add: from_march_def month_of_def day_of_def march_len_def month_days_def)

lemma civil_from_days_Suc: "civil_from_days (z + 1) = next_date (civil_from_days z)"
proof -
  obtain y u where y: "z + 719468 = march y + u" "0 \<le> u" "u < march_len y" "civil_from_days z = from_march y u"
    by (rule civil_from_march)
  obtain y' u' where y': "z + 1 + 719468 = march y' + u'" "0 \<le> u'" "u' < march_len y'"
    "civil_from_days (z + 1) = from_march y' u'" by (rule civil_from_march)
  show ?thesis
  proof (cases "u + 1 < march_len y")
    case True
    with y y' have "y' = y \<and> u' = u + 1" by (intro march_unique) auto
    with True y y' from_march_Suc [OF y(2) True] show ?thesis by simp
  next
    case False
    with y have u: "u = march_len y - 1" by simp
    have "y' = y + 1 \<and> u' = 0" using y y' u march_Suc [of y]
      by (intro march_unique) (auto simp: march_len_def)
    with u y y' from_march_last [of y] show ?thesis by simp
  qed
qed

lemma civil_from_days_epoch: "civil_from_days 0 = (1970, 1, 1)"
proof -
  obtain y u where y: "0 + 719468 = march y + u" "0 \<le> u" "u < march_len y"
    "civil_from_days 0 = from_march y u" by (rule civil_from_march)
  have "march 1969 + 306 = march y + u" using y(1) by (simp add: march_def)
  with y(2,3) have "1969 = y \<and> 306 = u" by (intro march_unique) (simp_all add: march_len_def)
  with y(4) have "civil_from_days 0 = from_march 1969 306" by simp
  then show ?thesis by (simp add: from_march_def month_of_def day_of_def)
qed

end
