(* ===== verification/Component_Properties.thy ===== *)
theory Component_Properties
  imports Response Calendar
begin

text \<open>
  The properties of the components below the emitter: canonical JSON and identities, the
  transform paths, aggregation, the verdict gate with its wire form, and the context builder.
\<close>

section \<open>Canonical JSON\<close>

text \<open>
  C18: The streaming formatter is correct: driven over any well-formed value, its stack of
  half-written objects ends empty and the bytes written are the recursive reference text
  with the members of every object in UTF-16 key order. It never takes an error branch, so
  \<open>canonical_json\<close> never panics.
\<close>

theorem formatter_correct:
  assumes "wf_json v"
  shows "jcs_to_string fx v = Inr (jcs_text fx v) \<and> canonical_json fx v = jcs_text fx v"
  using jcs_to_string_total [OF assms] canonical_json_text [OF assms] by simp

theorem formatter_correct_witness:
  "canonical_json (\<lambda>_. ''0'') (JObj [(''a'', JArr [JNull, JBool True])])
    = jcs_text (\<lambda>_. ''0'') (JObj [(''a'', JArr [JNull, JBool True])])"
  using formatter_correct [of "JObj [(''a'', JArr [JNull, JBool True])]" "\<lambda>_. ''0''"]
  by (simp add: sorted_keys_def)

text \<open>String literals round-trip: decoding the escaped literal the formatter writes gives the
  string back, so the keys it decodes for ordering are the keys it was given.
\<close>

theorem literal_round_trip: "unquote_str (quote_str s) = Some s \<and> (quote_str s = quote_str t \<longleftrightarrow> s = t)"
  by (simp add: quote_str_inject)

text \<open>The explicit-stack depth check accepts exactly the values nested at most 128 deep, with
  scalars counting one level.
\<close>

theorem depth_check_exact: "check_depth v = Inr () \<longleftrightarrow> json_depth v \<le> 128"
  by (simp add: check_depth_iff MAX_DEPTH_def)

text \<open>The in-memory I-JSON check accepts a value iff no number anywhere in it is an integer of
  magnitude above \<open>2^53 - 1\<close>, whatever path it starts from.
\<close>

theorem i_json_exact: "check_i_json v path = Inr () \<longleftrightarrow> (\<forall>n\<in>set (numbers v). \<not> out_of_range n)"
  by (rule check_i_json_iff(1))

theorem i_json_exact_witness:
  "check_i_json (JArr [JNum (PosInt 9007199254740991), JObj [(''a'', JNum (NegInt (- 7)))]]) ''$'' = Inr ()
    \<and> check_i_json (JArr [JNum (PosInt 9007199254740992)]) ''$'' \<noteq> Inr ()"
  using i_json_exact [of "JArr [JNum (PosInt 9007199254740991), JObj [(''a'', JNum (NegInt (- 7)))]]" "''$''"]
    i_json_exact [of "JArr [JNum (PosInt 9007199254740992)]" "''$''"]
  by (simp add: out_of_range_def MAX_SAFE_INTEGER_def)

text \<open>The raw-text comparison of digit strings against \<open>2^53 - 1\<close> (by length, then
  bytewise) is the numeric comparison, for the tokens of all integers of either sign.
\<close>

theorem raw_token_numeric:
  "(token_over (dec n) \<longleftrightarrow> n > 9007199254740991)
    \<and> (token_over (CHR ''-'' # dec n) \<longleftrightarrow> n > 9007199254740991)"
  by (simp add: token_over_dec token_over_neg MAX_SAFE_INTEGER_def)

text \<open>
  The identity is a function of the closed projection: two valid contexts that agree on
  the required and conditional members, cut to their whitelists, have the same identity,
  whatever else they carry.
\<close>

theorem identity_of_projection:
  assumes "validate_envelope c = Inr ()" "validate_envelope d = Inr ()" "same_projection c d"
  shows "context_identity x c = context_identity x d"
  using assms by (simp add: context_identity_def project_preimage_cong [OF assms(3)])

theorem identity_of_projection_witness:
  "\<exists>c d. c \<noteq> d \<and> (\<forall>x. context_identity x c = context_identity x d)
    \<and> obj_get d ''tenant'' = Some (JStr ''t'')"
proof -
  define b where "b = new_builder Draft ''a'' ''rust'' ''s''"
  define c where "c = fst (output_ctx (JStr ''hi'') ''now'' b)"
  define d where "d = obj_insert ''tenant'' (JStr ''t'') c"
  have ok: "builder_ok b"
    by (simp add: b_def builder_ok_def new_builder_def non_empty_str_def framework_ok_def framework_char_def
        get_str_def is_lower_def byte_def)
  obtain b' where "output_ctx (JStr ''hi'') ''now'' b = (c, b')" by (cases "output_ctx (JStr ''hi'') ''now'' b") (simp add: c_def)
  then have bc: "builds b Output c b'" by (rule builds.intros)
  obtain t now where core: "core_ok b Output t now c" using builds_core [OF bc ok] by blast
  have cond: "check_each (check_conditional c) (conditional_point Output) = Inr ()"
    by (rule builds_conditional [OF bc])
  have vc: "validate_envelope c = Inr ()" by (rule core_valid [OF ok core cond])
  have "core_ok b Output t now d" using core by (simp add: d_def core_members_def)
  moreover have "check_each (check_conditional d) (conditional_point Output) = Inr ()"
    using cond by (simp add: d_def check_conditional_def)
  ultimately have vd: "validate_envelope d = Inr ()" by (rule core_valid [OF ok])
  have "fst ks \<noteq> ''tenant''" if "ks \<in> set (conditional_point p)" for ks p
    using that by (cases p) auto
  then have same: "same_projection c d"
    by (fastforce simp: same_projection_def d_def REQUIRED_def)
  have "obj_get c ''tenant'' = None"
    by (simp add: c_def output_ctx_def envelope_def b_def new_builder_def Let_def)
  moreover have "obj_get d ''tenant'' = Some (JStr ''t'')" by (simp add: d_def)
  ultimately have "c \<noteq> d \<and> obj_get d ''tenant'' = Some (JStr ''t'')" by auto
  then show ?thesis using identity_of_projection [OF vc vd same] by blast
qed

section \<open>Transform paths\<close>

text \<open>
  The parser accepts exactly a grammar: a path body parses to \<open>ss\<close> iff it is a
  sequence of dot members, bracket members and bracket indices that denotes \<open>ss\<close> with every index
  below \<open>2^64\<close>. The grammar is the documented one except that a bracket member may be empty.
\<close>

theorem path_parser_exact:
  "parse_segs p = Inr ss \<longleftrightarrow> segs_gram True p ss \<and> list_all index_ok ss"
  using parse_segs_sound parse_segs_complete by blast

text \<open>The parser accepts \<open>$target[""]\<close>, which the documented grammar, whose member
  names have at least one character, does not derive.
\<close>

theorem empty_bracket_member_accepted:
  "parse ''$target[\"\"]'' = Inr [Member []] \<and> (\<forall>ss. \<not> segs_gram False ''[\"\"]'' ss)"
proof
  show "parse ''$target[\"\"]'' = Inr [Member []]"
    by (simp add: parse_def strip_prefix_def starts_with_def parse_segs.simps is_member_char_def is_alnum_def
        is_digit_def is_lower_def is_upper_def byte_def)
  have "\<not> seg_gram False p s" if "p @ q = ''[\"\"]''" for p q s
  proof
    assume "seg_gram False p s"
    then show False
    proof (cases rule: seg_gram.cases)
      case (brk m)
      with that not_member_chars(3) show False by (cases m) auto
    next
      case (idx ds)
      with that not_member_chars(5) show False by (cases ds) auto
    qed (use that in auto)
  qed
  then show "\<forall>ss. \<not> segs_gram False ''[\"\"]'' ss" by (metis list.distinct(1) segs_gram.cases)
qed

text \<open>Printing a list of segments and parsing it gives the segments back.\<close>

theorem path_round_trip:
  assumes "list_all segment_ok ss"
  shows "parse (path_str ss) = Inr ss"
  using assms by (rule parse_print)

theorem path_round_trip_witness: "parse (path_str [Member ''a'', Index 3]) = Inr [Member ''a'', Index 3]"
  using path_round_trip [of "[Member ''a'', Index 3]"]
  by (simp add: is_member_char_def is_alnum_def is_lower_def byte_def)

text \<open>
  C34: Replacing a leaf is a lens: it succeeds exactly where the path resolves and with the same
  error otherwise; what was put is read back; putting what is there changes nothing; the last put wins.
\<close>

theorem apply_is_lens:
  assumes "wf_json t"
  shows "(\<forall>e. resolve_segs t ss = Inl e \<longrightarrow> apply_segs t ss v = Inl e)
    \<and> (res_ok (apply_segs t ss v) \<longleftrightarrow> res_ok (resolve_segs t ss))
    \<and> (\<forall>t'. apply_segs t ss v = Inr t' \<longrightarrow>
         resolve_segs t' ss = Inr v \<and> apply_segs t' ss w = apply_segs t ss w \<and> (wf_json v \<longrightarrow> wf_json t'))
    \<and> (resolve_segs t ss = Inr u \<longrightarrow> apply_segs t ss u = Inr t)"
  using assms path.set_fail [of t ss] path.set_ok_iff [of t ss v] path.view_set [of t ss v]
    path.set_set [of t ss v] path.set_view [of t ss u] wf_apply_segs [of t v ss]
  by blast

theorem apply_is_lens_witness:
  "apply_segs (JObj [(''a'', JNull)]) [Member ''a''] JNull = Inr (JObj [(''a'', JNull)])"
  using apply_is_lens [of "JObj [(''a'', JNull)]" "[Member ''a'']" JNull JNull JNull]
  by (simp add: sorted_keys_def contains_key_def)

text \<open>A replacement is local: a path that leaves the replaced one at some segment reads what it read before.\<close>

theorem apply_is_local:
  assumes "x \<noteq> y" "apply_segs t (xs @ x # zs) v = Inr t'"
  shows "resolve_segs t' (xs @ y # ys) = resolve_segs t (xs @ y # ys)"
  using assms by (rule resolve_apply_other)

theorem apply_is_local_witness:
  "\<exists>t'. apply_segs (JObj [(''a'', JNull), (''b'', JBool True)]) [Member ''a''] (JStr ''x'') = Inr t'
     \<and> resolve_segs t' [Member ''b''] = Inr (JBool True)"
proof -
  obtain t' where t': "apply_segs (JObj [(''a'', JNull), (''b'', JBool True)]) ([] @ Member ''a'' # []) (JStr ''x'') = Inr t'"
    by (simp add: contains_key_def)
  from apply_is_local [OF _ t', of "Member ''b''" "[]"] t' show ?thesis by simp
qed

section \<open>Aggregation\<close>

text \<open>
  The strictest aggregation selects a verdict of maximal severity (deny over liftable deny over
  transform over allow); among equals the first, except that the last of several transforms
  wins in the sequential profile.
\<close>

theorem winner_is_strictest:
  assumes "vs \<noteq> []" "aggregate_strictest vs sequential = Winner i"
  shows "i < length vs \<and> (\<forall>j<length vs. severity (vs ! j) \<le> severity (vs ! i)
    \<and> (severity (vs ! j) = severity (vs ! i) \<longrightarrow>
        (if severity (vs ! i) = 1 \<and> sequential then j \<le> i else i \<le> j)))"
  using aggregate_winner [OF assms] by simp

theorem winner_is_strictest_witness:
  "aggregate_strictest [allow, deny None None, escalate None None] False = Winner 1
    \<and> severity (deny None None) \<ge> severity (escalate None None)"
proof -
  have w: "aggregate_strictest [allow, deny None None, escalate None None] False = Winner 1"
    by (simp add: aggregate_strictest_def top_indices_def max_severity_def severity_def is_liftable_def
        verdict_makers)
  have "severity ([allow, deny None None, escalate None None] ! 2)
      \<le> severity ([allow, deny None None, escalate None None] ! 1)"
    using winner_is_strictest [OF _ w] by (simp add: numeral_2_eq_2 All_less_Suc)
  with w show ?thesis by (simp add: numeral_2_eq_2)
qed

text \<open>A transform conflict is reported exactly for a parallel aggregation in which nobody denies
  and at least two transform; it names all of them.
\<close>

theorem conflict_names_transforms:
  assumes "aggregate_strictest vs sequential = TransformConflictAt is"
  shows "\<not> sequential \<and> 2 \<le> length is \<and> (\<forall>v\<in>set vs. v_decision v \<noteq> Deny)
    \<and> set is = {i. i < length vs \<and> v_decision (vs ! i) = Transform}"
  using aggregate_conflict [OF assms] by simp

theorem conflict_names_transforms_witness:
  "set [0, 2] = {i. i < length [allow\<lparr>v_decision := Transform\<rparr>, allow, allow\<lparr>v_decision := Transform\<rparr>]
    \<and> v_decision ([allow\<lparr>v_decision := Transform\<rparr>, allow, allow\<lparr>v_decision := Transform\<rparr>] ! i) = Transform}"
proof -
  have "aggregate_strictest [allow\<lparr>v_decision := Transform\<rparr>, allow, allow\<lparr>v_decision := Transform\<rparr>] False
      = TransformConflictAt [0, 2]"
    by (simp add: aggregate_strictest_def top_indices_def max_severity_def severity_def is_liftable_def
        verdict_makers)
  from conflict_names_transforms [OF this] show ?thesis by blast
qed

text \<open>The unions of the combined verdict: warnings are the pool's warnings without repetition in
  first-seen order, labels those of the permitting verdicts; nothing else of the verdict changes,
  in particular not the decision, the reason or whether it can be lifted.
\<close>

theorem unions_first_seen:
  "(concat (map v_warnings pool) \<noteq> [] \<longrightarrow>
      v_warnings (with_unions v pool) = rev (remdups (rev (concat (map v_warnings pool)))))
   \<and> distinct (union_labels pool)
   \<and> set (union_labels pool) = (\<Union>u\<in>{u \<in> set pool. permits (v_decision u)}. set (v_labels u))
   \<and> (\<not> permits (v_decision v) \<longrightarrow> v_labels (with_unions v pool) = v_labels v)
   \<and> v_decision (with_unions v pool) = v_decision v \<and> v_reason (with_unions v pool) = v_reason v
   \<and> is_liftable (with_unions v pool) = is_liftable v"
  by (auto simp: with_unions_warnings with_unions_labels union_warnings_seen union_labels_seen union_seen_remdups)

theorem unions_first_seen_witness:
  "v_warnings (with_unions allow [warn (Some ''a'') None, warn (Some ''b'') None, warn (Some ''a'') None])
    = [\<lparr>w_reason = Some ''a'', w_message = None\<rparr>, \<lparr>w_reason = Some ''b'', w_message = None\<rparr>]"
  using unions_first_seen [of "[warn (Some ''a'') None, warn (Some ''b'') None, warn (Some ''a'') None]" allow]
  by (simp add: verdict_makers)

section \<open>Verdicts and responses\<close>

text \<open>The verdict gate accepts exactly the verdicts of \<open>gate_ok\<close>: no reserved reason, no
  reserved warning under the version, an approval block only on a deny, evidence within the size cap,
  and a transform body exactly on a transform.
\<close>

theorem gate_exact: "validate fx spec v = Inr () \<longleftrightarrow> gate_ok fx spec v"
  by (rule validate_iff)

text \<open>The wire gate is at least as strict as the in-memory gate: a verdict it lets through passes
  \<open>validate\<close> under the same version, and the path of its transform parses.
\<close>

theorem wire_gate_sound:
  assumes "verdict_from_wire fx spec raw = Inr v"
  shows "validate fx spec v = Inr () \<and> (\<forall>t. v_transform v = Some t \<longrightarrow> res_ok (parse (t_path t)))"
  using verdict_from_wire_gate [OF assms] by (simp add: validate_iff)

theorem wire_gate_sound_witness:
  "validate (\<lambda>_. ''0'') Draft allow = Inr ()"
proof -
  have "json_depth (verdict_json allow) \<le> MAX_DEPTH"
    by (simp add: verdict_json_def verdict_object_def allow_def put_opt_def MAX_DEPTH_def)
  then have "verdict_from_wire (\<lambda>_. ''0'') Draft (verdict_json allow) = Inr allow"
    by (intro verdict_round_trip) (simp_all add: gate_ok_def allow_def)
  from wire_gate_sound [OF this] show ?thesis by simp
qed

text \<open>
  C33: Reading back what was written: a verdict that passes the gate, whose path parses and whose
  serialization is within the nesting limit, comes back from its wire form unchanged.
\<close>

theorem verdict_wire_round_trip:
  assumes "validate fx spec v = Inr ()" "\<forall>t. v_transform v = Some t \<longrightarrow> res_ok (parse (t_path t))"
    "json_depth (verdict_json v) \<le> MAX_DEPTH"
  shows "verdict_from_wire fx spec (verdict_json v) = Inr v"
  using assms by (intro verdict_round_trip) (simp_all add: validate_iff)

theorem verdict_wire_round_trip_witness:
  "verdict_from_wire (\<lambda>_. ''0'') Draft (verdict_json (escalate (Some ''r'') None)) = Inr (escalate (Some ''r'') None)"
proof -
  have "json_depth (verdict_json (escalate (Some ''r'') None)) \<le> MAX_DEPTH"
    by (simp add: verdict_json_def verdict_object_def verdict_makers put_opt_def MAX_DEPTH_def)
  moreover have "validate (\<lambda>_. ''0'') Draft (escalate (Some ''r'') None) = Inr ()"
    by (simp add: validate_def verdict_makers host_reserved_def starts_with_def)
  ultimately show ?thesis
    using verdict_wire_round_trip [of "\<lambda>_. ''0''" Draft "escalate (Some ''r'') None"]
    by (simp add: verdict_makers)
qed

text \<open>The gate's own documentation says any violation yields \<open>verdict_invalid\<close>; a transform
  path that does not parse is instead reported with the parser's error, here the forbidden-target one.
\<close>

theorem wire_gate_path_error:
  "verdict_from_wire fx spec (JObj [(''decision'', JStr ''transform''),
      (''transform'', JObj [(''path'', JStr ''$snapshot''), (''value'', JNull)])])
    = Inl TransformTargetForbidden"
proof -
  have "check_json_domain (JObj [(''decision'', JStr ''transform''),
      (''transform'', JObj [(''path'', JStr ''$snapshot''), (''value'', JNull)])]) = Inr ()"
    by (simp add: check_json_domain_iff MAX_DEPTH_def)
  then show ?thesis
    by (simp add: verdict_from_wire_def require_members_def verdict_members_def decision_from_wire_def
        get_str_def reason_from_wire_def opt_string_def warnings_from_wire_def approval_from_wire_def
        transform_from_wire_def parse_def strip_prefix_def starts_with_def Let_def)
qed

text \<open>The checking visitor accepts a document iff no object in it, at any depth, repeats a member
  (and no number is a non-finite double).
\<close>

theorem duplicates_rejected: "res_ok (visit r) \<longleftrightarrow> no_duplicates r"
  by (rule visit_iff(1))

text \<open>
  A response the envelope check lets through carries a verdict that passes the gate, only
  well-formed extension namespaces, no integer beyond \<open>2^53 - 1\<close> in them, and at most
  65536 canonical bytes; and such a response is read back unchanged from what \<open>to_wire_value\<close> writes.
\<close>

theorem response_wire:
  "(response_from_wire fx spec raw = Inr r \<longrightarrow> response_ok fx spec r)
   \<and> (response_ok fx spec r \<and> json_depth (to_wire_value r) \<le> MAX_DEPTH \<longrightarrow>
       response_from_wire fx spec (to_wire_value r) = Inr r)"
  using response_from_wire_ok response_round_trip by blast

theorem response_wire_witness:
  "response_from_wire (\<lambda>_. ''0'') Draft (to_wire_value \<lparr>i_verdict = allow, i_extensions = [(''x'', JNull)]\<rparr>)
    = Inr \<lparr>i_verdict = allow, i_extensions = [(''x'', JNull)]\<rparr>"
proof -
  let ?r = "\<lparr>i_verdict = allow, i_extensions = [(''x'', JNull)]\<rparr>"
  have "response_ok (\<lambda>_. ''0'') Draft ?r"
    by (simp add: response_ok_def gate_ok_def allow_def valid_namespace_def is_lower_def byte_def sorted_keys_def
        RESPONSE_METADATA_MAX_BYTES_def quote_str_def write_char_escape_def sort_members_def comma_rest_def member_text_def)
  moreover have "json_depth (to_wire_value ?r) \<le> MAX_DEPTH"
    by (simp add: to_wire_value_def to_envelope_value_def verdict_json_def verdict_object_def put_opt_def
        allow_def MAX_DEPTH_def)
  ultimately show ?thesis using response_wire [of "\<lambda>_. ''0''" Draft JNull ?r] by blast
qed

section \<open>The context builder\<close>

text \<open>
  Every context the builder makes passes the envelope check at its point, under the builder's
  version and with its sequence number, which the builder then advances by one, as long as the names are
  usable, the counter fits, and the session-wide members leave the core alone.
\<close>

theorem built_contexts_valid:
  assumes "builds b ip ctx b'" "builder_ok b"
  shows "validate_envelope ctx = Inr () \<and> spec_of_context ctx = Some (bl_spec b)
    \<and> point_from_str (point_str ip) = Some ip \<and> get_str ctx ''interception_point'' = Some (point_str ip)
    \<and> get_i64 ctx ''sequence'' = Some (uint (bl_seq b)) \<and> bl_seq b' = bl_seq b + 1"
proof -
  obtain t now where core: "core_ok b ip t now ctx" using builds_core [OF assms] by blast
  have "point_from_str (point_str ip) = Some ip"
    by (cases ip) (simp_all add: point_from_str_def POINTS_def)
  with core_valid [OF assms(2) core builds_conditional [OF assms(1)]] builds_seq [OF assms(1)] core assms(2)
  show ?thesis
    by (simp add: core_ok_def spec_of_context_def get_str_def get_i64_def builder_ok_def)
qed

theorem built_contexts_valid_witness:
  "validate_envelope (fst (output_ctx JNull ''t'' (new_builder Draft ''a'' ''rust'' ''s''))) = Inr ()"
proof -
  let ?b = "new_builder Draft ''a'' ''rust'' ''s''"
  obtain ctx b' where o: "output_ctx JNull ''t'' ?b = (ctx, b')" by (cases "output_ctx JNull ''t'' ?b")
  have "builder_ok ?b"
    by (simp add: builder_ok_def new_builder_def non_empty_str_def framework_ok_def framework_char_def
        get_str_def is_lower_def byte_def)
  from built_contexts_valid [OF builds.intros(7) [OF o] this] o show ?thesis by simp
qed

section \<open>The clock\<close>

text \<open>
  The builder's date arithmetic is the Gregorian calendar: day 0 of the epoch is 1 January 1970, and
  for every day before or after it the next day number is the calendar's next date, month lengths
  and the leap years of the 4, 100 and 400-year rules included.
\<close>

theorem calendar_correct:
  "civil_from_days 0 = (1970, 1, 1) \<and> civil_from_days (z + 1) = next_date (civil_from_days z)"
  using civil_from_days_epoch civil_from_days_Suc by blast

end
