(* ===== verification/Decl_Base.thy ===== *)
theory Decl_Base
  imports Enforce
begin

text \<open>
  The first part of \<open>declaration.rs\<close>: the bounds and closed vocabularies of a host
  declaration, its refusal classes, and the surface a host's code can honour with its
  validation. A refusal carries its class, the JSON pointers of its findings and the
  accepted versions; the wording of the details is left out. A \<open>BTreeSet\<close> is the
  sorted list of its elements.
\<close>

section \<open>Sets in order\<close>

definition bt_set :: "'a::linorder list \<Rightarrow> 'a list" where
  "bt_set xs = sort (remdups xs)"

lemma set_bt_set [simp]: "set (bt_set xs) = set xs"
  by (simp add: bt_set_def)

lemma bt_set_sorted: "sorted (bt_set xs)" "distinct (bt_set xs)"
  by (simp_all add: bt_set_def)

lemma bt_set_Nil_iff [simp]: "bt_set xs = [] \<longleftrightarrow> xs = []"
  by (metis set_bt_set set_empty)

text \<open>\<open>BTreeSet::difference\<close>, in order.\<close>

definition bt_diff :: "'a list \<Rightarrow> 'a list \<Rightarrow> 'a list" where
  "bt_diff xs ys = filter (\<lambda>x. x \<notin> set ys) xs"

lemma bt_diff_Nil_iff [simp]: "bt_diff xs ys = [] \<longleftrightarrow> set xs \<subseteq> set ys"
  by (auto simp: bt_diff_def filter_empty_conv)

fun profile_rank :: "composition_profile \<Rightarrow> nat" where
  "profile_rank SequentialFirstDeny = 0"
| "profile_rank SequentialRunAll = 1"
| "profile_rank ParallelStrictest = 2"
| "profile_rank ParallelUnanimous = 3"

lemma profile_rank_inject: "profile_rank p = profile_rank q \<longleftrightarrow> p = q"
  by (cases p; cases q) simp_all

instantiation composition_profile :: linorder
begin

definition less_eq_composition_profile :: "composition_profile \<Rightarrow> composition_profile \<Rightarrow> bool" where
  "less_eq_composition_profile p q \<longleftrightarrow> profile_rank p \<le> profile_rank q"

definition less_composition_profile :: "composition_profile \<Rightarrow> composition_profile \<Rightarrow> bool" where
  "less_composition_profile p q \<longleftrightarrow> profile_rank p < profile_rank q"

instance
  by standard (auto simp: less_eq_composition_profile_def less_composition_profile_def
      profile_rank_inject simp flip: profile_rank_inject)

end

section \<open>Bounds and vocabularies\<close>

definition MAX_DOCUMENT_BYTES :: nat where "MAX_DOCUMENT_BYTES = 1048576"
definition DOCUMENT_MAX_DEPTH :: nat where "DOCUMENT_MAX_DEPTH = 32"
definition MAX_BINDINGS :: nat where "MAX_BINDINGS = 256"
definition MAX_ID_LEN :: nat where "MAX_ID_LEN = 64"
definition MAX_KIND_LEN :: nat where "MAX_KIND_LEN = 128"
definition MAX_DETAIL_LEN :: nat where "MAX_DETAIL_LEN = 512"
definition MAX_TIMEOUT_MS :: nat where "MAX_TIMEOUT_MS = 3600000"
definition MAX_BUFFERED_RECORDS :: nat where "MAX_BUFFERED_RECORDS = 9007199254740991"

definition FLOOR_POINTS :: "interception_point list" where
  "FLOOR_POINTS = [AgentStartup, Input, Output, AgentShutdown]"

definition CAPABILITIES :: "string list" where
  "CAPABILITIES =
     [''model_calls'', ''tool_calls'', ''parallel_tool_calls'', ''streaming'', ''multi_turn'',
      ''int64_json'', ''bigint_json'', ''incremental_output'', ''host_declaration'']"

definition ALL_POINTS :: "interception_point list" where
  "ALL_POINTS = [AgentStartup, Input, PreModelCall, PostModelCall, PreToolCall, PostToolCall, Output,
     AgentShutdown]"

definition RESERVED_KIND_SEGMENTS :: "string list" where
  "RESERVED_KIND_SEGMENTS = [''agent_hooks'', ''ctk'']"

definition SUPPORTED_DECLARATION_VERSIONS :: "string list" where
  "SUPPORTED_DECLARATION_VERSIONS = [DECLARATION_1_0, DECLARATION_VERSION]"

section \<open>Refusals\<close>

datatype declaration_error_class =
    Unreadable | Malformed | VersionUnsupported | SpecUnsupported | UnknownField | InvalidField
  | Inconsistent | SurfaceUnsupported | ReferenceUnresolved | KindUnknown | BindingRejected

fun class_str :: "declaration_error_class \<Rightarrow> string" where
  "class_str Unreadable = ''unreadable''"
| "class_str Malformed = ''malformed''"
| "class_str VersionUnsupported = ''version_unsupported''"
| "class_str SpecUnsupported = ''spec_unsupported''"
| "class_str UnknownField = ''unknown_field''"
| "class_str InvalidField = ''invalid_field''"
| "class_str Inconsistent = ''inconsistent''"
| "class_str SurfaceUnsupported = ''surface_unsupported''"
| "class_str ReferenceUnresolved = ''reference_unresolved''"
| "class_str KindUnknown = ''kind_unknown''"
| "class_str BindingRejected = ''binding_rejected''"

fun class_code :: "declaration_error_class \<Rightarrow> string" where
  "class_code Unreadable = ''declaration_error:unreadable''"
| "class_code Malformed = ''declaration_error:malformed''"
| "class_code VersionUnsupported = ''declaration_error:version_unsupported''"
| "class_code SpecUnsupported = ''declaration_error:spec_unsupported''"
| "class_code UnknownField = ''declaration_error:unknown_field''"
| "class_code InvalidField = ''declaration_error:invalid_field''"
| "class_code Inconsistent = ''declaration_error:inconsistent''"
| "class_code SurfaceUnsupported = ''declaration_error:surface_unsupported''"
| "class_code ReferenceUnresolved = ''declaration_error:reference_unresolved''"
| "class_code KindUnknown = ''declaration_error:kind_unknown''"
| "class_code BindingRejected = ''declaration_error:binding_rejected''"

definition class_all :: "declaration_error_class list" where
  "class_all =
     [Unreadable, Malformed, VersionUnsupported, SpecUnsupported, UnknownField, InvalidField,
      Inconsistent, SurfaceUnsupported, ReferenceUnresolved, KindUnknown, BindingRejected]"

definition class_from_code :: "string \<Rightarrow> declaration_error_class option" where
  "class_from_code s = find (\<lambda>c. class_code c = s \<or> class_str c = s) class_all"

record declaration_error =
  de_class :: declaration_error_class
  de_findings :: "string list"
  de_accepted :: "string list"

definition decl_error :: "declaration_error_class \<Rightarrow> string \<Rightarrow> declaration_error" where
  "decl_error c p = \<lparr>de_class = c, de_findings = [p], de_accepted = []\<rparr>"

definition decl_errors :: "declaration_error_class \<Rightarrow> string list \<Rightarrow> declaration_error" where
  "decl_errors c ps = \<lparr>de_class = c, de_findings = ps, de_accepted = []\<rparr>"

definition version_accepted :: "string list \<Rightarrow> declaration_error" where
  "version_accepted accepted =
     \<lparr>de_class = VersionUnsupported, de_findings = [''/declaration''], de_accepted = accepted\<rparr>"

definition version_error :: declaration_error where
  "version_error = version_accepted SUPPORTED_DECLARATION_VERSIONS"

text \<open>The steps collect their findings and refuse when there is one.\<close>

definition refuse :: "declaration_error_class \<Rightarrow> string list \<Rightarrow> declaration_error + unit" where
  "refuse c f = (if f = [] then Inr () else Inl (decl_errors c f))"

definition flag :: "bool \<Rightarrow> string \<Rightarrow> string list" where
  "flag b p = (if b then [p] else [])"

lemma refuse_ok_iff [simp]: "refuse c f = Inr u \<longleftrightarrow> f = []"
  by (simp add: refuse_def)

lemma refuse_error_iff: "refuse c f = Inl e \<longleftrightarrow> f \<noteq> [] \<and> e = decl_errors c f"
  by (auto simp: refuse_def)

lemma flag_Nil_iff [simp]: "flag b p = [] \<longleftrightarrow> \<not> b"
  by (simp add: flag_def)

lemma class_decl_errors [simp]:
  "de_class (decl_errors c ps) = c" "de_class (decl_error c p) = c"
  "de_class (version_accepted vs) = VersionUnsupported"
  by (simp_all add: decl_errors_def decl_error_def version_accepted_def)

text \<open>RFC 6901: \<open>~\<close> and \<open>/\<close> in a key are escaped.\<close>

definition replace_char :: "char \<Rightarrow> string \<Rightarrow> string \<Rightarrow> string" where
  "replace_char c r s = concat (map (\<lambda>x. if x = c then r else [x]) s)"

definition ptr :: "string \<Rightarrow> string \<Rightarrow> string" where
  "ptr parent key =
     parent @ ''/'' @ replace_char (CHR ''/'') ''~1'' (replace_char (CHR ''~'') ''~0'' key)"

text \<open>\<open>s.chars().count()\<close> on UTF-8: the bytes that are no continuation.\<close>

definition char_count :: "string \<Rightarrow> nat" where
  "char_count s = length (filter (\<lambda>c. \<not> (128 \<le> byte c \<and> byte c < 192)) s)"

end
