(* ===== verification/Decl_Document.thy ===== *)
theory Decl_Document
  imports Decl_Base Response Emitter
begin

text \<open>
  \<open>declaration.rs\<close>, steps 1 to 5 of the loader: reading the file, the checked parse
  (duplicates, depth, size), the contract and specification versions, the closed member sets.
  The JSON parser of \<open>serde_json\<close> is the argument \<open>jparse\<close>: it gives the tree of
  the text, with repeated members kept, or \<open>None\<close> when the text is no JSON document or
  something follows it.
\<close>

section \<open>Step 1: the file\<close>

text \<open>
  What the file system answers: whether the path can be inspected, is a regular file and how long
  it says it is, and the bytes the bounded reader then gets.
\<close>

record file_view =
  fv_stat :: "(bool \<times> nat) option"
  fv_bytes :: "string option"

text \<open>\<open>str::from_utf8\<close>: continuation bytes after each leading byte, no overlong forms,
  no surrogates, nothing above U+10FFFF.\<close>

definition cont :: "char \<Rightarrow> bool" where
  "cont c \<longleftrightarrow> 128 \<le> byte c \<and> byte c < 192"

fun utf8_ok :: "string \<Rightarrow> bool" where
  "utf8_ok [] = True"
| "utf8_ok (a # s) =
     (if byte a < 128 then utf8_ok s
      else if 194 \<le> byte a \<and> byte a < 224 then
        (case s of b # s' \<Rightarrow> cont b \<and> utf8_ok s' | _ \<Rightarrow> False)
      else if 224 \<le> byte a \<and> byte a < 240 then
        (case s of
           b # c # s' \<Rightarrow>
             cont b \<and> cont c \<and> (byte a = 224 \<longrightarrow> 160 \<le> byte b) \<and> (byte a = 237 \<longrightarrow> byte b < 160) \<and> utf8_ok s'
         | _ \<Rightarrow> False)
      else if 240 \<le> byte a \<and> byte a < 245 then
        (case s of
           b # c # d # s' \<Rightarrow>
             cont b \<and> cont c \<and> cont d \<and> (byte a = 240 \<longrightarrow> 144 \<le> byte b) \<and> (byte a = 244 \<longrightarrow> byte b < 144)
             \<and> utf8_ok s'
         | _ \<Rightarrow> False)
      else False)"

definition read_document :: "file_view \<Rightarrow> declaration_error + string" where
  "read_document fv =
     (case fv_stat fv of
        None \<Rightarrow> Inl (decl_error Unreadable '''')
      | Some (is_file, len) \<Rightarrow>
          if \<not> is_file then Inl (decl_error Unreadable '''')
          else if len > MAX_DOCUMENT_BYTES then Inl (decl_error Unreadable '''')
          else case fv_bytes fv of
            None \<Rightarrow> Inl (decl_error Unreadable '''')
          | Some contents \<Rightarrow>
              let bytes = take (MAX_DOCUMENT_BYTES + 1) contents in
              if length bytes > MAX_DOCUMENT_BYTES then Inl (decl_error Unreadable '''')
              else if starts_with [CHR 0xEF, CHR 0xBB, CHR 0xBF] bytes then Inl (decl_error Unreadable '''')
              else if \<not> utf8_ok bytes then Inl (decl_error Unreadable '''')
              else Inr bytes)"

section \<open>Step 2: the checked parse\<close>

text \<open>The visitor; \<open>None\<close> is a parse error.\<close>

fun load :: "nat \<Rightarrow> raw \<Rightarrow> json option"
  and load_seq :: "nat \<Rightarrow> raw list \<Rightarrow> json list \<Rightarrow> json list option"
  and load_map :: "nat \<Rightarrow> (string \<times> raw) list \<Rightarrow> object \<Rightarrow> object option" where
  "load d RNull = Some JNull"
| "load d (RBool b) = Some (JBool b)"
| "load d (RNum n) =
     Some (case n of Float b \<Rightarrow> if finite_bits b then JNum n else JNull | _ \<Rightarrow> JNum n)"
| "load d (RStr s) = Some (JStr s)"
| "load d (RArr xs) =
     (if d + 1 > DOCUMENT_MAX_DEPTH then None else map_option JArr (load_seq (d + 1) xs []))"
| "load d (RObj m) =
     (if d + 1 > DOCUMENT_MAX_DEPTH then None else map_option JObj (load_map (d + 1) m []))"
| "load_seq d [] out = Some out"
| "load_seq d (x # xs) out = Option.bind (load d x) (\<lambda>v. load_seq d xs (out @ [v]))"
| "load_map d [] out = Some out"
| "load_map d ((k, x) # m) out =
     (if contains_key out k then None
      else Option.bind (load d x) (\<lambda>v. load_map d m (obj_insert k v out)))"

definition parse_document :: "(string \<Rightarrow> raw option) \<Rightarrow> string \<Rightarrow> declaration_error + json" where
  "parse_document jparse text =
     (if length text > MAX_DOCUMENT_BYTES then Inl (decl_error Malformed '''')
      else case Option.bind (jparse text) (load 0) of
        None \<Rightarrow> Inl (decl_error Malformed '''')
      | Some v \<Rightarrow> Inr v)"

section \<open>Steps 3 and 4: versions\<close>

definition document_spec :: "object \<Rightarrow> spec_version option" where
  "document_spec doc = Option.bind (get_str doc ''spec'') spec_from_wire"

definition accepted_declaration_versions :: "object \<Rightarrow> string list" where
  "accepted_declaration_versions doc =
     (case document_spec doc of None \<Rightarrow> SUPPORTED_DECLARATION_VERSIONS | Some s \<Rightarrow> declaration_versions s)"

definition check_version :: "object \<Rightarrow> declaration_error + unit" where
  "check_version doc =
     (let accepted = accepted_declaration_versions doc in
      case obj_get doc ''declaration'' of
        None \<Rightarrow> Inl (version_accepted accepted)
      | Some (JStr v) \<Rightarrow> if v \<in> set accepted then Inr () else Inl (version_accepted accepted)
      | Some _ \<Rightarrow> Inl (version_accepted accepted))"

definition check_spec :: "object \<Rightarrow> declaration_error + unit" where
  "check_spec doc =
     (case obj_get doc ''spec'' of
        None \<Rightarrow> Inl (decl_error SpecUnsupported ''/spec'')
      | Some v \<Rightarrow>
          (case as_str v of
             None \<Rightarrow> Inl (decl_error SpecUnsupported ''/spec'')
           | Some s \<Rightarrow>
               if spec_from_wire s = None then Inl (decl_error SpecUnsupported ''/spec'') else Inr ()))"

section \<open>Step 5: closed levels\<close>

definition ROOT_KEYS :: "string list" where
  "ROOT_KEYS = [''$schema'', ''declaration'', ''spec'', ''id'', ''host'', ''configuration'', ''surface'',
     ''bindings'', ''extensions'']"
definition HOST_KEYS :: "string list" where "HOST_KEYS = [''name'', ''version'']"
definition CONFIGURATION_KEYS :: "string list" where
  "CONFIGURATION_KEYS = [''mode'', ''composition'', ''identity_provider'', ''approval'', ''posture'',
     ''failure'', ''timeouts'', ''records'']"
definition COMPOSITION_KEYS :: "string list" where
  "COMPOSITION_KEYS = [''profile'', ''on_approval'', ''on_disagreement'', ''on_transform_conflict'']"
definition APPROVAL_KEYS :: "string list" where "APPROVAL_KEYS = [''resolver'', ''redactor'']"
definition POSTURE_KEYS :: "string list" where "POSTURE_KEYS = [''tool_seam_host_error'']"
definition FAILURE_KEYS :: "string list" where "FAILURE_KEYS = [''on_error'']"
definition TIMEOUT_KEYS :: "string list" where "TIMEOUT_KEYS = [''interceptor_ms'', ''approval_resolver_ms'']"
definition RECORD_KEYS :: "string list" where "RECORD_KEYS = [''max_buffered'']"
definition SURFACE_KEYS :: "string list" where
  "SURFACE_KEYS = [''interception_points'', ''capabilities'', ''profiles'', ''buffered_output'',
     ''exposure_bound'', ''declaration_versions'']"
definition BINDING_KEYS :: "string list" where
  "BINDING_KEYS = [''id'', ''kind'', ''config'', ''at'', ''timeout_ms'', ''on_error'']"

definition ON_ERROR_SINCE :: "nat \<times> nat" where "ON_ERROR_SINCE = (1, 1)"

definition split_once :: "char \<Rightarrow> string \<Rightarrow> (string \<times> string) option" where
  "split_once c s =
     (case dropWhile (\<lambda>x. x \<noteq> c) s of [] \<Rightarrow> None | _ # r \<Rightarrow> Some (takeWhile (\<lambda>x. x \<noteq> c) s, r))"

definition version_part_ok :: "string \<Rightarrow> bool" where
  "version_part_ok p \<longleftrightarrow> p \<noteq> [] \<and> list_all is_digit p \<and> length p \<le> 9"

definition parse_declaration_version :: "string \<Rightarrow> (nat \<times> nat) option" where
  "parse_declaration_version s =
     Option.bind (strip_prefix ''agent-hooks-declaration/'' s) (\<lambda>rest.
     Option.bind (split_once (CHR ''.'') rest) (\<lambda>(maj, mn).
       if version_part_ok maj \<and> version_part_ok mn then Some (undec maj, undec mn) else None))"

definition introduced_later :: "object \<Rightarrow> nat \<times> nat \<Rightarrow> bool" where
  "introduced_later doc since =
     (case Option.bind (get_str doc ''declaration'') parse_declaration_version of
        None \<Rightarrow> False
      | Some (maj, mn) \<Rightarrow> maj < fst since \<or> (maj = fst since \<and> mn < snd since))"

definition unknown_in :: "string list \<Rightarrow> string \<Rightarrow> object \<Rightarrow> string list" where
  "unknown_in allowed p m = map (ptr p) (filter (\<lambda>k. k \<notin> set allowed) (map fst m))"

text \<open>\<open>if let Some(o) = object_at(parent, key) { .. }\<close>\<close>

definition at_object :: "object \<Rightarrow> string \<Rightarrow> (object \<Rightarrow> string list) \<Rightarrow> string list" where
  "at_object m k f = (case get_object m k of None \<Rightarrow> [] | Some o' \<Rightarrow> f o')"

definition unknown_configuration :: "object \<Rightarrow> object \<Rightarrow> string list" where
  "unknown_configuration doc cfg =
     unknown_in CONFIGURATION_KEYS ''/configuration'' cfg
     @ at_object cfg ''composition'' (unknown_in COMPOSITION_KEYS ''/configuration/composition'')
     @ at_object cfg ''approval'' (unknown_in APPROVAL_KEYS ''/configuration/approval'')
     @ at_object cfg ''posture'' (unknown_in POSTURE_KEYS ''/configuration/posture'')
     @ at_object cfg ''failure'' (unknown_in FAILURE_KEYS ''/configuration/failure'')
     @ flag (contains_key cfg ''failure'' \<and> introduced_later doc ON_ERROR_SINCE) ''/configuration/failure''
     @ at_object cfg ''timeouts'' (unknown_in TIMEOUT_KEYS ''/configuration/timeouts'')
     @ at_object cfg ''records'' (unknown_in RECORD_KEYS ''/configuration/records'')"

definition unknown_profile :: "string \<times> json \<Rightarrow> string list" where
  "unknown_profile kv =
     (case profile_from_wire (fst kv) of
        None \<Rightarrow> [ptr ''/surface/profiles'' (fst kv)]
      | Some p \<Rightarrow>
          (case as_object (snd kv) of
             None \<Rightarrow> []
           | Some o' \<Rightarrow> unknown_in (consulted_knobs p) (ptr ''/surface/profiles'' (fst kv)) o'))"

definition unknown_surface :: "object \<Rightarrow> string list" where
  "unknown_surface s =
     unknown_in SURFACE_KEYS ''/surface'' s
     @ at_object s ''profiles'' (\<lambda>ps. concat (map unknown_profile ps))"

definition binding_ptr :: "nat \<Rightarrow> string" where
  "binding_ptr i = ''/bindings/'' @ dec i"

definition unknown_binding :: "object \<Rightarrow> nat \<times> json \<Rightarrow> string list" where
  "unknown_binding doc ib =
     (case as_object (snd ib) of
        None \<Rightarrow> []
      | Some b \<Rightarrow>
          unknown_in BINDING_KEYS (binding_ptr (fst ib)) b
          @ flag (contains_key b ''on_error'' \<and> introduced_later doc ON_ERROR_SINCE)
              (binding_ptr (fst ib) @ ''/on_error''))"

definition document_bindings :: "object \<Rightarrow> json list" where
  "document_bindings doc =
     (case Option.bind (obj_get doc ''bindings'') as_array of None \<Rightarrow> [] | Some bs \<Rightarrow> bs)"

definition unknown_fields :: "object \<Rightarrow> string list" where
  "unknown_fields doc =
     unknown_in ROOT_KEYS '''' doc
     @ at_object doc ''host'' (unknown_in HOST_KEYS ''/host'')
     @ at_object doc ''configuration'' (unknown_configuration doc)
     @ at_object doc ''surface'' unknown_surface
     @ concat (map (unknown_binding doc) (enumerate 0 (document_bindings doc)))"

definition check_unknown_fields :: "object \<Rightarrow> declaration_error + unit" where
  "check_unknown_fields doc = refuse UnknownField (unknown_fields doc)"

section \<open>What the first steps let through\<close>

text \<open>No object of a document repeats a member, and containers nest at most 32 deep.\<close>

fun distinct_members :: "raw \<Rightarrow> bool" where
  "distinct_members (RArr xs) = list_all distinct_members xs"
| "distinct_members (RObj m) = (distinct (map fst m) \<and> list_all (\<lambda>(k, x). distinct_members x) m)"
| "distinct_members _ = True"

fun nested_within :: "nat \<Rightarrow> raw \<Rightarrow> bool" where
  "nested_within n (RArr xs) = (case n of 0 \<Rightarrow> False | Suc n' \<Rightarrow> list_all (nested_within n') xs)"
| "nested_within n (RObj m) = (case n of 0 \<Rightarrow> False | Suc n' \<Rightarrow> list_all (\<lambda>(k, x). nested_within n' x) m)"
| "nested_within n _ = True"

lemma nested_within_children:
  "nested_within (n - d) (RArr xs) \<longleftrightarrow> d < n \<and> list_all (nested_within (n - (d + 1))) xs"
  "nested_within (n - d) (RObj m) \<longleftrightarrow> d < n \<and> list_all (\<lambda>(k, x). nested_within (n - (d + 1)) x) m"
proof -
  have "n - d = 0 \<and> \<not> d < n \<or> d < n \<and> n - d = Suc (n - (d + 1))" by arith
  then show "nested_within (n - d) (RArr xs) \<longleftrightarrow> d < n \<and> list_all (nested_within (n - (d + 1))) xs"
    "nested_within (n - d) (RObj m) \<longleftrightarrow> d < n \<and> list_all (\<lambda>(k, x). nested_within (n - (d + 1)) x) m"
    by auto
qed

lemma load_iff:
  "load d r \<noteq> None \<longleftrightarrow> distinct_members r \<and> nested_within (DOCUMENT_MAX_DEPTH - d) r"
  "load_seq d xs a \<noteq> None \<longleftrightarrow>
     list_all distinct_members xs \<and> list_all (nested_within (DOCUMENT_MAX_DEPTH - d)) xs"
  "load_map d m out \<noteq> None \<longleftrightarrow>
     distinct (map fst m) \<and> list_all (\<lambda>(k, x). distinct_members x) m \<and> (\<forall>k\<in>fst ` set m. \<not> contains_key out k)
     \<and> list_all (\<lambda>(k, x). nested_within (DOCUMENT_MAX_DEPTH - d) x) m"
proof (induction d r and d xs a and d m out rule: load_load_seq_load_map.induct)
  case (5 d xs)
  then show ?case
    using nested_within_children(1) [of DOCUMENT_MAX_DEPTH d xs] by (auto simp del: nested_within.simps)
next
  case (6 d m)
  then show ?case
    using nested_within_children(2) [of DOCUMENT_MAX_DEPTH d m]
    by (auto simp: contains_key_def simp del: nested_within.simps)
next
  case (8 d x xs out)
  then show ?case by (cases "load d x") auto
next
  case (10 d k x m out)
  then show ?case by (cases "load d x") auto
qed auto

lemma check_version_iff:
  "check_version doc = Inr () \<longleftrightarrow>
     (\<exists>v. get_str doc ''declaration'' = Some v \<and> v \<in> set (accepted_declaration_versions doc))"
  by (auto simp: check_version_def Let_def get_str_def split: option.split json.split)

lemma check_spec_iff: "check_spec doc = Inr () \<longleftrightarrow> document_spec doc \<noteq> None"
  by (auto simp: check_spec_def document_spec_def get_str_def split: option.split)

lemma unknown_in_Nil_iff [simp]: "unknown_in allowed p m = [] \<longleftrightarrow> fst ` set m \<subseteq> set allowed"
  by (auto simp: unknown_in_def filter_empty_conv)

lemma at_object_Nil_iff [simp]: "at_object m k f = [] \<longleftrightarrow> (\<forall>o'. get_object m k = Some o' \<longrightarrow> f o' = [])"
  by (simp add: at_object_def split: option.split)

end
