(* ===== verification/Decl_Fields.thy ===== *)
theory Decl_Fields
  imports Decl_Document
begin

text \<open>
  \<open>declaration.rs\<close>, step 6 of the loader: types, enumerations, patterns, ranges, and the scan
  of the raw text for integers beyond \<open>2^53 - 1\<close>. Each check lists the pointers of what it
  finds, in the order the code pushes them.
\<close>

section \<open>The integer scan\<close>

text \<open>A frame of the scanner; the innermost frame is the head of the stack.\<close>

datatype frame = InObject "string option" bool | InArray nat

text \<open>The raw body of a string literal, up to the quote that \<open>skip_string\<close> skips.\<close>

fun string_body :: "string \<Rightarrow> string" where
  "string_body [] = []"
| "string_body (c # r) =
     (if c = CHR 0x5C then (case r of [] \<Rightarrow> [c] | d # r' \<Rightarrow> c # d # string_body r')
      else if c = CHR 0x22 then []
      else c # string_body r)"

definition decode_key :: "(string \<Rightarrow> raw option) \<Rightarrow> string \<Rightarrow> string" where
  "decode_key jparse k =
     (case jparse (CHR 0x22 # k @ [CHR 0x22]) of Some (RStr s) \<Rightarrow> s | _ \<Rightarrow> k)"

fun frame_ptr :: "(string \<Rightarrow> raw option) \<Rightarrow> frame \<Rightarrow> string \<Rightarrow> string" where
  "frame_ptr jparse (InObject key _) p =
     ptr p (decode_key jparse (case key of None \<Rightarrow> [] | Some k \<Rightarrow> k))"
| "frame_ptr jparse (InArray i) p = p @ ''/'' @ dec i"

definition pointer_of :: "(string \<Rightarrow> raw option) \<Rightarrow> frame list \<Rightarrow> string" where
  "pointer_of jparse stack = foldr (frame_ptr jparse) stack []"

fun after_comma :: "frame list \<Rightarrow> frame list" where
  "after_comma (InObject _ _ # st) = InObject None True # st"
| "after_comma (InArray i # st) = InArray (i + 1) # st"
| "after_comma [] = []"

fun take_key :: "string \<Rightarrow> frame list \<Rightarrow> frame list" where
  "take_key s (InObject k True # st) = InObject (Some s) False # st"
| "take_key s st = st"

function scan_integer_tokens :: "(string \<Rightarrow> raw option) \<Rightarrow> frame list \<Rightarrow> string \<Rightarrow> string list" where
  "scan_integer_tokens jparse stack [] = []"
| "scan_integer_tokens jparse stack (c # r) =
     (if c = CHR ''{'' then scan_integer_tokens jparse (InObject None True # stack) r
      else if c = CHR ''['' then scan_integer_tokens jparse (InArray 0 # stack) r
      else if c = CHR ''}'' \<or> c = CHR '']'' then scan_integer_tokens jparse (tl stack) r
      else if c = CHR '','' then scan_integer_tokens jparse (after_comma stack) r
      else if c = CHR 0x22 then
        scan_integer_tokens jparse (take_key (string_body r) stack) (skip_string r)
      else if c = CHR ''-'' \<or> is_digit c then
        (let token = takeWhile number_char (c # r);
             rest = scan_integer_tokens jparse stack (dropWhile number_char (c # r))
         in if integer_syntax token \<and> token_over token then pointer_of jparse stack # rest else rest)
      else scan_integer_tokens jparse stack r)"
  by pat_completeness auto
termination
proof (relation "measure (\<lambda>(_, _, s). length s)")
  fix c :: char and r :: string
  assume "c = CHR ''-'' \<or> is_digit c"
  then have "number_char c" using number_char_start by blast
  then show "((jparse, stack, dropWhile number_char (c # r)), jparse, stack, c # r) \<in> measure (\<lambda>(_, _, s). length s)"
    for jparse :: "string \<Rightarrow> raw option" and stack :: "frame list"
    using length_dropWhile_le [of number_char r] by simp
qed (simp_all add: skip_string_length less_Suc_eq_le)

declare scan_integer_tokens.simps(2) [simp del]

section \<open>Typed members\<close>

fun as_u64 :: "json \<Rightarrow> nat option" where
  "as_u64 (JNum n) = number_as_u64 n"
| "as_u64 _ = None"

fun as_bool :: "json \<Rightarrow> bool option" where
  "as_bool (JBool b) = Some b"
| "as_bool _ = None"

definition with_string :: "json option \<Rightarrow> string \<Rightarrow> (string \<Rightarrow> string list) \<Rightarrow> string list" where
  "with_string v p f = (case v of None \<Rightarrow> [] | Some (JStr s) \<Rightarrow> f s | Some _ \<Rightarrow> [p])"

definition with_object :: "json option \<Rightarrow> string \<Rightarrow> (object \<Rightarrow> string list) \<Rightarrow> string list" where
  "with_object v p f = (case v of None \<Rightarrow> [] | Some (JObj m) \<Rightarrow> f m | Some _ \<Rightarrow> [p])"

definition with_array :: "json option \<Rightarrow> string \<Rightarrow> (json list \<Rightarrow> string list) \<Rightarrow> string list" where
  "with_array v p f = (case v of None \<Rightarrow> [] | Some (JArr a) \<Rightarrow> f a | Some _ \<Rightarrow> [p])"

definition enum_str :: "json option \<Rightarrow> string \<Rightarrow> string list \<Rightarrow> string list" where
  "enum_str v p allowed = with_string v p (\<lambda>s. flag (s \<notin> set allowed) p)"

definition int_or_null :: "json option \<Rightarrow> string \<Rightarrow> nat \<Rightarrow> nat \<Rightarrow> string list" where
  "int_or_null v p lo hi =
     (case v of
        None \<Rightarrow> []
      | Some JNull \<Rightarrow> []
      | Some n \<Rightarrow> (case as_u64 n of Some x \<Rightarrow> flag (\<not> (lo \<le> x \<and> x \<le> hi)) p | None \<Rightarrow> [p]))"

fun set_items :: "string \<Rightarrow> string list \<Rightarrow> nat \<Rightarrow> string list \<Rightarrow> json list \<Rightarrow> string list \<times> string list" where
  "set_items p allowed i seen [] = ([], seen)"
| "set_items p allowed i seen (v # vs) =
     (case as_str v of
        None \<Rightarrow> (let (f, out) = set_items p allowed (i + 1) seen vs in ((p @ ''/'' @ dec i) # f, out))
      | Some s \<Rightarrow>
          if allowed \<noteq> [] \<and> s \<notin> set allowed
          then (let (f, out) = set_items p allowed (i + 1) seen vs in ((p @ ''/'' @ dec i) # f, out))
          else if s \<in> set seen
          then (let (f, out) = set_items p allowed (i + 1) seen vs in ((p @ ''/'' @ dec i) # f, out))
          else set_items p allowed (i + 1) (insort_insert s seen) vs)"

definition string_set :: "json option \<Rightarrow> string \<Rightarrow> string list \<Rightarrow> nat \<Rightarrow> string list \<times> string list option" where
  "string_set v p allowed least =
     (case v of
        None \<Rightarrow> ([], None)
      | Some (JArr a) \<Rightarrow>
          (let (f, seen) = set_items p allowed 0 [] a;
               f' = f @ flag (length a < least) p
           in (f', if f' = [] then Some seen else None))
      | Some _ \<Rightarrow> ([p], None))"

section \<open>Patterns\<close>

definition lower_digit :: "char \<Rightarrow> bool" where
  "lower_digit c \<longleftrightarrow> is_lower c \<or> is_digit c"

definition valid_document_id :: "string \<Rightarrow> bool" where
  "valid_document_id s \<longleftrightarrow>
     length s \<le> MAX_ID_LEN \<and> s \<noteq> [] \<and> lower_digit (hd s)
     \<and> list_all (\<lambda>c. lower_digit c \<or> c = CHR ''.'' \<or> c = CHR ''_'' \<or> c = CHR ''-'') (tl s)"

definition valid_host_name :: "string \<Rightarrow> bool" where
  "valid_host_name s \<longleftrightarrow>
     s \<noteq> [] \<and> length s \<le> 64 \<and> list_all (\<lambda>c. lower_digit c \<or> c = CHR ''_'' \<or> c = CHR ''-'') s"

definition valid_reference_segment :: "string \<Rightarrow> bool" where
  "valid_reference_segment s \<longleftrightarrow>
     s \<noteq> [] \<and> is_lower (hd s) \<and> list_all (\<lambda>c. lower_digit c \<or> c = CHR ''_'' \<or> c = CHR ''-'') (tl s)"

definition valid_reference :: "string \<Rightarrow> bool" where
  "valid_reference s \<longleftrightarrow> length s \<le> MAX_ID_LEN \<and> valid_reference_segment s"

text \<open>\<open>str::split\<close>: one more piece than separators.\<close>

fun split_on :: "char \<Rightarrow> string \<Rightarrow> string list" where
  "split_on c [] = [[]]"
| "split_on c (x # s) =
     (if x = c then [] # split_on c s
      else (case split_on c s of [] \<Rightarrow> [[x]] | p # ps \<Rightarrow> (x # p) # ps))"

definition valid_kind :: "string \<Rightarrow> bool" where
  "valid_kind s \<longleftrightarrow>
     length s \<le> MAX_KIND_LEN
     \<and> (let segs = split_on (CHR ''.'') s in length segs \<ge> 2 \<and> list_all valid_reference_segment segs)"

definition kind_first_segment :: "string \<Rightarrow> string" where
  "kind_first_segment kind = (case split_on (CHR ''.'') kind of [] \<Rightarrow> [] | p # _ \<Rightarrow> p)"

definition valid_extension :: "string \<Rightarrow> bool" where
  "valid_extension s \<longleftrightarrow>
     s \<noteq> [] \<and> is_lower (hd s) \<and> list_all (\<lambda>c. lower_digit c \<or> c = CHR ''_'') (tl s)"

section \<open>Step 6\<close>

definition ON_ERROR_VALUES :: "string list" where
  "ON_ERROR_VALUES = [''deny'', ''continue'']"

definition host_fields :: "object \<Rightarrow> string list" where
  "host_fields host =
     (case obj_get host ''name'' of
        None \<Rightarrow> [''/host/name'']
      | Some (JStr n) \<Rightarrow> flag (\<not> valid_host_name n) ''/host/name''
      | Some _ \<Rightarrow> [''/host/name''])
     @ with_string (obj_get host ''version'') ''/host/version''
         (\<lambda>v. flag (v = [] \<or> char_count v > 64) ''/host/version'')"

definition composition_fields :: "object \<Rightarrow> string list" where
  "composition_fields c =
     enum_str (obj_get c ''profile'') ''/configuration/composition/profile'' (map profile_str profile_all)
     @ concat (map (\<lambda>knob. enum_str (obj_get c knob) (ptr ''/configuration/composition'' knob) (knob_values knob))
         [''on_approval'', ''on_disagreement'', ''on_transform_conflict''])"

definition provider_fields :: "json option \<Rightarrow> string list" where
  "provider_fields v =
     (case v of
        None \<Rightarrow> []
      | Some JNull \<Rightarrow> []
      | Some (JStr s) \<Rightarrow>
          flag (s \<noteq> JCS_SHA256 \<and> (length s > MAX_ID_LEN \<or> \<not> res_ok (validate_provider_name s)))
            ''/configuration/identity_provider''
      | Some _ \<Rightarrow> [''/configuration/identity_provider''])"

definition reference_fields :: "object \<Rightarrow> string \<Rightarrow> string list" where
  "reference_fields a key =
     (case obj_get a key of
        None \<Rightarrow> []
      | Some JNull \<Rightarrow> []
      | Some (JStr s) \<Rightarrow> flag (\<not> valid_reference s) (ptr ''/configuration/approval'' key)
      | Some _ \<Rightarrow> [ptr ''/configuration/approval'' key])"

definition configuration_fields :: "object \<Rightarrow> string list" where
  "configuration_fields cfg =
     enum_str (obj_get cfg ''mode'') ''/configuration/mode'' [''enforce'', ''evaluate_only'']
     @ with_object (obj_get cfg ''composition'') ''/configuration/composition'' composition_fields
     @ provider_fields (obj_get cfg ''identity_provider'')
     @ with_object (obj_get cfg ''approval'') ''/configuration/approval''
         (\<lambda>a. concat (map (reference_fields a) APPROVAL_KEYS))
     @ with_object (obj_get cfg ''posture'') ''/configuration/posture''
         (\<lambda>p. enum_str (obj_get p ''tool_seam_host_error'') ''/configuration/posture/tool_seam_host_error''
            [''continue'', ''terminate''])
     @ with_object (obj_get cfg ''failure'') ''/configuration/failure''
         (\<lambda>fl. enum_str (obj_get fl ''on_error'') ''/configuration/failure/on_error'' ON_ERROR_VALUES)
     @ with_object (obj_get cfg ''timeouts'') ''/configuration/timeouts''
         (\<lambda>t. concat (map (\<lambda>key. int_or_null (obj_get t key) (ptr ''/configuration/timeouts'' key) 1
            MAX_TIMEOUT_MS) TIMEOUT_KEYS))
     @ with_object (obj_get cfg ''records'') ''/configuration/records''
         (\<lambda>r. int_or_null (obj_get r ''max_buffered'') ''/configuration/records/max_buffered'' 1
            MAX_BUFFERED_RECORDS)"

definition profile_fields :: "string \<times> json \<Rightarrow> string list" where
  "profile_fields kv =
     (let p = ptr ''/surface/profiles'' (fst kv) in
      with_object (Some (snd kv)) p (\<lambda>o'.
        case profile_from_wire (fst kv) of
          None \<Rightarrow> []
        | Some pr \<Rightarrow>
            concat (map (\<lambda>knob. if contains_key o' knob
                then fst (string_set (obj_get o' knob) (ptr p knob) (knob_values knob) 1) else [])
              (consulted_knobs pr))))"

fun version_items :: "nat \<Rightarrow> string list \<Rightarrow> json list \<Rightarrow> string list" where
  "version_items i seen [] = []"
| "version_items i seen (v # vs) =
     (let p = ''/surface/declaration_versions/'' @ dec i in
      case as_str v of
        None \<Rightarrow> p # version_items (i + 1) seen vs
      | Some s \<Rightarrow>
          if parse_declaration_version s = None then p # version_items (i + 1) seen vs
          else if s \<in> set seen then p # version_items (i + 1) seen vs
          else version_items (i + 1) (insort_insert s seen) vs)"

definition buffered_fields :: "object \<Rightarrow> string list" where
  "buffered_fields s =
     (let (f, buffered) =
        (case obj_get s ''buffered_output'' of
           None \<Rightarrow> ([], True)
         | Some (JBool b) \<Rightarrow> ([], b)
         | Some _ \<Rightarrow> ([''/surface/buffered_output''], True));
          has_bound = contains_key s ''exposure_bound''
      in f
         @ with_string (obj_get s ''exposure_bound'') ''/surface/exposure_bound''
             (\<lambda>b. flag (b = [] \<or> char_count b > MAX_DETAIL_LEN) ''/surface/exposure_bound'')
         @ flag (has_bound \<and> buffered) ''/surface/exposure_bound''
         @ flag (\<not> has_bound \<and> \<not> buffered) ''/surface/exposure_bound'')"

definition surface_fields :: "object \<Rightarrow> string list" where
  "surface_fields s =
     (let (f, points) = string_set (obj_get s ''interception_points'') ''/surface/interception_points''
        (map point_str ALL_POINTS) 4
      in f @ flag (case points of None \<Rightarrow> False | Some ps \<Rightarrow> length ps > 8) ''/surface/interception_points'')
     @ fst (string_set (obj_get s ''capabilities'') ''/surface/capabilities'' CAPABILITIES 0)
     @ with_object (obj_get s ''profiles'') ''/surface/profiles'' (\<lambda>ps. concat (map profile_fields ps))
     @ buffered_fields s
     @ with_array (obj_get s ''declaration_versions'') ''/surface/declaration_versions''
         (\<lambda>a. version_items 0 [] a @ flag (a = []) ''/surface/declaration_versions'')"

text \<open>A required member of a binding: a string that passes its grammar.\<close>

definition required_string :: "object \<Rightarrow> string \<Rightarrow> string \<Rightarrow> (string \<Rightarrow> bool) \<Rightarrow> string list" where
  "required_string b key bp ok =
     (case obj_get b key of
        None \<Rightarrow> [ptr bp key]
      | Some (JStr s) \<Rightarrow> flag (\<not> ok s) (ptr bp key)
      | Some _ \<Rightarrow> [ptr bp key])"

definition binding_fields :: "nat \<times> json \<Rightarrow> string list" where
  "binding_fields ib =
     (let bp = binding_ptr (fst ib) in
      with_object (Some (snd ib)) bp (\<lambda>b.
        required_string b ''id'' bp valid_reference
        @ required_string b ''kind'' bp valid_kind
        @ fst (string_set (obj_get b ''at'') (ptr bp ''at'') (map point_str ALL_POINTS) 1)
        @ int_or_null (obj_get b ''timeout_ms'') (ptr bp ''timeout_ms'') 1 MAX_TIMEOUT_MS
        @ enum_str (obj_get b ''on_error'') (ptr bp ''on_error'') ON_ERROR_VALUES))"

definition bindings_fields :: "object \<Rightarrow> string list" where
  "bindings_fields doc =
     (case obj_get doc ''bindings'' of
        None \<Rightarrow> [''/bindings'']
      | Some (JArr bs) \<Rightarrow>
          flag (length bs > MAX_BINDINGS) ''/bindings'' @ concat (map binding_fields (enumerate 0 bs))
      | Some _ \<Rightarrow> [''/bindings''])"

definition field_findings :: "object \<Rightarrow> string list" where
  "field_findings doc =
     with_string (obj_get doc ''$schema'') ''/$schema'' (\<lambda>_. [])
     @ with_string (obj_get doc ''id'') ''/id'' (\<lambda>s. flag (\<not> valid_document_id s) ''/id'')
     @ with_object (obj_get doc ''host'') ''/host'' host_fields
     @ with_object (obj_get doc ''configuration'') ''/configuration'' configuration_fields
     @ with_object (obj_get doc ''surface'') ''/surface'' surface_fields
     @ bindings_fields doc
     @ with_object (obj_get doc ''extensions'') ''/extensions''
         (\<lambda>ext. concat (map (\<lambda>k. flag (\<not> valid_extension k) (ptr ''/extensions'' k)) (map fst ext)))"

definition check_fields :: "(string \<Rightarrow> raw option) \<Rightarrow> object \<Rightarrow> string \<Rightarrow> declaration_error + unit" where
  "check_fields jparse doc text =
     refuse InvalidField (foldl add_new (field_findings doc) (scan_integer_tokens jparse [] text))"

end
