(* ===== verification/Host_Surface.thy ===== *)
theory Host_Surface
  imports Decl_Base
begin

text \<open>
  What a host's code can honour: \<open>KnobSupport\<close>, \<open>HostSurface\<close> with its
  constructors and \<open>validate\<close>, and what a valid surface promises. Whether the build
  bounds execution, a compile-time feature, is an argument.
\<close>

section \<open>Knob values\<close>

datatype tool_seam_posture = SeamContinue | SeamTerminate

fun tool_seam_str :: "tool_seam_posture \<Rightarrow> string" where
  "tool_seam_str SeamContinue = ''continue''"
| "tool_seam_str SeamTerminate = ''terminate''"

datatype timeout_support = TimeoutBounded | TimeoutUnbounded

record knob_support =
  ks_on_approval :: "string list"
  ks_on_disagreement :: "string list"
  ks_on_transform_conflict :: "string list"

definition no_knobs :: knob_support where
  "no_knobs = \<lparr>ks_on_approval = [], ks_on_disagreement = [], ks_on_transform_conflict = []\<rparr>"

definition knob_get :: "knob_support \<Rightarrow> string \<Rightarrow> string list" where
  "knob_get k knob =
     (if knob = ''on_approval'' then ks_on_approval k
      else if knob = ''on_disagreement'' then ks_on_disagreement k
      else ks_on_transform_conflict k)"

definition knob_put :: "string \<Rightarrow> string list \<Rightarrow> knob_support \<Rightarrow> knob_support" where
  "knob_put knob vs k =
     (if knob = ''on_approval'' then k\<lparr>ks_on_approval := vs\<rparr>
      else if knob = ''on_disagreement'' then k\<lparr>ks_on_disagreement := vs\<rparr>
      else k\<lparr>ks_on_transform_conflict := vs\<rparr>)"

definition knobs_full :: "composition_profile \<Rightarrow> knob_support" where
  "knobs_full p = fold (\<lambda>knob. knob_put knob (bt_set (knob_values knob))) (consulted_knobs p) no_knobs"

definition knobs_defaults_only :: "composition_profile \<Rightarrow> knob_support" where
  "knobs_defaults_only p =
     fold (\<lambda>knob k. case knob_default knob of
         None \<Rightarrow> k | Some d \<Rightarrow> knob_put knob (insort_insert d (knob_get k knob)) k)
       (consulted_knobs p) no_knobs"

definition knobs_subset :: "knob_support \<Rightarrow> knob_support \<Rightarrow> bool" where
  "knobs_subset k l \<longleftrightarrow>
     set (ks_on_approval k) \<subseteq> set (ks_on_approval l)
     \<and> set (ks_on_disagreement k) \<subseteq> set (ks_on_disagreement l)
     \<and> set (ks_on_transform_conflict k) \<subseteq> set (ks_on_transform_conflict l)"

lemma knobs_subset_refl [simp]: "knobs_subset k k"
  by (simp add: knobs_subset_def)

lemma knobs_subset_get: "knobs_subset k l \<Longrightarrow> set (knob_get k knob) \<subseteq> set (knob_get l knob)"
  by (auto simp: knobs_subset_def knob_get_def)

lemma knobs_full_get:
  "knob \<in> set (consulted_knobs p) \<Longrightarrow> set (knob_get (knobs_full p) knob) = set (knob_values knob)"
  by (cases p) (auto simp: knobs_full_def knob_get_def knob_put_def)

section \<open>Surfaces\<close>

record host_surface =
  hs_points :: "interception_point list"
  hs_capabilities :: "string list"
  hs_profiles :: "(composition_profile \<times> knob_support) list"
  hs_tool_seam :: tool_seam_posture
  hs_streams_unbuffered :: bool
  hs_exposure_bound :: "string option"
  hs_timeout :: timeout_support
  hs_versions :: "string list"

definition build_timeout_support :: "bool \<Rightarrow> timeout_support" where
  "build_timeout_support tokio = (if tokio then TimeoutBounded else TimeoutUnbounded)"

definition sdk_default :: "bool \<Rightarrow> host_surface" where
  "sdk_default tokio =
     \<lparr>hs_points = bt_set FLOOR_POINTS,
      hs_capabilities = [''host_declaration''],
      hs_profiles = fold (\<lambda>p. bt_insert p (knobs_full p)) profile_all [],
      hs_tool_seam = SeamContinue,
      hs_streams_unbuffered = False,
      hs_exposure_bound = None,
      hs_timeout = build_timeout_support tokio,
      hs_versions = bt_set SUPPORTED_DECLARATION_VERSIONS\<rparr>"

definition with_points :: "interception_point list \<Rightarrow> host_surface \<Rightarrow> host_surface" where
  "with_points ps s = s\<lparr>hs_points := fold insort_insert ps (hs_points s)\<rparr>"

definition with_capabilities :: "string list \<Rightarrow> host_surface \<Rightarrow> host_surface" where
  "with_capabilities cs s = s\<lparr>hs_capabilities := fold insort_insert cs (hs_capabilities s)\<rparr>"

definition with_exposure_bound :: "string \<Rightarrow> host_surface \<Rightarrow> host_surface" where
  "with_exposure_bound b s = s\<lparr>hs_exposure_bound := Some b, hs_streams_unbuffered := True\<rparr>"

definition add_capability :: "string \<Rightarrow> host_surface \<Rightarrow> host_surface" where
  "add_capability c s =
     (let s' =
        (if c = ''model_calls'' then with_points [PreModelCall, PostModelCall] s
         else if c = ''tool_calls'' then with_points [PreToolCall, PostToolCall] s
         else if c = ''incremental_output'' then s\<lparr>hs_streams_unbuffered := True\<rparr>
         else s)
      in s'\<lparr>hs_capabilities := insort_insert c (hs_capabilities s')\<rparr>)"

definition from_capabilities :: "bool \<Rightarrow> string list \<Rightarrow> tool_seam_posture \<Rightarrow> host_surface" where
  "from_capabilities tokio caps posture =
     fold add_capability caps ((sdk_default tokio)\<lparr>hs_tool_seam := posture, hs_capabilities := []\<rparr>)"

section \<open>Validation\<close>

definition model_points :: "interception_point list \<Rightarrow> bool" where
  "model_points ps \<longleftrightarrow> PreModelCall \<in> set ps \<and> PostModelCall \<in> set ps"

definition tool_points :: "interception_point list \<Rightarrow> bool" where
  "tool_points ps \<longleftrightarrow> PreToolCall \<in> set ps \<and> PostToolCall \<in> set ps"

definition pair_findings :: "string \<Rightarrow> interception_point list \<Rightarrow> string list" where
  "pair_findings p ps =
     flag ((PreModelCall \<in> set ps) \<noteq> (PostModelCall \<in> set ps)) p
     @ flag ((PreToolCall \<in> set ps) \<noteq> (PostToolCall \<in> set ps)) p"

definition floor_findings :: "string \<Rightarrow> interception_point list \<Rightarrow> string list" where
  "floor_findings p ps = concat (map (\<lambda>fp. flag (fp \<notin> set ps) p) FLOOR_POINTS)"

definition bound_findings :: "host_surface \<Rightarrow> string list" where
  "bound_findings s =
     (case hs_exposure_bound s of
        None \<Rightarrow> [''/surface/exposure_bound'']
      | Some b \<Rightarrow> flag (b = [] \<or> char_count b > MAX_DETAIL_LEN) ''/surface/exposure_bound'')"

definition incremental_findings :: "host_surface \<Rightarrow> string list" where
  "incremental_findings s =
     (if ''incremental_output'' \<in> set (hs_capabilities s) then
        flag (\<not> hs_streams_unbuffered s) ''/surface/capabilities''
        @ flag (\<not> model_points (hs_points s)) ''/surface/capabilities''
        @ bound_findings s
      else [])"

definition profile_findings :: "composition_profile \<times> knob_support \<Rightarrow> string list" where
  "profile_findings pk =
     concat (map (\<lambda>knob. flag (knob_get (snd pk) knob = []) (ptr ''/surface/profiles'' (profile_str (fst pk))))
       (consulted_knobs (fst pk)))
     @ flag (\<not> knobs_subset (snd pk) (knobs_full (fst pk))) (ptr ''/surface/profiles'' (profile_str (fst pk)))"

definition surface_findings :: "host_surface \<Rightarrow> string list" where
  "surface_findings s =
     floor_findings ''/surface/interception_points'' (hs_points s)
     @ pair_findings ''/surface/interception_points'' (hs_points s)
     @ flag ((''model_calls'' \<in> set (hs_capabilities s)) \<noteq> model_points (hs_points s)) ''/surface/capabilities''
     @ flag ((''tool_calls'' \<in> set (hs_capabilities s)) \<noteq> tool_points (hs_points s)) ''/surface/capabilities''
     @ concat (map (\<lambda>c. flag (c \<notin> set CAPABILITIES) ''/surface/capabilities'') (hs_capabilities s))
     @ incremental_findings s
     @ concat (map (\<lambda>v. flag (v \<notin> set SUPPORTED_DECLARATION_VERSIONS) ''/surface/declaration_versions'')
         (hs_versions s))
     @ concat (map profile_findings (hs_profiles s))"

definition surface_validate :: "host_surface \<Rightarrow> declaration_error + unit" where
  "surface_validate s = refuse SurfaceUnsupported (surface_findings s)"

definition new_surface ::
  "bool \<Rightarrow> interception_point list \<Rightarrow> string list \<Rightarrow> (composition_profile \<times> knob_support) list
     \<Rightarrow> tool_seam_posture \<Rightarrow> bool \<Rightarrow> string option \<Rightarrow> string list \<Rightarrow> declaration_error + host_surface" where
  "new_surface tokio points caps profiles posture unbuffered bound versions =
     (let s = \<lparr>hs_points = bt_set points, hs_capabilities = bt_set caps, hs_profiles = profiles,
               hs_tool_seam = posture, hs_streams_unbuffered = unbuffered, hs_exposure_bound = bound,
               hs_timeout = build_timeout_support tokio, hs_versions = bt_set versions\<rparr>
      in res_bind (surface_validate s) (\<lambda>_. Inr s))"

section \<open>What a valid surface promises\<close>

definition points_ok :: "interception_point list \<Rightarrow> bool" where
  "points_ok ps \<longleftrightarrow>
     set FLOOR_POINTS \<subseteq> set ps
     \<and> (PreModelCall \<in> set ps \<longleftrightarrow> PostModelCall \<in> set ps)
     \<and> (PreToolCall \<in> set ps \<longleftrightarrow> PostToolCall \<in> set ps)"

definition knobs_ok :: "composition_profile \<Rightarrow> knob_support \<Rightarrow> bool" where
  "knobs_ok p k \<longleftrightarrow>
     (\<forall>knob\<in>set (consulted_knobs p). knob_get k knob \<noteq> []) \<and> knobs_subset k (knobs_full p)"

definition surface_ok :: "host_surface \<Rightarrow> bool" where
  "surface_ok s \<longleftrightarrow>
     points_ok (hs_points s)
     \<and> (''model_calls'' \<in> set (hs_capabilities s) \<longleftrightarrow> model_points (hs_points s))
     \<and> (''tool_calls'' \<in> set (hs_capabilities s) \<longleftrightarrow> tool_points (hs_points s))
     \<and> set (hs_capabilities s) \<subseteq> set CAPABILITIES
     \<and> (''incremental_output'' \<in> set (hs_capabilities s) \<longrightarrow>
          hs_streams_unbuffered s \<and> model_points (hs_points s)
          \<and> (\<exists>b. hs_exposure_bound s = Some b \<and> b \<noteq> [] \<and> char_count b \<le> MAX_DETAIL_LEN))
     \<and> set (hs_versions s) \<subseteq> set SUPPORTED_DECLARATION_VERSIONS
     \<and> (\<forall>(p, k)\<in>set (hs_profiles s). knobs_ok p k)"

lemma floor_findings_iff: "floor_findings p ps = [] \<longleftrightarrow> set FLOOR_POINTS \<subseteq> set ps"
  by (auto simp: floor_findings_def)

lemma pair_findings_iff:
  "pair_findings p ps = [] \<longleftrightarrow>
     (PreModelCall \<in> set ps \<longleftrightarrow> PostModelCall \<in> set ps) \<and> (PreToolCall \<in> set ps \<longleftrightarrow> PostToolCall \<in> set ps)"
  by (auto simp: pair_findings_def)

lemma points_ok_iff: "points_ok ps \<longleftrightarrow> floor_findings p ps = [] \<and> pair_findings q ps = []"
  by (simp add: points_ok_def floor_findings_iff pair_findings_iff)

lemma profile_findings_iff: "profile_findings (p, k) = [] \<longleftrightarrow> knobs_ok p k"
  by (auto simp: profile_findings_def knobs_ok_def)

lemma surface_validate_iff: "surface_validate s = Inr () \<longleftrightarrow> surface_ok s"
  unfolding surface_validate_def surface_findings_def surface_ok_def
    points_ok_iff [of _ "''/surface/interception_points''" "''/surface/interception_points''"]
  by (auto simp: incremental_findings_def bound_findings_def profile_findings_iff not_less
      split: option.splits)

lemma new_surface_ok: "new_surface tokio ps cs pr po un bo vs = Inr s \<Longrightarrow> surface_ok s"
  by (auto simp: new_surface_def res_bind_Inr_iff surface_validate_iff Let_def)

end
