(* ===== verification/Decl_Resolve.thy ===== *)
theory Decl_Resolve
  imports Decl_Fields Host_Surface
begin

text \<open>
  \<open>declaration.rs\<close>, steps 7 to 10: the resolved form, internal consistency, the document
  against the host's surface, the registered names; loading from text, from a file and from a
  value; migration between contract versions.
\<close>

section \<open>The resolved form\<close>

record host_info =
  hi_name :: string
  hi_version :: "string option"

record resolved_approval =
  ra_resolver :: "string option"
  ra_redactor :: "string option"

record resolved_timeouts =
  rt_interceptor_ms :: "nat option"
  rt_approval_resolver_ms :: "nat option"

record resolved_configuration =
  rc_mode :: enforcement_mode
  rc_composition :: composition_config
  rc_identity_provider :: "string option"
  rc_approval :: resolved_approval
  rc_tool_seam :: tool_seam_posture
  rc_on_error :: on_error
  rc_timeouts :: resolved_timeouts
  rc_max_buffered :: "nat option"

record resolved_surface =
  rs_points :: "interception_point list"
  rs_capabilities :: "string list"
  rs_profiles :: "(composition_profile \<times> knob_support) list"
  rs_buffered :: bool
  rs_exposure_bound :: "string option"
  rs_versions :: "string list"

record resolved_binding =
  rb_id :: string
  rb_kind :: string
  rb_config :: json
  rb_at :: "interception_point list"
  rb_timeout_ms :: "nat option"
  rb_on_error :: on_error

record resolved_declaration =
  rd_declaration :: string
  rd_spec :: string
  rd_id :: "string option"
  rd_host :: "host_info option"
  rd_configuration :: resolved_configuration
  rd_surface :: resolved_surface
  rd_bindings :: "resolved_binding list"
  rd_extensions :: object

section \<open>Reading members\<close>

definition get_int_or_null :: "object \<Rightarrow> string \<Rightarrow> nat option option" where
  "get_int_or_null m k =
     (case obj_get m k of None \<Rightarrow> None | Some JNull \<Rightarrow> Some None | Some v \<Rightarrow> Some (as_u64 v))"

definition str_set :: "object \<Rightarrow> string \<Rightarrow> string list option" where
  "str_set m k = map_option (\<lambda>a. bt_set (List.map_filter as_str a)) (Option.bind (obj_get m k) as_array)"

definition point_set :: "object \<Rightarrow> string \<Rightarrow> interception_point list option" where
  "point_set m k =
     map_option (\<lambda>a. bt_set (List.map_filter (\<lambda>v. Option.bind (as_str v) point_from_str) a))
       (Option.bind (obj_get m k) as_array)"

text \<open>\<open>doc.configuration\<close>, and an object member of it.\<close>

definition sub_configuration :: "object \<Rightarrow> string \<Rightarrow> object option" where
  "sub_configuration doc k = Option.bind (get_object doc ''configuration'') (\<lambda>c. get_object c k)"

fun approval_knob :: "string option \<Rightarrow> on_approval option" where
  "approval_knob k = (if k = Some ''stop'' then Some Stop else if k = Some ''resume'' then Some Resume else None)"

fun policy_knob :: "string option \<Rightarrow> synthesis_policy option" where
  "policy_knob k =
     (if k = Some ''deny'' then Some SP_Deny else if k = Some ''approval'' then Some SP_Approval else None)"

definition stated_composition :: "object \<Rightarrow> composition_config" where
  "stated_composition doc =
     (let c = sub_configuration doc ''composition'';
          knob = (\<lambda>k. Option.bind c (\<lambda>c. get_str c k))
      in \<lparr>profile = (case Option.bind (knob ''profile'') profile_from_wire of
                       None \<Rightarrow> SequentialFirstDeny | Some p \<Rightarrow> p),
          on_approval = approval_knob (knob ''on_approval''),
          on_disagreement = policy_knob (knob ''on_disagreement''),
          on_transform_conflict = policy_knob (knob ''on_transform_conflict'')\<rparr>)"

definition stated_profile :: "string \<times> json \<Rightarrow> (composition_profile \<times> knob_support) list
    \<Rightarrow> (composition_profile \<times> knob_support) list" where
  "stated_profile kv out =
     (case profile_from_wire (fst kv) of
        None \<Rightarrow> out
      | Some p \<Rightarrow>
          bt_insert p
            (case as_object (snd kv) of
               None \<Rightarrow> knobs_defaults_only p
             | Some o' \<Rightarrow>
                 fold (\<lambda>knob k. case str_set o' knob of None \<Rightarrow> k | Some vs \<Rightarrow> knob_put knob vs k)
                   (consulted_knobs p) (knobs_defaults_only p)) out)"

definition stated_profiles :: "object \<Rightarrow> (composition_profile \<times> knob_support) list" where
  "stated_profiles ps = fold stated_profile ps []"

fun or_else :: "'a option \<Rightarrow> 'a \<Rightarrow> 'a" where
  "or_else None d = d"
| "or_else (Some a) d = a"

definition resolve_surface :: "object \<Rightarrow> host_surface \<Rightarrow> resolved_surface" where
  "resolve_surface doc code =
     (case get_object doc ''surface'' of
        None \<Rightarrow>
          (let incremental = (''incremental_output'' \<in> set (hs_capabilities code)) in
           \<lparr>rs_points = hs_points code, rs_capabilities = hs_capabilities code, rs_profiles = hs_profiles code,
            rs_buffered = (\<not> incremental),
            rs_exposure_bound = (if incremental then hs_exposure_bound code else None),
            rs_versions = hs_versions code\<rparr>)
      | Some s \<Rightarrow>
          \<lparr>rs_points = or_else (point_set s ''interception_points'') (hs_points code),
           rs_capabilities = or_else (str_set s ''capabilities'') (hs_capabilities code),
           rs_profiles = (case get_object s ''profiles'' of None \<Rightarrow> hs_profiles code | Some p \<Rightarrow> stated_profiles p),
           rs_buffered = or_else (Option.bind (obj_get s ''buffered_output'') as_bool) True,
           rs_exposure_bound = get_str s ''exposure_bound'',
           rs_versions = or_else (str_set s ''declaration_versions'') (hs_versions code)\<rparr>)"

section \<open>Step 7: consistency\<close>

text \<open>With no host surface, only what the document states is looked at.\<close>

record surface_view =
  vw_points :: "interception_point list option"
  vw_capabilities :: "string list option"
  vw_profiles :: "(composition_profile \<times> knob_support) list option"
  vw_versions :: "string list option"
  vw_buffered :: bool

definition surface_view_of :: "object \<Rightarrow> host_surface option \<Rightarrow> surface_view" where
  "surface_view_of doc code =
     (let stated = get_object doc ''surface'';
          filled = map_option (resolve_surface doc) code;
          prof = map_option stated_profiles (Option.bind stated (\<lambda>s. get_object s ''profiles''))
      in case filled of
           Some s \<Rightarrow>
             \<lparr>vw_points = Some (rs_points s), vw_capabilities = Some (rs_capabilities s), vw_profiles = prof,
              vw_versions = Some (rs_versions s), vw_buffered = rs_buffered s\<rparr>
         | None \<Rightarrow>
             \<lparr>vw_points = Option.bind stated (\<lambda>s. point_set s ''interception_points''),
              vw_capabilities = Option.bind stated (\<lambda>s. str_set s ''capabilities''),
              vw_profiles = prof,
              vw_versions = Option.bind stated (\<lambda>s. str_set s ''declaration_versions''),
              vw_buffered = or_else (Option.bind (Option.bind stated (\<lambda>s. obj_get s ''buffered_output'')) as_bool)
                True\<rparr>)"

definition pair_capability_findings :: "interception_point list \<Rightarrow> string list \<Rightarrow> string list" where
  "pair_capability_findings ps cs =
     flag ((''model_calls'' \<in> set cs) \<noteq> model_points ps) ''/surface/capabilities''
     @ flag ((''tool_calls'' \<in> set cs) \<noteq> tool_points ps) ''/surface/capabilities''"

definition points_findings :: "surface_view \<Rightarrow> string list" where
  "points_findings vw =
     (case vw_points vw of
        None \<Rightarrow> []
      | Some ps \<Rightarrow>
          floor_findings ''/surface/interception_points'' ps
          @ pair_findings ''/surface/interception_points'' ps
          @ (case vw_capabilities vw of None \<Rightarrow> [] | Some cs \<Rightarrow> pair_capability_findings ps cs))"

definition incremental_document_findings :: "object \<Rightarrow> surface_view \<Rightarrow> string list" where
  "incremental_document_findings doc vw =
     (case vw_capabilities vw of
        None \<Rightarrow> []
      | Some cs \<Rightarrow>
          flag (''incremental_output'' \<in> set cs \<and> vw_buffered vw) ''/surface/capabilities''
          @ flag (opt_holds has_failure_posture (document_spec doc)
                  \<and> ''incremental_output'' \<in> set cs \<and> ''model_calls'' \<notin> set cs
                  \<and> \<not> opt_holds model_points (vw_points vw)) ''/surface/capabilities'')"

definition stray_knobs :: "object \<Rightarrow> string list" where
  "stray_knobs doc =
     concat (map (\<lambda>knob.
         flag (opt_holds (\<lambda>c. contains_key c knob) (sub_configuration doc ''composition'')
               \<and> knob \<notin> set (consulted_knobs (profile (stated_composition doc))))
           (ptr ''/configuration/composition'' knob))
       [''on_approval'', ''on_disagreement'', ''on_transform_conflict''])"

text \<open>The three knob values of a resolved composition, by name.\<close>

definition composition_knobs :: "composition_config \<Rightarrow> (string \<times> string option) list" where
  "composition_knobs c =
     [(''on_approval'', map_option on_approval_str (on_approval c)),
      (''on_disagreement'', map_option synthesis_policy_str (on_disagreement c)),
      (''on_transform_conflict'', map_option synthesis_policy_str (on_transform_conflict c))]"

definition unsupported_knobs :: "composition_config \<Rightarrow> knob_support \<Rightarrow> string list" where
  "unsupported_knobs c support =
     concat (map (\<lambda>(knob, v).
         flag (opt_holds (\<lambda>v. v \<notin> set (knob_get support knob)) v) (ptr ''/configuration/composition'' knob))
       (composition_knobs c))"

definition composition_findings ::
  "composition_config \<Rightarrow> (composition_profile \<times> knob_support) list \<Rightarrow> string list" where
  "composition_findings c profiles =
     (case map_of profiles (profile c) of
        None \<Rightarrow> [''/configuration/composition/profile'']
      | Some support \<Rightarrow> unsupported_knobs c support)"

fun binding_findings :: "interception_point list option \<Rightarrow> nat \<Rightarrow> string list \<Rightarrow> json list \<Rightarrow> string list" where
  "binding_findings points i ids [] = []"
| "binding_findings points i ids (v # vs) =
     (case as_object v of
        None \<Rightarrow> binding_findings points (i + 1) ids vs
      | Some b \<Rightarrow>
          (let (dup, ids') =
             (case get_str b ''id'' of
                None \<Rightarrow> ([], ids)
              | Some s \<Rightarrow> (flag (s \<in> set ids) (binding_ptr i @ ''/id''), insort_insert s ids))
           in dup
              @ (case (point_set b ''at'', points) of
                   (Some at, Some ps) \<Rightarrow> map (\<lambda>_. binding_ptr i @ ''/at'') (bt_diff at ps)
                 | _ \<Rightarrow> [])
              @ binding_findings points (i + 1) ids' vs))"

definition consistency_findings :: "object \<Rightarrow> host_surface option \<Rightarrow> string list" where
  "consistency_findings doc code =
     (let vw = surface_view_of doc code in
      points_findings vw
      @ incremental_document_findings doc vw
      @ stray_knobs doc
      @ (case vw_profiles vw of None \<Rightarrow> []
         | Some ps \<Rightarrow> composition_findings (with_knob_defaults (stated_composition doc)) ps)
      @ (case (vw_versions vw, get_str doc ''declaration'') of
           (Some vs, Some own) \<Rightarrow> flag (own \<notin> set vs) ''/surface/declaration_versions''
         | _ \<Rightarrow> [])
      @ binding_findings (vw_points vw) 0 [] (document_bindings doc))"

definition check_consistency :: "object \<Rightarrow> host_surface option \<Rightarrow> declaration_error + unit" where
  "check_consistency doc code = refuse Inconsistent (consistency_findings doc code)"

section \<open>Loading\<close>

definition from_json :: "(string \<Rightarrow> raw option) \<Rightarrow> string \<Rightarrow> declaration_error + object" where
  "from_json jparse text =
     res_bind (parse_document jparse text) (\<lambda>v.
     case as_object v of
       None \<Rightarrow> Inl (decl_error Malformed '''')
     | Some doc \<Rightarrow>
         res_bind (check_version doc) (\<lambda>_.
         res_bind (check_spec doc) (\<lambda>_.
         res_bind (check_unknown_fields doc) (\<lambda>_.
         res_bind (check_fields jparse doc text) (\<lambda>_.
         res_bind (check_consistency doc None) (\<lambda>_. Inr doc))))))"

definition from_path :: "(string \<Rightarrow> raw option) \<Rightarrow> file_view \<Rightarrow> declaration_error + object" where
  "from_path jparse fv = res_bind (read_document fv) (from_json jparse)"

text \<open>\<open>serde_json::to_string\<close> of the value is the argument \<open>jprint\<close>.\<close>

definition from_value ::
  "(string \<Rightarrow> raw option) \<Rightarrow> (json \<Rightarrow> string) \<Rightarrow> json \<Rightarrow> declaration_error + object" where
  "from_value jparse jprint v = from_json jparse (jprint v)"

section \<open>Filling the defaults\<close>

definition identity_of :: "object \<Rightarrow> string option" where
  "identity_of doc =
     (case Option.bind (get_object doc ''configuration'') (\<lambda>c. obj_get c ''identity_provider'') of
        None \<Rightarrow> Some JCS_SHA256
      | Some JNull \<Rightarrow> None
      | Some v \<Rightarrow> as_str v)"

definition timeout_of :: "object \<Rightarrow> string \<Rightarrow> nat option \<Rightarrow> nat option" where
  "timeout_of doc k d =
     or_else (Option.bind (sub_configuration doc ''timeouts'') (\<lambda>t. get_int_or_null t k)) d"

definition on_error_of :: "object \<Rightarrow> on_error" where
  "on_error_of doc =
     or_else (Option.bind (Option.bind (sub_configuration doc ''failure'') (\<lambda>fl. get_str fl ''on_error''))
       on_error_from_wire) OE_Deny"

definition fill_binding :: "resolved_surface \<Rightarrow> nat option \<Rightarrow> on_error \<Rightarrow> object \<Rightarrow> resolved_binding" where
  "fill_binding s ms on_err b =
     \<lparr>rb_id = or_else (get_str b ''id'') [], rb_kind = or_else (get_str b ''kind'') [],
      rb_config = or_else (obj_get b ''config'') (JObj []),
      rb_at = or_else (point_set b ''at'') (rs_points s),
      rb_timeout_ms = or_else (get_int_or_null b ''timeout_ms'') ms,
      rb_on_error = or_else (Option.bind (get_str b ''on_error'') on_error_from_wire) on_err\<rparr>"

definition fill_configuration :: "object \<Rightarrow> resolved_configuration" where
  "fill_configuration doc =
     (let ms = timeout_of doc ''interceptor_ms'' (Some 5000) in
      \<lparr>rc_mode =
         (if Option.bind (get_object doc ''configuration'') (\<lambda>c. get_str c ''mode'') = Some ''evaluate_only''
          then EvaluateOnly else Enforce),
       rc_composition = with_knob_defaults (stated_composition doc),
       rc_identity_provider = identity_of doc,
       rc_approval =
         \<lparr>ra_resolver = Option.bind (sub_configuration doc ''approval'') (\<lambda>a. get_str a ''resolver''),
          ra_redactor = Option.bind (sub_configuration doc ''approval'') (\<lambda>a. get_str a ''redactor'')\<rparr>,
       rc_tool_seam =
         (if Option.bind (sub_configuration doc ''posture'') (\<lambda>p. get_str p ''tool_seam_host_error'')
             = Some ''terminate'' then SeamTerminate else SeamContinue),
       rc_on_error = on_error_of doc,
       rc_timeouts =
         \<lparr>rt_interceptor_ms = ms, rt_approval_resolver_ms = timeout_of doc ''approval_resolver_ms'' ms\<rparr>,
       rc_max_buffered =
         or_else (Option.bind (sub_configuration doc ''records'') (\<lambda>r. get_int_or_null r ''max_buffered'')) None\<rparr>)"

definition fill :: "object \<Rightarrow> host_surface \<Rightarrow> resolved_declaration" where
  "fill doc code =
     (let s = resolve_surface doc code in
      \<lparr>rd_declaration = or_else (get_str doc ''declaration'') [],
       rd_spec = or_else (get_str doc ''spec'') [],
       rd_id = get_str doc ''id'',
       rd_host =
         map_option (\<lambda>h. \<lparr>hi_name = or_else (get_str h ''name'') [], hi_version = get_str h ''version''\<rparr>)
           (get_object doc ''host''),
       rd_configuration = fill_configuration doc,
       rd_surface = s,
       rd_bindings =
         map (fill_binding s (timeout_of doc ''interceptor_ms'' (Some 5000)) (on_error_of doc))
           (List.map_filter as_object (document_bindings doc)),
       rd_extensions = or_else (get_object doc ''extensions'') []\<rparr>)"

section \<open>Step 8: the surface of the host\<close>

definition profile_support_findings ::
  "(composition_profile \<times> knob_support) list \<Rightarrow> composition_profile \<times> knob_support \<Rightarrow> string list" where
  "profile_support_findings code pk =
     (case map_of code (fst pk) of
        None \<Rightarrow> [ptr ''/surface/profiles'' (profile_str (fst pk))]
      | Some support \<Rightarrow>
          flag (\<not> knobs_subset (snd pk) support) (ptr ''/surface/profiles'' (profile_str (fst pk))))"

definition stated_timeout :: "object \<Rightarrow> nat \<Rightarrow> bool" where
  "stated_timeout doc i \<longleftrightarrow>
     i < length (document_bindings doc)
     \<and> opt_holds (\<lambda>b. opt_holds (\<lambda>t. t \<noteq> JNull) (obj_get b ''timeout_ms''))
         (as_object (document_bindings doc ! i))"

definition timeout_findings :: "object \<Rightarrow> resolved_declaration \<Rightarrow> string list" where
  "timeout_findings doc r =
     (let t = rc_timeouts (rd_configuration r) in
      flag (rt_interceptor_ms t \<noteq> None) ''/configuration/timeouts/interceptor_ms''
      @ flag (rt_approval_resolver_ms t \<noteq> None) ''/configuration/timeouts/approval_resolver_ms''
      @ concat (map (\<lambda>(i, b). flag (stated_timeout doc i \<and> rb_timeout_ms b \<noteq> None)
            (binding_ptr i @ ''/timeout_ms''))
          (enumerate 0 (rd_bindings r))))"

definition surface_support_findings :: "object \<Rightarrow> resolved_declaration \<Rightarrow> host_surface \<Rightarrow> string list" where
  "surface_support_findings doc r code =
     (let s = rd_surface r; c = rc_composition (rd_configuration r) in
      map (\<lambda>_. ''/surface/interception_points'') (bt_diff (rs_points s) (hs_points code))
      @ map (\<lambda>_. ''/surface/capabilities'') (bt_diff (rs_capabilities s) (hs_capabilities code))
      @ concat (map (profile_support_findings (hs_profiles code)) (rs_profiles s))
      @ map (\<lambda>_. ''/surface/declaration_versions'') (bt_diff (rs_versions s) (hs_versions code))
      @ composition_findings c (hs_profiles code)
      @ flag (\<not> rs_buffered s \<and> \<not> hs_streams_unbuffered code) ''/surface/buffered_output''
      @ flag (rc_tool_seam (rd_configuration r) \<noteq> hs_tool_seam code)
          ''/configuration/posture/tool_seam_host_error''
      @ (if hs_timeout code = TimeoutUnbounded then timeout_findings doc r else []))"

definition check_surface :: "object \<Rightarrow> resolved_declaration \<Rightarrow> host_surface \<Rightarrow> declaration_error + unit" where
  "check_surface doc r code = refuse SurfaceUnsupported (surface_support_findings doc r code)"

definition document_version :: "object \<Rightarrow> string" where
  "document_version doc = or_else (get_str doc ''declaration'') []"

definition resolve_surface_only :: "object \<Rightarrow> host_surface \<Rightarrow> declaration_error + resolved_declaration" where
  "resolve_surface_only doc code =
     res_bind (surface_validate code) (\<lambda>_.
       if document_version doc \<notin> set (hs_versions code) then Inl (version_accepted (hs_versions code))
       else res_bind (check_consistency doc (Some code)) (\<lambda>_.
         let r = fill doc code in res_bind (check_surface doc r code) (\<lambda>_. Inr r)))"

section \<open>Steps 8 to 10: the registered names\<close>

record registry_names =
  nm_identity_providers :: "string list"
  nm_approval_resolvers :: "string list"
  nm_approval_redactors :: "string list"
  nm_kinds :: "string list"

definition channel_findings :: "object \<Rightarrow> resolved_declaration \<Rightarrow> string list" where
  "channel_findings doc r =
     (let stated = map (\<lambda>v. opt_holds (\<lambda>b. contains_key b ''on_error'') (as_object v)) (document_bindings doc) in
      concat (map (\<lambda>(i, b).
          if rb_on_error b = OE_Continue
          then [if i < length stated \<and> stated ! i then binding_ptr i @ ''/on_error''
                else ''/configuration/failure/on_error'']
          else [])
        (enumerate 0 (rd_bindings r))))"

definition check_principal_channel ::
  "object \<Rightarrow> resolved_declaration \<Rightarrow> bool \<Rightarrow> declaration_error + unit" where
  "check_principal_channel doc r has_notifier =
     (if has_notifier then Inr () else refuse SurfaceUnsupported (channel_findings doc r))"

definition check_names :: "resolved_declaration \<Rightarrow> registry_names \<Rightarrow> declaration_error + unit" where
  "check_names r names =
     (let cfg = rd_configuration r;
          refs =
            flag (opt_holds (\<lambda>p. p \<noteq> JCS_SHA256 \<and> p \<notin> set (nm_identity_providers names))
                (rc_identity_provider cfg)) ''/configuration/identity_provider''
            @ flag (opt_holds (\<lambda>n. n \<notin> set (nm_approval_resolvers names)) (ra_resolver (rc_approval cfg)))
                ''/configuration/approval/resolver''
            @ flag (opt_holds (\<lambda>n. n \<notin> set (nm_approval_redactors names)) (ra_redactor (rc_approval cfg)))
                ''/configuration/approval/redactor''
      in res_bind (refuse ReferenceUnresolved refs) (\<lambda>_.
         refuse KindUnknown
           (concat (map (\<lambda>(i, b). flag (rb_kind b \<notin> set (nm_kinds names)) (binding_ptr i @ ''/kind''))
             (enumerate 0 (rd_bindings r))))))"

definition resolve_declaration ::
  "object \<Rightarrow> host_surface \<Rightarrow> registry_names \<Rightarrow> declaration_error + resolved_declaration" where
  "resolve_declaration doc code names =
     res_bind (resolve_surface_only doc code) (\<lambda>r. res_bind (check_names r names) (\<lambda>_. Inr r))"

section \<open>Migration\<close>

definition migrate :: "json \<Rightarrow> string \<Rightarrow> declaration_error + json" where
  "migrate doc to =
     (if to \<notin> set SUPPORTED_DECLARATION_VERSIONS then Inl version_error
      else case Option.bind (as_object doc) (\<lambda>m. get_str m ''declaration'') of
        None \<Rightarrow> Inl version_error
      | Some from \<Rightarrow>
          if from = to then Inr doc
          else case (parse_declaration_version from, parse_declaration_version to) of
            (Some f, Some t) \<Rightarrow>
              if from \<notin> set SUPPORTED_DECLARATION_VERSIONS \<or> fst f \<noteq> fst t \<or> snd f > snd t
              then Inl version_error
              else Inr (case doc of
                  JObj m \<Rightarrow>
                    (let m1 = obj_insert ''declaration'' (JStr to) m in
                     JObj (if opt_holds (\<lambda>s. accepts_declaration s to) (document_spec m1) then m1
                           else case find (\<lambda>s. accepts_declaration s to) spec_all of
                             None \<Rightarrow> m1
                           | Some s \<Rightarrow> obj_insert ''spec'' (JStr (spec_wire s)) m1))
                | v \<Rightarrow> v)
          | _ \<Rightarrow> Inl version_error)"

end
