(* ===== verification/Decl_Registry.thy ===== *)
theory Decl_Registry
  imports Decl_Resolve
begin

text \<open>
  What a host registers in code for a declaration to reference (\<open>HostRegistry\<close>), and the
  emitter built from a declaration (\<open>from_declaration\<close> in \<open>emitter.rs\<close>).
  A kind resolver is host code: a function of the calls made before it, of the binding's
  configuration and of its context, that gives an interceptor, refuses with a message or
  panics (\<open>None\<close>).
\<close>

section \<open>The registry\<close>

record binding_context =
  bc_id :: string
  bc_kind :: string
  bc_at :: "interception_point list"
  bc_timeout :: "nat option"
  bc_on_error :: on_error
  bc_host :: "host_info option"
  bc_declaration :: string

type_synonym kind_call = "json \<times> binding_context"

type_synonym kind_resolver =
  "kind_call list \<Rightarrow> json \<Rightarrow> binding_context \<Rightarrow> (string + std_interceptor) option"

type_synonym managed_kind_resolver =
  "kind_call list \<Rightarrow> json \<Rightarrow> binding_context \<Rightarrow> (string + managed_interceptor) option"

record host_registry =
  hr_surface :: host_surface
  hr_allow_reserved :: bool
  hr_kinds :: "(string \<times> kind_resolver) list"
  hr_managed_kinds :: "(string \<times> managed_kind_resolver) list"
  hr_identity_providers :: "(string \<times> (object \<Rightarrow> string option)) list"
  hr_approval_resolvers :: "(string \<times> resolver) list"
  hr_approval_redactors :: "(string \<times> redactor) list"
  hr_notifier :: "notifier option"

definition new_registry :: "host_surface \<Rightarrow> host_registry" where
  "new_registry s =
     \<lparr>hr_surface = s, hr_allow_reserved = False, hr_kinds = [], hr_managed_kinds = [],
      hr_identity_providers = [], hr_approval_resolvers = [], hr_approval_redactors = [],
      hr_notifier = None\<rparr>"

definition for_conformance :: "host_surface \<Rightarrow> host_registry" where
  "for_conformance s = (new_registry s)\<lparr>hr_allow_reserved := True\<rparr>"

datatype registry_error =
    KindGrammar string
  | ReservedSegment string string
  | RegisteredTwice string
  | ProviderRefused string
  | ProviderTooLong string
  | ReferenceGrammar string

definition check_kind :: "string \<Rightarrow> host_registry \<Rightarrow> registry_error + unit" where
  "check_kind kind reg =
     (if \<not> valid_kind kind then Inl (KindGrammar kind)
      else
        let head = kind_first_segment kind in
        if head \<in> set RESERVED_KIND_SEGMENTS \<and> \<not> (hr_allow_reserved reg \<and> head = ''ctk'')
        then Inl (ReservedSegment kind head)
        else if map_of (hr_kinds reg) kind \<noteq> None \<or> map_of (hr_managed_kinds reg) kind \<noteq> None
        then Inl (RegisteredTwice kind)
        else Inr ())"

definition register_kind :: "string \<Rightarrow> kind_resolver \<Rightarrow> host_registry \<Rightarrow> registry_error + host_registry" where
  "register_kind kind f reg =
     res_bind (check_kind kind reg) (\<lambda>_. Inr (reg\<lparr>hr_kinds := bt_insert kind f (hr_kinds reg)\<rparr>))"

definition register_managed_kind ::
  "string \<Rightarrow> managed_kind_resolver \<Rightarrow> host_registry \<Rightarrow> registry_error + host_registry" where
  "register_managed_kind kind f reg =
     res_bind (check_kind kind reg)
       (\<lambda>_. Inr (reg\<lparr>hr_managed_kinds := bt_insert kind f (hr_managed_kinds reg)\<rparr>))"

definition control_failure_notifier :: "notifier \<Rightarrow> host_registry \<Rightarrow> host_registry" where
  "control_failure_notifier f reg = reg\<lparr>hr_notifier := Some f\<rparr>"

definition register_identity_provider ::
  "string \<Rightarrow> (object \<Rightarrow> string option) \<Rightarrow> host_registry \<Rightarrow> registry_error + host_registry" where
  "register_identity_provider name f reg =
     (case validate_provider_name name of
        Inl e \<Rightarrow> Inl (ProviderRefused (snd e))
      | Inr _ \<Rightarrow>
          if length name > MAX_ID_LEN then Inl (ProviderTooLong name)
          else if map_of (hr_identity_providers reg) name \<noteq> None then Inl (RegisteredTwice name)
          else Inr (reg\<lparr>hr_identity_providers := bt_insert name f (hr_identity_providers reg)\<rparr>))"

definition check_reference :: "string \<Rightarrow> registry_error + unit" where
  "check_reference name = (if valid_reference name then Inr () else Inl (ReferenceGrammar name))"

definition register_approval_resolver ::
  "string \<Rightarrow> resolver \<Rightarrow> host_registry \<Rightarrow> registry_error + host_registry" where
  "register_approval_resolver name r reg =
     res_bind (check_reference name) (\<lambda>_.
       if map_of (hr_approval_resolvers reg) name \<noteq> None then Inl (RegisteredTwice name)
       else Inr (reg\<lparr>hr_approval_resolvers := bt_insert name r (hr_approval_resolvers reg)\<rparr>))"

definition register_approval_redactor ::
  "string \<Rightarrow> redactor \<Rightarrow> host_registry \<Rightarrow> registry_error + host_registry" where
  "register_approval_redactor name f reg =
     res_bind (check_reference name) (\<lambda>_.
       if map_of (hr_approval_redactors reg) name \<noteq> None then Inl (RegisteredTwice name)
       else Inr (reg\<lparr>hr_approval_redactors := bt_insert name f (hr_approval_redactors reg)\<rparr>))"

definition registry_names_of :: "host_registry \<Rightarrow> registry_names" where
  "registry_names_of reg =
     \<lparr>nm_identity_providers = map fst (hr_identity_providers reg),
      nm_approval_resolvers = map fst (hr_approval_resolvers reg),
      nm_approval_redactors = map fst (hr_approval_redactors reg),
      nm_kinds = bt_set (map fst (hr_kinds reg) @ map fst (hr_managed_kinds reg))\<rparr>"

definition registry_resolve :: "object \<Rightarrow> host_registry \<Rightarrow> declaration_error + resolved_declaration" where
  "registry_resolve doc reg =
     res_bind (resolve_surface_only doc (hr_surface reg)) (\<lambda>r.
     res_bind (check_principal_channel doc r (hr_notifier reg \<noteq> None)) (\<lambda>_.
     res_bind (check_names r (registry_names_of reg)) (\<lambda>_. Inr r)))"

section \<open>Step 11: the bindings\<close>

definition binding_context_of :: "resolved_declaration \<Rightarrow> resolved_binding \<Rightarrow> binding_context" where
  "binding_context_of r b =
     \<lparr>bc_id = rb_id b, bc_kind = rb_kind b, bc_at = rb_at b, bc_timeout = rb_timeout_ms b,
      bc_on_error = rb_on_error b, bc_host = rd_host r, bc_declaration = rd_declaration r\<rparr>"

definition bound_of :: "resolved_binding \<Rightarrow> bound_interceptor \<Rightarrow> bound" where
  "bound_of b i =
     \<lparr>b_interceptor = i, b_name = Some (rb_id b), b_at = Some (set (rb_at b)),
      b_timeout = (case rb_timeout_ms b of Some d \<Rightarrow> Bounded d | None \<Rightarrow> Unbounded),
      b_on_error = rb_on_error b\<rparr>"

text \<open>A resolver that is registered answers; \<open>None\<close> when neither map has the kind.\<close>

definition call_resolver ::
  "host_registry \<Rightarrow> resolved_binding \<Rightarrow> binding_context \<Rightarrow> kind_call list
     \<Rightarrow> (string + bound_interceptor) option option" where
  "call_resolver reg b c calls =
     (case map_of (hr_kinds reg) (rb_kind b) of
        Some f \<Rightarrow> Some (map_option (map_sum id Standard) (f calls (rb_config b) c))
      | None \<Rightarrow>
          (case map_of (hr_managed_kinds reg) (rb_kind b) of
             Some f \<Rightarrow> Some (map_option (map_sum id Managed) (f calls (rb_config b) c))
           | None \<Rightarrow> None))"

fun build_bindings ::
  "host_registry \<Rightarrow> resolved_declaration \<Rightarrow> nat \<Rightarrow> resolved_binding list \<Rightarrow> bound list \<Rightarrow> kind_call list
     \<Rightarrow> (declaration_error + bound list) \<times> kind_call list" where
  "build_bindings reg r i [] out calls = (Inr out, calls)"
| "build_bindings reg r i (b # bs) out calls =
     (let c = binding_context_of r b in
      case call_resolver reg b c calls of
        None \<Rightarrow> (Inl (decl_error KindUnknown (binding_ptr i @ ''/kind'')), calls)
      | Some built \<Rightarrow>
          (let calls' = calls @ [(rb_config b, c)] in
           case built of
             Some (Inr ic) \<Rightarrow> build_bindings reg r (i + 1) bs (out @ [bound_of b ic]) calls'
           | Some (Inl msg) \<Rightarrow> (Inl (decl_error BindingRejected (binding_ptr i)), calls')
           | None \<Rightarrow> (Inl (decl_error BindingRejected (binding_ptr i)), calls')))"

section \<open>Construction\<close>

definition referenced :: "(string \<times> 'a) list \<Rightarrow> string option \<Rightarrow> string \<Rightarrow> declaration_error + 'a option" where
  "referenced m name p =
     (case name of
        None \<Rightarrow> Inr None
      | Some n \<Rightarrow>
          (case map_of m n of
             None \<Rightarrow> Inl (decl_error ReferenceUnresolved p)
           | Some v \<Rightarrow> Inr (Some v)))"

definition built_identity :: "host_registry \<Rightarrow> string option \<Rightarrow> declaration_error + identity_provider" where
  "built_identity reg name =
     (case name of
        None \<Rightarrow> Inr NullIdentity
      | Some n \<Rightarrow>
          if n = JCS_SHA256 then Inr JcsSha256
          else case map_of (hr_identity_providers reg) n of
            None \<Rightarrow> Inl (decl_error ReferenceUnresolved ''/configuration/identity_provider'')
          | Some f \<Rightarrow>
              (case validate_provider_name n of
                 Inl _ \<Rightarrow> Inl (decl_error InvalidField ''/configuration/identity_provider'')
               | Inr _ \<Rightarrow> Inr (CustomIdentity n f)))"

definition declared_emitter ::
  "bool \<Rightarrow> resolved_declaration \<Rightarrow> host_registry \<Rightarrow> resolver option \<Rightarrow> identity_provider
     \<Rightarrow> redactor option \<Rightarrow> bound list \<Rightarrow> spec_version \<Rightarrow> emitter" where
  "declared_emitter tokio r reg res idp red bs spec =
     (let cfg = rd_configuration r in
      \<lparr>e_interceptors = bs, e_resolver = res, e_mode = rc_mode cfg, e_composition = rc_composition cfg,
       e_identity = idp, e_redactor = red, e_timeout = rt_interceptor_ms (rc_timeouts cfg),
       e_resolver_timeout = rt_approval_resolver_ms (rc_timeouts cfg), e_sink = False,
       e_notifier = hr_notifier reg, e_max_records = rc_max_buffered cfg, e_records_dropped = 0,
       e_records = [], e_sealed = True, e_spec = spec, e_declaration = Some (rd_declaration r),
       e_tokio = tokio\<rparr>)"

text \<open>\<open>None\<close> is the panic of \<open>expect\<close> on the specification version; the
  second component holds the resolver calls made.\<close>

definition from_resolved ::
  "bool \<Rightarrow> resolved_declaration \<Rightarrow> host_registry
     \<Rightarrow> (declaration_error + emitter) option \<times> kind_call list" where
  "from_resolved tokio r reg =
     (let cfg = rd_configuration r in
      case referenced (hr_approval_resolvers reg) (ra_resolver (rc_approval cfg)) ''/configuration/approval/resolver'' of
        Inl e \<Rightarrow> (Some (Inl e), [])
      | Inr res \<Rightarrow>
          (case built_identity reg (rc_identity_provider cfg) of
             Inl e \<Rightarrow> (Some (Inl e), [])
           | Inr idp \<Rightarrow>
               (case referenced (hr_approval_redactors reg) (ra_redactor (rc_approval cfg))
                   ''/configuration/approval/redactor'' of
                  Inl e \<Rightarrow> (Some (Inl e), [])
                | Inr red \<Rightarrow>
                    (case build_bindings reg r 0 (rd_bindings r) [] [] of
                       (Inl e, calls) \<Rightarrow> (Some (Inl e), calls)
                     | (Inr bs, calls) \<Rightarrow>
                         (map_option (\<lambda>spec. Inr (declared_emitter tokio r reg res idp red bs spec))
                            (spec_from_wire (rd_spec r)), calls)))))"

definition from_declaration ::
  "bool \<Rightarrow> object \<Rightarrow> host_registry \<Rightarrow> (declaration_error + emitter) option \<times> kind_call list" where
  "from_declaration tokio doc reg =
     (case registry_resolve doc reg of
        Inl e \<Rightarrow> (Some (Inl e), [])
      | Inr r \<Rightarrow> from_resolved tokio r reg)"

definition loaded_declaration ::
  "bool \<Rightarrow> declaration_error + object \<Rightarrow> host_registry
     \<Rightarrow> (declaration_error + emitter) option \<times> kind_call list" where
  "loaded_declaration tokio d reg =
     (case d of Inl e \<Rightarrow> (Some (Inl e), []) | Inr doc \<Rightarrow> from_declaration tokio doc reg)"

definition from_declaration_path ::
  "(string \<Rightarrow> raw option) \<Rightarrow> bool \<Rightarrow> file_view \<Rightarrow> host_registry
     \<Rightarrow> (declaration_error + emitter) option \<times> kind_call list" where
  "from_declaration_path jparse tokio fv = loaded_declaration tokio (from_path jparse fv)"

definition from_declaration_json ::
  "(string \<Rightarrow> raw option) \<Rightarrow> bool \<Rightarrow> string \<Rightarrow> host_registry
     \<Rightarrow> (declaration_error + emitter) option \<times> kind_call list" where
  "from_declaration_json jparse tokio text = loaded_declaration tokio (from_json jparse text)"

definition from_declaration_value ::
  "(string \<Rightarrow> raw option) \<Rightarrow> (json \<Rightarrow> string) \<Rightarrow> bool \<Rightarrow> json \<Rightarrow> host_registry
     \<Rightarrow> (declaration_error + emitter) option \<times> kind_call list" where
  "from_declaration_value jparse jprint tokio v = loaded_declaration tokio (from_value jparse jprint v)"

section \<open>What the registry keeps\<close>

definition has_kind :: "host_registry \<Rightarrow> string \<Rightarrow> bool" where
  "has_kind reg k \<longleftrightarrow> map_of (hr_kinds reg) k \<noteq> None \<or> map_of (hr_managed_kinds reg) k \<noteq> None"

definition kind_allowed :: "host_registry \<Rightarrow> string \<Rightarrow> bool" where
  "kind_allowed reg k \<longleftrightarrow>
     valid_kind k \<and> kind_first_segment k \<noteq> ''agent_hooks''
     \<and> (kind_first_segment k = ''ctk'' \<longrightarrow> hr_allow_reserved reg)"

definition kinds_ok :: "host_registry \<Rightarrow> bool" where
  "kinds_ok reg \<longleftrightarrow>
     (\<forall>k. has_kind reg k \<longrightarrow> kind_allowed reg k)
     \<and> (\<forall>k. map_of (hr_kinds reg) k = None \<or> map_of (hr_managed_kinds reg) k = None)"

definition references_ok :: "host_registry \<Rightarrow> bool" where
  "references_ok reg \<longleftrightarrow>
     (\<forall>n. map_of (hr_identity_providers reg) n \<noteq> None \<longrightarrow> validate_provider_name n = Inr ())
     \<and> (\<forall>n. map_of (hr_approval_resolvers reg) n \<noteq> None \<longrightarrow> valid_reference n)
     \<and> (\<forall>n. map_of (hr_approval_redactors reg) n \<noteq> None \<longrightarrow> valid_reference n)"

definition registry_ok :: "host_registry \<Rightarrow> bool" where
  "registry_ok reg \<longleftrightarrow> kinds_ok reg \<and> references_ok reg"

inductive registry_step :: "host_registry \<Rightarrow> host_registry \<Rightarrow> bool" where
  kind: "register_kind k f reg = Inr reg' \<Longrightarrow> registry_step reg reg'"
| managed_kind: "register_managed_kind k m reg = Inr reg' \<Longrightarrow> registry_step reg reg'"
| notifier: "registry_step reg (control_failure_notifier n reg)"
| provider: "register_identity_provider p i reg = Inr reg' \<Longrightarrow> registry_step reg reg'"
| approval_resolver: "register_approval_resolver a r reg = Inr reg' \<Longrightarrow> registry_step reg reg'"
| approval_redactor: "register_approval_redactor a d reg = Inr reg' \<Longrightarrow> registry_step reg reg'"

inductive registry :: "host_registry \<Rightarrow> bool" where
  empty: "registry (new_registry s)"
| conformance: "registry (for_conformance s)"
| registered: "registry reg \<Longrightarrow> registry_step reg reg' \<Longrightarrow> registry reg'"

inductive_cases registry_stepE: "registry_step reg reg'"

lemma check_kind_iff: "check_kind k reg = Inr () \<longleftrightarrow> kind_allowed reg k \<and> \<not> has_kind reg k"
  by (auto simp: check_kind_def Let_def RESERVED_KIND_SEGMENTS_def kind_allowed_def has_kind_def)

lemma kind_registered:
  assumes "register_kind k f reg = Inr reg'"
  shows "reg' = reg\<lparr>hr_kinds := bt_insert k f (hr_kinds reg)\<rparr>" "kind_allowed reg k" "\<not> has_kind reg k"
  using assms by (auto simp: register_kind_def res_bind_Inr_iff check_kind_iff)

lemma managed_kind_registered:
  assumes "register_managed_kind k f reg = Inr reg'"
  shows "reg' = reg\<lparr>hr_managed_kinds := bt_insert k f (hr_managed_kinds reg)\<rparr>" "kind_allowed reg k"
    "\<not> has_kind reg k"
  using assms by (auto simp: register_managed_kind_def res_bind_Inr_iff check_kind_iff)

lemma register_kind_ok: "register_kind k f reg = Inr reg' \<Longrightarrow> kinds_ok reg \<Longrightarrow> kinds_ok reg'"
  using kind_registered [of k f reg reg'] by (auto simp: kinds_ok_def has_kind_def kind_allowed_def)

lemma register_managed_kind_ok: "register_managed_kind k f reg = Inr reg' \<Longrightarrow> kinds_ok reg \<Longrightarrow> kinds_ok reg'"
  using managed_kind_registered [of k f reg reg'] by (auto simp: kinds_ok_def has_kind_def kind_allowed_def)

lemma kinds_ok_same:
  "hr_kinds reg' = hr_kinds reg \<Longrightarrow> hr_managed_kinds reg' = hr_managed_kinds reg
     \<Longrightarrow> hr_allow_reserved reg' = hr_allow_reserved reg \<Longrightarrow> kinds_ok reg' = kinds_ok reg"
  by (simp add: kinds_ok_def has_kind_def kind_allowed_def)

lemma kinds_ok_unchanged:
  assumes "kinds_ok reg"
  shows "register_identity_provider n i reg = Inr reg' \<Longrightarrow> kinds_ok reg'"
    and "register_approval_resolver n r reg = Inr reg' \<Longrightarrow> kinds_ok reg'"
    and "register_approval_redactor n d reg = Inr reg' \<Longrightarrow> kinds_ok reg'"
    and "kinds_ok (control_failure_notifier c reg)"
proof -
  have eq: "kinds_ok (reg\<lparr>hr_identity_providers := a\<rparr>)" "kinds_ok (reg\<lparr>hr_approval_resolvers := b\<rparr>)"
    "kinds_ok (reg\<lparr>hr_approval_redactors := d\<rparr>)" "kinds_ok (reg\<lparr>hr_notifier := e\<rparr>)" for a b d e
    by (simp_all add: kinds_ok_same [of _ reg] assms)
  show "register_identity_provider n i reg = Inr reg' \<Longrightarrow> kinds_ok reg'"
    by (auto simp: register_identity_provider_def eq split: sum.splits if_splits)
  show "register_approval_resolver n r reg = Inr reg' \<Longrightarrow> kinds_ok reg'"
    by (auto simp: register_approval_resolver_def res_bind_Inr_iff eq split: if_splits)
  show "register_approval_redactor n d reg = Inr reg' \<Longrightarrow> kinds_ok reg'"
    by (auto simp: register_approval_redactor_def res_bind_Inr_iff eq split: if_splits)
  show "kinds_ok (control_failure_notifier c reg)"
    by (simp add: control_failure_notifier_def eq)
qed

lemma registry_step_kinds: "registry_step reg reg' \<Longrightarrow> kinds_ok reg \<Longrightarrow> kinds_ok reg'"
proof (erule registry_stepE)
  fix k f assume "kinds_ok reg" "register_kind k f reg = Inr reg'"
  then show "kinds_ok reg'" by (rule register_kind_ok [rotated])
next
  fix k f assume "kinds_ok reg" "register_managed_kind k f reg = Inr reg'"
  then show "kinds_ok reg'" by (rule register_managed_kind_ok [rotated])
qed (auto intro: kinds_ok_unchanged)

lemma registry_step_references: "registry_step reg reg' \<Longrightarrow> references_ok reg \<Longrightarrow> references_ok reg'"
  by (erule registry_stepE)
     (auto simp: references_ok_def register_kind_def register_managed_kind_def control_failure_notifier_def
       register_identity_provider_def register_approval_resolver_def register_approval_redactor_def
       check_reference_def res_bind_Inr_iff split: sum.splits if_splits)

lemma registry_ok_start: "registry_ok (new_registry s)" "registry_ok (for_conformance s)"
  by (simp_all add: new_registry_def for_conformance_def registry_ok_def kinds_ok_def references_ok_def has_kind_def)

lemma registry_registry_ok: "registry reg \<Longrightarrow> registry_ok reg"
proof (induction rule: registry.induct)
  case (registered reg reg')
  then show ?case using registry_step_kinds registry_step_references by (simp add: registry_ok_def)
qed (rule registry_ok_start)+

end
