(* ===== verification/Decl_Laws.thy ===== *)
theory Decl_Laws
  imports Decl_Registry
begin

text \<open>
  What the loader promises: the steps an accepted document has passed, the declared
  well-formedness of its resolved form, its containment in the surface and the names of the
  host, and the emitter it becomes.
\<close>

named_theorems accepted

section \<open>The checks a member has passed\<close>

lemma with_string_Nil [accepted]: "with_string v p f = [] \<longleftrightarrow> v = None \<or> (\<exists>s. v = Some (JStr s) \<and> f s = [])"
  by (auto simp: with_string_def split: option.split json.split)

lemma with_object_Nil [accepted]: "with_object v p f = [] \<longleftrightarrow> v = None \<or> (\<exists>m. v = Some (JObj m) \<and> f m = [])"
  by (auto simp: with_object_def split: option.split json.split)

lemma with_array_Nil [accepted]: "with_array v p f = [] \<longleftrightarrow> v = None \<or> (\<exists>a. v = Some (JArr a) \<and> f a = [])"
  by (auto simp: with_array_def split: option.split json.split)

lemma enum_str_Nil [accepted]: "enum_str v p as = [] \<longleftrightarrow> v = None \<or> (\<exists>s. v = Some (JStr s) \<and> s \<in> set as)"
  by (simp add: enum_str_def accepted)

lemma int_or_null_Nil [accepted]:
  "int_or_null v p lo hi = [] \<longleftrightarrow>
     v = None \<or> v = Some JNull \<or> (\<exists>u. v = Some (JNum (PosInt u)) \<and> lo \<le> unat u \<and> unat u \<le> hi)"
  by (auto simp: int_or_null_def elim: number_as_u64.elims split: option.split json.split)

lemma required_string_Nil [accepted]:
  "required_string b k bp ok = [] \<longleftrightarrow> (\<exists>s. get_str b k = Some s \<and> ok s)"
  by (auto simp: required_string_def get_str_def split: option.split json.split)

declare concat_map_Nil [accepted]

lemma in_enumerate: "(\<forall>x\<in>set (enumerate n xs). P x) \<longleftrightarrow> (\<forall>i<length xs. P (n + i, xs ! i))"
  by (force simp: set_zip enumerate_eq_zip all_set_conv_all_nth)

lemma set_items_Nil:
  "fst (set_items p allowed i seen vs) = [] \<longleftrightarrow>
     (\<exists>ss. vs = map JStr ss \<and> distinct ss \<and> set ss \<inter> set seen = {} \<and> (allowed = [] \<or> set ss \<subseteq> set allowed))"
proof (induction vs arbitrary: i seen)
  case (Cons v vs)
  have split: "(\<exists>ss. v # vs = map JStr ss \<and> Q ss) \<longleftrightarrow> (\<exists>s ss. v = JStr s \<and> vs = map JStr ss \<and> Q (s # ss))" for Q
    by (metis (no_types, opaque_lifting) list.simps(9) map_eq_Cons_conv)
  show ?case
    unfolding split
    using Cons.IH [of "Suc i" "insort_insert (case v of JStr s \<Rightarrow> s | _ \<Rightarrow> []) seen"] Cons.IH [of "Suc i" seen]
    by (cases v) (auto simp: split_beta set_insort_insert)
qed auto

lemma string_set_Nil [accepted]:
  "fst (string_set v p allowed n) = [] \<longleftrightarrow>
     v = None \<or> (\<exists>ss. v = Some (JArr (map JStr ss)) \<and> distinct ss \<and> (allowed = [] \<or> set ss \<subseteq> set allowed)
       \<and> n \<le> length ss)"
proof (cases v)
  case (Some w)
  then show ?thesis
    using set_items_Nil [of p allowed 0 "[]"] by (cases w) (auto simp: string_set_def split_beta)
qed (simp add: string_set_def)

section \<open>What an accepted document has passed\<close>

lemma from_json_Inr:
  assumes "from_json jparse text = Inr doc"
  shows "parse_document jparse text = Inr (JObj doc)" "check_version doc = Inr ()" "check_spec doc = Inr ()"
    "unknown_fields doc = []" "field_findings doc = []" "scan_integer_tokens jparse [] text = []"
    "consistency_findings doc None = []"
proof -
  obtain v where v: "parse_document jparse text = Inr v" "as_object v = Some doc"
    and c: "check_version doc = Inr ()" "check_spec doc = Inr ()" "check_unknown_fields doc = Inr ()"
      "check_fields jparse doc text = Inr ()" "check_consistency doc None = Inr ()"
    using assms by (auto simp: from_json_def res_bind_Inr_iff split: option.splits)
  from v show "parse_document jparse text = Inr (JObj doc)" by (cases v) auto
  from c show "check_version doc = Inr ()" "check_spec doc = Inr ()" by simp_all
  from c(3,5) show "unknown_fields doc = []" "consistency_findings doc None = []"
    by (simp_all add: check_unknown_fields_def check_consistency_def)
  have "set (field_findings doc) \<union> set (scan_integer_tokens jparse [] text) = {}"
    using c(4) foldl_add_new_set [of "field_findings doc" "scan_integer_tokens jparse [] text"]
    by (simp add: check_fields_def)
  then show "field_findings doc = []" "scan_integer_tokens jparse [] text = []" by simp_all
qed

lemma resolve_surface_only_Inr:
  assumes "resolve_surface_only doc code = Inr r"
  shows "r = fill doc code" "surface_ok code" "document_version doc \<in> set (hs_versions code)"
    "consistency_findings doc (Some code) = []" "surface_support_findings doc r code = []"
  using assms
  by (auto simp: resolve_surface_only_def res_bind_Inr_iff surface_validate_iff check_consistency_def
      check_surface_def Let_def split: if_splits)

text \<open>The bindings of a document whose fields are typed are all objects.\<close>

definition binding_objects :: "object \<Rightarrow> object list" where
  "binding_objects doc = List.map_filter as_object (document_bindings doc)"

lemma map_filter_objects: "(\<forall>v\<in>set vs. \<exists>m. v = JObj m) \<Longrightarrow> vs = map JObj (List.map_filter as_object vs)"
  by (induction vs) (auto simp: map_filter_simps)

lemma binding_fields_object: "binding_fields (i, v) = [] \<Longrightarrow> \<exists>m. v = JObj m"
  by (auto simp: binding_fields_def Let_def accepted)

lemma field_findings_bindings:
  assumes "field_findings doc = []"
  shows "document_bindings doc = map JObj (binding_objects doc)"
    and "length (binding_objects doc) \<le> MAX_BINDINGS"
    and "i < length (binding_objects doc) \<Longrightarrow> binding_fields (i, JObj (binding_objects doc ! i)) = []"
proof -
  obtain bs where bs: "obj_get doc ''bindings'' = Some (JArr bs)" and len: "length bs \<le> MAX_BINDINGS"
    and fs: "\<forall>i<length bs. binding_fields (i, bs ! i) = []"
    using assms
    by (auto simp: field_findings_def bindings_fields_def accepted in_enumerate [of 0, simplified]
        split: option.splits json.splits)
  then have eq: "document_bindings doc = bs" by (simp add: document_bindings_def)
  have "\<forall>v\<in>set bs. \<exists>m. v = JObj m"
    using fs binding_fields_object by (fastforce simp: in_set_conv_nth)
  then show obj: "document_bindings doc = map JObj (binding_objects doc)"
    unfolding binding_objects_def eq by (rule map_filter_objects)
  with eq len show "length (binding_objects doc) \<le> MAX_BINDINGS"
    by (metis length_map)
  show "binding_fields (i, JObj (binding_objects doc ! i)) = []" if "i < length (binding_objects doc)"
    using fs obj eq that by auto
qed

section \<open>Well-formed resolved forms\<close>

definition opt_within :: "nat \<Rightarrow> nat \<Rightarrow> nat option \<Rightarrow> bool" where
  "opt_within lo hi t \<longleftrightarrow> (\<forall>n. t = Some n \<longrightarrow> lo \<le> n \<and> n \<le> hi)"

definition opt_all :: "('a \<Rightarrow> bool) \<Rightarrow> 'a option \<Rightarrow> bool" where
  "opt_all P v \<longleftrightarrow> (\<forall>a. v = Some a \<longrightarrow> P a)"

definition binding_ok :: "resolved_surface \<Rightarrow> resolved_binding \<Rightarrow> bool" where
  "binding_ok s b \<longleftrightarrow>
     valid_reference (rb_id b) \<and> valid_kind (rb_kind b)
     \<and> rb_at b \<noteq> [] \<and> set (rb_at b) \<subseteq> set (rs_points s)
     \<and> opt_within 1 MAX_TIMEOUT_MS (rb_timeout_ms b)"

definition configuration_ok :: "resolved_configuration \<Rightarrow> bool" where
  "configuration_ok c \<longleftrightarrow>
     with_knob_defaults (rc_composition c) = rc_composition c
     \<and> opt_all (\<lambda>n. n = JCS_SHA256 \<or> validate_provider_name n = Inr () \<and> length n \<le> MAX_ID_LEN)
         (rc_identity_provider c)
     \<and> opt_all valid_reference (ra_resolver (rc_approval c)) \<and> opt_all valid_reference (ra_redactor (rc_approval c))
     \<and> opt_within 1 MAX_TIMEOUT_MS (rt_interceptor_ms (rc_timeouts c))
     \<and> opt_within 1 MAX_TIMEOUT_MS (rt_approval_resolver_ms (rc_timeouts c))
     \<and> opt_within 1 MAX_BUFFERED_RECORDS (rc_max_buffered c)"

definition resolved_surface_ok :: "resolved_surface \<Rightarrow> bool" where
  "resolved_surface_ok s \<longleftrightarrow>
     points_ok (rs_points s)
     \<and> (''model_calls'' \<in> set (rs_capabilities s) \<longleftrightarrow> model_points (rs_points s))
     \<and> (''tool_calls'' \<in> set (rs_capabilities s) \<longleftrightarrow> tool_points (rs_points s))
     \<and> set (rs_capabilities s) \<subseteq> set CAPABILITIES
     \<and> (''incremental_output'' \<in> set (rs_capabilities s) \<longrightarrow> \<not> rs_buffered s)
     \<and> (rs_exposure_bound s \<noteq> None \<longleftrightarrow> \<not> rs_buffered s)"

definition resolved_ok :: "resolved_declaration \<Rightarrow> bool" where
  "resolved_ok r \<longleftrightarrow>
     (\<exists>spec. spec_from_wire (rd_spec r) = Some spec \<and> accepts_declaration spec (rd_declaration r)
        \<and> (\<forall>b\<in>set (rd_bindings r). rb_on_error b = OE_Continue \<longrightarrow> has_failure_posture spec))
     \<and> configuration_ok (rd_configuration r)
     \<and> resolved_surface_ok (rd_surface r)
     \<and> length (rd_bindings r) \<le> MAX_BINDINGS
     \<and> distinct (map rb_id (rd_bindings r))
     \<and> (\<forall>b\<in>set (rd_bindings r). binding_ok (rd_surface r) b)"

lemma opt_within_None [simp]: "opt_within lo hi None"
  by (simp add: opt_within_def)

lemma opt_all_simps [simp]: "opt_all P None" "opt_all P (Some a) \<longleftrightarrow> P a"
  by (simp_all add: opt_all_def)

lemma get_int_within:
  assumes "int_or_null (obj_get m k) p lo hi = []"
  shows "opt_within lo hi (or_else (get_int_or_null m k) None)"
    and "opt_within lo hi d \<Longrightarrow> opt_within lo hi (or_else (get_int_or_null m k) d)"
  using assms by (auto simp: accepted get_int_or_null_def opt_within_def)

lemma with_object_get: "with_object (obj_get m k) p f = [] \<Longrightarrow> get_object m k = Some o' \<Longrightarrow> f o' = []"
  by (auto simp: accepted get_object_def)

lemma point_set_nonempty:
  assumes "fst (string_set (obj_get b ''at'') p (map point_str ALL_POINTS) 1) = []" "point_set b ''at'' = Some ps"
  shows "ps \<noteq> []"
proof -
  have "map point_str ALL_POINTS \<noteq> []" by (simp add: ALL_POINTS_def)
  moreover have "obj_get b ''at'' \<noteq> None" using assms(2) by (cases "obj_get b ''at''") (auto simp: point_set_def)
  ultimately obtain ss where ss: "obj_get b ''at'' = Some (JArr (map JStr ss))" "1 \<le> length ss"
    "set ss \<subseteq> set (map point_str ALL_POINTS)"
    using assms(1) unfolding string_set_Nil by metis
  then obtain s where s: "s \<in> set ss" by (cases ss) auto
  with ss(3) obtain q where q: "s = point_str q" by auto
  have "ps = bt_set (List.map_filter point_from_str ss)"
    using ss(1) assms(2) by (simp add: point_set_def map_filter_def comp_def filter_map)
  then have "q \<in> set ps" using s q by (force simp: map_filter_def)
  then show ?thesis by auto
qed

lemma fill_binding_ok:
  assumes "binding_fields (i, JObj b) = []" "opt_within 1 MAX_TIMEOUT_MS ms" "rs_points s \<noteq> []"
    and "\<And>at. point_set b ''at'' = Some at \<Longrightarrow> set at \<subseteq> set (rs_points s)"
  shows "binding_ok s (fill_binding s ms e b)"
proof -
  have f: "required_string b ''id'' (binding_ptr i) valid_reference = []"
    "required_string b ''kind'' (binding_ptr i) valid_kind = []"
    "fst (string_set (obj_get b ''at'') (ptr (binding_ptr i) ''at'') (map point_str ALL_POINTS) 1) = []"
    "int_or_null (obj_get b ''timeout_ms'') (ptr (binding_ptr i) ''timeout_ms'') 1 MAX_TIMEOUT_MS = []"
    using assms(1) by (auto simp: binding_fields_def Let_def with_object_Nil)
  from f(1,2) get_int_within(2) [OF f(4) assms(2)] show ?thesis
    using point_set_nonempty [OF f(3)] assms(3,4)
    by (cases "point_set b ''at''") (auto simp: binding_ok_def fill_binding_def required_string_Nil)
qed

lemma reference_fields_Nil: "reference_fields t key = [] \<Longrightarrow> get_str t key = Some s \<Longrightarrow> valid_reference s"
  by (auto simp: reference_fields_def get_str_def split: option.splits json.splits)

definition cfg_int :: "object \<Rightarrow> string \<Rightarrow> string \<Rightarrow> nat option \<Rightarrow> nat option" where
  "cfg_int doc k k' d = or_else (Option.bind (sub_configuration doc k) (\<lambda>t. get_int_or_null t k')) d"

lemma cfg_int_within:
  assumes "\<And>o'. sub_configuration doc k = Some o' \<Longrightarrow> int_or_null (obj_get o' k') p lo hi = []" "opt_within lo hi d"
  shows "opt_within lo hi (cfg_int doc k k' d)"
  using assms get_int_within(2) [of _ k' p lo hi d] by (cases "sub_configuration doc k") (auto simp: cfg_int_def)

lemma fill_configuration_ok:
  assumes "field_findings doc = []"
  shows "configuration_ok (fill_configuration doc)"
proof -
  have cfg: "configuration_fields c = []" if "get_object doc ''configuration'' = Some c" for c
    using assms that by (auto simp: field_findings_def intro: with_object_get)
  have t: "int_or_null (obj_get t key) (ptr ''/configuration/timeouts'' key) 1 MAX_TIMEOUT_MS = []"
    if "sub_configuration doc ''timeouts'' = Some t" "key \<in> set TIMEOUT_KEYS" for t key
    using that cfg with_object_get [of _ "''timeouts''"]
    by (fastforce simp: sub_configuration_def configuration_fields_def bind_eq_Some_conv)
  have r: "int_or_null (obj_get t ''max_buffered'') ''/configuration/records/max_buffered'' 1 MAX_BUFFERED_RECORDS = []"
    if "sub_configuration doc ''records'' = Some t" for t
    using that cfg with_object_get [of _ "''records''"]
    by (fastforce simp: sub_configuration_def configuration_fields_def bind_eq_Some_conv)
  have a: "reference_fields t key = []" if "sub_configuration doc ''approval'' = Some t" "key \<in> set APPROVAL_KEYS" for t key
    using that cfg with_object_get [of _ "''approval''"]
    by (fastforce simp: sub_configuration_def configuration_fields_def bind_eq_Some_conv)
  have ref: "opt_all valid_reference (Option.bind (sub_configuration doc ''approval'') (\<lambda>a. get_str a key))"
    if "key \<in> set APPROVAL_KEYS" for key
    using a that by (auto simp: opt_all_def bind_eq_Some_conv intro: reference_fields_Nil)
  have ms: "opt_within 1 MAX_TIMEOUT_MS (cfg_int doc ''timeouts'' ''interceptor_ms'' (Some 5000))"
    using t by (intro cfg_int_within [where p = "ptr ''/configuration/timeouts'' ''interceptor_ms''"])
      (auto simp: TIMEOUT_KEYS_def opt_within_def MAX_TIMEOUT_MS_def)
  have am: "opt_within 1 MAX_TIMEOUT_MS (cfg_int doc ''timeouts'' ''approval_resolver_ms'' d)"
    if "opt_within 1 MAX_TIMEOUT_MS d" for d
    using t that by (intro cfg_int_within [where p = "ptr ''/configuration/timeouts'' ''approval_resolver_ms''"])
      (auto simp: TIMEOUT_KEYS_def)
  have mb: "opt_within 1 MAX_BUFFERED_RECORDS (cfg_int doc ''records'' ''max_buffered'' None)"
    using r by (intro cfg_int_within [where p = "''/configuration/records/max_buffered''"]) auto
  have idp: "opt_all (\<lambda>n. n = JCS_SHA256 \<or> validate_provider_name n = Inr () \<and> length n \<le> MAX_ID_LEN)
      (identity_of doc)"
  proof (cases "get_object doc ''configuration''")
    case (Some c)
    then have "provider_fields (obj_get c ''identity_provider'') = []"
      using cfg by (auto simp: configuration_fields_def)
    with Some show ?thesis
      by (auto simp: identity_of_def provider_fields_def res_ok_iff split: option.splits json.splits)
  qed (simp add: identity_of_def)
  show ?thesis
    using ms am [OF ms] mb idp ref
    by (simp add: configuration_ok_def fill_configuration_def Let_def timeout_of_def cfg_int_def APPROVAL_KEYS_def
        with_knob_defaults_idem)
qed

lemma surface_view_filled [simp]:
  "vw_points (surface_view_of doc (Some code)) = Some (rs_points (resolve_surface doc code))"
  "vw_capabilities (surface_view_of doc (Some code)) = Some (rs_capabilities (resolve_surface doc code))"
  "vw_buffered (surface_view_of doc (Some code)) = rs_buffered (resolve_surface doc code)"
  "vw_versions (surface_view_of doc (Some code)) = Some (rs_versions (resolve_surface doc code))"
  by (simp_all add: surface_view_of_def Let_def)

lemma buffered_fields_Nil:
  assumes "buffered_fields s = []"
  shows "get_str s ''exposure_bound'' \<noteq> None \<longleftrightarrow> \<not> or_else (Option.bind (obj_get s ''buffered_output'') as_bool) True"
proof -
  have "(get_str s ''exposure_bound'' \<noteq> None) = contains_key s ''exposure_bound''"
    using assms by (auto simp: buffered_fields_def with_string_Nil get_str_def contains_key_def split: prod.splits)
  then show ?thesis
    using assms by (auto simp: buffered_fields_def Let_def split: option.splits json.splits)
qed

lemma resolve_surface_ok:
  assumes code: "surface_ok code" and f: "field_findings doc = []"
    and c: "consistency_findings doc (Some code) = []"
    and sub: "set (rs_capabilities (resolve_surface doc code)) \<subseteq> set (hs_capabilities code)"
  shows "resolved_surface_ok (resolve_surface doc code)"
proof -
  let ?s = "resolve_surface doc code"
  have "points_findings (surface_view_of doc (Some code)) = []"
    "incremental_document_findings doc (surface_view_of doc (Some code)) = []"
    using c by (simp_all add: consistency_findings_def Let_def)
  then have pts: "points_ok (rs_points ?s)"
    "''model_calls'' \<in> set (rs_capabilities ?s) \<longleftrightarrow> model_points (rs_points ?s)"
    "''tool_calls'' \<in> set (rs_capabilities ?s) \<longleftrightarrow> tool_points (rs_points ?s)"
    "\<not> (''incremental_output'' \<in> set (rs_capabilities ?s) \<and> rs_buffered ?s)"
    by (simp_all add: points_findings_def incremental_document_findings_def pair_capability_findings_def
        points_ok_def floor_findings_iff pair_findings_iff)
  have "rs_exposure_bound ?s \<noteq> None \<longleftrightarrow> \<not> rs_buffered ?s"
  proof (cases "get_object doc ''surface''")
    case None
    with code show ?thesis by (auto simp: resolve_surface_def Let_def surface_ok_def)
  next
    case (Some s)
    then have "buffered_fields s = []"
      using f with_object_get [of doc "''surface''"] by (fastforce simp: field_findings_def surface_fields_def)
    with Some show ?thesis using buffered_fields_Nil by (simp add: resolve_surface_def)
  qed
  then show ?thesis using pts sub code by (auto simp: resolved_surface_ok_def surface_ok_def)
qed

section \<open>Continuing needs the draft\<close>

lemma parse_versions:
  "parse_declaration_version DECLARATION_1_0 = Some (1, 0)"
  "parse_declaration_version DECLARATION_VERSION = Some (1, 1)"
  by code_simp+

lemma on_error_introduced:
  assumes "check_version doc = Inr ()" "\<not> introduced_later doc ON_ERROR_SINCE" "document_spec doc = Some spec"
  shows "has_failure_posture spec"
proof (rule ccontr)
  assume "\<not> has_failure_posture spec"
  then have "spec = V0_1" by (cases spec) auto
  with assms(1,3) have "get_str doc ''declaration'' = Some DECLARATION_1_0"
    by (auto simp: check_version_iff accepted_declaration_versions_def)
  with assms(2) show False by (simp add: introduced_later_def parse_versions ON_ERROR_SINCE_def)
qed

lemma continue_introduced:
  assumes "unknown_fields doc = []" "i < length (binding_objects doc)"
    and obj: "document_bindings doc = map JObj (binding_objects doc)"
    and c: "rb_on_error (fill_binding s ms (on_error_of doc) (binding_objects doc ! i)) = OE_Continue"
  shows "\<not> introduced_later doc ON_ERROR_SINCE"
proof (cases "get_str (binding_objects doc ! i) ''on_error''")
  case (Some v)
  have "unknown_binding doc (i, JObj (binding_objects doc ! i)) = []"
    using assms(1,2) obj by (auto simp: unknown_fields_def in_enumerate [of 0, simplified])
  moreover have "contains_key (binding_objects doc ! i) ''on_error''"
    using Some by (auto simp: get_str_def contains_key_def bind_eq_Some_conv)
  ultimately show ?thesis by (simp add: unknown_binding_def)
next
  case None
  with c have "on_error_of doc = OE_Continue" by (simp add: fill_binding_def)
  then obtain cfg fl where cfg: "get_object doc ''configuration'' = Some cfg" "get_object cfg ''failure'' = Some fl"
    by (auto simp: on_error_of_def sub_configuration_def bind_eq_Some_conv elim!: or_else.elims)
  then have "unknown_configuration doc cfg = []" "contains_key cfg ''failure''"
    using assms(1) by (auto simp: unknown_fields_def get_object_def contains_key_def bind_eq_Some_conv)
  then show ?thesis by (simp add: unknown_configuration_def)
qed

section \<open>The resolved form of an accepted document\<close>

lemma binding_findings_Cons:
  "get_str b ''id'' = Some s \<Longrightarrow>
     binding_findings (Some ps) i seen (JObj b # vs) = [] \<longleftrightarrow>
       s \<notin> set seen \<and> (\<forall>at. point_set b ''at'' = Some at \<longrightarrow> set at \<subseteq> set ps)
       \<and> binding_findings (Some ps) (i + 1) (insort_insert s seen) vs = []"
  by (cases "point_set b ''at''") simp_all

lemma binding_findings_objects:
  assumes "binding_findings (Some ps) i seen (map JObj bs) = []" "\<forall>b\<in>set bs. get_str b ''id'' \<noteq> None"
  shows "distinct (map (\<lambda>b. or_else (get_str b ''id'') []) bs)
    \<and> set (map (\<lambda>b. or_else (get_str b ''id'') []) bs) \<inter> set seen = {}
    \<and> (\<forall>b\<in>set bs. \<forall>at. point_set b ''at'' = Some at \<longrightarrow> set at \<subseteq> set ps)"
  using assms
proof (induction bs arbitrary: i seen)
  case (Cons b bs)
  then obtain s where s: "get_str b ''id'' = Some s" by auto
  note step = binding_findings_Cons [OF s, of ps i seen "map JObj bs"]
  show ?case
    using Cons.IH [of "i + 1" "insort_insert s seen"] Cons.prems step s
    by (auto simp: set_insort_insert simp del: binding_findings.simps)
qed simp

lemma binding_fields_id: "binding_fields (i, JObj b) = [] \<Longrightarrow> get_str b ''id'' \<noteq> None"
  by (auto simp: binding_fields_def Let_def with_object_Nil required_string_Nil)

lemma fill_bindings:
  "rd_bindings (fill doc code) =
     map (fill_binding (resolve_surface doc code) (timeout_of doc ''interceptor_ms'' (Some 5000)) (on_error_of doc))
       (binding_objects doc)"
  by (simp add: fill_def Let_def binding_objects_def)

lemma fill_simps [simp]:
  "rd_surface (fill doc code) = resolve_surface doc code"
  "rd_configuration (fill doc code) = fill_configuration doc"
  "rd_declaration (fill doc code) = or_else (get_str doc ''declaration'') []"
  "rd_spec (fill doc code) = or_else (get_str doc ''spec'') []"
  by (simp_all add: fill_def Let_def)

lemma resolved_well_formed:
  assumes doc: "from_json jparse text = Inr doc" and r: "resolve_surface_only doc code = Inr r"
  shows "resolved_ok r"
proof -
  note d = from_json_Inr [OF doc] and r' = resolve_surface_only_Inr [OF r]
  let ?s = "resolve_surface doc code" and ?bs = "binding_objects doc"
  note obj = field_findings_bindings [OF d(5)]
  have s: "resolved_surface_ok ?s"
    using r'(1,5) by (intro resolve_surface_ok [OF r'(2) d(5) r'(4)]) (simp add: surface_support_findings_def Let_def)
  then have ne: "rs_points ?s \<noteq> []" by (auto simp: resolved_surface_ok_def points_ok_def FLOOR_POINTS_def)
  have cfg: "configuration_ok (fill_configuration doc)" by (rule fill_configuration_ok [OF d(5)])
  then have ms: "opt_within 1 MAX_TIMEOUT_MS (timeout_of doc ''interceptor_ms'' (Some 5000))"
    by (simp add: configuration_ok_def fill_configuration_def Let_def)
  have bf: "binding_findings (Some (rs_points ?s)) 0 [] (map JObj ?bs) = []"
    using r'(4) obj(1) by (simp add: consistency_findings_def Let_def)
  have ids: "\<forall>b\<in>set ?bs. get_str b ''id'' \<noteq> None"
    using obj(3) binding_fields_id by (fastforce simp: in_set_conv_nth)
  obtain spec where spec: "document_spec doc = Some spec" using d(3) by (auto simp: check_spec_iff)
  then obtain v where v: "get_str doc ''declaration'' = Some v" "accepts_declaration spec v"
    using d(2) by (auto simp: check_version_iff accepted_declaration_versions_def accepts_declaration_def)
  have wire: "spec_from_wire (rd_spec r) = Some spec"
    using spec by (auto simp: r'(1) document_spec_def bind_eq_Some_conv)
  have cont: "has_failure_posture spec" if "b \<in> set (rd_bindings r)" "rb_on_error b = OE_Continue" for b
  proof -
    from that obtain i where "i < length ?bs" "rb_on_error (fill_binding ?s (timeout_of doc ''interceptor_ms''
        (Some 5000)) (on_error_of doc) (?bs ! i)) = OE_Continue"
      by (auto simp: r'(1) fill_bindings in_set_conv_nth)
    then show ?thesis using continue_introduced [OF d(4) _ obj(1)] on_error_introduced [OF d(2) _ spec] by blast
  qed
  have binds: "binding_ok ?s b" if "b \<in> set (rd_bindings r)" for b
  proof -
    from that obtain i where i: "i < length ?bs" and b: "b = fill_binding ?s
        (timeout_of doc ''interceptor_ms'' (Some 5000)) (on_error_of doc) (?bs ! i)"
      by (auto simp: r'(1) fill_bindings in_set_conv_nth)
    show ?thesis unfolding b
      using binding_findings_objects [OF bf ids] nth_mem [OF i]
      by (intro fill_binding_ok [OF obj(3) [OF i] ms ne]) blast
  qed
  have "distinct (map rb_id (rd_bindings r))"
    using binding_findings_objects [OF bf ids]
    by (simp add: r'(1) fill_bindings fill_binding_def comp_def)
  then show ?thesis
    using s cfg binds cont wire v obj(2) unfolding resolved_ok_def by (auto simp: r'(1) fill_bindings)
qed

section \<open>Within the surface of the host\<close>

definition within_surface :: "host_surface \<Rightarrow> resolved_declaration \<Rightarrow> bool" where
  "within_surface code r \<longleftrightarrow>
     set (rs_points (rd_surface r)) \<subseteq> set (hs_points code)
     \<and> set (rs_capabilities (rd_surface r)) \<subseteq> set (hs_capabilities code)
     \<and> set (rs_versions (rd_surface r)) \<subseteq> set (hs_versions code)
     \<and> rd_declaration r \<in> set (hs_versions code)
     \<and> (\<forall>(p, k)\<in>set (rs_profiles (rd_surface r)). opt_holds (knobs_subset k) (map_of (hs_profiles code) p))
     \<and> opt_holds (\<lambda>k. \<forall>(knob, v)\<in>set (composition_knobs (rc_composition (rd_configuration r))).
           opt_all (\<lambda>v. v \<in> set (knob_get k knob)) v)
         (map_of (hs_profiles code) (profile (rc_composition (rd_configuration r))))
     \<and> (rs_buffered (rd_surface r) \<or> hs_streams_unbuffered code)
     \<and> rc_tool_seam (rd_configuration r) = hs_tool_seam code
     \<and> (hs_timeout code = TimeoutUnbounded \<longrightarrow>
          rt_interceptor_ms (rc_timeouts (rd_configuration r)) = None
          \<and> rt_approval_resolver_ms (rc_timeouts (rd_configuration r)) = None
          \<and> (\<forall>b\<in>set (rd_bindings r). rb_timeout_ms b = None))"

lemma timeout_findings_Nil:
  assumes obj: "document_bindings doc = map JObj (binding_objects doc)" and r: "r = fill doc code"
    and f: "timeout_findings doc r = []"
  shows "rt_interceptor_ms (rc_timeouts (rd_configuration r)) = None"
    and "rt_approval_resolver_ms (rc_timeouts (rd_configuration r)) = None"
    and "\<forall>b\<in>set (rd_bindings r). rb_timeout_ms b = None"
proof -
  show t: "rt_interceptor_ms (rc_timeouts (rd_configuration r)) = None"
    "rt_approval_resolver_ms (rc_timeouts (rd_configuration r)) = None"
    using f by (simp_all add: timeout_findings_def Let_def)
  then have ms: "timeout_of doc ''interceptor_ms'' (Some 5000) = None"
    by (simp add: r fill_configuration_def Let_def)
  show "\<forall>b\<in>set (rd_bindings r). rb_timeout_ms b = None"
  proof
    fix b assume "b \<in> set (rd_bindings r)"
    then obtain i where i: "i < length (rd_bindings r)" "b = rd_bindings r ! i" by (auto simp: in_set_conv_nth)
    then have len: "i < length (binding_objects doc)" by (simp add: r fill_bindings)
    have st: "stated_timeout doc i \<longrightarrow> rb_timeout_ms b = None"
      using f i by (auto simp: timeout_findings_def Let_def in_enumerate [of 0, simplified])
    show "rb_timeout_ms b = None"
    proof (cases "stated_timeout doc i")
      case False
      then have "get_int_or_null (binding_objects doc ! i) ''timeout_ms'' \<in> {None, Some None}"
        using len obj by (auto simp: stated_timeout_def get_int_or_null_def split: option.splits json.splits)
      with len i(2) ms show ?thesis by (auto simp: r fill_bindings fill_binding_def)
    qed (use st in simp)
  qed
qed

lemma opt_all_holds: "opt_all P v \<longleftrightarrow> \<not> opt_holds (\<lambda>a. \<not> P a) v"
  by (cases v) simp_all

lemma composition_findings_Nil:
  "composition_findings c ps = [] \<longleftrightarrow>
     opt_holds (\<lambda>k. \<forall>(knob, v)\<in>set (composition_knobs c). opt_all (\<lambda>v. v \<in> set (knob_get k knob)) v)
       (map_of ps (profile c))"
  by (auto simp: composition_findings_def unsupported_knobs_def opt_all_holds split: option.splits)

lemma profile_support_Nil:
  "profile_support_findings ps (p, k) = [] \<longleftrightarrow> opt_holds (knobs_subset k) (map_of ps p)"
  by (simp add: profile_support_findings_def split: option.split)

lemma resolved_within_surface:
  assumes doc: "from_json jparse text = Inr doc" and r: "resolve_surface_only doc code = Inr r"
  shows "within_surface code r"
proof -
  note d = from_json_Inr [OF doc] and r' = resolve_surface_only_Inr [OF r]
  have "timeout_findings doc r = []" if "hs_timeout code = TimeoutUnbounded"
    using r'(5) that by (simp add: surface_support_findings_def Let_def)
  note t = timeout_findings_Nil [OF field_findings_bindings(1) [OF d(5)] r'(1) this]
  have "rd_declaration r \<in> set (hs_versions code)"
    using r'(1,3) by (simp add: document_version_def)
  moreover have "\<forall>(p, k)\<in>set (rs_profiles (rd_surface r)). opt_holds (knobs_subset k) (map_of (hs_profiles code) p)"
    using r'(5) profile_support_Nil
    by (force simp: surface_support_findings_def Let_def)
  ultimately show ?thesis
    using r'(5) t unfolding within_surface_def
    by (auto simp: surface_support_findings_def Let_def composition_findings_Nil)
qed

end
