(* ===== verification/Decl_Emitter.thy ===== *)
theory Decl_Emitter
  imports Decl_Laws Emission_Lifecycle
begin

text \<open>
  The emitter built from a declaration: what it carries over from the resolved form, which
  kind resolvers were called on the way, and what a host can no longer change about it.
\<close>

section \<open>Calling the kind resolvers\<close>

definition binding_call :: "resolved_declaration \<Rightarrow> resolved_binding \<Rightarrow> kind_call" where
  "binding_call r b = (rb_config b, binding_context_of r b)"

definition binding_calls :: "resolved_declaration \<Rightarrow> kind_call list" where
  "binding_calls r = map (binding_call r) (rd_bindings r)"

text \<open>A bound interceptor carries the resolved members of its binding.\<close>

definition carries :: "resolved_binding \<Rightarrow> bound \<Rightarrow> bool" where
  "carries rb b \<longleftrightarrow> (\<exists>i. b = bound_of rb i)"

text \<open>
  How a run over bindings \<open>i, i + 1, ..\<close> ends after \<open>n\<close> resolver calls: all are
  built, the last call is rejected, or a kind has no resolver.
\<close>

definition build_outcome ::
  "host_registry \<Rightarrow> nat \<Rightarrow> resolved_binding list \<Rightarrow> bound list \<Rightarrow> declaration_error + bound list \<Rightarrow> nat \<Rightarrow> bool" where
  "build_outcome reg i bs out res n \<longleftrightarrow>
     (\<exists>out'. res = Inr (out @ out') \<and> n = length bs \<and> list_all2 carries bs out')
     \<or> (\<exists>j<length bs. res = Inl (decl_error BindingRejected (binding_ptr (i + j))) \<and> n = Suc j)
     \<or> (\<exists>j<length bs. res = Inl (decl_error KindUnknown (binding_ptr (i + j) @ ''/kind''))
          \<and> \<not> has_kind reg (rb_kind (bs ! j)) \<and> n = j)"

lemma build_outcome_Nil: "build_outcome reg i [] out (Inr out) 0"
  by (simp add: build_outcome_def)

lemma build_outcome_unknown:
  "\<not> has_kind reg (rb_kind b) \<Longrightarrow>
     build_outcome reg i (b # bs) out (Inl (decl_error KindUnknown (binding_ptr i @ ''/kind''))) 0"
  by (auto simp: build_outcome_def)

lemma build_outcome_rejected: "build_outcome reg i (b # bs) out (Inl (decl_error BindingRejected (binding_ptr i))) 1"
  by (force simp: build_outcome_def)

lemma build_outcome_Cons:
  assumes "build_outcome reg (i + 1) bs (out @ [bound_of b ic]) res n"
  shows "build_outcome reg i (b # bs) out res (Suc n)"
  using assms unfolding build_outcome_def
proof (elim disjE exE conjE)
  fix out' assume "res = Inr ((out @ [bound_of b ic]) @ out')" "n = length bs" "list_all2 carries bs out'"
  then show "(\<exists>out'. res = Inr (out @ out') \<and> Suc n = length (b # bs) \<and> list_all2 carries (b # bs) out')
     \<or> (\<exists>j<length (b # bs). res = Inl (decl_error BindingRejected (binding_ptr (i + j))) \<and> Suc n = Suc j)
     \<or> (\<exists>j<length (b # bs). res = Inl (decl_error KindUnknown (binding_ptr (i + j) @ ''/kind''))
          \<and> \<not> has_kind reg (rb_kind ((b # bs) ! j)) \<and> Suc n = j)"
    by (intro disjI1 exI [of _ "bound_of b ic # out'"]) (auto simp: carries_def)
qed (force simp: Suc_less_eq2)+

lemma answer_cases [case_names unknown built panicked refused]:
  obtains "q = None" | ic where "q = Some (Some (Inr ic))" | "q = Some None" | msg where "q = Some (Some (Inl msg))"
  by (metis option.exhaust sum.exhaust)

lemma build_bindings_outcome:
  assumes "build_bindings reg r i bs out calls = (res, calls')"
  shows "\<exists>n\<le>length bs. build_outcome reg i bs out res n \<and> calls' = calls @ map (binding_call r) (take n bs)"
  using assms
proof (induction bs arbitrary: i out calls)
  case Nil
  then show ?case by (auto simp: build_outcome_Nil)
next
  case (Cons b bs)
  let ?c = "binding_context_of r b"
  show ?case
  proof (cases "call_resolver reg b ?c calls" rule: answer_cases)
    case unknown
    then have "\<not> has_kind reg (rb_kind b)"
      by (auto simp: call_resolver_def has_kind_def split: option.splits)
    with unknown Cons.prems show ?thesis by (auto intro!: exI [of _ 0] build_outcome_unknown)
  next
    case (built ic)
    with Cons.prems have
      "build_bindings reg r (i + 1) bs (out @ [bound_of b ic]) (calls @ [binding_call r b]) = (res, calls')"
      by (simp add: binding_call_def)
    from Cons.IH [OF this] obtain n where n: "n \<le> length bs"
      "build_outcome reg (i + 1) bs (out @ [bound_of b ic]) res n"
      "calls' = calls @ map (binding_call r) (take (Suc n) (b # bs))"
      by auto
    then show ?thesis by (intro exI [of _ "Suc n"]) (auto intro: build_outcome_Cons)
  next
    case panicked
    with Cons.prems show ?thesis
      by (auto simp: binding_call_def intro!: exI [of _ 1] build_outcome_rejected [simplified])
  next
    case (refused msg)
    with Cons.prems show ?thesis
      by (auto simp: binding_call_def intro!: exI [of _ 1] build_outcome_rejected [simplified])
  qed
qed

text \<open>Every resolver accepts, whatever it was asked before.\<close>

definition accepting :: "host_registry \<Rightarrow> bool" where
  "accepting reg \<longleftrightarrow>
     (\<forall>k f. map_of (hr_kinds reg) k = Some f \<longrightarrow> (\<forall>l c x. \<exists>i. f l c x = Some (Inr i)))
     \<and> (\<forall>k f. map_of (hr_managed_kinds reg) k = Some f \<longrightarrow> (\<forall>l c x. \<exists>i. f l c x = Some (Inr i)))"

lemma call_resolver_accepting:
  assumes "accepting reg" "has_kind reg (rb_kind b)"
  shows "\<exists>ic. call_resolver reg b c calls = Some (Some (Inr ic))"
proof (cases "map_of (hr_kinds reg) (rb_kind b)")
  case None
  with assms(2) obtain f where f: "map_of (hr_managed_kinds reg) (rb_kind b) = Some f" by (auto simp: has_kind_def)
  with assms(1) obtain i where "f calls (rb_config b) c = Some (Inr i)" unfolding accepting_def by blast
  with None f show ?thesis by (simp add: call_resolver_def)
next
  case (Some f)
  with assms(1) obtain i where "f calls (rb_config b) c = Some (Inr i)" unfolding accepting_def by blast
  with Some show ?thesis by (simp add: call_resolver_def)
qed

lemma build_bindings_accepting:
  assumes "accepting reg" "\<forall>b\<in>set bs. has_kind reg (rb_kind b)"
  shows "\<exists>out' calls'. build_bindings reg r i bs out calls = (Inr out', calls')"
  using assms(2)
proof (induction bs arbitrary: i out calls)
  case (Cons b bs)
  obtain ic where "call_resolver reg b (binding_context_of r b) calls = Some (Some (Inr ic))"
    using call_resolver_accepting [OF assms(1)] Cons.prems by fastforce
  with Cons show ?case by simp
qed simp

section \<open>The declared emitter\<close>

text \<open>The configuration of an emitter is the one of the resolved form.\<close>

definition runs_declared :: "resolved_declaration \<Rightarrow> emitter \<Rightarrow> bool" where
  "runs_declared r em \<longleftrightarrow>
     (let cfg = rd_configuration r in
      e_sealed em
      \<and> list_all2 carries (rd_bindings r) (e_interceptors em)
      \<and> e_mode em = rc_mode cfg
      \<and> e_composition em = rc_composition cfg
      \<and> identity_name (e_identity em) = rc_identity_provider cfg
      \<and> (e_resolver em = None \<longleftrightarrow> ra_resolver (rc_approval cfg) = None)
      \<and> (e_redactor em = None \<longleftrightarrow> ra_redactor (rc_approval cfg) = None)
      \<and> e_timeout em = rt_interceptor_ms (rc_timeouts cfg)
      \<and> e_resolver_timeout em = rt_approval_resolver_ms (rc_timeouts cfg)
      \<and> e_max_records em = rc_max_buffered cfg
      \<and> spec_from_wire (rd_spec r) = Some (e_spec em)
      \<and> e_declaration em = Some (rd_declaration r))"

definition names_registered :: "host_registry \<Rightarrow> resolved_declaration \<Rightarrow> bool" where
  "names_registered reg r \<longleftrightarrow>
     (let cfg = rd_configuration r in
      opt_all (\<lambda>n. n = JCS_SHA256 \<or> map_of (hr_identity_providers reg) n \<noteq> None) (rc_identity_provider cfg)
      \<and> opt_all (\<lambda>n. map_of (hr_approval_resolvers reg) n \<noteq> None) (ra_resolver (rc_approval cfg))
      \<and> opt_all (\<lambda>n. map_of (hr_approval_redactors reg) n \<noteq> None) (ra_redactor (rc_approval cfg))
      \<and> (\<forall>b\<in>set (rd_bindings r). has_kind reg (rb_kind b))
      \<and> ((\<exists>b\<in>set (rd_bindings r). rb_on_error b = OE_Continue) \<longrightarrow> hr_notifier reg \<noteq> None))"

lemma map_of_not_None: "map_of m k \<noteq> None \<longleftrightarrow> k \<in> set (map fst m)"
  by (simp add: map_of_eq_None_iff)

lemma has_kind_keys: "has_kind reg k \<longleftrightarrow> k \<in> set (map fst (hr_kinds reg)) \<or> k \<in> set (map fst (hr_managed_kinds reg))"
  unfolding has_kind_def map_of_not_None ..

lemma opt_registered:
  "opt_all (\<lambda>n. map_of m n \<noteq> None) v \<longleftrightarrow> \<not> opt_holds (\<lambda>n. n \<notin> set (map fst m)) v"
  "opt_all (\<lambda>n. n = d \<or> map_of m n \<noteq> None) v \<longleftrightarrow> \<not> opt_holds (\<lambda>n. n \<noteq> d \<and> n \<notin> set (map fst m)) v"
  unfolding map_of_not_None by (cases v; simp)+

lemma registry_resolve_Inr:
  assumes "registry_resolve doc reg = Inr r"
  shows "resolve_surface_only doc (hr_surface reg) = Inr r" "names_registered reg r"
proof -
  have c: "resolve_surface_only doc (hr_surface reg) = Inr r" "check_names r (registry_names_of reg) = Inr ()"
    "check_principal_channel doc r (hr_notifier reg \<noteq> None) = Inr ()"
    using assms by (auto simp: registry_resolve_def res_bind_Inr_iff)
  show "resolve_surface_only doc (hr_surface reg) = Inr r" by (rule c(1))
  have "\<forall>b\<in>set (rd_bindings r). has_kind reg (rb_kind b)"
    using c(2)
    by (auto simp: check_names_def res_bind_Inr_iff Let_def registry_names_of_def has_kind_keys
        in_enumerate [of 0, simplified] in_set_conv_nth [of _ "rd_bindings r"])
  moreover have "hr_notifier reg \<noteq> None" if "\<exists>b\<in>set (rd_bindings r). rb_on_error b = OE_Continue"
    using c(3) that
    by (auto simp: check_principal_channel_def channel_findings_def Let_def in_enumerate [of 0, simplified]
        in_set_conv_nth split: if_splits)
  ultimately show "names_registered reg r"
    using c(2) unfolding names_registered_def Let_def opt_registered
    by (simp add: check_names_def res_bind_Inr_iff Let_def registry_names_of_def)
qed

lemma referenced_Inr:
  "referenced m name p = Inr v \<longleftrightarrow> (case name of None \<Rightarrow> v = None | Some n \<Rightarrow> map_of m n \<noteq> None \<and> v = map_of m n)"
  by (auto simp: referenced_def split: option.splits)

lemma built_identity_Inr:
  assumes "opt_all (\<lambda>n. n = JCS_SHA256 \<or> map_of (hr_identity_providers reg) n \<noteq> None) name"
    and "opt_all (\<lambda>n. n = JCS_SHA256 \<or> validate_provider_name n = Inr () \<and> length n \<le> MAX_ID_LEN) name"
  shows "\<exists>idp. built_identity reg name = Inr idp \<and> identity_name idp = name
    \<and> (\<forall>em. provider_ok (em\<lparr>e_identity := idp\<rparr>))"
  using assms
  by (auto simp: built_identity_def provider_ok_def dest: validate_provider_name_ok split: option.splits sum.splits)

lemma list_all2_carries: "list_all2 carries rbs bs \<Longrightarrow> b \<in> set bs \<Longrightarrow> \<exists>rb\<in>set rbs. carries rb b"
  by (induction rule: list_all2_induct) auto

lemma from_resolved_outcome:
  assumes ok: "resolved_ok r" and names: "names_registered reg r"
    and res: "from_resolved tokio r reg = (res, calls)"
  obtains em where "res = Some (Inr em)" "calls = binding_calls r" "runs_declared r em" "emitter_inv em"
      "e_records em = []" "e_notifier em = hr_notifier reg"
  | j where "res = Some (Inl (decl_error BindingRejected (binding_ptr j)))" "j < length (rd_bindings r)"
      "calls = take (Suc j) (binding_calls r)"
proof -
  let ?c = "rd_configuration r"
  obtain rs where rs: "referenced (hr_approval_resolvers reg) (ra_resolver (rc_approval ?c))
      ''/configuration/approval/resolver'' = Inr rs" "rs = None \<longleftrightarrow> ra_resolver (rc_approval ?c) = None"
    using names by (cases "ra_resolver (rc_approval ?c)") (auto simp: names_registered_def Let_def referenced_Inr)
  obtain rd where rd: "referenced (hr_approval_redactors reg) (ra_redactor (rc_approval ?c))
      ''/configuration/approval/redactor'' = Inr rd" "rd = None \<longleftrightarrow> ra_redactor (rc_approval ?c) = None"
    using names by (cases "ra_redactor (rc_approval ?c)") (auto simp: names_registered_def Let_def referenced_Inr)
  obtain idp where idp: "built_identity reg (rc_identity_provider ?c) = Inr idp"
    "identity_name idp = rc_identity_provider ?c" "\<And>em. provider_ok (em\<lparr>e_identity := idp\<rparr>)"
  proof -
    have "opt_all (\<lambda>n. n = JCS_SHA256 \<or> map_of (hr_identity_providers reg) n \<noteq> None) (rc_identity_provider ?c)"
      using names unfolding names_registered_def Let_def by blast
    moreover have "opt_all (\<lambda>n. n = JCS_SHA256 \<or> validate_provider_name n = Inr () \<and> length n \<le> MAX_ID_LEN)
        (rc_identity_provider ?c)"
      using ok unfolding resolved_ok_def configuration_ok_def by blast
    ultimately show thesis using built_identity_Inr that by blast
  qed
  obtain spec where spec: "spec_from_wire (rd_spec r) = Some spec"
    "\<And>b. b \<in> set (rd_bindings r) \<Longrightarrow> rb_on_error b = OE_Continue \<Longrightarrow> has_failure_posture spec"
    using ok by (auto simp: resolved_ok_def)
  obtain br cs where bb: "build_bindings reg r 0 (rd_bindings r) [] [] = (br, cs)"
    by (cases "build_bindings reg r 0 (rd_bindings r) [] []")
  from build_bindings_outcome [OF this] obtain n where n: "build_outcome reg 0 (rd_bindings r) [] br n"
    "cs = take n (binding_calls r)" by (auto simp: binding_calls_def take_map)
  have known: "has_kind reg (rb_kind (rd_bindings r ! j))" if "j < length (rd_bindings r)" for j
    using names that by (simp add: names_registered_def Let_def)
  note run = res [unfolded from_resolved_def Let_def rs(1) idp(1) rd(1) bb sum.case prod.case spec(1)]
  from n(1) consider bs where "br = Inr bs" "n = length (rd_bindings r)" "list_all2 carries (rd_bindings r) bs"
    | j where "j < length (rd_bindings r)" "br = Inl (decl_error BindingRejected (binding_ptr j))" "n = Suc j"
    using known by (auto simp: build_outcome_def)
  then show thesis
  proof cases
    case 1
    let ?em = "declared_emitter tokio r reg rs idp rd bs spec"
    have "b_on_error b = OE_Continue \<longrightarrow> hr_notifier reg \<noteq> None \<and> has_failure_posture spec" if "b \<in> set bs" for b
    proof -
      obtain rb where rb: "rb \<in> set (rd_bindings r)" "carries rb b"
        using list_all2_carries [OF 1(3) \<open>b \<in> set bs\<close>] by blast
      then have "b_on_error b = rb_on_error rb" by (auto simp: carries_def bound_of_def)
      with rb(1) spec(2) names show ?thesis by (auto simp: names_registered_def Let_def)
    qed
    then have inv: "emitter_inv ?em"
      using idp(3) [of ?em]
      by (simp add: emitter_inv_def posture_ok_def declared_emitter_def Let_def provider_ok_def)
    show thesis
      using run 1 n(2) inv rs(2) rd(2) idp(2) spec(1)
      by (intro that(1) [of ?em])
        (auto simp: runs_declared_def declared_emitter_def Let_def binding_calls_def)
  next
    case 2
    with run n(2) show thesis by (intro that(2) [of j]) auto
  qed
qed

lemma from_resolved_accepting:
  assumes "resolved_ok r" "names_registered reg r" "accepting reg"
  obtains em where "from_resolved tokio r reg = (Some (Inr em), binding_calls r)" "runs_declared r em"
proof -
  obtain res calls where res: "from_resolved tokio r reg = (res, calls)" by (cases "from_resolved tokio r reg")
  obtain bs cs where bb: "build_bindings reg r 0 (rd_bindings r) [] [] = (Inr bs, cs)"
  proof -
    have "\<forall>b\<in>set (rd_bindings r). has_kind reg (rb_kind b)"
      using assms(2) by (simp add: names_registered_def Let_def)
    from build_bindings_accepting [OF assms(3) this] show thesis using that by blast
  qed
  from assms(1,2) res show thesis
  proof (cases rule: from_resolved_outcome)
    case (1 em)
    with res that show thesis by simp
  next
    case (2 j)
    from res bb have "\<not> (\<exists>e. res = Some (Inl (decl_error BindingRejected e)))"
      by (auto simp: from_resolved_def Let_def referenced_def built_identity_def decl_error_def
          split: sum.splits option.splits if_splits)
    with 2 show thesis by blast
  qed
qed

text \<open>One run of the loader on a document it has accepted.\<close>

lemma from_declaration_outcome:
  assumes doc: "from_json jparse text = Inr doc" and run: "from_declaration tokio doc reg = (res, calls)"
  obtains (refused) e where "registry_resolve doc reg = Inl e" "res = Some (Inl e)" "calls = []"
  | (built) r em where "registry_resolve doc reg = Inr r" "resolved_ok r" "res = Some (Inr em)"
      "calls = binding_calls r" "runs_declared r em" "emitter_inv em" "e_records em = []"
      "e_notifier em = hr_notifier reg"
  | (rejected) r j where "registry_resolve doc reg = Inr r" "resolved_ok r" "j < length (rd_bindings r)"
      "res = Some (Inl (decl_error BindingRejected (binding_ptr j)))" "calls = take (Suc j) (binding_calls r)"
proof (cases "registry_resolve doc reg")
  case (Inl e)
  with run refused show thesis by (simp add: from_declaration_def)
next
  case (Inr r)
  with run have f: "from_resolved tokio r reg = (res, calls)" by (simp add: from_declaration_def)
  have ok: "resolved_ok r" by (rule resolved_well_formed [OF doc registry_resolve_Inr(1) [OF Inr]])
  from ok registry_resolve_Inr(2) [OF Inr] f show thesis
    by (cases rule: from_resolved_outcome) (use built rejected Inr ok in blast)+
qed

lemma from_declaration_accepting:
  assumes "from_json jparse text = Inr doc" "registry_resolve doc reg = Inr r" "accepting reg"
  obtains em where "from_declaration tokio doc reg = (Some (Inr em), binding_calls r)" "runs_declared r em"
proof -
  have "resolved_ok r" by (rule resolved_well_formed [OF assms(1) registry_resolve_Inr(1) [OF assms(2)]])
  from this registry_resolve_Inr(2) [OF assms(2)] assms(3) show thesis
    by (rule from_resolved_accepting [of r reg tokio]) (use assms(2) that in \<open>simp add: from_declaration_def\<close>)
qed

section \<open>The life of a declared emitter\<close>

lemma deliver_runs:
  assumes "deliver rec em log = (rec', em', log')"
  shows "runs_declared r em' \<longleftrightarrow> runs_declared r em"
  by (subst deliver_config(2) [OF assms]) (simp add: runs_declared_def)

lemma host_step_runs:
  assumes "host_step x em em'" "runs_declared r em"
  shows "runs_declared r em'"
  using assms(1)
proof cases
  case (emission ctx log rec ctx' log')
  then show ?thesis
    by (rule emit_deliver) (use deliver_runs assms(2) in blast)
next
  case (projection_failure point hf log rec log')
  then show ?thesis
    unfolding record_host_failure_def Let_def using deliver_runs assms(2) by blast
qed (use assms(2) in \<open>simp_all add: runs_declared_def Let_def set_composition_def set_identity_provider_def
    set_record_sink_def set_control_failure_notifier_def set_max_records_def set_timeout_def
    set_approval_redactor_def take_records_def register_at_def register_with_options_def register_managed_def
    push_bound_def unsealed_def res_bind_Inr_iff\<close>)

inductive host_steps :: "externs \<Rightarrow> emitter \<Rightarrow> emitter \<Rightarrow> bool" for x where
  stay: "host_steps x em em"
| go_on: "host_steps x em em' \<Longrightarrow> host_step x em' em'' \<Longrightarrow> host_steps x em em''"

lemma host_steps_runs: "host_steps x em em' \<Longrightarrow> runs_declared r em \<Longrightarrow> runs_declared r em'"
  by (induction rule: host_steps.induct) (auto intro: host_step_runs)

lemma host_steps_inv: "host_steps x em em' \<Longrightarrow> emitter_inv em \<Longrightarrow> emitter_inv em'"
  by (induction rule: host_steps.induct) (auto intro: host_step_inv)

end
