(* ===== verification/Decl_Samples.thy ===== *)
theory Decl_Samples
  imports Decl_Emitter
begin

text \<open>
  One declaration document as text, the tree a JSON parser gives for it, and a registry that
  answers it: the concrete input of the witnesses about declarations.
\<close>

definition sample_text :: string where
  "sample_text =
     ''{\"declaration\": \"agent-hooks-declaration/1.1\", \"spec\": \"agent-hooks/draft\", \"id\": \"demo\", '' @
     ''\"configuration\": {\"approval\": {\"resolver\": \"desk\"}, \"timeouts\": {\"interceptor_ms\": 900}}, '' @
     ''\"bindings\": [{\"id\": \"scan\", \"kind\": \"acme.scan\", \"at\": [\"input\"], \"timeout_ms\": 250, '' @
     ''\"on_error\": \"continue\", \"config\": {\"limit\": 7}}, {\"id\": \"log\", \"kind\": \"acme.log\"}]}''"

definition sample_raw :: raw where
  "sample_raw =
     RObj [(''declaration'', RStr ''agent-hooks-declaration/1.1''), (''spec'', RStr ''agent-hooks/draft''), (''id'', RStr ''demo''),
       (''configuration'', RObj [(''approval'', RObj [(''resolver'', RStr ''desk'')]),
          (''timeouts'', RObj [(''interceptor_ms'', RNum (PosInt 900))])]),
       (''bindings'', RArr
          [RObj [(''id'', RStr ''scan''), (''kind'', RStr ''acme.scan''), (''at'', RArr [RStr ''input'']),
             (''timeout_ms'', RNum (PosInt 250)), (''on_error'', RStr ''continue''),
             (''config'', RObj [(''limit'', RNum (PosInt 7))])],
           RObj [(''id'', RStr ''log''), (''kind'', RStr ''acme.log'')]])]"

definition sample_parse :: "string \<Rightarrow> raw option" where
  "sample_parse t = (if t = sample_text then Some sample_raw else None)"

definition sample_doc :: object where
  "sample_doc =
     [(''bindings'', JArr
         [JObj [(''at'', JArr [JStr ''input'']), (''config'', JObj [(''limit'', JNum (PosInt 7))]),
            (''id'', JStr ''scan''), (''kind'', JStr ''acme.scan''), (''on_error'', JStr ''continue''),
            (''timeout_ms'', JNum (PosInt 250))],
          JObj [(''id'', JStr ''log''), (''kind'', JStr ''acme.log'')]]),
      (''configuration'', JObj [(''approval'', JObj [(''resolver'', JStr ''desk'')]),
         (''timeouts'', JObj [(''interceptor_ms'', JNum (PosInt 900))])]),
      (''declaration'', JStr ''agent-hooks-declaration/1.1''),
      (''id'', JStr ''demo''),
      (''spec'', JStr ''agent-hooks/draft'')]"

lemma sample_names:
  "valid_kind ''acme.scan''" "valid_kind ''acme.log''" "kind_first_segment ''acme.scan'' = ''acme''"
  "kind_first_segment ''acme.log'' = ''acme''" "valid_reference ''desk''" "valid_reference ''scan''"
  "valid_reference ''log''" "valid_document_id ''demo''"
  by code_simp+

lemma sample_load: "load 0 sample_raw = Some (JObj sample_doc)"
  by code_simp

lemma sample_short: "length sample_text \<le> MAX_DOCUMENT_BYTES"
  by (simp add: sample_text_def MAX_DOCUMENT_BYTES_def)

lemma sample_scan: "scan_integer_tokens sample_parse [] sample_text = []"
  by code_simp

lemma sample_fields: "field_findings sample_doc = []"
  by (simp add: field_findings_def sample_doc_def with_string_def with_object_def configuration_fields_def
      bindings_fields_def binding_fields_def required_string_def sample_names enum_str_def int_or_null_def
      string_set_def provider_fields_def APPROVAL_KEYS_def TIMEOUT_KEYS_def reference_fields_def ALL_POINTS_def
      MAX_TIMEOUT_MS_def MAX_BINDINGS_def ON_ERROR_VALUES_def Let_def)

lemma sample_accepted: "from_json sample_parse sample_text = Inr sample_doc"
proof -
  have c: "check_version sample_doc = Inr ()" "check_spec sample_doc = Inr ()"
    "check_unknown_fields sample_doc = Inr ()" "check_consistency sample_doc None = Inr ()"
    by code_simp+
  show ?thesis
    using sample_short by (simp add: from_json_def parse_document_def sample_parse_def sample_load c check_fields_def
        sample_fields sample_scan refuse_def)
qed

definition sample_surface :: host_surface where
  "sample_surface = sdk_default True"

definition sample_resolved :: resolved_declaration where
  "sample_resolved = fill sample_doc sample_surface"

definition sample_interceptor :: std_interceptor where
  "sample_interceptor = \<lparr>run = (\<lambda>_ _. Some allow), overruns = (\<lambda>_ _ _. False)\<rparr>"

definition accept_scan :: kind_resolver where
  "accept_scan calls c x = Some (Inr sample_interceptor)"

definition accept_log :: managed_kind_resolver where
  "accept_log calls c x = Some (Inr (\<lambda>_ _ _. Some (MVerdict allow)))"

definition sample_resolver :: resolver where
  "sample_resolver = \<lparr>resolve_call = (\<lambda>_ _. None), resolver_overruns = (\<lambda>_ _ _. False)\<rparr>"

definition sample_registry :: host_registry where
  "sample_registry =
     (new_registry sample_surface)
       \<lparr>hr_kinds := [(''acme.scan'', accept_scan)], hr_managed_kinds := [(''acme.log'', accept_log)],
        hr_approval_resolvers := [(''desk'', sample_resolver)], hr_notifier := Some (\<lambda>_ _. True)\<rparr>"

lemma sample_resolves: "registry_resolve sample_doc sample_registry = Inr sample_resolved"
  by code_simp

lemma sample_registry_registry: "registry sample_registry"
proof -
  let ?r0 = "new_registry sample_surface"
  let ?r1 = "?r0\<lparr>hr_kinds := [(''acme.scan'', accept_scan)]\<rparr>"
  let ?r2 = "?r1\<lparr>hr_managed_kinds := [(''acme.log'', accept_log)]\<rparr>"
  let ?r3 = "?r2\<lparr>hr_approval_resolvers := [(''desk'', sample_resolver)]\<rparr>"
  note k = sample_names
  have "registry ?r1"
    by (rule registered [OF registry.empty registry_step.kind [of "''acme.scan''" accept_scan]])
       (simp add: register_kind_def check_kind_def k Let_def RESERVED_KIND_SEGMENTS_def new_registry_def)
  then have "registry ?r2"
    by (rule registered [OF _ registry_step.managed_kind [of "''acme.log''" accept_log]])
       (simp add: register_managed_kind_def check_kind_def k Let_def RESERVED_KIND_SEGMENTS_def new_registry_def)
  then have "registry ?r3"
    by (rule registered [OF _ registry_step.approval_resolver [of "''desk''" sample_resolver]])
       (simp add: register_approval_resolver_def check_reference_def k new_registry_def)
  then have "registry (control_failure_notifier (\<lambda>_ _. True) ?r3)"
    by (rule registered [OF _ registry_step.notifier])
  then show ?thesis by (simp add: control_failure_notifier_def sample_registry_def)
qed

lemma sample_accepting: "accepting sample_registry"
  by (auto simp: accepting_def sample_registry_def new_registry_def accept_scan_def accept_log_def)

text \<open>A registry whose second kind resolver refuses.\<close>

definition refusing_registry :: host_registry where
  "refusing_registry = sample_registry\<lparr>hr_managed_kinds := [(''acme.log'', \<lambda>_ _ _. Some (Inl ''no log''))]\<rparr>"

lemma refused_run:
  "from_declaration True sample_doc refusing_registry =
     (Some (Inl (decl_error BindingRejected (binding_ptr 1))), binding_calls sample_resolved)"
proof -
  have "case from_declaration True sample_doc refusing_registry of
      (Some (Inl e), calls) \<Rightarrow> e = decl_error BindingRejected (binding_ptr 1) \<and> calls = binding_calls sample_resolved
    | _ \<Rightarrow> False" by code_simp
  then show ?thesis by (auto split: prod.splits option.splits sum.splits)
qed

lemma sample_calls: "length (binding_calls sample_resolved) = 2"
  by code_simp

text \<open>A document that pins the contract version it accepts.\<close>

definition pinned_doc :: "string \<Rightarrow> string \<Rightarrow> object" where
  "pinned_doc version spec =
     [(''bindings'', JArr []), (''declaration'', JStr version), (''spec'', JStr spec),
      (''surface'', JObj [(''declaration_versions'', JArr [JStr DECLARATION_1_0])])]"

lemma pinned_fields: "field_findings (pinned_doc v w) = []"
proof -
  have "parse_declaration_version DECLARATION_1_0 \<noteq> None" by code_simp
  then show ?thesis
    by (simp add: field_findings_def pinned_doc_def with_string_def with_object_def bindings_fields_def
        surface_fields_def string_set_def buffered_fields_def contains_key_def with_array_def Let_def)
qed

end
