(* ===== verification/Decl_Scan.thy ===== *)
theory Decl_Scan
  imports Decl_Fields
begin

text \<open>
  The raw-text integer scan of declaration documents (\<open>scan_integer_tokens\<close>) against a
  grammar of JSON texts with free white space: it reports exactly the pointers of the integer
  tokens beyond the limit, in document order.
\<close>

section \<open>JSON texts\<close>

text \<open>The tree of a text, with the tokens as written (a string is its raw body).\<close>

datatype tok =
    TWord string
  | TNum string
  | TStr string
  | TArr "tok list"
  | TObj "(string \<times> tok) list"

definition ws :: "string \<Rightarrow> bool" where
  "ws w \<longleftrightarrow> set w \<subseteq> {CHR '' '', CHR 0x09, CHR 0x0A, CHR 0x0D}"

text \<open>Every quote in a string body is escaped, and no escape is cut off.\<close>

fun string_ok :: "string \<Rightarrow> bool" where
  "string_ok [] = True"
| "string_ok (c # r) =
     (if c = CHR 0x5C then (case r of [] \<Rightarrow> False | _ # r' \<Rightarrow> string_ok r') else c \<noteq> CHR 0x22 \<and> string_ok r)"

definition number_token :: "string \<Rightarrow> bool" where
  "number_token t \<longleftrightarrow> t \<noteq> [] \<and> (hd t = CHR ''-'' \<or> is_digit (hd t)) \<and> list_all number_char t"

definition quoted :: "string \<Rightarrow> string" where
  "quoted b = CHR 0x22 # b @ [CHR 0x22]"

inductive value_text :: "tok \<Rightarrow> string \<Rightarrow> bool"
  and items_text :: "tok list \<Rightarrow> string \<Rightarrow> bool"
  and members_text :: "(string \<times> tok) list \<Rightarrow> string \<Rightarrow> bool"
where
  word: "w \<in> {''null'', ''true'', ''false''} \<Longrightarrow> value_text (TWord w) w"
| num: "number_token t \<Longrightarrow> value_text (TNum t) t"
| str: "string_ok b \<Longrightarrow> value_text (TStr b) (quoted b)"
| empty_array: "ws w \<Longrightarrow> value_text (TArr []) (CHR ''['' # w @ [CHR '']''])"
| array: "items_text xs s \<Longrightarrow> value_text (TArr xs) (CHR ''['' # s @ [CHR '']''])"
| empty_object: "ws w \<Longrightarrow> value_text (TObj []) (CHR ''{'' # w @ [CHR ''}''])"
| object: "members_text m s \<Longrightarrow> value_text (TObj m) (CHR ''{'' # s @ [CHR ''}''])"
| last_item: "ws a \<Longrightarrow> value_text x s \<Longrightarrow> ws b \<Longrightarrow> items_text [x] (a @ s @ b)"
| item: "ws a \<Longrightarrow> value_text x s \<Longrightarrow> ws b \<Longrightarrow> items_text xs t \<Longrightarrow>
    items_text (x # xs) (a @ s @ b @ CHR '','' # t)"
| last_member: "ws a \<Longrightarrow> string_ok k \<Longrightarrow> ws b \<Longrightarrow> ws c \<Longrightarrow> value_text x s \<Longrightarrow> ws d \<Longrightarrow>
    members_text [(k, x)] (a @ quoted k @ b @ CHR '':'' # c @ s @ d)"
| member: "ws a \<Longrightarrow> string_ok k \<Longrightarrow> ws b \<Longrightarrow> ws c \<Longrightarrow> value_text x s \<Longrightarrow> ws d \<Longrightarrow> members_text m t \<Longrightarrow>
    members_text ((k, x) # m) (a @ quoted k @ b @ CHR '':'' # c @ s @ d @ CHR '','' # t)"

text \<open>The pointers of the integer tokens beyond \<open>2^53 - 1\<close>, in document order.\<close>

fun big_integers :: "(string \<Rightarrow> raw option) \<Rightarrow> string \<Rightarrow> tok \<Rightarrow> string list"
  and big_items :: "(string \<Rightarrow> raw option) \<Rightarrow> string \<Rightarrow> nat \<Rightarrow> tok list \<Rightarrow> string list"
  and big_members :: "(string \<Rightarrow> raw option) \<Rightarrow> string \<Rightarrow> (string \<times> tok) list \<Rightarrow> string list"
where
  "big_integers jparse p (TNum t) = flag (integer_syntax t \<and> token_over t) p"
| "big_integers jparse p (TArr xs) = big_items jparse p 0 xs"
| "big_integers jparse p (TObj m) = big_members jparse p m"
| "big_integers jparse p (TWord _) = []"
| "big_integers jparse p (TStr _) = []"
| "big_items jparse p i [] = []"
| "big_items jparse p i (x # xs) = big_integers jparse (p @ ''/'' @ dec i) x @ big_items jparse p (i + 1) xs"
| "big_members jparse p [] = []"
| "big_members jparse p ((k, x) # m) =
     big_integers jparse (ptr p (decode_key jparse k)) x @ big_members jparse p m"

section \<open>The scanner on each piece of text\<close>

lemma pointer_of_simps [simp]:
  "pointer_of jparse [] = []"
  "pointer_of jparse (InArray i # st) = pointer_of jparse st @ ''/'' @ dec i"
  "pointer_of jparse (InObject (Some k) e # st) = ptr (pointer_of jparse st) (decode_key jparse k)"
  by (simp_all add: pointer_of_def)

lemma punctuation_no_digit [simp]:
  "\<not> is_digit (CHR ''{'')" "\<not> is_digit (CHR ''['')" "\<not> is_digit (CHR ''}'')" "\<not> is_digit (CHR '']'')"
  "\<not> is_digit (CHR '','')" "\<not> is_digit (CHR '':'')" "\<not> is_digit (CHR 0x22)"
  by code_simp+

text \<open>Characters the scanner walks over.\<close>

definition skipped :: "char \<Rightarrow> bool" where
  "skipped c \<longleftrightarrow>
     c \<notin> {CHR ''{'', CHR ''['', CHR ''}'', CHR '']'', CHR '','', CHR 0x22, CHR ''-''} \<and> \<not> is_digit c"

lemma scan_skipped:
  "list_all skipped w \<Longrightarrow> scan_integer_tokens jparse st (w @ r) = scan_integer_tokens jparse st r"
  by (induction w) (auto simp: skipped_def scan_integer_tokens.simps(2))

lemma skipped_tokens:
  "list_all skipped ''null''" "list_all skipped ''true''" "list_all skipped ''false''"
  "list_all (\<lambda>c. skipped c \<and> \<not> number_char c) [CHR '' '', CHR 0x09, CHR 0x0A, CHR 0x0D]"
  "list_all (\<lambda>c. \<not> number_char c) [CHR '','', CHR '']'', CHR ''}'']" "skipped (CHR '':'')"
  by code_simp+

lemma ws_skipped: "ws w \<Longrightarrow> list_all (\<lambda>c. skipped c \<and> \<not> number_char c) w"
  using skipped_tokens(4) unfolding ws_def list_all_iff by auto

lemma scan_ws [simp]: "ws w \<Longrightarrow> scan_integer_tokens jparse st (w @ r) = scan_integer_tokens jparse st r"
  by (rule scan_skipped) (use ws_skipped in \<open>fastforce simp: list_all_iff\<close>)

lemma scan_word:
  "w \<in> {''null'', ''true'', ''false''} \<Longrightarrow> scan_integer_tokens jparse st (w @ r) = scan_integer_tokens jparse st r"
  by (rule scan_skipped) (use skipped_tokens in blast)

lemma scan_structure [simp]:
  "scan_integer_tokens jparse st (CHR ''{'' # r) = scan_integer_tokens jparse (InObject None True # st) r"
  "scan_integer_tokens jparse st (CHR ''['' # r) = scan_integer_tokens jparse (InArray 0 # st) r"
  "scan_integer_tokens jparse (f # st) (CHR ''}'' # r) = scan_integer_tokens jparse st r"
  "scan_integer_tokens jparse (f # st) (CHR '']'' # r) = scan_integer_tokens jparse st r"
  "scan_integer_tokens jparse st (CHR '','' # r) = scan_integer_tokens jparse (after_comma st) r"
  "scan_integer_tokens jparse st (CHR '':'' # r) = scan_integer_tokens jparse st r"
  using scan_skipped [of "[CHR '':'']" jparse st r] skipped_tokens(6)
  by (simp_all add: scan_integer_tokens.simps(2))

lemma string_body_ok: "string_ok b \<Longrightarrow> string_body (b @ CHR 0x22 # r) = b \<and> skip_string (b @ CHR 0x22 # r) = r"
  by (induction b rule: string_ok.induct) (auto split: list.splits if_splits)

lemma scan_quoted:
  "string_ok b \<Longrightarrow>
     scan_integer_tokens jparse st (quoted b @ r) = scan_integer_tokens jparse (take_key b st) r"
  by (simp add: scan_integer_tokens.simps(2) quoted_def string_body_ok)

text \<open>What may follow a number.\<close>

definition boundary :: "string \<Rightarrow> bool" where
  "boundary r \<longleftrightarrow> (case r of [] \<Rightarrow> True | c # _ \<Rightarrow> \<not> number_char c)"

lemma ws_boundary: "ws w \<Longrightarrow> boundary r \<Longrightarrow> boundary (w @ r)"
  by (cases w) (auto simp: boundary_def dest: ws_skipped)

lemma boundary_simps [simp]:
  "boundary []" "boundary (CHR '','' # r)" "boundary (CHR '']'' # r)" "boundary (CHR ''}'' # r)"
  using skipped_tokens(5) by (simp_all add: boundary_def)

lemma scan_number:
  assumes "number_token t" "boundary r"
  shows "scan_integer_tokens jparse st (t @ r) =
    flag (integer_syntax t \<and> token_over t) (pointer_of jparse st) @ scan_integer_tokens jparse st r"
proof -
  obtain c u where t: "t = c # u" and c: "c = CHR ''-'' \<or> is_digit c" and all: "list_all number_char t"
    using assms(1) by (cases t) (auto simp: number_token_def)
  have tk: "takeWhile number_char (t @ r) = t" "dropWhile number_char (t @ r) = r"
    using all assms(2) by (simp_all add: list_all_iff boundary_def takeWhile_append dropWhile_append
        split: list.splits)
  have "c \<notin> {CHR ''{'', CHR ''['', CHR ''}'', CHR '']'', CHR '','', CHR 0x22}"
    using c by auto
  then show ?thesis
    using c tk unfolding t append_Cons by (simp add: scan_integer_tokens.simps(2) Let_def flag_def)
qed

section \<open>The scanner is exact\<close>

text \<open>A string in value position is no key.\<close>

fun settled_stack :: "frame list \<Rightarrow> bool" where
  "settled_stack (InObject _ e # _) = (\<not> e)"
| "settled_stack _ = True"

lemma take_key_settled: "settled_stack st \<Longrightarrow> take_key s st = st"
  by (cases "(s, st)" rule: take_key.cases) auto

lemma scan_text:
  "value_text t s \<Longrightarrow> settled_stack st \<Longrightarrow> boundary r \<Longrightarrow>
     scan_integer_tokens jparse st (s @ r) =
       big_integers jparse (pointer_of jparse st) t @ scan_integer_tokens jparse st r"
  "items_text xs s \<Longrightarrow>
     scan_integer_tokens jparse (InArray i # st) (s @ CHR '']'' # r) =
       big_items jparse (pointer_of jparse st) i xs @ scan_integer_tokens jparse st r"
  "members_text m s \<Longrightarrow>
     scan_integer_tokens jparse (InObject None True # st) (s @ CHR ''}'' # r) =
       big_members jparse (pointer_of jparse st) m @ scan_integer_tokens jparse st r"
proof (induction arbitrary: st r and i st r and st r rule: value_text_items_text_members_text.inducts)
  case (word w st r)
  then show ?case by (simp add: scan_word del: insert_iff)
next
  case (num t st r)
  then show ?case by (simp add: scan_number)
next
  case (str b st r)
  then show ?case by (simp add: scan_quoted take_key_settled)
next
  case (last_member a k b c x s d st r)
  then show ?case by (simp add: scan_quoted ws_boundary)
next
  case (member a k b c x s d m t st r)
  then show ?case by (simp add: scan_quoted ws_boundary)
qed (simp_all add: ws_boundary)

lemma scan_document:
  assumes "value_text t s" "ws a" "ws b"
  shows "scan_integer_tokens jparse [] (a @ s @ b) = big_integers jparse [] t"
proof -
  have "boundary (b @ [])" by (rule ws_boundary [OF assms(3)]) simp
  then have "scan_integer_tokens jparse [] (s @ b) = big_integers jparse [] t @ scan_integer_tokens jparse [] (b @ [])"
    using scan_text(1) [OF assms(1), of "[]" b jparse] by simp
  then show ?thesis using assms(2,3) scan_ws [OF assms(3), of jparse "[]" "[]"] by simp
qed

end
