(* ===== verification/Decl_Builder.thy ===== *)
theory Decl_Builder
  imports Decl_Laws
begin

text \<open>
  The builder of declaration documents in code (\<open>DeclarationBuilder\<close>): one setter per
  member. A setter whose \<open>expect\<close> fails (only after \<open>raw\<close> stored something
  else under the member) gives \<open>None\<close>.
\<close>

section \<open>Serialized values\<close>

text \<open>The derives with \<open>skip_serializing_if\<close>.\<close>

definition put_str :: "string \<Rightarrow> string option \<Rightarrow> object \<Rightarrow> object" where
  "put_str k v m = (case v of None \<Rightarrow> m | Some s \<Rightarrow> obj_insert k (JStr s) m)"

definition composition_object :: "composition_config \<Rightarrow> object" where
  "composition_object c =
     fold (\<lambda>(k, v). put_str k v) (composition_knobs c)
       (obj_insert ''profile'' (JStr (profile_str (profile c))) [])"

definition str_array :: "string list \<Rightarrow> json" where
  "str_array ss = JArr (map JStr ss)"

definition knob_object :: "knob_support \<Rightarrow> object" where
  "knob_object k =
     fold (\<lambda>knob m. if knob_get k knob = [] then m else obj_insert knob (str_array (knob_get k knob)) m)
       [''on_approval'', ''on_disagreement'', ''on_transform_conflict''] []"

definition point_array :: "interception_point list \<Rightarrow> json" where
  "point_array ps = str_array (map point_str (bt_set ps))"

fun nullable_str :: "string option \<Rightarrow> json" where
  "nullable_str None = JNull"
| "nullable_str (Some s) = JStr s"

fun nullable_u64 :: "64 word option \<Rightarrow> json" where
  "nullable_u64 None = JNull"
| "nullable_u64 (Some n) = JNum (PosInt n)"

section \<open>The builder\<close>

record decl_builder =
  db_doc :: object
  db_defaults :: bool

definition new_decl :: "spec_version \<Rightarrow> decl_builder" where
  "new_decl spec =
     \<lparr>db_doc = obj_insert ''bindings'' (JArr []) (obj_insert ''spec'' (JStr (spec_wire spec)) []),
      db_defaults = True\<rparr>"

definition empty_decl :: decl_builder where
  "empty_decl = \<lparr>db_doc = [], db_defaults = False\<rparr>"

definition finished :: "decl_builder \<Rightarrow> object" where
  "finished b =
     (if db_defaults b \<and> \<not> contains_key (db_doc b) ''declaration'' then
        (case document_spec (db_doc b) of
           None \<Rightarrow> db_doc b
         | Some spec \<Rightarrow> obj_insert ''declaration'' (JStr (current_declaration_version spec)) (db_doc b))
      else db_doc b)"

text \<open>\<open>entry(key).or_insert_with(..).as_object_mut().expect(..)\<close>, then an update.\<close>

definition in_object :: "string \<Rightarrow> (object \<Rightarrow> object option) \<Rightarrow> object \<Rightarrow> object option" where
  "in_object k f m =
     (case obj_get m k of
        None \<Rightarrow> map_option (\<lambda>o'. obj_insert k (JObj o') m) (f [])
      | Some v \<Rightarrow> Option.bind (as_object v) (\<lambda>o'. map_option (\<lambda>o''. obj_insert k (JObj o'') m) (f o')))"

definition put_member :: "string \<Rightarrow> json \<Rightarrow> object \<Rightarrow> object option" where
  "put_member k v m = Some (obj_insert k v m)"

definition on_doc :: "(object \<Rightarrow> object option) \<Rightarrow> decl_builder \<Rightarrow> decl_builder option" where
  "on_doc f b = map_option (\<lambda>d. b\<lparr>db_doc := d\<rparr>) (f (db_doc b))"

definition in_configuration :: "(object \<Rightarrow> object option) \<Rightarrow> decl_builder \<Rightarrow> decl_builder option" where
  "in_configuration f = on_doc (in_object ''configuration'' f)"

definition configuration_sub :: "string \<Rightarrow> (object \<Rightarrow> object option) \<Rightarrow> decl_builder \<Rightarrow> decl_builder option" where
  "configuration_sub k f = in_configuration (in_object k f)"

definition in_surface :: "(object \<Rightarrow> object option) \<Rightarrow> decl_builder \<Rightarrow> decl_builder option" where
  "in_surface f = on_doc (in_object ''surface'' f)"

subsection \<open>Top-level members\<close>

definition decl_version :: "string \<Rightarrow> decl_builder \<Rightarrow> decl_builder option" where
  "decl_version v = on_doc (put_member ''declaration'' (JStr v))"

definition decl_spec :: "string \<Rightarrow> decl_builder \<Rightarrow> decl_builder option" where
  "decl_spec v = on_doc (put_member ''spec'' (JStr v))"

definition decl_id :: "string \<Rightarrow> decl_builder \<Rightarrow> decl_builder option" where
  "decl_id v = on_doc (put_member ''id'' (JStr v))"

definition decl_host :: "string \<Rightarrow> string option \<Rightarrow> decl_builder \<Rightarrow> decl_builder option" where
  "decl_host name version =
     on_doc (put_member ''host'' (JObj (put_str ''version'' version (obj_insert ''name'' (JStr name) []))))"

definition decl_extension :: "string \<Rightarrow> json \<Rightarrow> decl_builder \<Rightarrow> decl_builder option" where
  "decl_extension k v = on_doc (in_object ''extensions'' (put_member k v))"

definition decl_raw :: "string \<Rightarrow> json \<Rightarrow> decl_builder \<Rightarrow> decl_builder option" where
  "decl_raw k v = on_doc (put_member k v)"

subsection \<open>The configuration\<close>

fun mode_wire :: "enforcement_mode \<Rightarrow> string" where
  "mode_wire Enforce = ''enforce''"
| "mode_wire EvaluateOnly = ''evaluate_only''"

definition decl_mode :: "enforcement_mode \<Rightarrow> decl_builder \<Rightarrow> decl_builder option" where
  "decl_mode m = in_configuration (put_member ''mode'' (JStr (mode_wire m)))"

definition decl_composition :: "composition_config \<Rightarrow> decl_builder \<Rightarrow> decl_builder option" where
  "decl_composition c = in_configuration (put_member ''composition'' (JObj (composition_object c)))"

definition decl_identity_provider :: "string option \<Rightarrow> decl_builder \<Rightarrow> decl_builder option" where
  "decl_identity_provider n = in_configuration (put_member ''identity_provider'' (nullable_str n))"

definition decl_approval_resolver :: "string option \<Rightarrow> decl_builder \<Rightarrow> decl_builder option" where
  "decl_approval_resolver n = configuration_sub ''approval'' (put_member ''resolver'' (nullable_str n))"

definition decl_approval_redactor :: "string option \<Rightarrow> decl_builder \<Rightarrow> decl_builder option" where
  "decl_approval_redactor n = configuration_sub ''approval'' (put_member ''redactor'' (nullable_str n))"

definition decl_tool_seam :: "tool_seam_posture \<Rightarrow> decl_builder \<Rightarrow> decl_builder option" where
  "decl_tool_seam p = configuration_sub ''posture'' (put_member ''tool_seam_host_error'' (JStr (tool_seam_str p)))"

definition decl_failure_on_error :: "on_error \<Rightarrow> decl_builder \<Rightarrow> decl_builder option" where
  "decl_failure_on_error e = configuration_sub ''failure'' (put_member ''on_error'' (JStr (on_error_str e)))"

definition decl_interceptor_timeout :: "64 word option \<Rightarrow> decl_builder \<Rightarrow> decl_builder option" where
  "decl_interceptor_timeout ms = configuration_sub ''timeouts'' (put_member ''interceptor_ms'' (nullable_u64 ms))"

definition decl_resolver_timeout :: "64 word option \<Rightarrow> decl_builder \<Rightarrow> decl_builder option" where
  "decl_resolver_timeout ms = configuration_sub ''timeouts'' (put_member ''approval_resolver_ms'' (nullable_u64 ms))"

definition decl_max_buffered :: "64 word option \<Rightarrow> decl_builder \<Rightarrow> decl_builder option" where
  "decl_max_buffered n = configuration_sub ''records'' (put_member ''max_buffered'' (nullable_u64 n))"

subsection \<open>The surface\<close>

definition decl_points :: "interception_point list \<Rightarrow> decl_builder \<Rightarrow> decl_builder option" where
  "decl_points ps = in_surface (put_member ''interception_points'' (point_array ps))"

definition decl_capabilities :: "string list \<Rightarrow> decl_builder \<Rightarrow> decl_builder option" where
  "decl_capabilities cs = in_surface (put_member ''capabilities'' (str_array (bt_set cs)))"

definition decl_profile :: "composition_profile \<Rightarrow> knob_support \<Rightarrow> decl_builder \<Rightarrow> decl_builder option" where
  "decl_profile p k = in_surface (in_object ''profiles'' (put_member (profile_str p) (JObj (knob_object k))))"

definition remove_key :: "string \<Rightarrow> object \<Rightarrow> object" where
  "remove_key k m = filter (\<lambda>(k', _). k' \<noteq> k) m"

definition decl_buffered :: "bool \<Rightarrow> string option \<Rightarrow> decl_builder \<Rightarrow> decl_builder option" where
  "decl_buffered buffered bound =
     in_surface (\<lambda>s. let s' = obj_insert ''buffered_output'' (JBool buffered) s in
       Some (case bound of Some b \<Rightarrow> obj_insert ''exposure_bound'' (JStr b) s'
             | None \<Rightarrow> remove_key ''exposure_bound'' s'))"

definition decl_versions :: "string list \<Rightarrow> decl_builder \<Rightarrow> decl_builder option" where
  "decl_versions vs = in_surface (put_member ''declaration_versions'' (str_array (bt_set vs)))"

subsection \<open>Bindings\<close>

record binding_options =
  bo_at :: "interception_point list option"
  bo_timeout_ms :: "64 word option option"
  bo_on_error :: "on_error option"

definition binding_object :: "string \<Rightarrow> string \<Rightarrow> json \<Rightarrow> binding_options \<Rightarrow> object" where
  "binding_object bid kind config opts =
     (let b = obj_insert ''config'' config (obj_insert ''kind'' (JStr kind) (obj_insert ''id'' (JStr bid) []));
          b1 = (case bo_at opts of None \<Rightarrow> b | Some ps \<Rightarrow> obj_insert ''at'' (point_array ps) b);
          b2 = (case bo_timeout_ms opts of None \<Rightarrow> b1 | Some t \<Rightarrow> obj_insert ''timeout_ms'' (nullable_u64 t) b1)
      in case bo_on_error opts of None \<Rightarrow> b2 | Some e \<Rightarrow> obj_insert ''on_error'' (JStr (on_error_str e)) b2)"

definition decl_bind_with ::
  "string \<Rightarrow> string \<Rightarrow> json \<Rightarrow> binding_options \<Rightarrow> decl_builder \<Rightarrow> decl_builder option" where
  "decl_bind_with bid kind config opts =
     on_doc (\<lambda>m. case obj_get m ''bindings'' of
         None \<Rightarrow> Some (obj_insert ''bindings'' (JArr [JObj (binding_object bid kind config opts)]) m)
       | Some v \<Rightarrow>
           map_option (\<lambda>bs. obj_insert ''bindings'' (JArr (bs @ [JObj (binding_object bid kind config opts)])) m)
             (as_array v))"

definition decl_bind ::
  "string \<Rightarrow> string \<Rightarrow> json \<Rightarrow> interception_point list option \<Rightarrow> 64 word option option
     \<Rightarrow> decl_builder \<Rightarrow> decl_builder option" where
  "decl_bind bid kind config at ms =
     decl_bind_with bid kind config \<lparr>bo_at = at, bo_timeout_ms = ms, bo_on_error = None\<rparr>"

subsection \<open>The result\<close>

definition decl_to_value :: "decl_builder \<Rightarrow> json" where
  "decl_to_value b = JObj (finished b)"

definition decl_build ::
  "(string \<Rightarrow> raw option) \<Rightarrow> (json \<Rightarrow> string) \<Rightarrow> decl_builder \<Rightarrow> declaration_error + object" where
  "decl_build jparse jprint b = from_value jparse jprint (JObj (finished b))"

section \<open>The shape a builder keeps\<close>

definition object_or_absent :: "object \<Rightarrow> string \<Rightarrow> bool" where
  "object_or_absent m k \<longleftrightarrow> obj_get m k = None \<or> get_object m k \<noteq> None"

definition sub :: "object \<Rightarrow> string \<Rightarrow> object" where
  "sub m k = or_else (get_object m k) []"

definition CONFIGURATION_SUBS :: "string list" where
  "CONFIGURATION_SUBS = [''approval'', ''posture'', ''failure'', ''timeouts'', ''records'']"

definition shape_ok :: "object \<Rightarrow> bool" where
  "shape_ok m \<longleftrightarrow>
     list_all (object_or_absent m) [''configuration'', ''surface'', ''extensions'']
     \<and> list_all (object_or_absent (sub m ''configuration'')) CONFIGURATION_SUBS
     \<and> object_or_absent (sub m ''surface'') ''profiles''
     \<and> (obj_get m ''bindings'' = None \<or> Option.bind (obj_get m ''bindings'') as_array \<noteq> None)"

text \<open>What an update of a member does.\<close>

lemma in_object_cases:
  assumes "in_object k f m = Some m'"
  obtains a a' where "a = or_else (get_object m k) []" "f a = Some a'" "m' = obj_insert k (JObj a') m"
  using assms that by (auto simp: in_object_def get_object_def bind_eq_Some_conv split: option.splits)

lemma in_object_eq:
  "object_or_absent m k \<Longrightarrow> in_object k f m = map_option (\<lambda>a. obj_insert k (JObj a) m) (f (sub m k))"
  by (auto simp: in_object_def object_or_absent_def sub_def get_object_def bind_eq_Some_conv split: option.splits)

lemma on_doc_Some: "on_doc f b = Some b' \<longleftrightarrow> (\<exists>d. f (db_doc b) = Some d \<and> b' = b\<lparr>db_doc := d\<rparr>)"
  by (auto simp: on_doc_def)

lemma in_configuration_put:
  assumes "in_configuration (put_member k v) b = Some b'"
  obtains c where "db_doc b' = obj_insert ''configuration'' (JObj (obj_insert k v c)) (db_doc b)"
    "c = or_else (get_object (db_doc b) ''configuration'') []"
  using assms by (auto simp: in_configuration_def on_doc_Some put_member_def elim!: in_object_cases intro: that)

lemma configuration_sub_put:
  assumes "configuration_sub k f b = Some b'" "f = put_member k' v"
  obtains c a where "db_doc b' = obj_insert ''configuration'' (JObj (obj_insert k (JObj (obj_insert k' v a)) c)) (db_doc b)"
    "c = or_else (get_object (db_doc b) ''configuration'') []"
  using assms
  by (auto simp: configuration_sub_def in_configuration_def on_doc_Some put_member_def elim!: in_object_cases intro: that)

section \<open>What a setter sets\<close>

lemma finished_get: "k \<noteq> ''declaration'' \<Longrightarrow> obj_get (finished b) k = obj_get (db_doc b) k"
  by (simp add: finished_def split: option.split)

lemma finished_object: "k \<noteq> ''declaration'' \<Longrightarrow> get_object (finished b) k = get_object (db_doc b) k"
  by (simp add: get_object_def finished_get)

lemma put_str_get: "get_str (put_str k v m) k' = (if k' = k \<and> v \<noteq> None then v else get_str m k')"
  by (cases v) (simp_all add: put_str_def frame_simps)

lemma get_str_single: "get_str [(k, v)] k' = (if k' = k then as_str v else None)"
  by (simp add: get_str_def)

lemma composition_stated:
  assumes "sub_configuration doc ''composition'' = Some (composition_object c)"
  shows "stated_composition doc = c"
proof -
  have p: "get_str (composition_object c) ''profile'' = Some (profile_str (profile c))"
    "get_str (composition_object c) ''on_approval'' = map_option on_approval_str (on_approval c)"
    "get_str (composition_object c) ''on_disagreement'' = map_option synthesis_policy_str (on_disagreement c)"
    "get_str (composition_object c) ''on_transform_conflict'' = map_option synthesis_policy_str (on_transform_conflict c)"
    by (auto simp: composition_object_def composition_knobs_def put_str_get frame_simps get_str_single)
  have a: "approval_knob (map_option on_approval_str k) = k" for k
    by (cases k; cases "the k") auto
  have q: "policy_knob (map_option synthesis_policy_str k) = k" for k
    by (cases k; cases "the k") auto
  show ?thesis
    by (simp add: stated_composition_def assms p a q profile_from_wire_str del: approval_knob.simps policy_knob.simps)
qed

lemma nullable_reads:
  "get_int_or_null (obj_insert k (nullable_u64 ms) m) k = Some (map_option unat ms)"
  "as_str (nullable_str n) = n"
  by (cases ms; simp add: get_int_or_null_def) (cases n; simp)

lemma sub_configuration_finished:
  "sub_configuration (finished b) k = sub_configuration (db_doc b) k"
  by (simp add: sub_configuration_def finished_object)

text \<open>The configuration of the resolved form, seen from the member a setter wrote.\<close>

lemma configuration_set:
  assumes "in_configuration (put_member k v) b = Some b'"
  shows "\<exists>c. get_object (finished b') ''configuration'' = Some (obj_insert k v c)"
  using assms by (rule in_configuration_put) (auto simp: finished_object frame_simps)

lemma sub_configuration_set:
  assumes "configuration_sub k (put_member k' v) b = Some b'"
  shows "\<exists>a. sub_configuration (finished b') k = Some (obj_insert k' v a)"
  using assms
  by (rule configuration_sub_put) (auto simp: sub_configuration_def finished_object frame_simps)

lemma builder_configuration:
  "decl_mode md b = Some b' \<Longrightarrow> rc_mode (fill_configuration (finished b')) = md"
  "decl_composition c b = Some b' \<Longrightarrow> rc_composition (fill_configuration (finished b')) = with_knob_defaults c"
  "decl_identity_provider n b = Some b' \<Longrightarrow> rc_identity_provider (fill_configuration (finished b')) = n"
proof -
  show "decl_mode md b = Some b' \<Longrightarrow> rc_mode (fill_configuration (finished b')) = md"
    unfolding decl_mode_def
    by (drule configuration_set, cases md) (auto simp: fill_configuration_def Let_def frame_simps)
  show "rc_composition (fill_configuration (finished b')) = with_knob_defaults c" if "decl_composition c b = Some b'"
  proof -
    have "sub_configuration (finished b') ''composition'' = Some (composition_object c)"
      using configuration_set [OF that [unfolded decl_composition_def]]
      by (auto simp: sub_configuration_def frame_simps)
    from composition_stated [OF this] show ?thesis by (simp add: fill_configuration_def Let_def)
  qed
  show "decl_identity_provider n b = Some b' \<Longrightarrow> rc_identity_provider (fill_configuration (finished b')) = n"
    unfolding decl_identity_provider_def
    by (drule configuration_set, cases n) (auto simp: fill_configuration_def Let_def identity_of_def)
qed

lemma builder_sub_configuration:
  "decl_approval_resolver n b = Some b' \<Longrightarrow> ra_resolver (rc_approval (fill_configuration (finished b'))) = n"
  "decl_approval_redactor n b = Some b' \<Longrightarrow> ra_redactor (rc_approval (fill_configuration (finished b'))) = n"
  "decl_tool_seam p b = Some b' \<Longrightarrow> rc_tool_seam (fill_configuration (finished b')) = p"
  "decl_failure_on_error e b = Some b' \<Longrightarrow> rc_on_error (fill_configuration (finished b')) = e"
  "decl_interceptor_timeout ms b = Some b' \<Longrightarrow>
     rt_interceptor_ms (rc_timeouts (fill_configuration (finished b'))) = map_option unat ms"
  "decl_resolver_timeout ms b = Some b' \<Longrightarrow>
     rt_approval_resolver_ms (rc_timeouts (fill_configuration (finished b'))) = map_option unat ms"
  "decl_max_buffered ms b = Some b' \<Longrightarrow> rc_max_buffered (fill_configuration (finished b')) = map_option unat ms"
proof -
  note set = sub_configuration_set and defs = fill_configuration_def Let_def nullable_reads frame_simps
  show "decl_approval_resolver n b = Some b' \<Longrightarrow> ra_resolver (rc_approval (fill_configuration (finished b'))) = n"
    unfolding decl_approval_resolver_def by (drule set) (auto simp: defs)
  show "decl_approval_redactor n b = Some b' \<Longrightarrow> ra_redactor (rc_approval (fill_configuration (finished b'))) = n"
    unfolding decl_approval_redactor_def by (drule set) (auto simp: defs)
  show "decl_failure_on_error e b = Some b' \<Longrightarrow> rc_on_error (fill_configuration (finished b')) = e"
    unfolding decl_failure_on_error_def by (drule set) (auto simp: defs on_error_of_def on_error_from_wire_str)
  show "decl_interceptor_timeout ms b = Some b' \<Longrightarrow>
     rt_interceptor_ms (rc_timeouts (fill_configuration (finished b'))) = map_option unat ms"
    unfolding decl_interceptor_timeout_def by (drule set) (auto simp: defs timeout_of_def)
  show "decl_resolver_timeout ms b = Some b' \<Longrightarrow>
     rt_approval_resolver_ms (rc_timeouts (fill_configuration (finished b'))) = map_option unat ms"
    unfolding decl_resolver_timeout_def by (drule set) (auto simp: defs timeout_of_def)
  show "decl_max_buffered ms b = Some b' \<Longrightarrow> rc_max_buffered (fill_configuration (finished b')) = map_option unat ms"
    unfolding decl_max_buffered_def by (drule set) (auto simp: defs)
  show "decl_tool_seam p b = Some b' \<Longrightarrow> rc_tool_seam (fill_configuration (finished b')) = p"
    unfolding decl_tool_seam_def
    by (drule set, cases p) (auto simp: fill_configuration_def Let_def frame_simps)
qed

subsection \<open>Bindings\<close>

definition bound_options :: "resolved_surface \<Rightarrow> nat option \<Rightarrow> on_error \<Rightarrow> string \<Rightarrow> string \<Rightarrow> json
    \<Rightarrow> binding_options \<Rightarrow> resolved_binding" where
  "bound_options s ms e bid kind config opts =
     \<lparr>rb_id = bid, rb_kind = kind, rb_config = config,
      rb_at = (case bo_at opts of None \<Rightarrow> rs_points s | Some ps \<Rightarrow> bt_set ps),
      rb_timeout_ms = (case bo_timeout_ms opts of None \<Rightarrow> ms | Some t \<Rightarrow> map_option unat t),
      rb_on_error = (case bo_on_error opts of None \<Rightarrow> e | Some e' \<Rightarrow> e')\<rparr>"

lemma point_set_array: "obj_get m k = Some (point_array ps) \<Longrightarrow> point_set m k = Some (bt_set ps)"
proof -
  have "List.map_filter (\<lambda>v. Option.bind (as_str v) point_from_str) (map JStr (map point_str qs)) = qs" for qs
    by (induction qs) (auto simp: map_filter_simps)
  moreover have "bt_set (bt_set ps) = bt_set ps"
    using bt_set_sorted [of ps] by (simp add: bt_set_def [of "bt_set ps"] sorted_sort_id distinct_remdups_id)
  ultimately show "obj_get m k = Some (point_array ps) \<Longrightarrow> point_set m k = Some (bt_set ps)"
    by (simp add: point_set_def point_array_def str_array_def)
qed

lemma fill_binding_object:
  "fill_binding s ms e (binding_object bid kind config opts) = bound_options s ms e bid kind config opts"
proof -
  let ?b = "binding_object bid kind config opts"
  have g: "obj_get ?b ''id'' = Some (JStr bid)" "obj_get ?b ''kind'' = Some (JStr kind)"
    "obj_get ?b ''config'' = Some config" "obj_get ?b ''at'' = map_option point_array (bo_at opts)"
    "obj_get ?b ''timeout_ms'' = map_option nullable_u64 (bo_timeout_ms opts)"
    "obj_get ?b ''on_error'' = map_option (\<lambda>e. JStr (on_error_str e)) (bo_on_error opts)"
    by (simp_all add: binding_object_def Let_def split: option.split)
  have "point_set ?b ''at'' = map_option bt_set (bo_at opts)"
    using g(4) by (cases "bo_at opts") (auto simp: point_set_array, simp add: point_set_def)
  moreover have "get_int_or_null ?b ''timeout_ms'' = map_option (map_option unat) (bo_timeout_ms opts)"
    using g(5) by (cases "bo_timeout_ms opts"; cases "the (bo_timeout_ms opts)") (auto simp: get_int_or_null_def)
  moreover have "get_str ?b ''id'' = Some bid" "get_str ?b ''kind'' = Some kind"
    "get_str ?b ''on_error'' = map_option on_error_str (bo_on_error opts)"
    using g by (simp_all add: get_str_def, cases "bo_on_error opts", simp_all)
  ultimately show ?thesis
    by (simp add: g(3) fill_binding_def bound_options_def on_error_from_wire_str split: option.split)
qed

lemma builder_binding:
  assumes "decl_bind_with bid kind config opts b = Some b'"
  shows "rd_bindings (fill (finished b') code) =
    rd_bindings (fill (finished b) code)
      @ [bound_options (resolve_surface (finished b) code) (timeout_of (finished b) ''interceptor_ms'' (Some 5000))
           (on_error_of (finished b)) bid kind config opts]"
proof -
  obtain bs where bs: "db_doc b' = obj_insert ''bindings'' (JArr (bs @ [JObj (binding_object bid kind config opts)])) (db_doc b)"
    "document_bindings (db_doc b) = bs"
    using assms
    by (auto simp: decl_bind_with_def on_doc_Some document_bindings_def split: option.splits)
  have same: "obj_get (finished b') k = obj_get (finished b) k" if "k \<noteq> ''bindings''" "k \<noteq> ''declaration''" for k
    using bs(1) that by (simp add: finished_get)
  have "get_object (finished b') k = get_object (finished b) k" if "k \<noteq> ''bindings''" "k \<noteq> ''declaration''" for k
    using same [OF that] by (simp add: get_object_def)
  then have eq: "resolve_surface (finished b') code = resolve_surface (finished b) code"
    "timeout_of (finished b') k d = timeout_of (finished b) k d" "on_error_of (finished b') = on_error_of (finished b)" for k d
    by (simp_all add: resolve_surface_def timeout_of_def on_error_of_def sub_configuration_def)
  have d: "document_bindings (finished c) = document_bindings (db_doc c)" for c
    by (simp add: document_bindings_def finished_get)
  have "document_bindings (db_doc b') = bs @ [JObj (binding_object bid kind config opts)]"
    using bs(1) by (simp add: document_bindings_def)
  then have "binding_objects (finished b') = binding_objects (finished b) @ [binding_object bid kind config opts]"
    using bs(2) by (simp add: binding_objects_def d map_filter_def)
  then show ?thesis by (simp add: fill_bindings eq fill_binding_object)
qed

section \<open>No setter panics\<close>

text \<open>The setters other than \<open>raw\<close>, with what they give on a builder.\<close>

inductive decl_setter :: "decl_builder \<Rightarrow> decl_builder option \<Rightarrow> bool" for b where
  "decl_setter b (decl_version v b)"
| "decl_setter b (decl_spec v b)"
| "decl_setter b (decl_id v b)"
| "decl_setter b (decl_host n vo b)"
| "decl_setter b (decl_extension k x b)"
| "decl_setter b (decl_mode md b)"
| "decl_setter b (decl_composition c b)"
| "decl_setter b (decl_identity_provider no b)"
| "decl_setter b (decl_approval_resolver no b)"
| "decl_setter b (decl_approval_redactor no b)"
| "decl_setter b (decl_tool_seam p b)"
| "decl_setter b (decl_failure_on_error e b)"
| "decl_setter b (decl_interceptor_timeout ms b)"
| "decl_setter b (decl_resolver_timeout ms b)"
| "decl_setter b (decl_max_buffered ms b)"
| "decl_setter b (decl_points ps b)"
| "decl_setter b (decl_capabilities cs b)"
| "decl_setter b (decl_profile pr ks b)"
| "decl_setter b (decl_buffered bu bound b)"
| "decl_setter b (decl_versions vs b)"
| "decl_setter b (decl_bind_with bid kind config opts b)"
| "decl_setter b (decl_bind bid kind config at mo b)"

lemma object_or_absent_insert:
  "object_or_absent (obj_insert k v m) k' \<longleftrightarrow> (if k' = k then as_object v \<noteq> None else object_or_absent m k')"
  by (simp add: object_or_absent_def frame_simps)

lemma sub_insert: "sub (obj_insert k v m) k' = (if k' = k then or_else (as_object v) [] else sub m k')"
  by (simp add: sub_def frame_simps)

lemmas shape_simps = shape_ok_def object_or_absent_insert sub_insert CONFIGURATION_SUBS_def

lemma shape_top:
  "shape_ok m \<Longrightarrow> k \<in> {''declaration'', ''spec'', ''id'', ''host''} \<Longrightarrow> shape_ok (obj_insert k v m)"
  by (auto simp: shape_simps)

lemma shape_extensions: "shape_ok m \<Longrightarrow> shape_ok (obj_insert ''extensions'' (JObj x) m)"
  by (simp add: shape_simps)

lemma shape_configuration:
  "shape_ok m \<Longrightarrow> k \<in> {''mode'', ''composition'', ''identity_provider''} \<Longrightarrow>
     shape_ok (obj_insert ''configuration'' (JObj (obj_insert k v (sub m ''configuration''))) m)"
  by (auto simp: shape_simps)

lemma shape_configuration_sub:
  "shape_ok m \<Longrightarrow> k \<in> set CONFIGURATION_SUBS \<Longrightarrow>
     shape_ok (obj_insert ''configuration'' (JObj (obj_insert k (JObj a) (sub m ''configuration''))) m)"
  by (auto simp: shape_simps)

lemma shape_surface:
  "shape_ok m \<Longrightarrow> object_or_absent s ''profiles'' \<Longrightarrow> shape_ok (obj_insert ''surface'' (JObj s) m)"
  by (simp add: shape_simps)

lemma shape_bindings: "shape_ok m \<Longrightarrow> shape_ok (obj_insert ''bindings'' (JArr bs) m)"
  by (simp add: shape_simps)

definition keeps_shape :: "decl_builder option \<Rightarrow> bool" where
  "keeps_shape r \<longleftrightarrow> (\<exists>b'. r = Some b' \<and> shape_ok (db_doc b'))"

lemma keeps_top:
  "shape_ok (db_doc b) \<Longrightarrow> k \<in> {''declaration'', ''spec'', ''id'', ''host''} \<Longrightarrow> keeps_shape (on_doc (put_member k v) b)"
  by (simp add: keeps_shape_def on_doc_def put_member_def shape_top)

lemma keeps_extensions: "shape_ok (db_doc b) \<Longrightarrow> keeps_shape (on_doc (in_object ''extensions'' (put_member k v)) b)"
  by (simp add: keeps_shape_def on_doc_def put_member_def in_object_eq shape_extensions shape_ok_def [of "db_doc b"])

lemma keeps_configuration:
  "shape_ok (db_doc b) \<Longrightarrow> k \<in> {''mode'', ''composition'', ''identity_provider''} \<Longrightarrow>
     keeps_shape (in_configuration (put_member k v) b)"
  using shape_configuration [of "db_doc b" k v]
  by (simp add: keeps_shape_def in_configuration_def on_doc_def put_member_def in_object_eq shape_ok_def [of "db_doc b"])

lemma keeps_configuration_sub:
  assumes "shape_ok (db_doc b)" "k \<in> set CONFIGURATION_SUBS"
  shows "keeps_shape (configuration_sub k (put_member k' v) b)"
proof -
  have "object_or_absent (db_doc b) ''configuration''" "object_or_absent (sub (db_doc b) ''configuration'') k"
    using assms by (auto simp: shape_ok_def list_all_iff)
  then show ?thesis
    using shape_configuration_sub [OF assms]
    by (simp add: keeps_shape_def configuration_sub_def in_configuration_def on_doc_def put_member_def in_object_eq)
qed

lemma keeps_surface:
  assumes "shape_ok (db_doc b)"
    and "\<exists>s'. f (sub (db_doc b) ''surface'') = Some s' \<and> object_or_absent s' ''profiles''"
  shows "keeps_shape (in_surface f b)"
proof -
  have "object_or_absent (db_doc b) ''surface''" using assms(1) by (simp add: shape_ok_def)
  then show ?thesis
    using assms(2) shape_surface [OF assms(1)]
    by (auto simp: keeps_shape_def in_surface_def on_doc_def in_object_eq)
qed

lemma map_of_remove_key: "map_of (remove_key k m) k' = (if k' = k then None else map_of m k')"
  by (induction m) (auto simp: remove_key_def)

lemma profiles_kept:
  assumes "shape_ok (db_doc b)"
  shows "object_or_absent (sub (db_doc b) ''surface'') ''profiles''"
  using assms by (simp add: shape_ok_def)

lemma keeps_bindings:
  assumes "shape_ok (db_doc b)"
  shows "keeps_shape (decl_bind_with bid kind config opts b)"
  using assms shape_bindings [OF assms]
  by (auto simp: keeps_shape_def decl_bind_with_def on_doc_def shape_ok_def [of "db_doc b"] bind_eq_Some_conv
      split: option.splits)

lemma decl_setter_total:
  assumes "decl_setter b r" "shape_ok (db_doc b)"
  shows "keeps_shape r"
  using assms(1)
proof cases
  case (18 pr ks)
  then show ?thesis
    using profiles_kept [OF assms(2)] unfolding decl_profile_def
    by (simp only:, intro keeps_surface [OF assms(2)]) (simp add: in_object_eq put_member_def object_or_absent_insert)
next
  case (19 bu bound)
  have "object_or_absent (remove_key k m) ''profiles'' = object_or_absent m ''profiles''" if "k \<noteq> ''profiles''" for k m
    using that by (simp add: object_or_absent_def get_object_def map_of_remove_key)
  with 19 show ?thesis
    using profiles_kept [OF assms(2)] unfolding decl_buffered_def
    by (simp only:, intro keeps_surface [OF assms(2)]) (auto simp: Let_def object_or_absent_insert split: option.split)
qed (use assms(2) in \<open>auto simp: decl_version_def decl_spec_def decl_id_def decl_host_def decl_extension_def
    decl_mode_def decl_composition_def decl_identity_provider_def decl_approval_resolver_def
    decl_approval_redactor_def decl_tool_seam_def decl_failure_on_error_def decl_interceptor_timeout_def
    decl_resolver_timeout_def decl_max_buffered_def decl_points_def decl_capabilities_def decl_versions_def
    decl_bind_def CONFIGURATION_SUBS_def put_member_def object_or_absent_insert profiles_kept
    intro!: keeps_top keeps_extensions keeps_configuration keeps_configuration_sub keeps_bindings keeps_surface\<close>)

text \<open>The builders a host can reach without \<open>raw\<close>.\<close>

inductive built :: "decl_builder \<Rightarrow> bool" where
  start: "built (new_decl spec)"
| setter: "built b \<Longrightarrow> decl_setter b (Some b') \<Longrightarrow> built b'"

lemma on_doc_defaults: "on_doc f b = Some b' \<Longrightarrow> db_defaults b' = db_defaults b"
  by (auto simp: on_doc_Some)

lemma decl_setter_defaults: "decl_setter b (Some b') \<Longrightarrow> db_defaults b' = db_defaults b"
proof -
  have "\<exists>f. r = on_doc f b" if "decl_setter b r" for r
    using that
    by cases (auto simp: decl_version_def decl_spec_def decl_id_def decl_host_def decl_extension_def
      decl_mode_def decl_composition_def decl_identity_provider_def decl_approval_resolver_def
      decl_approval_redactor_def decl_tool_seam_def decl_failure_on_error_def decl_interceptor_timeout_def
      decl_resolver_timeout_def decl_max_buffered_def decl_points_def decl_capabilities_def decl_versions_def
      decl_bind_def decl_bind_with_def decl_profile_def decl_buffered_def in_configuration_def
      configuration_sub_def in_surface_def)
  then show "decl_setter b (Some b') \<Longrightarrow> db_defaults b' = db_defaults b"
    by (metis on_doc_defaults)
qed

lemma built_shape: "built b \<Longrightarrow> shape_ok (db_doc b) \<and> db_defaults b"
proof (induction rule: built.induct)
  case (start spec)
  then show ?case
    by (simp add: new_decl_def shape_ok_def object_or_absent_def sub_def CONFIGURATION_SUBS_def get_object_def)
next
  case (setter b b')
  then show ?case
    using decl_setter_total [OF setter(2)] decl_setter_defaults [OF setter(2)] by (auto simp: keeps_shape_def)
qed

lemma built_total: "built b \<Longrightarrow> decl_setter b r \<Longrightarrow> \<exists>b'. r = Some b' \<and> built b'"
  using decl_setter_total [of b r] built_shape [of b] built.setter [of b]
  by (auto simp: keeps_shape_def)

lemma default_version_accepted:
  assumes "db_defaults b" "obj_get (db_doc b) ''declaration'' = None" "document_spec (db_doc b) = Some spec"
  shows "check_version (finished b) = Inr ()" "check_spec (finished b) = Inr ()"
proof -
  have f: "finished b = obj_insert ''declaration'' (JStr (current_declaration_version spec)) (db_doc b)"
    using assms by (simp add: finished_def contains_key_def)
  have "document_spec (finished b) = Some spec" using assms(3) by (simp add: f document_spec_def frame_simps)
  then show "check_spec (finished b) = Inr ()" "check_version (finished b) = Inr ()"
    by (cases spec; simp add: check_spec_iff check_version_iff accepted_declaration_versions_def f frame_simps)+
qed

end
