(* ===== verification/Decl_Migrate.thy ===== *)
theory Decl_Migrate
  imports Decl_Laws
begin

text \<open>
  Migration between contract versions (\<open>migrate\<close>): which members it changes, that a
  loaded document passes every field check again and resolves as before, and where the loader
  can still refuse it.
\<close>

section \<open>What changes\<close>

definition same_elsewhere :: "object \<Rightarrow> object \<Rightarrow> bool" where
  "same_elsewhere m m' \<longleftrightarrow> (\<forall>k. k \<notin> {''declaration'', ''spec''} \<longrightarrow> obj_get m' k = obj_get m k)"

lemma migrate_object:
  assumes "migrate (JObj m) to = Inr v"
  obtains m' where "v = JObj m'" "same_elsewhere m m'" "get_str m' ''declaration'' = Some to"
    and "to \<in> set SUPPORTED_DECLARATION_VERSIONS"
    and "m' = m \<or> (\<exists>s. document_spec m' = Some s \<and> accepts_declaration s to
      \<and> (\<forall>t. document_spec m = Some t \<and> accepts_declaration t to \<longrightarrow> obj_get m' ''spec'' = obj_get m ''spec''))"
    and "get_str m ''declaration'' \<noteq> Some to \<longrightarrow>
      (\<exists>v0 f t. get_str m ''declaration'' = Some v0 \<and> parse_declaration_version v0 = Some f
        \<and> parse_declaration_version to = Some t \<and> fst f = fst t \<and> snd f \<le> snd t)"
proof -
  obtain v0 where src: "get_str m ''declaration'' = Some v0" and to: "to \<in> set SUPPORTED_DECLARATION_VERSIONS"
    using assms by (auto simp: migrate_def split: if_splits option.splits)
  show thesis
  proof (cases "v0 = to")
    case True
    with assms src to have "v = JObj m" by (simp add: migrate_def)
    with src True to show thesis by (intro that [of m]) (auto simp: same_elsewhere_def)
  next
    case False
    let ?m1 = "obj_insert ''declaration'' (JStr to) m"
    define s where "s = find (\<lambda>s. accepts_declaration s to) spec_all"
    define m' where "m' = (if opt_holds (\<lambda>s. accepts_declaration s to) (document_spec ?m1) then ?m1
      else case s of None \<Rightarrow> ?m1 | Some s \<Rightarrow> obj_insert ''spec'' (JStr (spec_wire s)) ?m1)"
    obtain f t where ft: "parse_declaration_version v0 = Some f" "parse_declaration_version to = Some t"
      "fst f = fst t" "snd f \<le> snd t" and v: "v = JObj m'"
      using assms src to False unfolding migrate_def m'_def s_def
      by (auto simp: not_less split: option.splits if_splits prod.splits)
    have d1: "document_spec ?m1 = document_spec m" by (simp add: document_spec_def frame_simps)
    have "accepts_declaration Draft to"
      using to by (simp add: SUPPORTED_DECLARATION_VERSIONS_def accepts_declaration_def)
    then obtain s' where s': "s = Some s'" "accepts_declaration s' to"
      by (cases "accepts_declaration V0_1 to") (auto simp: s_def spec_all_def)
    have same: "same_elsewhere m m'" "get_str m' ''declaration'' = Some to"
      using s'(1) by (auto simp: m'_def same_elsewhere_def frame_simps)
    have "document_spec (obj_insert ''spec'' (JStr (spec_wire s')) ?m1) = Some s'"
      by (simp add: document_spec_def frame_simps)
    then have "\<exists>s. document_spec m' = Some s \<and> accepts_declaration s to
        \<and> (\<forall>t. document_spec m = Some t \<and> accepts_declaration t to \<longrightarrow> obj_get m' ''spec'' = obj_get m ''spec'')"
      using s' d1 by (cases "document_spec m") (auto simp: m'_def)
    moreover have "\<exists>v0 f t. get_str m ''declaration'' = Some v0 \<and> parse_declaration_version v0 = Some f
        \<and> parse_declaration_version to = Some t \<and> fst f = fst t \<and> snd f \<le> snd t"
      using src ft by blast
    ultimately show thesis using that [OF v same to] by blast
  qed
qed

section \<open>What stays\<close>

lemma same_elsewhere_get:
  assumes "same_elsewhere m m'" "k \<notin> {''declaration'', ''spec''}"
  shows "obj_get m' k = obj_get m k" "get_object m' k = get_object m k" "get_str m' k = get_str m k"
    "contains_key m' k = contains_key m k"
  using assms by (simp_all add: same_elsewhere_def get_object_def get_str_def contains_key_def)

lemma same_elsewhere_sub:
  assumes "same_elsewhere m m'"
  shows "sub_configuration m' = sub_configuration m" "document_bindings m' = document_bindings m"
    "stated_composition m' = stated_composition m" "timeout_of m' = timeout_of m" "on_error_of m' = on_error_of m"
    "identity_of m' = identity_of m" "resolve_surface m' = resolve_surface m"
  by (simp_all add: fun_eq_iff sub_configuration_def document_bindings_def stated_composition_def timeout_of_def
      on_error_of_def identity_of_def resolve_surface_def same_elsewhere_get [OF assms])

lemma migrated_fill:
  assumes "same_elsewhere m m'"
  shows "fill m' code = (fill m code)\<lparr>rd_declaration := or_else (get_str m' ''declaration'') [],
    rd_spec := or_else (get_str m' ''spec'') []\<rparr>"
  by (simp add: fill_def Let_def fill_configuration_def same_elsewhere_get [OF assms] same_elsewhere_sub [OF assms])

lemma migrated_fields:
  assumes "same_elsewhere m m'" "field_findings m = []"
  shows "field_findings m' = []"
  using assms(2) by (simp add: field_findings_def bindings_fields_def same_elsewhere_get [OF assms(1)])

lemma unknown_fields_mono:
  assumes "same_elsewhere m m'" "unknown_fields m = []" "fst ` set m' \<subseteq> set ROOT_KEYS"
    and "introduced_later m' ON_ERROR_SINCE \<Longrightarrow> introduced_later m ON_ERROR_SINCE"
  shows "unknown_fields m' = []"
proof -
  have "unknown_configuration m' c = []" if "unknown_configuration m c = []" for c
    using that assms(4) by (auto simp: unknown_configuration_def)
  moreover have "unknown_binding m' ib = []" if "unknown_binding m ib = []" for ib
    using that assms(4) by (auto simp: unknown_binding_def split: option.splits)
  ultimately show ?thesis
    using assms(2,3) by (simp add: unknown_fields_def same_elsewhere_get [OF assms(1)] same_elsewhere_sub [OF assms(1)])
qed

lemma same_elsewhere_keys:
  assumes "same_elsewhere m m'" "unknown_fields m = []"
  shows "fst ` set m' \<subseteq> set ROOT_KEYS"
proof
  fix k assume "k \<in> fst ` set m'"
  then have k: "obj_get m' k \<noteq> None" by (simp add: map_of_eq_None_iff)
  show "k \<in> set ROOT_KEYS"
  proof (cases "k \<in> {''declaration'', ''spec''}")
    case False
    with k assms(1) have "obj_get m k \<noteq> None" by (auto simp: same_elsewhere_def)
    then have "k \<in> fst ` set m" unfolding map_of_eq_None_iff by simp
    with assms(2) show ?thesis by (auto simp: unknown_fields_def)
  qed (auto simp: ROOT_KEYS_def)
qed

lemma migrated_document:
  assumes doc: "from_json jparse text = Inr m" and mig: "migrate (JObj m) to = Inr (JObj m')"
  shows "check_version m' = Inr ()" "check_spec m' = Inr ()" "unknown_fields m' = []" "field_findings m' = []"
    and "same_elsewhere m m'" "get_str m' ''declaration'' = Some to"
proof -
  note d = from_json_Inr [OF doc]
  from mig obtain same: "same_elsewhere m m'" and decl: "get_str m' ''declaration'' = Some to"
    and spec: "m' = m \<or> (\<exists>s. document_spec m' = Some s \<and> accepts_declaration s to)"
    and step: "get_str m ''declaration'' \<noteq> Some to \<longrightarrow>
      (\<exists>v0 f t. get_str m ''declaration'' = Some v0 \<and> parse_declaration_version v0 = Some f
        \<and> parse_declaration_version to = Some t \<and> fst f = fst t \<and> snd f \<le> snd t)"
    by (rule migrate_object) (blast | simp)+
  show "same_elsewhere m m'" "get_str m' ''declaration'' = Some to" by (rule same, rule decl)
  show "check_version m' = Inr ()" "check_spec m' = Inr ()"
    using spec d(2,3) decl
    by (auto simp: check_version_iff check_spec_iff accepted_declaration_versions_def accepts_declaration_def)
  show "field_findings m' = []" by (rule migrated_fields [OF same d(5)])
  have "introduced_later m ON_ERROR_SINCE" if "introduced_later m' ON_ERROR_SINCE"
    using that step decl by (cases "get_str m ''declaration'' = Some to") (auto simp: introduced_later_def)
  then show "unknown_fields m' = []"
    by (intro unknown_fields_mono [OF same d(4) same_elsewhere_keys [OF same d(4)]])
qed

end
