(* ===== verification/Declaration_Properties.thy ===== *)
theory Declaration_Properties
  imports Samples Decl_Samples Decl_Scan Decl_Builder Decl_Migrate
begin

text \<open>
  The properties of host declarations: what an accepted document resolves to, what the host's
  code allows, the emitter it becomes, the loader's checks against declarative specifications,
  migration and the builder.
\<close>

text \<open>C8: a document the loader accepts resolves to a well-formed configuration: its contract
  version is one its specification version defines; names, kinds, ids, timeouts and the buffer
  bound match their grammars and ranges; ids are unique; every binding runs at some points of the
  surface; the surface covers the mandatory points with its pairs and capabilities in agreement;
  and a binding that continues past a failed control needs a specification version with failure
  postures.\<close>

theorem accepted_resolves_typed:
  "from_json jparse text = Inr doc \<Longrightarrow> resolve_surface_only doc code = Inr r \<Longrightarrow> resolved_ok r"
  by (rule resolved_well_formed)

theorem accepted_resolves_typed_witness:
  "resolved_ok sample_resolved \<and> length (rd_bindings sample_resolved) = 2"
proof -
  have "resolved_ok sample_resolved"
    by (rule accepted_resolves_typed [OF sample_accepted registry_resolve_Inr(1) [OF sample_resolves]])
  moreover have "length (rd_bindings sample_resolved) = 2" by code_simp
  ultimately show ?thesis ..
qed

text \<open>C9: what a registry resolves an accepted document to lies within the host's code: the
  points, capabilities, contract versions, profiles and knob values are among the supported ones,
  output is streamed only where the host can, the tool-seam posture is the host's, nothing is
  bounded where the build cannot bound, every referenced name and kind is registered, and a
  continuing binding has its notifier.\<close>

theorem resolved_within_host:
  "from_json jparse text = Inr doc \<Longrightarrow> registry_resolve doc reg = Inr r \<Longrightarrow>
     within_surface (hr_surface reg) r \<and> names_registered reg r"
  using resolved_within_surface registry_resolve_Inr by blast

theorem resolved_within_host_witness:
  "within_surface (hr_surface sample_registry) sample_resolved \<and> names_registered sample_registry sample_resolved"
  by (rule resolved_within_host [OF sample_accepted sample_resolves])



text \<open>C16: loading an accepted document never panics. It is refused before any kind resolver
  ran, with the registry's own refusal; or the resolvers of a prefix of the bindings ran, in
  order and once each, and the last of them rejected its binding; or all ran and the emitter is
  built.\<close>

theorem declaration_outcomes:
  assumes "from_json jparse text = Inr doc" "from_declaration tokio doc reg = (res, calls)"
  shows "(\<exists>e. registry_resolve doc reg = Inl e \<and> res = Some (Inl e) \<and> calls = [])
    \<or> (\<exists>r j. registry_resolve doc reg = Inr r \<and> j < length (rd_bindings r)
        \<and> res = Some (Inl (decl_error BindingRejected (binding_ptr j))) \<and> calls = take (Suc j) (binding_calls r))
    \<or> (\<exists>r em. registry_resolve doc reg = Inr r \<and> res = Some (Inr em) \<and> calls = binding_calls r)"
  using assms by (cases rule: from_declaration_outcome) blast+

theorem declaration_outcomes_witness:
  "\<exists>r j. registry_resolve sample_doc refusing_registry = Inr r \<and> j < length (rd_bindings r)
     \<and> binding_calls sample_resolved = take (Suc j) (binding_calls r)"
  using declaration_outcomes [OF sample_accepted refused_run] sample_calls by auto

text \<open>a document that is accepted and resolves is loaded: when every registered kind
  resolver accepts its configuration, the emitter is built and runs the declaration.\<close>

theorem declaration_progress:
  assumes "from_json jparse text = Inr doc" "registry_resolve doc reg = Inr r" "accepting reg"
  shows "\<exists>em. from_declaration_json jparse tokio text reg = (Some (Inr em), binding_calls r) \<and> runs_declared r em"
  using assms(1) by (rule from_declaration_accepting [OF _ assms(2,3)])
    (auto simp: from_declaration_json_def loaded_declaration_def assms(1))

theorem declaration_progress_witness:
  "\<exists>em. from_declaration_json sample_parse True sample_text sample_registry
      = (Some (Inr em), binding_calls sample_resolved) \<and> runs_declared sample_resolved em"
  by (rule declaration_progress [OF sample_accepted sample_resolves sample_accepting])

text \<open>C21: the scan of the document text reports exactly the pointers of the integers beyond
  \<open>2^53 - 1\<close>, in document order, for every JSON text with any white space between its
  tokens: a string never counts, whatever digits it holds, and every escaped key is decoded in the
  pointer.\<close>

theorem integer_scan_exact:
  "value_text t s \<Longrightarrow> ws a \<Longrightarrow> ws b \<Longrightarrow>
     scan_integer_tokens jparse [] (a @ s @ b) = big_integers jparse [] t"
  by (rule scan_document)

theorem integer_scan_exact_witness:
  "scan_integer_tokens sample_parse [] '' {\"a\": [1, 9007199254740992]}'' = [''/a/1'']"
proof -
  have n: "value_text (TNum ''1'') ''1''" "value_text (TNum ''9007199254740992'') ''9007199254740992''"
    by (rule value_text_items_text_members_text.num; code_simp)+
  have w: "ws []" "ws '' ''" by (simp_all add: ws_def)
  have "items_text [TNum ''1'', TNum ''9007199254740992''] ''1, 9007199254740992''"
    using value_text_items_text_members_text.item [OF w(1) n(1) w(1)
        value_text_items_text_members_text.last_item [OF w(2) n(2) w(1)]] by simp
  from value_text_items_text_members_text.array [OF this]
  have arr: "value_text (TArr [TNum ''1'', TNum ''9007199254740992'']) ''[1, 9007199254740992]''" by simp
  have "string_ok ''a''" by simp
  from value_text_items_text_members_text.object
    [OF value_text_items_text_members_text.last_member [OF w(1) this w(1) w(2) arr w(1)]]
  have "value_text (TObj [(''a'', TArr [TNum ''1'', TNum ''9007199254740992''])]) ''{\"a\": [1, 9007199254740992]}''"
    by (simp add: quoted_def)
  from integer_scan_exact [OF this w(2) w(1), of sample_parse]
  have "scan_integer_tokens sample_parse [] '' {\"a\": [1, 9007199254740992]}'' =
    big_integers sample_parse [] (TObj [(''a'', TArr [TNum ''1'', TNum ''9007199254740992''])])" by simp
  also have "\<dots> = [''/a/1'']" by code_simp
  finally show ?thesis .
qed

text \<open>the checked parse accepts a text exactly when it is within the size bound and the tree
  the parser gives for it repeats no member and nests at most 32 containers.\<close>

theorem document_parse_exact:
  "(\<exists>v. parse_document jparse text = Inr v) = (length text \<le> MAX_DOCUMENT_BYTES
     \<and> (\<exists>r. jparse text = Some r \<and> distinct_members r \<and> nested_within DOCUMENT_MAX_DEPTH r))"
proof (cases "jparse text")
  case (Some r)
  then show ?thesis using load_iff(1) [of 0 r] by (auto simp: parse_document_def not_less split: option.split)
qed (simp add: parse_document_def)

text \<open>validating the surface of a host accepts exactly the surfaces that cover the mandatory
  points, have the model and tool points in pairs that agree with the capabilities, name known
  capabilities and contract versions only, have a non-empty exposure bound of at most 512
  characters where output is incremental, and give every profile at least one value, and only
  defined values, for each knob it consults.\<close>

theorem surface_validate_exact:
  "(surface_validate s = Inr ()) = surface_ok s"
  by (rule surface_validate_iff)

text \<open>migrating an accepted document to another contract version changes no member but the
  two version members; the result passes every version, member and field check again, and its
  resolved form differs in the two versions only.\<close>

theorem migration_changes_versions_only:
  assumes "from_json jparse text = Inr m" "migrate (JObj m) to = Inr v"
  shows "\<exists>m'. v = JObj m' \<and> same_elsewhere m m' \<and> get_str m' ''declaration'' = Some to
    \<and> check_version m' = Inr () \<and> check_spec m' = Inr () \<and> unknown_fields m' = [] \<and> field_findings m' = []
    \<and> (\<lambda>code. fill m' code) =
        (\<lambda>code. (fill m code)\<lparr>rd_declaration := to, rd_spec := or_else (get_str m' ''spec'') []\<rparr>)"
proof -
  from assms(2) obtain m' where m': "v = JObj m'" by (rule migrate_object)
  note d = migrated_document [OF assms(1) assms(2) [unfolded m']]
  from m' d migrated_fill [OF d(5)] show ?thesis by (intro exI [of _ m']) auto
qed

theorem migration_changes_versions_only_witness:
  "\<exists>m'. migrate (JObj sample_doc) DECLARATION_VERSION = Inr (JObj m') \<and> unknown_fields m' = []"
proof -
  have "migrate (JObj sample_doc) DECLARATION_VERSION = Inr (JObj sample_doc)" by code_simp
  from migration_changes_versions_only [OF sample_accepted this] this show ?thesis by auto
qed

text \<open>a document of the older contract version that states the versions its surface accepts
  passes every check, is migrated without an error, and is then refused as inconsistent: the
  migration leaves the stated set without the new version.\<close>

theorem migrated_document_refused:
  "let m = pinned_doc DECLARATION_1_0 (spec_wire V0_1); m' = pinned_doc DECLARATION_VERSION (spec_wire Draft)
   in check_version m = Inr () \<and> check_spec m = Inr () \<and> check_unknown_fields m = Inr ()
      \<and> field_findings m = [] \<and> check_consistency m None = Inr ()
      \<and> migrate (JObj m) DECLARATION_VERSION = Inr (JObj m')
      \<and> check_consistency m' None = Inl (decl_error Inconsistent ''/surface/declaration_versions'')"
proof -
  let ?m = "pinned_doc DECLARATION_1_0 (spec_wire V0_1)"
  have "check_version ?m = Inr ()" "check_spec ?m = Inr ()" "check_unknown_fields ?m = Inr ()"
    "check_consistency ?m None = Inr ()"
    "migrate (JObj ?m) DECLARATION_VERSION = Inr (JObj (pinned_doc DECLARATION_VERSION (spec_wire Draft)))"
    "check_consistency (pinned_doc DECLARATION_VERSION (spec_wire Draft)) None =
       Inl (decl_error Inconsistent ''/surface/declaration_versions'')"
    by code_simp+
  then show ?thesis by (simp add: Let_def pinned_fields)
qed



text \<open>no setter of the builder panics on a builder made by setters, and without an explicit
  version the document it finishes carries a contract version its specification version
  defines.\<close>

theorem builder_total:
  assumes "built b" "decl_setter b r"
  shows "(\<exists>b'. r = Some b' \<and> built b')
    \<and> (obj_get (db_doc b) ''declaration'' = None \<and> document_spec (db_doc b) \<noteq> None \<longrightarrow>
         check_version (finished b) = Inr () \<and> check_spec (finished b) = Inr ())"
  using built_total [OF assms] built_shape [OF assms(1)] default_version_accepted [of b] by auto

theorem builder_total_witness:
  "\<exists>b'. decl_mode EvaluateOnly (new_decl V0_1) = Some b' \<and> built b'"
  using builder_total [OF built.start decl_setter.intros(6)] by blast

text \<open>a registry filled by registrations holds only kinds that match the grammar outside the
  reserved segments, no kind both plain and managed, and only valid provider, resolver and
  redactor names.\<close>

theorem registry_invariant:
  "registry reg \<Longrightarrow> registry_ok reg"
  by (rule registry_registry_ok)

theorem registry_invariant_witness:
  "registry_ok sample_registry \<and> has_kind sample_registry ''acme.log''"
  using registry_invariant [OF sample_registry_registry]
  by (simp add: has_kind_def sample_registry_def)

end
