(* ===== verification/Projection_Scan.thy ===== *)
theory Projection_Scan
  imports Decl_Scan
begin

text \<open>
  \<open>canonical.rs\<close>, \<open>scan_projection_raw\<close>: the raw-text integer scan of a context
  narrowed to the members of the closed projection, against the grammar of JSON texts. The map of
  raw values comes from \<open>serde_json\<close>: the argument \<open>rd\<close> gives the members of an
  object's text, each key as written and each value's text, or \<open>None\<close> when the text is no object.
\<close>

section \<open>The scan\<close>

type_synonym raw_reader = "string \<Rightarrow> (string \<times> string) list option"

text \<open>
  \<open>HashMap<&str, &RawValue>\<close>: a borrowed key cannot hold an escape, so a text with an
  escaped key is refused; a repeated key keeps its last value.
\<close>

definition raw_map :: "raw_reader \<Rightarrow> string \<Rightarrow> (string \<rightharpoonup> string) option" where
  "raw_map rd text =
     (case rd text of
        None \<Rightarrow> None
      | Some ms \<Rightarrow> if list_ex (\<lambda>(k, _). CHR 0x5C \<in> set k) ms then None else Some (map_of (rev ms)))"

text \<open>\<open>from_str::<&str>\<close> on the text of a value.\<close>

fun borrowed_str :: "string \<Rightarrow> string option" where
  "borrowed_str [] = None"
| "borrowed_str (c # r) = (if c = CHR 0x22 \<and> CHR 0x5C \<notin> set r then Some (butlast r) else None)"

definition raw_point :: "(string \<rightharpoonup> string) \<Rightarrow> string" where
  "raw_point mems =
     (case Option.bind (mems ''interception_point'') borrowed_str of None \<Rightarrow> [] | Some ip \<Rightarrow> ip)"

definition scan_member :: "raw_reader \<Rightarrow> (string \<rightharpoonup> string) \<Rightarrow> keep \<Rightarrow> failure + unit" where
  "scan_member rd mems ks =
     (case mems (fst ks) of
        None \<Rightarrow> Inr ()
      | Some rv \<Rightarrow>
          (case snd ks of
             None \<Rightarrow> scan_raw_integer_domain rv
           | Some keep \<Rightarrow>
               (case raw_map rd rv of
                  Some m \<Rightarrow>
                    check_each (\<lambda>k. case m k of None \<Rightarrow> Inr () | Some f \<Rightarrow> scan_raw_integer_domain f) keep
                | None \<Rightarrow> scan_raw_integer_domain rv)))"

definition scan_projection_raw :: "raw_reader \<Rightarrow> string \<Rightarrow> failure + unit" where
  "scan_projection_raw rd ctx_json =
     (case raw_map rd ctx_json of
        None \<Rightarrow> Inl (ContextInvalid, ''ctx'')
      | Some mems \<Rightarrow> check_each (scan_member rd mems) (REQUIRED @ conditional_for (raw_point mems)))"

section \<open>The scan of one value's text\<close>

text \<open>The number tokens of a text, and the ones the domain excludes.\<close>

fun tok_numbers :: "tok \<Rightarrow> string list" where
  "tok_numbers (TNum t) = [t]"
| "tok_numbers (TArr xs) = concat (map tok_numbers xs)"
| "tok_numbers (TObj m) = concat (map (\<lambda>(k, x). tok_numbers x) m)"
| "tok_numbers _ = []"

definition big_token :: "string \<Rightarrow> bool" where
  "big_token t \<longleftrightarrow> integer_syntax t \<and> token_over t"

definition small :: "tok \<Rightarrow> bool" where
  "small v \<longleftrightarrow> (\<forall>t\<in>set (tok_numbers v). \<not> big_token t)"

lemma small_simps [simp]:
  "small (TNum t) \<longleftrightarrow> \<not> big_token t" "small (TWord w)" "small (TStr s)"
  "small (TArr xs) \<longleftrightarrow> (\<forall>x\<in>set xs. small x)"
  "small (TObj m) \<longleftrightarrow> (\<forall>(k, x)\<in>set m. small x)"
  by (auto simp: small_def)

lemma flag_Nil: "flag b p = [] \<longleftrightarrow> \<not> b"
  by (simp add: flag_def)

lemma big_integers_Nil:
  "big_integers jparse p v = [] \<longleftrightarrow> small v"
  "big_items jparse p i xs = [] \<longleftrightarrow> (\<forall>x\<in>set xs. small x)"
  "big_members jparse p m = [] \<longleftrightarrow> (\<forall>(k, x)\<in>set m. small x)"
  by (induction jparse p v and jparse p i xs and jparse p m
      rule: big_integers_big_items_big_members.induct)
     (auto simp: flag_Nil big_token_def)

text \<open>Both scanners stop at the same tokens, whatever the stack of the one that keeps pointers.\<close>

lemma scan_raw_tokens:
  "scan_raw_integer_domain s = Inr () \<longleftrightarrow> scan_integer_tokens jparse st s = []"
proof (induction s arbitrary: st rule: scan_raw_integer_domain.induct)
  case 1
  then show ?case by simp
next
  case (2 c r)
  note IH = "2.IH"
  show ?case
  proof (cases "c = CHR 0x22")
    case True
    then show ?thesis using IH(1) [OF True] by (simp add: scan_integer_tokens.simps(2))
  next
    case q: False
    show ?thesis
    proof (cases "c = CHR ''-'' \<or> is_digit c")
      case True
      then have "c \<notin> {CHR ''{'', CHR ''['', CHR ''}'', CHR '']'', CHR '',''}" by auto
      with True q IH(2) [OF q True refl, of st] show ?thesis
        by (auto simp: scan_integer_tokens.simps(2) Let_def)
    next
      case False
      with q IH(3) [OF q False] show ?thesis
        by (simp add: scan_integer_tokens.simps(2))
    qed
  qed
qed

lemma scan_raw_text: "value_text v s \<Longrightarrow> scan_raw_integer_domain s = Inr () \<longleftrightarrow> small v"
  using scan_raw_tokens [of s "\<lambda>_. None" "[]"] scan_document [of v s "[]" "[]" "\<lambda>_. None"]
  by (simp add: ws_def big_integers_Nil)

section \<open>The projected part of a text\<close>

text \<open>What \<open>serde_json\<close> documents of the reader, at the text of one value.\<close>

definition reads :: "raw_reader \<Rightarrow> tok \<Rightarrow> string \<Rightarrow> bool" where
  "reads rd v s \<longleftrightarrow> value_text v s \<and>
     (case v of
        TObj m \<Rightarrow> (\<exists>ms. rd s = Some ms \<and> list_all2 (\<lambda>(k, x) (k', t). k' = k \<and> value_text x t) m ms)
      | _ \<Rightarrow> rd s = None)"

text \<open>The same for a document and the values of its members.\<close>

definition reads_document :: "raw_reader \<Rightarrow> (string \<times> tok) list \<Rightarrow> string \<Rightarrow> bool" where
  "reads_document rd m s \<longleftrightarrow>
     (\<exists>ms. rd s = Some ms \<and> list_all2 (\<lambda>(k, x) (k', t). k' = k \<and> reads rd x t) m ms)"

definition tok_get :: "(string \<times> tok) list \<Rightarrow> string \<Rightarrow> tok option" where
  "tok_get m = map_of (rev m)"

definition plain_keys :: "(string \<times> tok) list \<Rightarrow> bool" where
  "plain_keys m \<longleftrightarrow> (\<forall>(k, x)\<in>set m. CHR 0x5C \<notin> set k)"

definition kept :: "(string \<times> tok) list \<Rightarrow> keep \<Rightarrow> tok list" where
  "kept m ks =
     (case tok_get m (fst ks) of
        None \<Rightarrow> []
      | Some v \<Rightarrow>
          (case (snd ks, v) of
             (Some keep, TObj n) \<Rightarrow> if plain_keys n then List.map_filter (tok_get n) keep else [v]
           | _ \<Rightarrow> [v]))"

text \<open>The spelling of the point, as the scan reads it.\<close>

definition plain_point :: "(string \<times> tok) list \<Rightarrow> string" where
  "plain_point m =
     (case tok_get m ''interception_point'' of
        Some (TStr b) \<Rightarrow> if CHR 0x5C \<in> set b then [] else b
      | _ \<Rightarrow> [])"

definition projected :: "(string \<times> tok) list \<Rightarrow> tok list" where
  "projected m = concat (map (kept m) (REQUIRED @ conditional_for (plain_point m)))"

lemma list_all2_keys:
  "list_all2 (\<lambda>(k, x) (k', t). k' = k \<and> P x t) m ms \<Longrightarrow> map fst ms = map fst m"
  by (induction rule: list_all2_induct) auto

lemma list_all2_map_of:
  assumes "list_all2 (\<lambda>(k, x) (k', t). k' = k \<and> P x t) m ms"
  shows "rel_option P (map_of m k) (map_of ms k)"
  using assms by (induction rule: list_all2_induct) auto

lemma list_all2_last:
  assumes "list_all2 (\<lambda>(k, x) (k', t). k' = k \<and> P x t) m ms"
  shows "rel_option P (tok_get m k) (map_of (rev ms) k)"
  unfolding tok_get_def
  by (rule list_all2_map_of) (use assms in simp)

lemma raw_map_plain:
  assumes "rd s = Some ms" "map fst ms = map fst m"
  shows "raw_map rd s = (if plain_keys m then Some (map_of (rev ms)) else None)"
proof -
  have "list_ex (\<lambda>(k, _). CHR 0x5C \<in> set k) ms \<longleftrightarrow> (\<exists>k\<in>set (map fst ms). CHR 0x5C \<in> set k)"
    by (force simp: list_ex_iff)
  then show ?thesis using assms unfolding assms(2) by (auto simp: raw_map_def plain_keys_def)
qed

lemma borrowed_text: "value_text v s \<Longrightarrow>
    borrowed_str s = (case v of TStr b \<Rightarrow> if CHR 0x5C \<in> set b then None else Some b | _ \<Rightarrow> None)"
proof (induction rule: value_text.cases)
  case (num t)
  then obtain c u where "t = c # u" "c = CHR ''-'' \<or> is_digit c"
    by (cases t) (auto simp: number_token_def)
  then show ?case using num by auto
qed (auto simp: quoted_def)

lemma rel_option_cases:
  assumes "rel_option P a b"
  obtains "a = None" "b = None" | x y where "a = Some x" "b = Some y" "P x y"
  using assms by (cases a; cases b) auto

lemma scan_raw_get:
  assumes "rel_option value_text a b"
  shows "(case b of None \<Rightarrow> Inr () | Some f \<Rightarrow> scan_raw_integer_domain f) = Inr () \<longleftrightarrow> (\<forall>v. a = Some v \<longrightarrow> small v)"
  using assms by (rule rel_option_cases) (simp_all add: scan_raw_text)

lemma scan_member_iff:
  assumes "rel_option (reads rd) (tok_get m (fst ks)) (mems (fst ks))"
  shows "scan_member rd mems ks = Inr () \<longleftrightarrow> (\<forall>v\<in>set (kept m ks). small v)"
  using assms
proof (rule rel_option_cases)
  fix v t assume m: "tok_get m (fst ks) = Some v" and t: "mems (fst ks) = Some t" and r: "reads rd v t"
  from r have whole: "scan_raw_integer_domain t = Inr () \<longleftrightarrow> small v"
    by (simp add: reads_def scan_raw_text)
  show ?thesis
  proof (cases "\<exists>keep n. snd ks = Some keep \<and> v = TObj n")
    case True
    then obtain keep n where k: "snd ks = Some keep" "v = TObj n" by blast
    with r obtain ms where ms: "rd t = Some ms"
      and all: "list_all2 (\<lambda>(k, x) (k', t). k' = k \<and> value_text x t) n ms"
      by (auto simp: reads_def)
    have get: "(case map_of (rev ms) k of None \<Rightarrow> Inr () | Some f \<Rightarrow> scan_raw_integer_domain f) = Inr ()
        \<longleftrightarrow> (\<forall>v. tok_get n k = Some v \<longrightarrow> small v)" for k
      by (rule scan_raw_get) (rule list_all2_last [OF all])
    have kept: "kept m ks = (if plain_keys n then List.map_filter (tok_get n) keep else [v])"
      using m k by (simp add: kept_def)
    show ?thesis
    proof (cases "plain_keys n")
      case True
      with ms list_all2_keys [OF all] have "raw_map rd t = Some (map_of (rev ms))"
        by (simp add: raw_map_plain)
      then have "scan_member rd mems ks = Inr () \<longleftrightarrow> (\<forall>k\<in>set keep. \<forall>v. tok_get n k = Some v \<longrightarrow> small v)"
        using t k by (simp add: scan_member_def check_each_ok get)
      then show ?thesis using True kept by (force simp: List.map_filter_def)
    next
      case False
      with ms list_all2_keys [OF all] have "raw_map rd t = None" by (simp add: raw_map_plain)
      with False t k kept whole show ?thesis by (simp add: scan_member_def)
    qed
  next
    case False
    have kept: "kept m ks = [v]"
      using m False by (cases v; cases "snd ks") (simp_all add: kept_def)
    have "scan_member rd mems ks = scan_raw_integer_domain t"
    proof (cases "snd ks")
      case (Some keep)
      with False r have "rd t = None" by (auto simp: reads_def split: tok.splits)
      then show ?thesis using Some t by (simp add: scan_member_def raw_map_def)
    qed (simp add: scan_member_def t)
    with whole kept show ?thesis by simp
  qed
qed (simp add: scan_member_def kept_def)

lemma raw_point_text:
  assumes "rel_option (reads rd) (tok_get m ''interception_point'') (mems ''interception_point'')"
  shows "raw_point mems = plain_point m"
  using assms
proof (rule rel_option_cases)
  fix v t assume m: "tok_get m ''interception_point'' = Some v" and t: "mems ''interception_point'' = Some t"
    and r: "reads rd v t"
  from r have "value_text v t" by (simp add: reads_def)
  from borrowed_text [OF this] m t show ?thesis
    by (cases v) (simp_all add: raw_point_def plain_point_def)
qed (simp add: raw_point_def plain_point_def)

lemma scan_projection_iff:
  assumes "reads_document rd m text"
  shows "scan_projection_raw rd text = Inr () \<longleftrightarrow> plain_keys m \<and> (\<forall>v\<in>set (projected m). small v)"
proof -
  from assms obtain ms where ms: "rd text = Some ms"
    and all: "list_all2 (\<lambda>(k, x) (k', t). k' = k \<and> reads rd x t) m ms"
    by (auto simp: reads_document_def)
  note get = list_all2_last [OF all]
  have map: "raw_map rd text = (if plain_keys m then Some (map_of (rev ms)) else None)"
    using ms list_all2_keys [OF all] by (rule raw_map_plain)
  have point: "raw_point (map_of (rev ms)) = plain_point m"
    by (rule raw_point_text) (rule get)
  have "check_each (scan_member rd (map_of (rev ms))) kss = Inr ()
      \<longleftrightarrow> (\<forall>v\<in>set (concat (map (kept m) kss)). small v)" for kss
    using scan_member_iff [where mems = "map_of (rev ms)" and m = m and rd = rd] get
    by (auto simp: check_each_ok)
  then show ?thesis by (auto simp: scan_projection_raw_def map point projected_def)
qed

end
