(* ===== verification/Ffi_Surface.thy ===== *)
theory Ffi_Surface
  imports Dispatch Decl_Registry Projection_Scan
begin

text \<open>
  \<open>ffi_surface.rs\<close>, the surface the language bindings call with JSON text: canonical JSON
  and identities, the verdict and response gates, transforms, aggregation, finalization, the
  helpers for control failures and managed outcomes, and the resolution of declarations.
  The text decoders that \<open>serde_json\<close> and the derives provide are fields of
  \<open>decoders\<close>, each giving \<open>None\<close> where the decoder errs; results are the values
  the code then serializes. Of an error the code is kept and its wording left out.
\<close>

section \<open>Decoders and errors\<close>

record finalize_options =
  fo_input_identity :: "string option"
  fo_identity_provider :: "string option"
  fo_enforced_identity :: "string option"
  fo_decided_by :: "nat option"
  fo_composition :: composition_config
  fo_verdicts :: "verdict_summary list option"
  fo_fold_truncated :: "bool option"
  fo_resolved_by :: "string option"
  fo_unchanged :: bool
  fo_registered :: nat
  fo_declaration :: "string option"

record substitute_request =
  sr_binding :: string
  sr_reason :: string
  sr_index :: nat
  sr_point :: "interception_point option"

datatype managed_wire = WVerdict json | WTimeout | WCancelled | WFailed "string option"

record host_description =
  hd_surface :: host_surface
  hd_identity_providers :: "string list"
  hd_approval_resolvers :: "string list"
  hd_approval_redactors :: "string list"
  hd_kinds :: "string list"

definition host_names :: "host_description \<Rightarrow> registry_names" where
  "host_names h =
     \<lparr>nm_identity_providers = hd_identity_providers h, nm_approval_resolvers = hd_approval_resolvers h,
      nm_approval_redactors = hd_approval_redactors h, nm_kinds = hd_kinds h\<rparr>"

text \<open>
  \<open>de_raw\<close> feeds the checking visitor, \<open>de_members\<close> is the map of raw values
  with decoded keys, \<open>de_reader\<close> the one with keys as written.
\<close>

record decoders =
  de_value :: "string \<Rightarrow> json option"
  de_context :: "string \<Rightarrow> object option"
  de_values :: "string \<Rightarrow> json list option"
  de_raw :: "string \<Rightarrow> raw option"
  de_members :: "string \<Rightarrow> (string \<rightharpoonup> string) option"
  de_reader :: raw_reader
  de_config :: "string \<Rightarrow> composition_config option"
  de_verdict :: "json \<Rightarrow> verdict option"
  de_verdict_text :: "string \<Rightarrow> verdict option"
  de_options :: "string \<Rightarrow> finalize_options option"
  de_request :: "string \<Rightarrow> substitute_request option"
  de_outcome :: "string \<Rightarrow> managed_wire option"
  de_host :: "string \<Rightarrow> host_description option"

datatype ffi_error = HostCode host_error | MarshalError | DeclCode declaration_error

fun ffi_failure :: "failure + 'a \<Rightarrow> ffi_error + 'a" where
  "ffi_failure (Inl (e, _)) = Inl (HostCode e)"
| "ffi_failure (Inr a) = Inr a"

fun ffi_code :: "host_error + 'a \<Rightarrow> ffi_error + 'a" where
  "ffi_code (Inl e) = Inl (HostCode e)"
| "ffi_code (Inr a) = Inr a"

fun ffi_decl :: "declaration_error + 'a \<Rightarrow> ffi_error + 'a" where
  "ffi_decl (Inl e) = Inl (DeclCode e)"
| "ffi_decl (Inr a) = Inr a"

definition or_err :: "ffi_error \<Rightarrow> 'a option \<Rightarrow> ffi_error + 'a" where
  "or_err e v = (case v of None \<Rightarrow> Inl e | Some a \<Rightarrow> Inr a)"

definition parse_context :: "decoders \<Rightarrow> string \<Rightarrow> ffi_error + object" where
  "parse_context de text = or_err (HostCode ContextInvalid) (de_context de text)"

definition parse_json :: "decoders \<Rightarrow> string \<Rightarrow> ffi_error + json" where
  "parse_json de text = or_err (HostCode ContextInvalid) (de_value de text)"

definition spec_arg :: "string \<Rightarrow> ffi_error + spec_version" where
  "spec_arg spec = or_err MarshalError (spec_from_wire spec)"

section \<open>Identities and gates\<close>

definition ffi_canonical_json :: "externs \<Rightarrow> decoders \<Rightarrow> string \<Rightarrow> ffi_error + string" where
  "ffi_canonical_json x de value_json =
     res_bind (parse_json de value_json) (\<lambda>v.
     res_bind (ffi_failure (scan_raw_integer_domain value_json)) (\<lambda>_.
       Inr (canonical_json (ext_f64 x) v)))"

definition ffi_context_identity :: "externs \<Rightarrow> decoders \<Rightarrow> string \<Rightarrow> ffi_error + string" where
  "ffi_context_identity x de ctx_json =
     res_bind (parse_context de ctx_json) (\<lambda>ctx.
     res_bind (ffi_failure (scan_projection_raw (de_reader de) ctx_json)) (\<lambda>_.
       ffi_failure (context_identity x ctx)))"

definition parse_checked :: "decoders \<Rightarrow> string \<Rightarrow> host_error + json" where
  "parse_checked de text = (case de_raw de text of None \<Rightarrow> Inl VerdictInvalid | Some r \<Rightarrow> visit r)"

definition verdict_from_json :: "externs \<Rightarrow> decoders \<Rightarrow> spec_version \<Rightarrow> string \<Rightarrow> host_error + verdict" where
  "verdict_from_json x de spec text =
     res_bind (parse_checked de text) (verdict_from_wire (ext_f64 x) spec)"

definition ffi_validate_verdict :: "externs \<Rightarrow> decoders \<Rightarrow> string \<Rightarrow> string \<Rightarrow> ffi_error + verdict" where
  "ffi_validate_verdict x de spec verdict_str =
     res_bind (spec_arg spec) (\<lambda>s. ffi_code (verdict_from_json x de s verdict_str))"

text \<open>\<open>InterceptorResponse::from_json\<close>: the raw text of the extensions is scanned too.\<close>

definition scan_extensions :: "decoders \<Rightarrow> string \<Rightarrow> json \<Rightarrow> host_error + unit" where
  "scan_extensions de text raw =
     (case Option.bind (as_object raw) (\<lambda>m. obj_get m ''verdict'') of
        None \<Rightarrow> Inr ()
      | Some _ \<Rightarrow>
          (case de_members de text of
             None \<Rightarrow> Inl VerdictInvalid
           | Some mems \<Rightarrow>
               (case mems ''extensions'' of
                  None \<Rightarrow> Inr ()
                | Some metadata \<Rightarrow>
                    if res_ok (scan_raw_integer_domain metadata) then Inr () else Inl VerdictInvalid)))"

definition response_from_json ::
  "externs \<Rightarrow> decoders \<Rightarrow> spec_version \<Rightarrow> string \<Rightarrow> host_error + interceptor_response" where
  "response_from_json x de spec text =
     res_bind (parse_checked de text) (\<lambda>raw.
     res_bind (scan_extensions de text raw) (\<lambda>_. response_from_wire (ext_f64 x) spec raw))"

definition normalize_interceptor_response ::
  "externs \<Rightarrow> decoders \<Rightarrow> string \<Rightarrow> string \<Rightarrow> ffi_error + json" where
  "normalize_interceptor_response x de spec response_json =
     res_bind (spec_arg spec) (\<lambda>s.
     res_bind (ffi_code (response_from_json x de s response_json)) (\<lambda>r. Inr (to_envelope_value r)))"

definition ffi_apply_transform :: "decoders \<Rightarrow> string \<Rightarrow> string \<Rightarrow> string \<Rightarrow> ffi_error + json" where
  "ffi_apply_transform de target_json path_text value_json =
     res_bind (parse_json de target_json) (\<lambda>target.
     res_bind (parse_json de value_json) (\<lambda>value.
       ffi_code (apply_path target path_text value)))"

definition ffi_apply_transform_ctx :: "decoders \<Rightarrow> string \<Rightarrow> string \<Rightarrow> string \<Rightarrow> ffi_error + object" where
  "ffi_apply_transform_ctx de ctx_json path_text value_json =
     res_bind (parse_context de ctx_json) (\<lambda>ctx.
     res_bind (parse_json de value_json) (\<lambda>value.
       ffi_code (apply_transform_to_ctx ctx \<lparr>t_path = path_text, t_value = value\<rparr>)))"

definition ffi_validate_transform_ctx :: "decoders \<Rightarrow> string \<Rightarrow> string \<Rightarrow> string \<Rightarrow> ffi_error + unit" where
  "ffi_validate_transform_ctx de ctx_json path_text value_json =
     res_bind (parse_context de ctx_json) (\<lambda>ctx.
     res_bind (parse_json de value_json) (\<lambda>value.
       ffi_code (validate_transform ctx \<lparr>t_path = path_text, t_value = value\<rparr>)))"

definition ffi_validate_envelope :: "decoders \<Rightarrow> string \<Rightarrow> ffi_error + unit" where
  "ffi_validate_envelope de ctx_json =
     res_bind (parse_context de ctx_json) (\<lambda>ctx. ffi_failure (validate_envelope ctx))"

section \<open>Aggregation\<close>

record aggregate_out =
  ag_combined :: verdict
  ag_decided_by :: "nat option"
  ag_consult :: bool
  ag_apply_transform :: bool
  ag_verdicts :: "verdict_summary list"

text \<open>The shapes only a host makes, which the gate would refuse.\<close>

definition synthesized_shape :: "verdict \<Rightarrow> bool" where
  "synthesized_shape v \<longleftrightarrow>
     (v_decision v = Deny \<and> opt_holds (starts_with ''host_error:'') (v_reason v) \<and> v_transform v = None)
     \<or> is_control_failure_substitute v"

definition aggregate_gate :: "externs \<Rightarrow> spec_version \<Rightarrow> verdict \<Rightarrow> ffi_error + unit" where
  "aggregate_gate x spec v =
     (if synthesized_shape v then Inr () else ffi_code (validate (ext_f64 x) spec v))"

definition synthesize :: "synthesis_policy option \<Rightarrow> host_error \<Rightarrow> string \<Rightarrow> verdict" where
  "synthesize policy e detail =
     (case (case policy of None \<Rightarrow> SP_Deny | Some p \<Rightarrow> p) of
        SP_Deny \<Rightarrow> host_error e (Some detail)
      | SP_Approval \<Rightarrow> host_error_liftable e (Some detail))"

text \<open>The match on the profile: the combined verdict, who decided, and whether a transform waits.\<close>

definition aggregate_verdicts ::
  "composition_config \<Rightarrow> verdict list \<Rightarrow> verdict \<times> nat option \<times> bool" where
  "aggregate_verdicts cfg all =
     (let sequential = is_sequential (profile cfg) in
      if profile cfg = ParallelUnanimous \<and> \<not> is_unanimous_allow all then
        (with_unions (synthesize (on_disagreement cfg) CompositionDisagreement
           ''non-unanimous outcome under parallel/unanimous'') all, None, False)
      else case aggregate_strictest all sequential of
        TransformConflictAt idxs \<Rightarrow>
          (with_unions (synthesize (on_transform_conflict cfg) TransformConflict
             (''conflicting transforms from interceptors '' @ debug_indices idxs)) all, None, False)
      | Winner i \<Rightarrow>
          (let winner = all ! i in
           (with_unions winner all,
            (if v_decision winner = Allow then None else Some i),
            \<not> sequential \<and> v_decision winner = Transform)))"

definition compose_aggregate ::
  "externs \<Rightarrow> decoders \<Rightarrow> string \<Rightarrow> string \<Rightarrow> string \<Rightarrow> ffi_error + aggregate_out" where
  "compose_aggregate x de spec composition_json verdicts_json =
     res_bind (spec_arg spec) (\<lambda>s.
     res_bind (or_err (HostCode ContextInvalid) (de_config de composition_json)) (\<lambda>cfg.
     res_bind (or_err (HostCode VerdictInvalid) (de_values de verdicts_json)) (\<lambda>raw.
     if raw = [] then Inl (HostCode NoInterceptor)
     else
       res_bind (traverse (\<lambda>v. or_err (HostCode VerdictInvalid) (de_verdict de v)) raw) (\<lambda>all.
       res_bind (check_each (aggregate_gate x s) all) (\<lambda>_.
         let (combined, decided_by, apply_transform) = aggregate_verdicts cfg all
         in Inr \<lparr>ag_combined = combined, ag_decided_by = decided_by,
                 ag_consult = is_liftable combined, ag_apply_transform = apply_transform,
                 ag_verdicts = verdict_summaries all\<rparr>)))))"

section \<open>Finalization\<close>

definition mode_arg :: "string \<Rightarrow> ffi_error + enforcement_mode" where
  "mode_arg mode =
     (if mode = ''enforce'' then Inr Enforce
      else if mode = ''evaluate_only'' then Inr EvaluateOnly
      else Inl (HostCode ContextInvalid))"

definition resolved_by_arg :: "string option \<Rightarrow> ffi_error + string option" where
  "resolved_by_arg r =
     (case r of
        None \<Rightarrow> Inr None
      | Some s \<Rightarrow> if s = ''approval'' \<or> s = ''rejection'' then Inr (Some s) else Inl (HostCode ContextInvalid))"

definition substitution_covered :: "verdict_summary \<Rightarrow> ffi_error + unit" where
  "substitution_covered s =
     (case s_substituted_for s of
        None \<Rightarrow> Inr ()
      | Some r \<Rightarrow>
          if \<not> opt_holds is_control_failure (host_error_from_wire r) \<or> s_decision s \<noteq> Allow
          then Inl (HostCode ContextInvalid) else Inr ())"

definition declaration_arg :: "string option \<Rightarrow> ffi_error + unit" where
  "declaration_arg d =
     (case d of
        None \<Rightarrow> Inr ()
      | Some v \<Rightarrow> if parse_declaration_version v = None then Inl (HostCode ContextInvalid) else Inr ())"

definition provider_arg :: "string option \<Rightarrow> ffi_error + unit" where
  "provider_arg p =
     (case p of
        None \<Rightarrow> Inr ()
      | Some name \<Rightarrow>
          if name \<noteq> JCS_SHA256 then ffi_failure (validate_provider_name name) else Inr ())"

definition meta_of_options :: "finalize_options \<Rightarrow> bool \<Rightarrow> string option \<Rightarrow> finalize_meta" where
  "meta_of_options opts rejected resolved_by =
     \<lparr>m_input_identity = fo_input_identity opts,
      m_identity_provider = fo_identity_provider opts,
      m_enforced_identity = fo_enforced_identity opts,
      m_jcs_input_rejected = rejected,
      m_unchanged = fo_unchanged opts,
      m_decided_by = fo_decided_by opts,
      m_composition = fo_composition opts,
      m_declaration = fo_declaration opts,
      m_verdicts = (case fo_verdicts opts of None \<Rightarrow> [] | Some vs \<Rightarrow> vs),
      m_fold_truncated = fo_fold_truncated opts,
      m_resolved_by = resolved_by,
      m_registered = fo_registered opts\<rparr>"

definition ffi_finalize ::
  "externs \<Rightarrow> decoders \<Rightarrow> string \<Rightarrow> string \<Rightarrow> string \<Rightarrow> string \<Rightarrow> ffi_error + interception_record" where
  "ffi_finalize x de ctx_json verdict_str mode options_json =
     res_bind (parse_context de ctx_json) (\<lambda>ctx.
     res_bind (or_err (HostCode VerdictInvalid) (de_verdict_text de verdict_str)) (\<lambda>v.
     res_bind (mode_arg mode) (\<lambda>m.
     res_bind (or_err (HostCode ContextInvalid) (de_options de options_json)) (\<lambda>opts.
     res_bind (resolved_by_arg (fo_resolved_by opts)) (\<lambda>resolved_by.
     let rejected = (fo_identity_provider opts = Some JCS_SHA256
           \<and> \<not> res_ok (scan_projection_raw (de_reader de) ctx_json)) in
     res_bind (declaration_arg (fo_declaration opts)) (\<lambda>_.
     res_bind (check_each substitution_covered (case fo_verdicts opts of None \<Rightarrow> [] | Some vs \<Rightarrow> vs)) (\<lambda>_.
     res_bind (provider_arg (fo_identity_provider opts)) (\<lambda>_.
       Inr (finalize x ctx v m (meta_of_options opts rejected resolved_by))))))))))"

section \<open>Control failures and managed outcomes\<close>

record substitute_out =
  so_verdict :: verdict
  so_substituted_for :: string
  so_notice :: notice

definition ffi_control_failure_substitute :: "decoders \<Rightarrow> string \<Rightarrow> ffi_error + substitute_out" where
  "ffi_control_failure_substitute de request_json =
     res_bind (or_err (HostCode ContextInvalid) (de_request de request_json)) (\<lambda>req.
     res_bind (or_err (HostCode ContextInvalid)
         (case host_error_from_wire (sr_reason req) of
            None \<Rightarrow> None
          | Some r \<Rightarrow> if is_control_failure r then Some r else None)) (\<lambda>reason.
     if sr_binding req = [] \<or> length (sr_binding req) > MAX_ID_LEN * 2 then Inl (HostCode ContextInvalid)
     else Inr \<lparr>so_verdict = control_failure_substitute (sr_binding req) reason,
               so_substituted_for = host_error_str reason,
               so_notice = \<lparr>n_point = sr_point req, n_index = sr_index req, n_binding = sr_binding req,
                 n_reason = host_error_str reason,
                 n_message = control_failure_message (sr_binding req) reason\<rparr>\<rparr>))"

text \<open>The failure member of a managed outcome: reason, detail, continuable.\<close>

record managed_out =
  mo_verdict :: verdict
  mo_failure :: "(string \<times> string option \<times> bool) option"

definition failure_json :: "host_error \<Rightarrow> string option \<Rightarrow> bool \<Rightarrow> managed_out" where
  "failure_json reason detail continuable =
     \<lparr>mo_verdict = host_error reason detail,
      mo_failure = Some (host_error_str reason, detail, continuable)\<rparr>"

definition ffi_managed_outcome :: "externs \<Rightarrow> decoders \<Rightarrow> string \<Rightarrow> string \<Rightarrow> ffi_error + managed_out" where
  "ffi_managed_outcome x de spec outcome_json =
     res_bind (spec_arg spec) (\<lambda>s.
     res_bind (or_err (HostCode ContextInvalid) (de_outcome de outcome_json)) (\<lambda>wire.
       Inr (case wire of
              WVerdict raw \<Rightarrow>
                (case verdict_from_wire (ext_f64 x) s raw of
                   Inr v \<Rightarrow> \<lparr>mo_verdict = v, mo_failure = None\<rparr>
                 | Inl _ \<Rightarrow> failure_json VerdictInvalid None True)
            | WTimeout \<Rightarrow> failure_json InterceptorTimeout None True
            | WCancelled \<Rightarrow>
                failure_json InterceptorFailed (Some ''managed interceptor was cancelled (see spec 6.3)'') False
            | WFailed detail \<Rightarrow> failure_json InterceptorFailed detail True)))"

section \<open>Declarations\<close>

definition ffi_declaration_versions ::
  "string \<times> string list \<times> string list \<times> (string \<times> string \<times> string list) list" where
  "ffi_declaration_versions =
     (DECLARATION_VERSION, SUPPORTED_DECLARATION_VERSIONS, map spec_name spec_all,
      map (\<lambda>s. (spec_name s, current_declaration_version s, declaration_versions s)) spec_all)"

definition ffi_declaration_resolve :: "decoders \<Rightarrow> string \<Rightarrow> string \<Rightarrow> ffi_error + resolved_declaration" where
  "ffi_declaration_resolve de document_json host_json =
     res_bind (or_err MarshalError (de_host de host_json)) (\<lambda>host.
     if \<not> res_ok (surface_validate (hd_surface host)) then Inl MarshalError
     else
       res_bind (ffi_decl (from_json (de_raw de) document_json)) (\<lambda>document.
         ffi_decl (resolve_declaration document (hd_surface host) (host_names host))))"

end
