(* ===== verification/Ffi_Laws.thy ===== *)
theory Ffi_Laws
  imports Ffi_Surface Dispatch_Laws
begin

text \<open>
  The surface against the core it fronts: what a binding can get aggregated, that an aggregate
  finished by a binding is the outcome the emitter computes itself, the records it can have
  finalized, and the helpers against the emitter's own handling of the same failures.
\<close>

lemma or_err_Inr [simp]: "or_err e v = Inr a \<longleftrightarrow> v = Some a"
  by (simp add: or_err_def split: option.splits)

lemma ffi_code_Inr [simp]: "ffi_code r = Inr a \<longleftrightarrow> r = Inr a"
  by (cases r) simp_all

lemma ffi_failure_Inr [simp]: "ffi_failure r = Inr a \<longleftrightarrow> r = Inr a"
  by (cases r) auto

lemma ffi_decl_Inr [simp]: "ffi_decl r = Inr a \<longleftrightarrow> r = Inr a"
  by (cases r) simp_all

lemmas ffi_results = res_bind_Inr_iff or_err_Inr ffi_code_Inr ffi_failure_Inr ffi_decl_Inr

section \<open>The gate in front of the aggregation\<close>

lemma compose_aggregate_Inr:
  assumes "compose_aggregate x de spec composition_json verdicts_json = Inr ag"
  obtains s cfg raw all where "spec_from_wire spec = Some s" "de_config de composition_json = Some cfg"
    "de_values de verdicts_json = Some raw" "all \<noteq> []" "list_all2 (\<lambda>j v. de_verdict de j = Some v) raw all"
    "\<forall>v\<in>set all. synthesized_shape v \<or> gate_ok (ext_f64 x) s v"
    "aggregate_verdicts cfg all = (ag_combined ag, ag_decided_by ag, ag_apply_transform ag)"
    "ag_consult ag = is_liftable (ag_combined ag)" "ag_verdicts ag = verdict_summaries all"
proof -
  from assms obtain s cfg raw all where s: "spec_from_wire spec = Some s"
    "de_config de composition_json = Some cfg" "de_values de verdicts_json = Some raw" "raw \<noteq> []"
    and all: "traverse (\<lambda>v. or_err (HostCode VerdictInvalid) (de_verdict de v)) raw = Inr all"
    and gate: "check_each (aggregate_gate x s) all = Inr ()"
    and ag: "(let (combined, decided_by, apply_transform) = aggregate_verdicts cfg all
         in \<lparr>ag_combined = combined, ag_decided_by = decided_by, ag_consult = is_liftable combined,
             ag_apply_transform = apply_transform, ag_verdicts = verdict_summaries all\<rparr>) = ag"
    unfolding compose_aggregate_def spec_arg_def
    by (auto simp: ffi_results split_beta split: if_splits)
  have a2: "list_all2 (\<lambda>j v. de_verdict de j = Some v) raw all"
    using all by (simp add: traverse_Inr_iff)
  then have ne: "all \<noteq> []" using s(4) by auto
  have ok: "\<forall>v\<in>set all. synthesized_shape v \<or> gate_ok (ext_f64 x) s v"
    using gate by (auto simp: check_each_ok aggregate_gate_def validate_iff split: if_splits)
  show ?thesis
    using that [OF s(1,2,3) ne a2 ok] ag by (cases "aggregate_verdicts cfg all") auto
qed

section \<open>The same outcome as the emitter\<close>

definition emitter_aggregate ::
  "externs \<Rightarrow> emitter \<Rightarrow> object \<Rightarrow> verdict list \<Rightarrow> bound list \<Rightarrow> string option list \<Rightarrow> event list
     \<Rightarrow> outcome emission" where
  "emitter_aggregate x em ctx all act subs log =
     (if profile (e_composition em) = ParallelUnanimous
      then aggregate_unanimous x em ctx all act subs log
      else aggregate_and_consult x em ctx all (is_sequential (profile (e_composition em))) None act subs log)"

text \<open>What a binding does with an aggregate when it consults nobody: a waiting transform is applied.\<close>

definition finish_aggregate ::
  "emitter \<Rightarrow> object \<Rightarrow> verdict \<times> nat option \<times> bool \<Rightarrow> verdict \<times> nat option \<times> object" where
  "finish_aggregate em ctx agg =
     (case agg of (combined, decided, apply_transform) \<Rightarrow>
        if apply_transform then
          (case fold_transform em ctx combined of (folded, ctx') \<Rightarrow>
             (folded, if permits (v_decision folded) then decided else None, ctx'))
        else (combined, decided, ctx))"

lemma consult_no_resolver: "e_resolver em = None \<Longrightarrow> consult x em c v l = (NotConsulted, l)"
  by (simp add: consult_def)

lemma synthesize_alone:
  "e_resolver em = None \<Longrightarrow>
     synthesize_and_maybe_consult x em ctx e detail (case p of None \<Rightarrow> SP_Deny | Some q \<Rightarrow> q) pool r log
       = ((with_unions (synthesize p e detail) pool, r), ctx, log)"
  by (cases p)
     (auto simp: synthesize_and_maybe_consult_def synthesize_def consult_no_resolver Let_def
        split: synthesis_policy.split)

lemma synthesize_denies [simp]: "v_decision (synthesize p e detail) = Deny"
  by (auto simp: synthesize_def host_error_liftable_def host_error_def deny_def escalate_def
      split: option.split synthesis_policy.split)

lemma fold_with_unions:
  "fold_transform em ctx (with_unions v pool) =
     (case fold_transform em ctx v of (f, ctx') \<Rightarrow> (if permits (v_decision f) then with_unions f pool else f, ctx'))"
  if "v_decision v = Transform"
  using that
  by (auto simp: fold_transform_def split: option.split enforcement_mode.split sum.split)

text \<open>Among allows the first wins.\<close>

lemma unanimous_winner:
  assumes "all \<noteq> []" "is_unanimous_allow all"
  shows "aggregate_strictest all s = Winner 0" and "v_decision (hd all) = Allow"
proof -
  have allow: "v_decision (all ! i) = Allow" if "i < length all" for i
    using assms(2) that by (simp add: is_unanimous_allow_def list_all_length)
  with assms(1) show "v_decision (hd all) = Allow" by (simp add: hd_conv_nth)
  show "aggregate_strictest all s = Winner 0"
  proof (cases "aggregate_strictest all s")
    case (Winner i)
    note w = aggregate_winner [OF assms(1) Winner]
    have "severity (all ! j) = 0" if "j < length all" for j
      using allow [OF that] by (simp add: severity_simps)
    then have "i \<le> 0" using w(1) w(4) [of 0] assms(1) by (auto split: if_splits)
    with Winner show ?thesis by simp
  next
    case (TransformConflictAt idxs)
    from aggregate_conflict(2,4) [OF this] obtain i where "i < length all" "v_decision (all ! i) = Transform"
      by (cases idxs) auto
    with allow show ?thesis by fastforce
  qed
qed

lemma strictest_alike:
  assumes "e_resolver em = None" "all \<noteq> []" "cfg = e_composition em"
    and np: "profile cfg = ParallelUnanimous \<longrightarrow> is_unanimous_allow all"
    and run: "aggregate_and_consult x em ctx all (is_sequential (profile cfg)) None act subs log = (d, ctx', log')"
    and agg: "finish_aggregate em ctx (aggregate_verdicts cfg all) = (c, decided, ctx1)"
  shows "ctx' = ctx1 \<and> log' = log \<and> d_decided_by d = decided \<and> d_resolved_by d = None
    \<and> d_combined d = (if v_decision c = Allow then with_unions allow all else c)"
proof -
  have ag: "aggregate_verdicts cfg all =
      (case aggregate_strictest all (is_sequential (profile cfg)) of
         TransformConflictAt idxs \<Rightarrow>
           (with_unions (synthesize (on_transform_conflict cfg) TransformConflict
              (''conflicting transforms from interceptors '' @ debug_indices idxs)) all, None, False)
       | Winner i \<Rightarrow> (with_unions (all ! i) all, (if v_decision (all ! i) = Allow then None else Some i),
           \<not> is_sequential (profile cfg) \<and> v_decision (all ! i) = Transform))"
    using np by (auto simp: aggregate_verdicts_def Let_def split: aggregate.split)
  show ?thesis
  proof (cases "aggregate_strictest all (is_sequential (profile cfg))")
    case (TransformConflictAt idxs)
    with TransformConflictAt run agg assms(1) show ?thesis
      by (auto simp: aggregate_and_consult_def ag finish_aggregate_def synthesize_alone
          simp flip: assms(3))
  next
    case (Winner i)
    show ?thesis
    proof (cases "v_decision (all ! i)")
      case Allow
      with Winner run agg show ?thesis
        by (auto simp: aggregate_and_consult_def ag finish_aggregate_def)
    next
      case Deny
      with Winner run agg assms(1) show ?thesis
        by (auto simp: aggregate_and_consult_def ag finish_aggregate_def deny_winner_def consult_no_resolver)
    next
      case Transform
      obtain f c1 where f: "fold_transform em ctx (all ! i) = (f, c1)"
        by (cases "fold_transform em ctx (all ! i)")
      have "v_decision f \<noteq> Allow"
        using f Transform by (elim fold_transform_cases) simp_all
      with Transform Winner run agg f show ?thesis
        by (auto simp: aggregate_and_consult_def ag finish_aggregate_def fold_with_unions Let_def
            split: if_splits)
    qed
  qed
qed

lemma aggregate_alike:
  assumes "e_resolver em = None" "all \<noteq> []"
    and run: "emitter_aggregate x em ctx all act subs log = (d, ctx', log')"
    and agg: "finish_aggregate em ctx (aggregate_verdicts (e_composition em) all) = (c, decided, ctx1)"
  shows "ctx' = ctx1 \<and> log' = log \<and> d_decided_by d = decided \<and> d_resolved_by d = None
    \<and> d_combined d = (if v_decision c = Allow then with_unions allow all else c)"
proof (cases "profile (e_composition em) = ParallelUnanimous")
  case False
  then show ?thesis
    using strictest_alike [OF assms(1,2) refl _ _ agg] run by (simp add: emitter_aggregate_def)
next
  case p: True
  show ?thesis
  proof (cases "is_unanimous_allow all")
    case True
    then have "aggregate_strictest all False = Winner 0" "v_decision (all ! 0) = Allow"
      using unanimous_winner [OF assms(2)] assms(2) by (simp_all add: hd_conv_nth)
    with p True run agg show ?thesis
      by (auto simp: emitter_aggregate_def aggregate_unanimous_def aggregate_verdicts_def finish_aggregate_def)
  next
    case False
    with p False run agg assms(1) show ?thesis
      by (auto simp: emitter_aggregate_def aggregate_unanimous_def aggregate_verdicts_def finish_aggregate_def
          synthesize_alone)
  qed
qed

lemma strictest_deny:
  assumes "v \<in> set all" "v_decision v = Deny"
  obtains i where "aggregate_strictest all s = Winner i" "v_decision (all ! i) = Deny"
    "is_liftable (all ! i) \<Longrightarrow> \<forall>v\<in>set all. v_decision v = Deny \<longrightarrow> is_liftable v"
proof (cases "aggregate_strictest all s")
  case (Winner i)
  have ne: "all \<noteq> []" using assms(1) by auto
  have "2 \<le> severity (all ! i)"
    using aggregate_winner(2) [OF ne Winner] max_severity_ge [OF assms(1)] severity_blocks [of v] assms(2) by simp
  then have "v_decision (all ! i) = Deny" by (simp add: severity_blocks)
  moreover have "\<forall>v\<in>set all. v_decision v = Deny \<longrightarrow> is_liftable v" if "is_liftable (all ! i)"
  proof (intro ballI impI, rule ccontr)
    fix w assume w: "w \<in> set all" "v_decision w = Deny" "\<not> is_liftable w"
    from aggregate_plain_deny [OF w, of s] Winner that show False by simp
  qed
  ultimately show ?thesis using Winner that by blast
next
  case (TransformConflictAt idxs)
  from aggregate_conflict(3) [OF this] assms show ?thesis by blast
qed

lemma aggregate_denies:
  assumes "aggregate_verdicts cfg all = (c, decided, apply_transform)" "v \<in> set all" "v_decision v = Deny"
  shows "v_decision c = Deny \<and> \<not> apply_transform
    \<and> (is_liftable c \<longrightarrow> profile cfg = ParallelUnanimous \<or> (\<forall>v\<in>set all. v_decision v = Deny \<longrightarrow> is_liftable v))"
proof (cases "profile cfg = ParallelUnanimous \<and> \<not> is_unanimous_allow all")
  case True
  with assms(1) show ?thesis by (auto simp: aggregate_verdicts_def Let_def)
next
  case False
  obtain i where i: "aggregate_strictest all (is_sequential (profile cfg)) = Winner i"
    "v_decision (all ! i) = Deny"
    "is_liftable (all ! i) \<Longrightarrow> \<forall>v\<in>set all. v_decision v = Deny \<longrightarrow> is_liftable v"
    using strictest_deny [OF assms(2,3)] by blast
  from False assms(1) i(1) have "c = with_unions (all ! i) all" "apply_transform = False"
    using i(2) by (auto simp: aggregate_verdicts_def Let_def split: if_splits)
  with i(2,3) show ?thesis by simp
qed

section \<open>Records\<close>

lemma ffi_finalize_Inr:
  assumes "ffi_finalize x de ctx_json verdict_str mode options_json = Inr rec"
  obtains ctx v m opts where "de_context de ctx_json = Some ctx" "de_options de options_json = Some opts"
    "de_verdict_text de verdict_str = Some v" "mode_arg mode = Inr m"
    "fo_resolved_by opts \<in> {None, Some ''approval'', Some ''rejection''}"
    "\<forall>d. fo_declaration opts = Some d \<longrightarrow> parse_declaration_version d \<noteq> None"
    "\<forall>s\<in>set (case fo_verdicts opts of None \<Rightarrow> [] | Some vs \<Rightarrow> vs). substitution_covered s = Inr ()"
    "\<forall>n. fo_identity_provider opts = Some n \<longrightarrow> n = JCS_SHA256 \<or> validate_provider_name n = Inr ()"
    "rec = finalize x ctx v m (meta_of_options opts (fo_identity_provider opts = Some JCS_SHA256
        \<and> \<not> res_ok (scan_projection_raw (de_reader de) ctx_json)) (fo_resolved_by opts))"
proof -
  from assms obtain ctx v m opts r where dec: "de_context de ctx_json = Some ctx"
    "de_options de options_json = Some opts" "de_verdict_text de verdict_str = Some v" "mode_arg mode = Inr m"
    and r: "resolved_by_arg (fo_resolved_by opts) = Inr r"
    and d: "declaration_arg (fo_declaration opts) = Inr ()"
    and s: "check_each substitution_covered (case fo_verdicts opts of None \<Rightarrow> [] | Some vs \<Rightarrow> vs) = Inr ()"
    and p: "provider_arg (fo_identity_provider opts) = Inr ()"
    and rec: "rec = finalize x ctx v m (meta_of_options opts (fo_identity_provider opts = Some JCS_SHA256
        \<and> \<not> res_ok (scan_projection_raw (de_reader de) ctx_json)) r)"
    unfolding ffi_finalize_def Let_def parse_context_def by (auto simp: ffi_results)
  have "r = fo_resolved_by opts" "fo_resolved_by opts \<in> {None, Some ''approval'', Some ''rejection''}"
    using r by (auto simp: resolved_by_arg_def split: option.splits if_splits)
  moreover have "\<forall>d. fo_declaration opts = Some d \<longrightarrow> parse_declaration_version d \<noteq> None"
    using d by (auto simp: declaration_arg_def split: option.splits if_splits)
  moreover have "\<forall>n. fo_identity_provider opts = Some n \<longrightarrow> n = JCS_SHA256 \<or> validate_provider_name n = Inr ()"
    using p by (auto simp: provider_arg_def split: if_splits)
  ultimately show ?thesis using that [OF dec] s rec by (simp add: check_each_ok)
qed

lemma substitution_covered_iff:
  "substitution_covered s = Inr () \<longleftrightarrow>
     (\<forall>r. s_substituted_for s = Some r \<longrightarrow>
        s_decision s = Allow \<and> (\<exists>e. host_error_from_wire r = Some e \<and> is_control_failure e))"
  by (auto simp: substitution_covered_def opt_holds_def split: option.splits)

section \<open>Managed outcomes\<close>

text \<open>The outcome a wire form stands for, when it stands for one.\<close>

definition wire_outcome :: "externs \<Rightarrow> spec_version \<Rightarrow> managed_wire \<Rightarrow> managed_outcome option" where
  "wire_outcome x s w =
     (case w of
        WVerdict raw \<Rightarrow>
          (case verdict_from_wire (ext_f64 x) s raw of Inr v \<Rightarrow> Some (MVerdict v) | Inl _ \<Rightarrow> None)
      | WTimeout \<Rightarrow> Some MTimeout
      | WCancelled \<Rightarrow> Some MCancelled
      | WFailed d \<Rightarrow> Some (MFailed d))"

lemma managed_alike:
  assumes out: "ffi_managed_outcome x de spec text = Inr out"
    and spec: "spec_from_wire spec = Some (e_spec em)" and w: "de_outcome de text = Some w"
    and m: "b_interceptor b = Managed f" "f log ctx (limit em b) = wire_outcome x (e_spec em) w"
    and o: "wire_outcome x (e_spec em) w \<noteq> None"
  shows "mo_failure out = (case call_isolated em b ctx log of
      Inr v \<Rightarrow> None | Inl c \<Rightarrow> Some (host_error_str (cf_reason c), cf_detail c, cf_continuable c))"
    and "b_on_error b = OE_Deny \<Longrightarrow> st_verdict (fst (invoke x em ctx idx b log)) = mo_verdict out"
    and "\<not> (b_on_error b = OE_Continue \<and> (\<exists>r d. mo_failure out = Some (r, d, True))) \<Longrightarrow>
      st_verdict (fst (invoke x em ctx idx b log)) = mo_verdict out"
proof -
  have out': "out = (case w of
        WVerdict raw \<Rightarrow> (case verdict_from_wire (ext_f64 x) (e_spec em) raw of
            Inr v \<Rightarrow> \<lparr>mo_verdict = v, mo_failure = None\<rparr> | Inl _ \<Rightarrow> failure_json VerdictInvalid None True)
      | WTimeout \<Rightarrow> failure_json InterceptorTimeout None True
      | WCancelled \<Rightarrow>
          failure_json InterceptorFailed (Some ''managed interceptor was cancelled (see spec 6.3)'') False
      | WFailed d \<Rightarrow> failure_json InterceptorFailed d True)"
    using out spec w by (auto simp: ffi_managed_outcome_def spec_arg_def ffi_results)
  have gate: "res_ok (validate (ext_f64 x) (e_spec em) v)"
    if "verdict_from_wire (ext_f64 x) (e_spec em) raw = Inr v" for raw v
    using verdict_from_wire_gate(1) [OF that] by (simp add: res_ok_iff validate_iff)
  have both: "mo_failure out = (case call_isolated em b ctx log of
      Inr v \<Rightarrow> None | Inl c \<Rightarrow> Some (host_error_str (cf_reason c), cf_detail c, cf_continuable c))
    \<and> (\<not> (b_on_error b = OE_Continue \<and> (\<exists>r d. mo_failure out = Some (r, d, True))) \<longrightarrow>
      st_verdict (fst (invoke x em ctx idx b log)) = mo_verdict out)"
  proof (cases w)
    case (WVerdict raw)
    with o obtain v where v: "verdict_from_wire (ext_f64 x) (e_spec em) raw = Inr v"
      by (auto simp: wire_outcome_def split: sum.splits)
    with WVerdict m gate [OF v] show ?thesis
      by (simp add: out' call_isolated_def invoke_def wire_outcome_def Let_def)
  qed (use m o in \<open>simp_all add: out' call_isolated_def invoke_def wire_outcome_def Let_def covered_def
      failure_json_def settle_def\<close>)
  from both show "mo_failure out = (case call_isolated em b ctx log of
      Inr v \<Rightarrow> None | Inl c \<Rightarrow> Some (host_error_str (cf_reason c), cf_detail c, cf_continuable c))" by blast
  from both show "\<not> (b_on_error b = OE_Continue \<and> (\<exists>r d. mo_failure out = Some (r, d, True))) \<Longrightarrow>
      st_verdict (fst (invoke x em ctx idx b log)) = mo_verdict out" by blast
  from both show "b_on_error b = OE_Deny \<Longrightarrow> st_verdict (fst (invoke x em ctx idx b log)) = mo_verdict out" by simp
qed

section \<open>Substitutes\<close>

definition binding_label :: "bound \<Rightarrow> nat \<Rightarrow> string" where
  "binding_label b idx = (case b_name b of Some n \<Rightarrow> n | None \<Rightarrow> ''interceptor-'' @ dec idx)"

lemma substitute_Inr:
  assumes "ffi_control_failure_substitute de text = Inr out"
  obtains r e where "de_request de text = Some r" "host_error_from_wire (sr_reason r) = Some e"
    "is_control_failure e" "sr_binding r \<noteq> []" "length (sr_binding r) \<le> 128"
    "so_verdict out = control_failure_substitute (sr_binding r) e" "so_substituted_for out = host_error_str e"
    "so_notice out = \<lparr>n_point = sr_point r, n_index = sr_index r, n_binding = sr_binding r,
       n_reason = host_error_str e, n_message = control_failure_message (sr_binding r) e\<rparr>"
  using assms
  by (auto simp: ffi_control_failure_substitute_def ffi_results MAX_ID_LEN_def split: option.splits if_splits)

lemma substitute_alike:
  assumes out: "ffi_control_failure_substitute de text = Inr out"
    and req: "de_request de text = Some \<lparr>sr_binding = binding_label b idx,
       sr_reason = host_error_str (cf_reason f), sr_index = idx, sr_point = point_of ctx\<rparr>"
    and f: "b_on_error b = OE_Continue" "cf_continuable f" "e_notifier em = Some notify"
    and delivered: "notify log (so_notice out)"
  shows "settle em ctx idx b f log =
    (\<lparr>st_verdict = so_verdict out, st_substituted_for = Some (so_substituted_for out)\<rparr>,
     log @ [Notified (so_notice out)])"
  using assms
  by (elim substitute_Inr) (auto simp: settle_def Let_def binding_label_def host_error_from_wire_str)

section \<open>Declarations\<close>

definition describes :: "host_description \<Rightarrow> host_registry \<Rightarrow> bool" where
  "describes h reg \<longleftrightarrow> hd_surface h = hr_surface reg \<and> host_names h = registry_names_of reg"

lemma declaration_alike:
  assumes "de_host de host_json = Some h" "describes h reg" "surface_ok (hr_surface reg)"
  shows "ffi_declaration_resolve de document_json host_json = Inr r \<longleftrightarrow>
      (\<exists>doc. from_json (de_raw de) document_json = Inr doc
        \<and> resolve_declaration doc (hr_surface reg) (registry_names_of reg) = Inr r)"
  using assms by (simp add: ffi_declaration_resolve_def ffi_results describes_def res_ok_iff surface_validate_iff)

lemma registry_resolve_split:
  "registry_resolve doc reg = Inr r \<longleftrightarrow>
     resolve_declaration doc (hr_surface reg) (registry_names_of reg) = Inr r
     \<and> check_principal_channel doc r (hr_notifier reg \<noteq> None) = Inr ()"
  by (auto simp: registry_resolve_def resolve_declaration_def res_bind_Inr_iff)

end
