(* ===== verification/Ffi_Properties.thy ===== *)
theory Ffi_Properties
  imports Ffi_Laws Samples Decl_Samples
begin

text \<open>
  The properties of the language-binding surface (\<open>ffi_surface.rs\<close>) and of the raw scan in
  front of the identity, each with a concrete instance. \<open>no_decoders\<close> refuses every text; an
  instance gives it the few texts it needs.
\<close>

definition no_decoders :: decoders where
  "no_decoders =
     \<lparr>de_value = \<lambda>_. None, de_context = \<lambda>_. None, de_values = \<lambda>_. None, de_raw = \<lambda>_. None,
      de_members = \<lambda>_. None, de_reader = \<lambda>_. None, de_config = \<lambda>_. None, de_verdict = \<lambda>_. None,
      de_verdict_text = \<lambda>_. None, de_options = \<lambda>_. None, de_request = \<lambda>_. None,
      de_outcome = \<lambda>_. None, de_host = \<lambda>_. None\<rparr>"

section \<open>Aggregation\<close>

text \<open>
  C11: No binding can have an unvetted verdict aggregated. When \<open>compose_aggregate\<close> succeeds,
  every verdict of the list passes the verdict gate under the version the call names or has a shape only a
  host makes. A deny in the list makes the combined verdict a deny with no transform left to apply, and it is
  offered to a resolver only if every deny of the list is liftable or the profile asks for unanimity.
\<close>

theorem compose_gate_sound:
  assumes "compose_aggregate x de spec composition_json verdicts_json = Inr ag"
  shows "\<exists>s cfg raw all. spec_from_wire spec = Some s \<and> de_config de composition_json = Some cfg
    \<and> de_values de verdicts_json = Some raw \<and> list_all2 (\<lambda>j v. de_verdict de j = Some v) raw all
    \<and> (\<forall>v\<in>set all. synthesized_shape v \<or> gate_ok (ext_f64 x) s v)
    \<and> ((\<exists>v\<in>set all. v_decision v = Deny) \<longrightarrow>
        v_decision (ag_combined ag) = Deny \<and> \<not> ag_apply_transform ag
        \<and> (ag_consult ag \<longrightarrow>
             profile cfg = ParallelUnanimous \<or> (\<forall>v\<in>set all. v_decision v = Deny \<longrightarrow> is_liftable v)))"
  using assms
proof (rule compose_aggregate_Inr)
  fix s cfg raw all
  assume "spec_from_wire spec = Some s" "de_config de composition_json = Some cfg"
    "de_values de verdicts_json = Some raw" "list_all2 (\<lambda>j v. de_verdict de j = Some v) raw all"
    "\<forall>v\<in>set all. synthesized_shape v \<or> gate_ok (ext_f64 x) s v"
    and ag: "aggregate_verdicts cfg all = (ag_combined ag, ag_decided_by ag, ag_apply_transform ag)"
    and "ag_consult ag = is_liftable (ag_combined ag)"
  then show ?thesis using aggregate_denies [OF ag] by (intro exI [of _ s] exI [of _ cfg] exI [of _ raw]
      exI [of _ all]) auto
qed

text \<open>A list of an allow and a plain deny, under the profile \<open>parallel/strictest\<close>.\<close>

definition two_verdicts :: decoders where
  "two_verdicts = no_decoders\<lparr>
     de_config := \<lambda>_. Some (strictest_config SP_Deny), de_values := \<lambda>_. Some [JNull, JBool True],
     de_verdict := \<lambda>v. Some (if v = JNull then allow else deny (Some ''nope'') None)\<rparr>"

lemma two_verdicts_aggregate:
  "\<exists>ag. compose_aggregate sample_externs two_verdicts ''agent-hooks/draft'' ''c'' ''v'' = Inr ag"
proof -
  have "spec_from_wire ''agent-hooks/draft'' = Some Draft" by (simp add: spec_from_wire_def spec_all_def)
  then show ?thesis
    by (simp add: compose_aggregate_def spec_arg_def or_err_def two_verdicts_def no_decoders_def
        aggregate_gate_def synthesized_shape_def is_control_failure_substitute_def verdict_makers
        validate_def opt_holds_def host_reserved_def starts_with_def split: prod.split)
qed

theorem compose_gate_sound_witness:
  "\<exists>ag. compose_aggregate sample_externs two_verdicts ''agent-hooks/draft'' ''c'' ''v'' = Inr ag
     \<and> v_decision (ag_combined ag) = Deny \<and> \<not> ag_consult ag"
proof -
  obtain ag where ag: "compose_aggregate sample_externs two_verdicts ''agent-hooks/draft'' ''c'' ''v'' = Inr ag"
    using two_verdicts_aggregate by blast
  from compose_gate_sound [OF ag] ag show ?thesis
    by (auto simp: two_verdicts_def list_all2_Cons1 verdict_makers strictest_config_def default_bare_def
        is_liftable_def)
qed

text \<open>
  C10: The bindings and the emitter decide alike. What the emitter makes of the verdicts of one
  emission when nobody is consulted is what a binding gets from the aggregation and finishes itself: the same
  context, the same deciding index, the same combined verdict. An allow is the exception: the emitter builds
  a fresh one and takes only the unions from the verdicts.
\<close>

theorem aggregate_matches_emitter:
  assumes "e_resolver em = None" "all \<noteq> []"
    and "emitter_aggregate x em ctx all act subs log = (d, ctx', log')"
    and "finish_aggregate em ctx (aggregate_verdicts (e_composition em) all) = (c, decided, ctx1)"
  shows "ctx' = ctx1 \<and> log' = log \<and> d_decided_by d = decided \<and> d_resolved_by d = None
    \<and> d_combined d = (if v_decision c = Allow then with_unions allow all else c)"
  using assms by (rule aggregate_alike)

theorem aggregate_matches_emitter_witness:
  "\<exists>d. emitter_aggregate sample_externs (sample_emitter (strictest_config SP_Deny) Enforce None []) (ctx_with ''hi'')
       [allow, redact] [] [] [] = (d, ctx_with ''x'', []) \<and> d_decided_by d = Some 1"
proof -
  let ?em = "sample_emitter (strictest_config SP_Deny) Enforce None []"
  obtain d c1 l1 where run: "emitter_aggregate sample_externs ?em (ctx_with ''hi'') [allow, redact] [] [] [] = (d, c1, l1)"
    by (cases "emitter_aggregate sample_externs ?em (ctx_with ''hi'') [allow, redact] [] [] []")
  have "\<exists>c. finish_aggregate ?em (ctx_with ''hi'') (aggregate_verdicts (e_composition ?em) [allow, redact])
      = (c, Some 1, ctx_with ''x'')"
    by (simp add: finish_aggregate_def aggregate_verdicts_def aggregate_strictest_def top_indices_def
        max_severity_def severity_def strictest_config_def default_bare_def redact_def verdict_makers
        fold_with_unions fold_transform_def sample_applied Let_def)
  then obtain c where fin: "finish_aggregate ?em (ctx_with ''hi'') (aggregate_verdicts (e_composition ?em) [allow, redact])
      = (c, Some 1, ctx_with ''x'')" by blast
  from aggregate_matches_emitter [OF _ _ run fin] run show ?thesis by simp
qed

text \<open>
  On a unanimous allow the two part. Under every profile the aggregation keeps the first
  allow as the winner, with its reason and message, while the emitter's own combination has neither.
\<close>

theorem allow_reason_kept_by_bindings_only:
  assumes "all \<noteq> []" "is_unanimous_allow all"
    and "emitter_aggregate x em ctx all act subs log = (d, ctx', log')"
    and "aggregate_verdicts cfg all = (c, decided, apply_transform)"
  shows "v_reason c = v_reason (hd all) \<and> v_message c = v_message (hd all)
    \<and> v_reason (d_combined d) = None \<and> v_message (d_combined d) = None"
proof -
  note w = unanimous_winner [OF assms(1,2)]
  have "c = with_unions (hd all) all"
    using assms(1,2,4) w by (auto simp: aggregate_verdicts_def Let_def hd_conv_nth)
  moreover have "d_combined d = with_unions allow all"
    using assms(1,2,3) w
    by (auto simp: emitter_aggregate_def aggregate_unanimous_def aggregate_and_consult_def Let_def
        hd_conv_nth split: if_splits)
  ultimately show ?thesis by (simp add: allow_def)
qed

theorem allow_reason_kept_by_bindings_only_witness:
  "\<exists>d. emitter_aggregate sample_externs (sample_emitter run_all_config Enforce None []) (ctx_with ''hi'')
       [allow\<lparr>v_reason := Some ''noted''\<rparr>] [] [] [] = (d, ctx_with ''hi'', []) \<and> v_reason (d_combined d) = None
     \<and> v_reason (fst (aggregate_verdicts run_all_config [allow\<lparr>v_reason := Some ''noted''\<rparr>])) = Some ''noted''"
proof -
  let ?em = "sample_emitter run_all_config Enforce None []" and ?v = "allow\<lparr>v_reason := Some ''noted''\<rparr>"
  obtain d c1 l1 where run: "emitter_aggregate sample_externs ?em (ctx_with ''hi'') [?v] [] [] [] = (d, c1, l1)"
    by (cases "emitter_aggregate sample_externs ?em (ctx_with ''hi'') [?v] [] [] []")
  obtain c k a where agg: "aggregate_verdicts run_all_config [?v] = (c, k, a)"
    by (cases "aggregate_verdicts run_all_config [?v]")
  have allow: "is_unanimous_allow [?v]" by (simp add: is_unanimous_allow_def verdict_makers)
  have "finish_aggregate ?em (ctx_with ''hi'') (aggregate_verdicts (e_composition ?em) [?v])
      = (c, k, ctx_with ''hi'')"
    using agg unanimous_winner(1) [OF _ allow]
    by (auto simp: finish_aggregate_def aggregate_verdicts_def run_all_config_def default_bare_def Let_def verdict_makers)
  with aggregate_alike [OF _ _ run] have "c1 = ctx_with ''hi''" "l1 = []" by simp_all
  with allow_reason_kept_by_bindings_only [OF _ allow run agg] run agg show ?thesis by simp
qed

section \<open>Records\<close>

text \<open>
  C19: What a binding writes into the audit record is checked. In a record that \<open>finalize\<close>
  returns, a summary that names a substitution is an allow and names one of the three covered failures; the
  consultation outcome, the declaration version and the provider name are from their closed sets; and the
  verdict carries no payload.
\<close>

theorem finalized_record_checked:
  assumes "ffi_finalize x de ctx_json verdict_str mode options_json = Inr rec"
  shows "(\<forall>s\<in>set (r_verdicts rec). \<forall>r. s_substituted_for s = Some r \<longrightarrow>
        s_decision s = Allow \<and> (\<exists>e. host_error_from_wire r = Some e \<and> is_control_failure e))
    \<and> r_resolved_by rec \<in> {None, Some ''approval'', Some ''rejection''}
    \<and> (\<forall>d. r_declaration rec = Some d \<longrightarrow> parse_declaration_version d \<noteq> None)
    \<and> (\<forall>n. r_identity_provider rec = Some n \<longrightarrow> n = JCS_SHA256 \<or> validate_provider_name n = Inr ())
    \<and> payload_free (r_verdict rec)"
  using assms
  by (elim ffi_finalize_Inr)
     (auto simp: meta_of_options_def finalize_payload_free substitution_covered_iff)

definition sample_options :: "string option \<Rightarrow> finalize_options" where
  "sample_options provider =
     \<lparr>fo_input_identity = Some ''i'', fo_identity_provider = provider, fo_enforced_identity = None,
      fo_decided_by = None, fo_composition = run_all_config,
      fo_verdicts = Some [\<lparr>s_index = 0, s_decision = Allow, s_reason = None, s_name = None,
        s_substituted_for = Some ''host_error:interceptor_timeout''\<rparr>],
      fo_fold_truncated = None, fo_resolved_by = None, fo_unchanged = False, fo_registered = 1,
      fo_declaration = None\<rparr>"

definition finalize_decoders :: "string option \<Rightarrow> decoders" where
  "finalize_decoders provider = no_decoders\<lparr>
     de_context := \<lambda>_. Some (ctx_with ''hi''), de_verdict_text := \<lambda>_. Some allow,
     de_options := \<lambda>_. Some (sample_options provider)\<rparr>"

lemma sample_finalizes:
  assumes "provider = None \<or> provider = Some JCS_SHA256"
  obtains rec where
    "ffi_finalize sample_externs (finalize_decoders provider) ''c'' ''v'' ''enforce'' ''o'' = Inr rec"
    "r_identity_provider rec = provider" "r_input_identity rec = Some ''i''"
    "map s_substituted_for (r_verdicts rec) = [Some ''host_error:interceptor_timeout'']"
proof -
  let ?de = "finalize_decoders provider" and ?o = "sample_options provider"
  have "\<exists>e. host_error_from_wire ''host_error:interceptor_timeout'' = Some e \<and> is_control_failure e"
    by (simp add: host_error_from_wire_def host_error_all_def)
  then have "substitution_covered \<lparr>s_index = 0, s_decision = Allow, s_reason = None, s_name = None,
      s_substituted_for = Some ''host_error:interceptor_timeout''\<rparr> = Inr ()"
    by (simp add: substitution_covered_iff)
  then have covered: "check_each substitution_covered
      (case fo_verdicts ?o of None \<Rightarrow> [] | Some vs \<Rightarrow> vs) = Inr ()"
    by (simp add: sample_options_def)
  have dec: "parse_context ?de ''c'' = Inr (ctx_with ''hi'')" "de_verdict_text ?de ''v'' = Some allow"
    "de_options ?de ''o'' = Some ?o" "mode_arg ''enforce'' = Inr Enforce"
    by (simp_all add: finalize_decoders_def parse_context_def or_err_def mode_arg_def)
  have args: "resolved_by_arg (fo_resolved_by ?o) = Inr None" "declaration_arg (fo_declaration ?o) = Inr ()"
    "provider_arg (fo_identity_provider ?o) = Inr ()"
    using assms by (auto simp: sample_options_def resolved_by_arg_def declaration_arg_def provider_arg_def)
  define meta where "meta = meta_of_options ?o
    (fo_identity_provider ?o = Some JCS_SHA256 \<and> \<not> res_ok (scan_projection_raw (de_reader ?de) ''c'')) None"
  have fin: "ffi_finalize sample_externs ?de ''c'' ''v'' ''enforce'' ''o'' =
      Inr (finalize sample_externs (ctx_with ''hi'') allow Enforce meta)"
    unfolding ffi_finalize_def Let_def meta_def
    by (simp only: dec args covered res_bind.simps or_err_def option.case)
  obtain i v d where arm: "enforced_arm sample_externs (ctx_with ''hi'') meta False allow (m_decided_by meta) = (i, v, d)"
    by (cases "enforced_arm sample_externs (ctx_with ''hi'') meta False allow (m_decided_by meta)")
  have "m_input_identity meta = Some ''i''" "m_identity_provider meta = provider"
    "map s_substituted_for (m_verdicts meta) = [Some ''host_error:interceptor_timeout'']"
    by (simp_all add: meta_def meta_of_options_def sample_options_def)
  with finalize_envelope_ok(4) [OF sample_envelope arm, of Enforce] that [OF fin] show ?thesis by simp
qed

theorem finalized_record_checked_witness:
  "\<exists>rec. ffi_finalize sample_externs (finalize_decoders None) ''c'' ''v'' ''enforce'' ''o'' = Inr rec
     \<and> map s_decision (r_verdicts rec) = [Allow]"
proof -
  obtain rec where rec: "ffi_finalize sample_externs (finalize_decoders None) ''c'' ''v'' ''enforce'' ''o'' = Inr rec"
    "map s_substituted_for (r_verdicts rec) = [Some ''host_error:interceptor_timeout'']"
    by (rule sample_finalizes [OF disjI1 [OF refl]])
  from rec(2) obtain s where s: "r_verdicts rec = [s]" "s_substituted_for s = Some ''host_error:interceptor_timeout''"
    by (cases "r_verdicts rec") auto
  from finalized_record_checked [OF rec(1)] s have "s_decision s = Allow" by simp
  with rec(1) s show ?thesis by simp
qed

text \<open>
  C25: No identity over rounded bytes. When the record is under \<open>jcs-sha256\<close> and the raw
  scan refuses the context's text, the record has no enforced identity, and an emission that had an input
  identity does not permit the action.
\<close>

theorem lossy_text_blocks:
  assumes "ffi_finalize x de ctx_json verdict_str mode options_json = Inr rec"
    and "r_identity_provider rec = Some JCS_SHA256" and "\<not> res_ok (scan_projection_raw (de_reader de) ctx_json)"
  shows "r_enforced_identity rec = None
    \<and> (r_input_identity rec \<noteq> None \<longrightarrow> \<not> permits (v_decision (r_verdict rec)))"
  using assms(1)
proof (rule ffi_finalize_Inr)
  fix ctx v m opts
  assume rec: "rec = finalize x ctx v m (meta_of_options opts (fo_identity_provider opts = Some JCS_SHA256
        \<and> \<not> res_ok (scan_projection_raw (de_reader de) ctx_json)) (fo_resolved_by opts))"
  define meta where "meta = meta_of_options opts True (fo_resolved_by opts)"
  have p: "m_identity_provider meta = Some JCS_SHA256" "m_jcs_input_rejected meta"
    using assms(2) by (simp_all add: rec meta_def meta_of_options_def)
  with assms(2,3) rec have r: "rec = finalize x ctx v m meta" by (simp add: meta_def meta_of_options_def)
  show ?thesis
  proof (cases "validate_envelope ctx")
    case (Inl e)
    from finalize_envelope_bad [OF this, of x v m meta] show ?thesis by (simp add: r)
  next
    case (Inr u)
    obtain i v' d where arm: "enforced_arm x ctx meta False v (m_decided_by meta) = (i, v', d)"
      by (cases "enforced_arm x ctx meta False v (m_decided_by meta)")
    have "i = None \<and> (m_input_identity meta \<noteq> None \<longrightarrow> \<not> permits (v_decision v'))"
      using arm p by (auto simp: enforced_arm_def split: if_splits)
    with finalize_envelope_ok [OF _ arm, of m] Inr show ?thesis by (simp add: r)
  qed
qed

theorem lossy_text_blocks_witness:
  "\<exists>rec. ffi_finalize sample_externs (finalize_decoders (Some JCS_SHA256)) ''c'' ''v'' ''enforce'' ''o'' = Inr rec
     \<and> \<not> permits (v_decision (r_verdict rec))"
proof -
  obtain rec where rec: "ffi_finalize sample_externs (finalize_decoders (Some JCS_SHA256)) ''c'' ''v'' ''enforce'' ''o'' = Inr rec"
    "r_identity_provider rec = Some JCS_SHA256" "r_input_identity rec = Some ''i''"
    by (rule sample_finalizes [OF disjI2 [OF refl]])
  have "\<not> res_ok (scan_projection_raw (de_reader (finalize_decoders (Some JCS_SHA256))) ''c'')"
    by (simp add: finalize_decoders_def no_decoders_def scan_projection_raw_def raw_map_def)
  from lossy_text_blocks [OF rec(1,2) this] rec show ?thesis by auto
qed

section \<open>Failures\<close>

text \<open>
  A managed interceptor reported over the surface is treated as one the emitter calls itself:
  the same failure reason, detail and continuability, and the same verdict in the registration's slot, unless
  the registration continues past a failure that may be continued.
\<close>

theorem managed_outcome_alike:
  assumes "ffi_managed_outcome x de spec text = Inr out" and "spec_from_wire spec = Some (e_spec em)"
    and "de_outcome de text = Some w" and "wire_outcome x (e_spec em) w \<noteq> None"
    and "b_interceptor b = Managed f" and "f log ctx (limit em b) = wire_outcome x (e_spec em) w"
  shows "mo_failure out = (case call_isolated em b ctx log of
      Inr v \<Rightarrow> None | Inl c \<Rightarrow> Some (host_error_str (cf_reason c), cf_detail c, cf_continuable c))
    \<and> (\<not> (b_on_error b = OE_Continue \<and> (\<exists>r d. mo_failure out = Some (r, d, True))) \<longrightarrow>
        st_verdict (fst (invoke x em ctx idx b log)) = mo_verdict out)"
  using managed_alike [OF assms(1,2,3,5,6,4)] by blast

definition managed_bound :: "managed_outcome \<Rightarrow> on_error \<Rightarrow> bound" where
  "managed_bound o' posture =
     \<lparr>b_interceptor = Managed (\<lambda>_ _ _. Some o'), b_name = Some ''m'', b_at = None, b_timeout = Inherit,
      b_on_error = posture\<rparr>"

theorem managed_outcome_alike_witness:
  "st_verdict (fst (invoke sample_externs (sample_emitter run_all_config Enforce None []) (ctx_with ''hi'') 0
       (managed_bound MCancelled OE_Continue) []))
     = host_error InterceptorFailed (Some ''managed interceptor was cancelled (see spec 6.3)'')"
proof -
  let ?em = "sample_emitter run_all_config Enforce None []"
  let ?de = "no_decoders\<lparr>de_outcome := \<lambda>_. Some WCancelled\<rparr>"
  have spec: "spec_from_wire ''agent-hooks/draft'' = Some (e_spec ?em)"
    by (simp add: spec_from_wire_def spec_all_def)
  have out: "ffi_managed_outcome sample_externs ?de ''agent-hooks/draft'' ''o'' =
      Inr (failure_json InterceptorFailed (Some ''managed interceptor was cancelled (see spec 6.3)'') False)"
    using spec by (simp add: ffi_managed_outcome_def spec_arg_def or_err_def)
  have o': "wire_outcome sample_externs (e_spec ?em) WCancelled = Some MCancelled"
    by (simp add: wire_outcome_def)
  have ne: "wire_outcome sample_externs (e_spec ?em) WCancelled \<noteq> None" using o' by simp
  have de: "de_outcome ?de ''o'' = Some WCancelled" by simp
  have bi: "b_interceptor (managed_bound MCancelled OE_Continue) = Managed (\<lambda>_ _ _. Some MCancelled)"
    by (simp add: managed_bound_def)
  note alike = managed_outcome_alike [OF out spec de ne bi o' [symmetric]]
  have "\<not> (\<exists>r d. mo_failure (failure_json InterceptorFailed
      (Some ''managed interceptor was cancelled (see spec 6.3)'') False) = Some (r, d, True))"
    by (simp add: failure_json_def)
  with alike [of "ctx_with ''hi''" "[]" 0] have "st_verdict (fst (invoke sample_externs ?em (ctx_with ''hi'') 0
        (managed_bound MCancelled OE_Continue) []))
      = mo_verdict (failure_json InterceptorFailed (Some ''managed interceptor was cancelled (see spec 6.3)'') False)"
    by blast
  then show ?thesis by (simp add: failure_json_def)
qed

text \<open>
  The substitute a binding builds for a failure is the emitter's. For a registration that
  continues past a covered failure, the verdict, the \<open>substituted_for\<close> value and the notice of
  \<open>control_failure_substitute\<close> are those the emitter settles on when its notifier takes that notice.
\<close>

theorem substitute_matches_emitter:
  assumes "ffi_control_failure_substitute de text = Inr out"
    and "de_request de text = Some \<lparr>sr_binding = binding_label b idx,
       sr_reason = host_error_str (cf_reason f), sr_index = idx, sr_point = point_of ctx\<rparr>"
    and "b_on_error b = OE_Continue" and "cf_continuable f" and "e_notifier em = Some notify"
    and "notify log (so_notice out)"
  shows "settle em ctx idx b f log =
    (\<lparr>st_verdict = so_verdict out, st_substituted_for = Some (so_substituted_for out)\<rparr>,
     log @ [Notified (so_notice out)])"
  using assms by (rule substitute_alike)

theorem substitute_matches_emitter_witness:
  "st_substituted_for (fst (settle
      ((sample_emitter run_all_config Enforce None [])\<lparr>e_notifier := Some (\<lambda>_ _. True)\<rparr>) (ctx_with ''hi'') 0
      (managed_bound MTimeout OE_Continue) (covered InterceptorTimeout None) []))
    = Some ''host_error:interceptor_timeout''"
proof -
  let ?em = "(sample_emitter run_all_config Enforce None [])\<lparr>e_notifier := Some (\<lambda>_ _. True)\<rparr>"
  let ?b = "managed_bound MTimeout OE_Continue"
  let ?req = "\<lparr>sr_binding = binding_label ?b 0, sr_reason = host_error_str (cf_reason (covered InterceptorTimeout None)),
       sr_index = 0, sr_point = point_of (ctx_with ''hi'')\<rparr>"
  let ?de = "no_decoders\<lparr>de_request := \<lambda>_. Some ?req\<rparr>"
  have r: "host_error_from_wire (host_error_str InterceptorTimeout) = Some InterceptorTimeout"
    by (rule host_error_from_wire_str)
  have "\<exists>out. ffi_control_failure_substitute ?de ''r'' = Inr out \<and> so_substituted_for out = ''host_error:interceptor_timeout''"
    using r by (simp add: ffi_control_failure_substitute_def or_err_def binding_label_def managed_bound_def covered_def
        MAX_ID_LEN_def)
  then obtain out where out: "ffi_control_failure_substitute ?de ''r'' = Inr out"
    "so_substituted_for out = ''host_error:interceptor_timeout''" by blast
  from substitute_matches_emitter [OF out(1), of ?b 0 "covered InterceptorTimeout None" "ctx_with ''hi''" ?em] out(2)
  show ?thesis by (simp add: managed_bound_def covered_def)
qed

section \<open>Declarations\<close>

text \<open>
  C29: A binding resolves a declaration to what the Rust host resolves it to. Given a description
  of a registry, \<open>declaration_resolve\<close> accepts exactly the documents the registry accepts once the
  channel to the principal is there, and with the same resolved form.
\<close>

theorem bindings_resolve_alike:
  assumes "de_host de host_json = Some h" and "describes h reg" and "surface_ok (hr_surface reg)"
  shows "(\<exists>doc. from_json (de_raw de) document_json = Inr doc \<and> registry_resolve doc reg = Inr r) \<longleftrightarrow>
    ffi_declaration_resolve de document_json host_json = Inr r
    \<and> (\<forall>doc. from_json (de_raw de) document_json = Inr doc \<longrightarrow>
         check_principal_channel doc r (hr_notifier reg \<noteq> None) = Inr ())"
  unfolding declaration_alike [OF assms] registry_resolve_split by auto

definition described :: "host_registry \<Rightarrow> host_description" where
  "described reg =
     \<lparr>hd_surface = hr_surface reg, hd_identity_providers = nm_identity_providers (registry_names_of reg),
      hd_approval_resolvers = nm_approval_resolvers (registry_names_of reg),
      hd_approval_redactors = nm_approval_redactors (registry_names_of reg),
      hd_kinds = nm_kinds (registry_names_of reg)\<rparr>"

theorem bindings_resolve_alike_witness:
  "ffi_declaration_resolve
     (no_decoders\<lparr>de_host := \<lambda>_. Some (described sample_registry), de_raw := sample_parse\<rparr>) sample_text ''h''
   = Inr sample_resolved"
proof -
  let ?de = "no_decoders\<lparr>de_host := \<lambda>_. Some (described sample_registry), de_raw := sample_parse\<rparr>"
  have "surface_validate sample_surface = Inr ()" by code_simp
  then have "surface_ok (hr_surface sample_registry)"
    by (simp add: surface_validate_iff sample_registry_def new_registry_def)
  moreover have "describes (described sample_registry) sample_registry"
    by (simp add: describes_def described_def host_names_def)
  ultimately show ?thesis
    using bindings_resolve_alike [of ?de "''h''" "described sample_registry" sample_registry sample_text sample_resolved]
      sample_accepted sample_resolves by simp
qed

section \<open>The raw scan\<close>


text \<open>A context with an oversized integer in its input, its point spelled with or without an escape.\<close>

definition input_text :: string where
  "input_text = CHR ''{'' # quoted ''content'' @ CHR '':'' # ''18446744073709551617'' @ [CHR ''}'']"

definition input_tok :: tok where
  "input_tok = TObj [(''content'', TNum ''18446744073709551617'')]"

definition point_members :: "string \<Rightarrow> (string \<times> tok) list" where
  "point_members p = [(''interception_point'', TStr p), (''input'', input_tok)]"

definition point_reader :: "string \<Rightarrow> raw_reader" where
  "point_reader p s =
     (if s = ''ctx'' then Some [(''interception_point'', quoted p), (''input'', input_text)]
      else if s = input_text then Some [(''content'', ''18446744073709551617'')]
      else None)"

definition escaped_input :: string where
  "escaped_input = CHR 0x5C # ''u0069nput''"

lemma point_reads:
  assumes "string_ok p"
  shows "reads_document (point_reader p) (point_members p) ''ctx''"
proof -
  have n: "value_text (TNum ''18446744073709551617'') ''18446744073709551617''"
    by (rule value_text_items_text_members_text.num)
       (simp add: number_token_def number_char_def is_digit_def byte_def)
  have ws: "ws []" by (simp add: ws_def)
  have "string_ok ''content''" by simp
  from value_text_items_text_members_text.last_member [OF ws this ws ws n ws]
  have "members_text [(''content'', TNum ''18446744073709551617'')]
      (quoted ''content'' @ CHR '':'' # ''18446744073709551617'')" by simp
  from value_text_items_text_members_text.object [OF this] have o': "value_text input_tok input_text"
    by (simp add: input_tok_def input_text_def)
  have "reads (point_reader p) input_tok input_text"
    using o' n by (simp add: reads_def input_tok_def point_reader_def) (simp add: input_text_def)
  moreover have "reads (point_reader p) (TStr p) (quoted p)"
    using value_text_items_text_members_text.str [OF assms]
    by (simp add: reads_def point_reader_def) (simp add: quoted_def input_text_def)
  ultimately show ?thesis
    by (simp add: reads_document_def point_reader_def point_members_def)
qed

lemma oversized: "\<not> small input_tok"
  by (simp add: input_tok_def big_token_def integer_syntax_def token_over_def LIMIT_def)



text \<open>
  An escape in the point hides the conditional members from the scan. When the point's
  string is written with any escape, the scan looks at the required members only: whatever integers the
  members of that point hold, it passes.
\<close>

theorem escaped_point_unscanned:
  assumes "reads_document rd m text" and "plain_keys m"
    and "tok_get m ''interception_point'' = Some (TStr b)" and "CHR 0x5C \<in> set b"
    and "\<forall>ks\<in>set REQUIRED. \<forall>v\<in>set (kept m ks). small v"
  shows "scan_projection_raw rd text = Inr ()"
  using assms
  by (auto simp: scan_projection_iff projected_def plain_point_def conditional_for_def point_from_str_def POINTS_def)

theorem escaped_point_unscanned_witness:
  "scan_projection_raw (point_reader escaped_input) ''ctx'' = Inr ()
     \<and> (\<exists>v. tok_get (point_members escaped_input) ''input'' = Some v \<and> \<not> small v)"
proof -
  have esc: "CHR 0x5C \<in> set escaped_input" by (simp add: escaped_input_def)
  have "string_ok escaped_input" by (simp add: escaped_input_def)
  from point_reads [OF this] have r: "reads_document (point_reader escaped_input) (point_members escaped_input) ''ctx''" .
  have "plain_keys (point_members escaped_input)" by (simp add: plain_keys_def point_members_def)
  moreover have "tok_get (point_members escaped_input) ''interception_point'' = Some (TStr escaped_input)"
    by (simp add: tok_get_def point_members_def)
  moreover have "\<forall>ks\<in>set REQUIRED. \<forall>v\<in>set (kept (point_members escaped_input) ks). small v"
    by (simp add: REQUIRED_def kept_def tok_get_def point_members_def)
  ultimately have "scan_projection_raw (point_reader escaped_input) ''ctx'' = Inr ()"
    using escaped_point_unscanned [OF r _ _ esc] by blast
  moreover have "tok_get (point_members escaped_input) ''input'' = Some input_tok"
    by (simp add: tok_get_def point_members_def)
  ultimately show ?thesis using oversized by blast
qed

end
