(* ===== verification/Ctk_Lookup.thy ===== *)
theory Ctk_Lookup
  imports Canonical "HOL-Library.While_Combinator"
begin

text \<open>
  \<open>ctk_engine.rs\<close>, dotted-path lookup: the byte loop of \<open>lookup\<close> with its two
  indices, that it always stops, and the steps a path denotes.
\<close>

section \<open>Access\<close>

text \<open>\<open>Value::get\<close> by key and by index, and \<open>Value\<close>'s indexing, which gives null.\<close>

definition value_get :: "json \<Rightarrow> string \<Rightarrow> json option" where
  "value_get v k = Option.bind (as_object v) (\<lambda>m. obj_get m k)"

definition value_at :: "json \<Rightarrow> nat \<Rightarrow> json option" where
  "value_at v i = (case v of JArr xs \<Rightarrow> if i < length xs then Some (xs ! i) else None | _ \<Rightarrow> None)"

definition value_index :: "json \<Rightarrow> string \<Rightarrow> json" where
  "value_index v k = (case value_get v k of Some x \<Rightarrow> x | None \<Rightarrow> JNull)"

definition value_str :: "json \<Rightarrow> string \<Rightarrow> string option" where
  "value_str v k = Option.bind (value_get v k) as_str"

text \<open>\<open>str::parse::<usize>\<close>: an optional plus sign, digits, below \<open>2^64\<close>.\<close>

definition usize_from_str :: "string \<Rightarrow> nat option" where
  "usize_from_str s =
     (let ds = (case s of c # r \<Rightarrow> if c = CHR ''+'' then r else s | [] \<Rightarrow> s)
      in if ds \<noteq> [] \<and> list_all is_digit ds \<and> undec ds < 2 ^ 64 then Some (undec ds) else None)"

section \<open>The loop\<close>

text \<open>
  The loop variables. \<open>lk_cur\<close> is \<open>None\<close> once the function has returned
  \<open>None\<close> from inside the loop.
\<close>

record lookup_state =
  lk_cur :: "json option"
  lk_i :: nat
  lk_start :: nat

definition slice :: "string \<Rightarrow> nat \<Rightarrow> nat \<Rightarrow> string" where
  "slice s a b = take (b - a) (drop a s)"

text \<open>The token before a dot or a bracket, when there is one.\<close>

definition take_token :: "string \<Rightarrow> lookup_state \<Rightarrow> json option" where
  "take_token dotted s =
     (if lk_i s > lk_start s
      then Option.bind (lk_cur s) (\<lambda>v. value_get v (slice dotted (lk_start s) (lk_i s)))
      else lk_cur s)"

definition find_from :: "char \<Rightarrow> nat \<Rightarrow> string \<Rightarrow> nat option" where
  "find_from c i s =
     (let before = takeWhile (\<lambda>d. d \<noteq> c) (drop i s)
      in if i + length before < length s then Some (i + length before) else None)"

definition lookup_body :: "string \<Rightarrow> lookup_state \<Rightarrow> lookup_state" where
  "lookup_body dotted s =
     (let i = lk_i s; ch = (if i < length dotted then dotted ! i else CHR ''.'') in
      if ch = CHR ''.'' then \<lparr>lk_cur = take_token dotted s, lk_i = i + 1, lk_start = i + 1\<rparr>
      else if ch = CHR ''['' then
        (case Option.bind (take_token dotted s) (\<lambda>cur.
                Option.bind (find_from (CHR '']'') i dotted) (\<lambda>j.
                Option.bind (usize_from_str (slice dotted (i + 1) j)) (\<lambda>idx.
                map_option (\<lambda>v. (v, j)) (value_at cur idx)))) of
           None \<Rightarrow> s\<lparr>lk_cur := None\<rparr>
         | Some (v, j) \<Rightarrow> \<lparr>lk_cur = Some v, lk_i = j + 1, lk_start = j + 1\<rparr>)
      else s\<lparr>lk_i := i + 1\<rparr>)"

definition lookup_running :: "string \<Rightarrow> lookup_state \<Rightarrow> bool" where
  "lookup_running dotted s \<longleftrightarrow> lk_cur s \<noteq> None \<and> lk_i s \<le> length dotted"

definition lookup_loop :: "json \<Rightarrow> string \<Rightarrow> lookup_state option" where
  "lookup_loop root dotted =
     while_option (lookup_running dotted) (lookup_body dotted)
       \<lparr>lk_cur = Some root, lk_i = 0, lk_start = 0\<rparr>"

definition lookup :: "json \<Rightarrow> string \<Rightarrow> json option" where
  "lookup root dotted = Option.bind (lookup_loop root dotted) lk_cur"

section \<open>The loop stops\<close>

lemma find_from_ge: "find_from c i s = Some j \<Longrightarrow> i \<le> j \<and> j < length s"
  by (auto simp: find_from_def Let_def split: if_splits)

lemma lookup_body_cases:
  assumes "lk_cur s \<noteq> None"
  shows "lk_cur (lookup_body dotted s) = None \<or> lk_i s < lk_i (lookup_body dotted s)"
  using assms by (auto simp: lookup_body_def Let_def dest!: find_from_ge split: option.splits bind_splits)

lemma lookup_terminates:
  "\<exists>t. while_option (lookup_running dotted) (lookup_body dotted) s = Some t"
proof (rule measure_while_option_Some [where P = "\<lambda>_. True"
      and f = "\<lambda>s. if lk_cur s = None then 0 else Suc (Suc (length dotted) - lk_i s)"])
  fix s assume "lookup_running dotted s"
  then show "True \<and> (if lk_cur (lookup_body dotted s) = None then 0
      else Suc (Suc (length dotted) - lk_i (lookup_body dotted s)))
    < (if lk_cur s = None then 0 else Suc (Suc (length dotted) - lk_i s))"
    using lookup_body_cases [of s dotted] by (auto simp: lookup_running_def)
qed simp

section \<open>What a path denotes\<close>

text \<open>The rest of a path, from a value and the token read so far.\<close>

definition get_token :: "json \<Rightarrow> string \<Rightarrow> json option" where
  "get_token v tok = (if tok = [] then Some v else value_get v tok)"

function walk :: "json \<Rightarrow> string \<Rightarrow> string \<Rightarrow> json option" where
  "walk v tok [] = get_token v tok"
| "walk v tok (c # r) =
     (if c = CHR ''.'' then Option.bind (get_token v tok) (\<lambda>w. walk w [] r)
      else if c = CHR ''['' then
        Option.bind (get_token v tok) (\<lambda>w.
          if CHR '']'' \<notin> set r then None
          else Option.bind (usize_from_str (takeWhile (\<lambda>d. d \<noteq> CHR '']'') r)) (\<lambda>idx.
               Option.bind (value_at w idx) (\<lambda>u. walk u [] (tl (dropWhile (\<lambda>d. d \<noteq> CHR '']'') r)))))
      else walk v (tok @ [c]) r)"
  by pat_completeness auto
termination
proof (relation "measure (\<lambda>(v, tok, s). length s)", simp_all)
  fix r :: string
  show "length (dropWhile (\<lambda>d. d \<noteq> CHR '']'') r) - Suc 0 < Suc (length r)"
    using length_dropWhile_le [of "\<lambda>d. d \<noteq> CHR '']''" r] by simp
qed

lemma slice_same [simp]: "slice s i i = []"
  by (simp add: slice_def)

lemma slice_snoc: "a \<le> i \<Longrightarrow> i < length s \<Longrightarrow> slice s a (i + 1) = slice s a i @ [s ! i]"
  by (simp add: slice_def Suc_diff_le take_Suc_conv_app_nth)

lemma slice_Nil: "a \<le> i \<Longrightarrow> i \<le> length s \<Longrightarrow> slice s a i = [] \<longleftrightarrow> a = i"
  by (auto simp: slice_def)

lemma take_token_get:
  "lk_cur s = Some v \<Longrightarrow> lk_start s \<le> lk_i s \<Longrightarrow> lk_i s \<le> length dotted \<Longrightarrow>
     take_token dotted s = get_token v (slice dotted (lk_start s) (lk_i s))"
  by (auto simp: take_token_def get_token_def slice_Nil)

lemma takeWhile_shorter: "length (takeWhile P xs) < length xs \<longleftrightarrow> (\<exists>x\<in>set xs. \<not> P x)"
  by (induction xs) auto

text \<open>The closing bracket, found from the opening one.\<close>

lemma find_bracket:
  assumes "i < length s" "s ! i = CHR ''[''"
  shows "find_from (CHR '']'') i s =
    (if CHR '']'' \<in> set (drop (i + 1) s)
     then Some (i + 1 + length (takeWhile (\<lambda>d. d \<noteq> CHR '']'') (drop (i + 1) s))) else None)"
proof -
  let ?P = "\<lambda>d. d \<noteq> CHR '']''" and ?r = "drop (i + 1) s"
  have d: "drop i s = CHR ''['' # ?r" using assms by (simp add: Cons_nth_drop_Suc [symmetric])
  have "i + 1 + length (takeWhile ?P ?r) < length s \<longleftrightarrow> CHR '']'' \<in> set ?r"
  proof -
    have "length (takeWhile ?P ?r) < length ?r \<longleftrightarrow> CHR '']'' \<in> set ?r"
      by (simp only: takeWhile_shorter) auto
    moreover have "length ?r = length s - (i + 1)" by simp
    ultimately show ?thesis using assms(1) by linarith
  qed
  then show ?thesis by (simp add: find_from_def d)
qed

lemma bracket_slices:
  assumes "CHR '']'' \<in> set (drop (i + 1) s)"
    and "j = i + 1 + length (takeWhile (\<lambda>d. d \<noteq> CHR '']'') (drop (i + 1) s))"
  shows "slice s (i + 1) j = takeWhile (\<lambda>d. d \<noteq> CHR '']'') (drop (i + 1) s)"
    and "drop (j + 1) s = tl (dropWhile (\<lambda>d. d \<noteq> CHR '']'') (drop (i + 1) s))"
proof -
  let ?P = "\<lambda>d. d \<noteq> CHR '']''" and ?r = "drop (i + 1) s"
  have "take (length (takeWhile ?P ?r)) ?r = takeWhile ?P ?r" by (rule takeWhile_eq_take [symmetric])
  then show "slice s (i + 1) j = takeWhile ?P ?r" by (simp add: slice_def assms(2))
  have "drop (length (takeWhile ?P ?r)) ?r = dropWhile ?P ?r" by (rule dropWhile_eq_drop [symmetric])
  then have "tl (dropWhile ?P ?r) = drop 1 (drop (length (takeWhile ?P ?r)) ?r)" by (simp add: drop_Suc)
  then show "drop (j + 1) s = tl (dropWhile ?P ?r)" by (simp add: assms(2) add.commute add.left_commute)
qed

definition lookup_inv :: "string \<Rightarrow> json option \<Rightarrow> lookup_state \<Rightarrow> bool" where
  "lookup_inv dotted ans s \<longleftrightarrow>
     (case lk_cur s of
        None \<Rightarrow> ans = None
      | Some v \<Rightarrow>
          lk_start s \<le> lk_i s \<and> lk_i s \<le> length dotted
            \<and> ans = walk v (slice dotted (lk_start s) (lk_i s)) (drop (lk_i s) dotted)
          \<or> lk_i s = length dotted + 1 \<and> ans = Some v)"

lemma lookup_body_inv:
  assumes inv: "lookup_inv dotted ans s" and run: "lookup_running dotted s"
  shows "lookup_inv dotted ans (lookup_body dotted s)"
proof -
  define i tok where "i = lk_i s" and "tok = slice dotted (lk_start s) i"
  from inv run obtain v where v: "lk_cur s = Some v" and i: "lk_start s \<le> i" "i \<le> length dotted"
    and ans: "ans = walk v tok (drop i dotted)"
    by (auto simp: lookup_inv_def lookup_running_def i_def tok_def)
  have tk: "take_token dotted s = get_token v tok"
    using take_token_get [OF v] i by (simp add: tok_def i_def)
  show ?thesis
  proof (cases "i < length dotted")
    case False
    with i have "i = length dotted" by simp
    with ans tk v show ?thesis
      by (simp add: lookup_body_def Let_def i_def [symmetric] lookup_inv_def split: option.split)
  next
    case True
    let ?c = "dotted ! i" and ?r = "drop (i + 1) dotted"
    have d: "drop i dotted = ?c # ?r" using True by (simp add: Cons_nth_drop_Suc [symmetric])
    show ?thesis
    proof (cases "?c = CHR ''['' \<or> ?c = CHR ''.''")
      case plain: False
      with True ans i d v slice_snoc [OF i(1) True] show ?thesis
        by (simp add: lookup_body_def Let_def i_def [symmetric] lookup_inv_def tok_def)
    next
      case sep: True
      show ?thesis
      proof (cases "?c = CHR ''.''")
        case dot: True
        with True ans d tk show ?thesis
          by (auto simp: lookup_body_def Let_def i_def [symmetric] lookup_inv_def Suc_le_eq split: option.split)
      next
        case False
        with sep have c: "?c = CHR ''[''" by simp
        show ?thesis
        proof (cases "CHR '']'' \<in> set ?r")
          case m: True
          define j where "j = i + 1 + length (takeWhile (\<lambda>d. d \<noteq> CHR '']'') ?r)"
          have f: "find_from (CHR '']'') i dotted = Some j"
            using find_bracket [OF True c] m by (simp add: j_def)
          from find_from_ge [OF f] have "j < length dotted" by simp
          with True ans d c tk f m bracket_slices [OF m j_def] show ?thesis
            by (auto simp: lookup_body_def Let_def i_def [symmetric] lookup_inv_def Suc_le_eq Option.bind_eq_Some_conv
                split: option.split bind_split)
        next
          case False
          with True ans d c tk find_bracket [OF True c] show ?thesis
            by (auto simp: lookup_body_def Let_def i_def [symmetric] lookup_inv_def split: option.split bind_split)
        qed
      qed
    qed
  qed
qed

theorem lookup_walk: "lookup root dotted = walk root [] dotted"
proof -
  let ?s0 = "\<lparr>lk_cur = Some root, lk_i = 0, lk_start = 0\<rparr>" and ?ans = "walk root [] dotted"
  obtain t where t: "while_option (lookup_running dotted) (lookup_body dotted) ?s0 = Some t"
    using lookup_terminates by blast
  have "lookup_inv dotted ?ans t"
    by (rule while_option_rule [where P = "lookup_inv dotted ?ans", OF lookup_body_inv t])
       (simp_all add: lookup_inv_def)
  moreover have "\<not> lookup_running dotted t" by (rule while_option_stop [OF t])
  ultimately have "lk_cur t = ?ans" by (auto simp: lookup_inv_def lookup_running_def split: option.splits)
  with t show ?thesis by (simp add: lookup_def lookup_loop_def)
qed

section \<open>Paths as they are written\<close>

datatype path_step = Key string | At nat

fun path_text :: "path_step list \<Rightarrow> string" where
  "path_text [] = []"
| "path_text (Key k # ss) = k @ (case ss of Key _ # _ \<Rightarrow> CHR ''.'' # path_text ss | _ \<Rightarrow> path_text ss)"
| "path_text (At i # ss) =
     CHR ''['' # dec i @ CHR '']'' # (case ss of Key _ # _ \<Rightarrow> CHR ''.'' # path_text ss | _ \<Rightarrow> path_text ss)"

fun step_ok :: "path_step \<Rightarrow> bool" where
  "step_ok (Key k) = (k \<noteq> [] \<and> CHR ''.'' \<notin> set k \<and> CHR ''['' \<notin> set k)"
| "step_ok (At i) = (i < 2 ^ 64)"

fun follow :: "json \<Rightarrow> path_step list \<Rightarrow> json option" where
  "follow v [] = Some v"
| "follow v (Key k # ss) = Option.bind (value_get v k) (\<lambda>w. follow w ss)"
| "follow v (At i # ss) = Option.bind (value_at v i) (\<lambda>w. follow w ss)"

lemma walk_token:
  "CHR ''.'' \<notin> set k \<Longrightarrow> CHR ''['' \<notin> set k \<Longrightarrow> walk v tok (k @ r) = walk v (tok @ k) r"
  by (induction k arbitrary: tok) auto

lemma dec_no_plus: "case dec n of c # r \<Rightarrow> c \<noteq> CHR ''+'' | [] \<Rightarrow> True"
proof (cases "dec n")
  case (Cons c r)
  then have "is_digit c" by (intro dec_digits [of c n]) simp
  then have "c \<noteq> CHR ''+''" by (auto simp: is_digit_def byte_def)
  with Cons show ?thesis by simp
qed simp

lemma usize_dec: "i < 2 ^ 64 \<Longrightarrow> usize_from_str (dec i) = Some i"
proof -
  have "(case dec i of c # r \<Rightarrow> if c = CHR ''+'' then r else dec i | [] \<Rightarrow> dec i) = dec i"
    using dec_no_plus [of i] by (simp split: list.splits)
  then show "i < 2 ^ 64 \<Longrightarrow> ?thesis" by (simp add: usize_from_str_def)
qed

text \<open>What may follow a step.\<close>

definition step_end :: "string \<Rightarrow> bool" where
  "step_end r \<longleftrightarrow> (case r of [] \<Rightarrow> True | c # _ \<Rightarrow> c = CHR ''.'' \<or> c = CHR ''['')"

lemma path_text_end: "list_all step_ok ss \<Longrightarrow>
    step_end (case ss of Key _ # _ \<Rightarrow> CHR ''.'' # path_text ss | _ \<Rightarrow> path_text ss)"
  by (auto simp: step_end_def split: list.split path_step.split)

lemma walk_end: "step_end r \<Longrightarrow> k \<noteq> [] \<Longrightarrow> walk v k r = Option.bind (value_get v k) (\<lambda>w. walk w [] r)"
  by (cases r) (auto simp: step_end_def get_token_def)

lemma walk_separator:
  "walk v [] (case ss of Key _ # _ \<Rightarrow> CHR ''.'' # path_text ss | _ \<Rightarrow> path_text ss) = walk v [] (path_text ss)"
  by (auto simp: get_token_def split: list.split path_step.split)

lemma walk_path: "list_all step_ok ss \<Longrightarrow> walk v [] (path_text ss) = follow v ss"
proof (induction ss arbitrary: v)
  case (Cons x ss)
  let ?r = "case ss of Key _ # _ \<Rightarrow> CHR ''.'' # path_text ss | _ \<Rightarrow> path_text ss"
  have ss: "list_all step_ok ss" and x: "step_ok x" using Cons.prems by simp_all
  have rest: "walk w [] ?r = follow w ss" for w
    using Cons.IH [OF ss] by (simp only: walk_separator)
  show ?case
  proof (cases x)
    case (Key k)
    with x have k: "k \<noteq> []" "CHR ''.'' \<notin> set k" "CHR ''['' \<notin> set k" by simp_all
    have "walk v [] (k @ ?r) = walk v k ?r" using walk_token [OF k(2,3), of v "[]" ?r] by simp
    also have "\<dots> = Option.bind (value_get v k) (\<lambda>w. walk w [] ?r)"
      by (rule walk_end [OF path_text_end [OF ss] k(1)])
    finally show ?thesis by (simp only: Key path_text.simps follow.simps rest)
  next
    case (At i)
    have no: "\<forall>c\<in>set (dec i). c \<noteq> CHR '']''"
      by (auto dest: dec_digits simp: is_digit_def byte_def)
    then have "takeWhile (\<lambda>d. d \<noteq> CHR '']'') (dec i @ CHR '']'' # ?r) = dec i"
      "dropWhile (\<lambda>d. d \<noteq> CHR '']'') (dec i @ CHR '']'' # ?r) = CHR '']'' # ?r"
      by (simp_all add: takeWhile_append2 dropWhile_append2)
    moreover have "usize_from_str (dec i) = Some i" using x At by (simp add: usize_dec)
    ultimately have "walk v [] (CHR ''['' # dec i @ CHR '']'' # ?r) = Option.bind (value_at v i) (\<lambda>w. walk w [] ?r)"
      by (simp add: get_token_def)
    then show ?thesis by (simp only: At path_text.simps follow.simps rest)
  qed
qed (simp add: get_token_def)

lemma lookup_path: "list_all step_ok ss \<Longrightarrow> lookup v (path_text ss) = follow v ss"
  by (simp add: lookup_walk walk_path)

end
