(* ===== verification/Ctk_Engine.thy ===== *)
theory Ctk_Engine
  imports Ctk_Lookup Decl_Fields
begin

text \<open>
  \<open>ctk_engine.rs\<close>: the scripted interceptor and resolver of a conformance vector and the
  assertion pass over what a harness recorded. A failure is a constructor with the data its message
  shows; the message text is left out. \<open>jprint\<close> is \<open>serde_json::to_string\<close>.
\<close>

section \<open>Equality of values\<close>

text \<open>Doubles compare as numbers, so both zeros are equal.\<close>

fun number_eq :: "number \<Rightarrow> number \<Rightarrow> bool" where
  "number_eq (PosInt a) (PosInt b) = (a = b)"
| "number_eq (NegInt a) (NegInt b) = (a = b)"
| "number_eq (Float a) (Float b) = (a = b \<or> push_bit 1 a = 0 \<and> push_bit 1 b = 0)"
| "number_eq _ _ = False"

fun value_eq :: "json \<Rightarrow> json \<Rightarrow> bool"
  and values_eq :: "json list \<Rightarrow> json list \<Rightarrow> bool"
  and members_eq :: "(string \<times> json) list \<Rightarrow> (string \<times> json) list \<Rightarrow> bool" where
  "value_eq JNull w = (case w of JNull \<Rightarrow> True | _ \<Rightarrow> False)"
| "value_eq (JBool a) w = (case w of JBool b \<Rightarrow> a = b | _ \<Rightarrow> False)"
| "value_eq (JNum a) w = (case w of JNum b \<Rightarrow> number_eq a b | _ \<Rightarrow> False)"
| "value_eq (JStr a) w = (case w of JStr b \<Rightarrow> a = b | _ \<Rightarrow> False)"
| "value_eq (JArr a) w = (case w of JArr b \<Rightarrow> values_eq a b | _ \<Rightarrow> False)"
| "value_eq (JObj a) w = (case w of JObj b \<Rightarrow> members_eq a b | _ \<Rightarrow> False)"
| "values_eq [] ys = (ys = [])"
| "values_eq (x # xs) ys = (case ys of [] \<Rightarrow> False | y # ys' \<Rightarrow> value_eq x y \<and> values_eq xs ys')"
| "members_eq [] ys = (ys = [])"
| "members_eq ((k, x) # xs) ys =
     (case ys of [] \<Rightarrow> False | (l, y) # ys' \<Rightarrow> k = l \<and> value_eq x y \<and> members_eq xs ys')"

section \<open>Rules\<close>

definition IP :: string where
  "IP = ''interception_point''"

definition REQUIRED_FIELDS :: "string list" where
  "REQUIRED_FIELDS =
     [''spec'', ''interception_point'', ''timestamp'', ''sequence'', ''agent'', ''session'', ''target'']"

definition value_object :: "json \<Rightarrow> string \<Rightarrow> object option" where
  "value_object v k = Option.bind (value_get v k) as_object"

definition value_array :: "json \<Rightarrow> string \<Rightarrow> json list option" where
  "value_array v k = Option.bind (value_get v k) as_array"

definition value_bool :: "json \<Rightarrow> string \<Rightarrow> bool option" where
  "value_bool v k = Option.bind (value_get v k) as_bool"

definition value_i64 :: "json \<Rightarrow> string \<Rightarrow> int option" where
  "value_i64 v k = Option.bind (value_get v k) as_i64"

definition value_strings :: "json \<Rightarrow> string \<Rightarrow> string list" where
  "value_strings v k = (case value_array v k of None \<Rightarrow> [] | Some a \<Rightarrow> List.map_filter as_str a)"

definition unwrap_or :: "'a option \<Rightarrow> 'a \<Rightarrow> 'a" where
  "unwrap_or v d = (case v of None \<Rightarrow> d | Some a \<Rightarrow> a)"

definition predicate_holds :: "json \<Rightarrow> string \<times> json \<Rightarrow> bool" where
  "predicate_holds ctx p = (case lookup ctx (fst p) of None \<Rightarrow> False | Some got \<Rightarrow> value_eq got (snd p))"

definition matches :: "json \<Rightarrow> object option \<Rightarrow> bool" where
  "matches ctx predicates =
     (case predicates of None \<Rightarrow> True | Some m \<Rightarrow> list_all (predicate_holds ctx) m)"

section \<open>The scripted interceptor and resolver\<close>

definition allow_json :: json where
  "allow_json = JObj [(''decision'', JStr ''allow'')]"

definition fault_json :: "string \<Rightarrow> json" where
  "fault_json f = JObj [(''__ctk_fault__'', JStr f)]"

definition rule_fires :: "json \<Rightarrow> json \<Rightarrow> bool" where
  "rule_fires ctx rule \<longleftrightarrow>
     value_str rule ''at'' = Some (unwrap_or (value_str ctx IP) []) \<and> matches ctx (value_object rule ''match'')"

definition rule_answer :: "json \<Rightarrow> json" where
  "rule_answer rule =
     (let fault = value_str rule ''fault'' in
      if fault = Some ''raise'' then fault_json ''raise''
      else if fault = Some ''malformed_verdict'' then JObj [(''decision'', JStr ''transform'')]
      else if fault = Some ''mutate'' then fault_json ''mutate''
      else if fault = Some ''hang'' then fault_json ''hang''
      else if fault = Some ''cancel'' then fault_json ''cancel''
      else unwrap_or (value_get rule ''return'') allow_json)"

fun scripted_intercept :: "json list \<Rightarrow> json \<Rightarrow> json" where
  "scripted_intercept [] ctx = allow_json"
| "scripted_intercept (rule # rules) ctx =
     (if value_str rule ''at'' \<noteq> Some (unwrap_or (value_str ctx IP) []) then scripted_intercept rules ctx
      else if matches ctx (value_object rule ''match'') then rule_answer rule
      else scripted_intercept rules ctx)"

definition resolution_identity :: "externs \<Rightarrow> json \<Rightarrow> json \<Rightarrow> string \<Rightarrow> string" where
  "resolution_identity x r ctx given =
     (if value_bool r ''echo_recomputed'' = Some True then
        (case as_object ctx of
           None \<Rightarrow> []
         | Some m \<Rightarrow> (case context_identity x m of Inr i \<Rightarrow> i | Inl _ \<Rightarrow> []))
      else unwrap_or (value_str r ''identity_override'') given)"

fun scripted_resolve :: "externs \<Rightarrow> json list \<Rightarrow> json \<Rightarrow> string \<Rightarrow> json" where
  "scripted_resolve x [] ctx given =
     JObj [(''context_identity'', JStr given), (''outcome'', JStr ''unresolved'')]"
| "scripted_resolve x (rule # rules) ctx given =
     (if matches ctx (value_object rule ''match'') then
        let r = value_index rule ''resolve'' in
        if value_str r ''fault'' = Some ''raise'' then fault_json ''raise''
        else
          let out = [(''context_identity'', JStr (resolution_identity x r ctx given)),
                     (''outcome'', value_index r ''outcome'')]
          in JObj (case value_get r ''verdict'' of None \<Rightarrow> out | Some v \<Rightarrow> obj_insert ''verdict'' v out)
      else scripted_resolve x rules ctx given)"

section \<open>What a harness reports\<close>

record load_record =
  ld_outcome :: string
  ld_class :: "string option"
  ld_paths_equivalent :: "bool option"
  ld_detail :: "string option"

record run_record =
  rr_outcome :: string
  rr_final_output :: json
  rr_tool_invocations :: "json list"
  rr_error :: "string option"
  rr_identities :: "(string option \<times> string option) list"
  rr_records :: "json list"
  rr_postures :: "(string \<times> string) list"
  rr_load :: "load_record option"
  rr_host_messages :: "string list"

text \<open>What fails at one context or record, in the run, or in loading.\<close>

datatype check_fault =
    NotAnObject
  | MissingField string
  | EnvelopeInvalid
  | NotResolved string
  | Differs string json json
  | NotContained string
  | MustNotSurface string
  | Present string json
  | Absent string

datatype run_fault =
    UnknownPosture string
  | PostureDefault string string
  | PostureUndefined string string
  | OutcomeDiffers string string
  | OutputDiffers json json
  | InvocationsDiffer "json list" "json list"
  | ToolInvoked string
  | NoIdentities
  | IdentitiesDiffer "nat list"
  | IdentitiesEqual

datatype load_fault =
    NoLoad
  | PathsDiverged
  | LoadRefused
  | LoadOutcome string string
  | LoadClass "string option" string
  | LoadPaths "bool option" bool
  | RefusedRecorded nat
  | RefusedRecords nat

datatype ctk_failure =
    AtContext string check_fault
  | AtRecord nat string check_fault
  | SequenceMismatch "string list" "string list"
  | PointNotFound string
  | MustBeAbsent string
  | NoRecords
  | RecordNotFound string
  | InRun run_fault
  | InLoad load_fault
  | NoHostMessage string
  | NotIncreasing "int list"

section \<open>Interceptions\<close>

definition validate_required :: "json \<Rightarrow> ctk_failure list" where
  "validate_required ctx =
     (let ip = unwrap_or (value_str ctx IP) ''<missing>'' in
      case as_object ctx of
        None \<Rightarrow> [AtContext ip NotAnObject]
      | Some m \<Rightarrow>
          map (AtContext ip \<circ> MissingField) (filter (\<lambda>k. \<not> contains_key m k) REQUIRED_FIELDS)
          @ (if res_ok (validate_envelope m) then [] else [AtContext ip EnvelopeInvalid]))"

fun contains_str :: "string \<Rightarrow> string \<Rightarrow> bool" where
  "contains_str n [] = (n = [])"
| "contains_str n (c # r) = (starts_with n (c # r) \<or> contains_str n r)"

definition predicate_failures :: "string \<Rightarrow> json \<Rightarrow> object \<Rightarrow> ctk_failure list" where
  "predicate_failures ip r preds =
     concat (map (\<lambda>(path, want).
       case lookup r path of
         None \<Rightarrow> [AtContext ip (NotResolved path)]
       | Some got \<Rightarrow> if value_eq got want then [] else [AtContext ip (Differs path got want)]) preds)"

text \<open>The substring assertions, over the serialized context.\<close>

definition content_failures :: "(json \<Rightarrow> string) \<Rightarrow> string \<Rightarrow> json \<Rightarrow> json \<Rightarrow> ctk_failure list" where
  "content_failures jprint ip e r =
     (let serialized = jprint r in
      map (AtContext ip \<circ> NotContained)
        (filter (\<lambda>n. \<not> contains_str n serialized) (value_strings e ''context_must_contain''))
      @ map (AtContext ip \<circ> MustNotSurface)
          (filter (\<lambda>n. contains_str n serialized) (value_strings e ''context_must_not_contain'')))"

definition entry_failures :: "(json \<Rightarrow> string) \<Rightarrow> json \<Rightarrow> json \<Rightarrow> ctk_failure list" where
  "entry_failures jprint e r =
     (let ip = unwrap_or (value_str e IP) [] in
      (if unwrap_or (value_bool e ''context_must_validate'') True then validate_required r else [])
      @ (case value_object e ''context'' of None \<Rightarrow> [] | Some preds \<Rightarrow> predicate_failures ip r preds)
      @ content_failures jprint ip e r)"

text \<open>The forward scan: the next entry at the point, its index, and what follows it.\<close>

fun seek :: "string \<Rightarrow> nat \<Rightarrow> json list \<Rightarrow> (nat \<times> json \<times> json list) option" where
  "seek want i [] = None"
| "seek want i (r # rs) = (if value_str r IP = Some want then Some (i, r, rs) else seek want (i + 1) rs)"

fun loose_pairs :: "json list \<Rightarrow> nat \<Rightarrow> json list \<Rightarrow> ctk_failure + (json \<times> json) list" where
  "loose_pairs [] i rs = Inr []"
| "loose_pairs (e # es) i rs =
     (let want = unwrap_or (value_str e IP) [] in
      case seek want i rs of
        None \<Rightarrow> Inl (PointNotFound want)
      | Some (j, r, rs') \<Rightarrow> res_bind (loose_pairs es (j + 1) rs') (\<lambda>ps. Inr ((e, r) # ps)))"

definition points_of :: "json list \<Rightarrow> string list" where
  "points_of vs = List.map_filter (\<lambda>v. value_str v IP) vs"

definition pair_up :: "bool \<Rightarrow> json list \<Rightarrow> json list \<Rightarrow> ctk_failure + (json \<times> json) list" where
  "pair_up strict expected recorded =
     (if strict then
        if points_of recorded \<noteq> points_of expected
        then Inl (SequenceMismatch (points_of expected) (points_of recorded))
        else Inr (zip expected recorded)
      else loose_pairs expected 0 recorded)"

definition assert_interceptions :: "(json \<Rightarrow> string) \<Rightarrow> json \<Rightarrow> json list \<Rightarrow> ctk_failure list" where
  "assert_interceptions jprint expect recorded =
     (let expected = unwrap_or (as_array (value_index expect ''interceptions'')) [];
          strict = unwrap_or (value_bool expect ''sequence_strict'') True
      in case pair_up strict expected recorded of
           Inl f \<Rightarrow> [f]
         | Inr pairs \<Rightarrow>
             concat (map (\<lambda>(e, r). entry_failures jprint e r) pairs)
             @ map MustBeAbsent
                 (filter (\<lambda>n. n \<in> set (points_of recorded)) (value_strings expect ''interceptions_absent'')))"

section \<open>The run\<close>

definition posture_default :: "string \<Rightarrow> string option" where
  "posture_default p =
     (if p = ''tool_seam_host_error'' then Some ''continue''
      else if p = ''on_error'' then Some ''deny''
      else None)"

definition expected_outcome :: "json \<Rightarrow> run_record \<Rightarrow> string \<times> ctk_failure list" where
  "expected_outcome expect rr =
     (let base = unwrap_or (as_str (value_index expect ''run_outcome'')) [] in
      case value_get expect ''run_outcome_by_posture'' of
        None \<Rightarrow> (base, [])
      | Some by \<Rightarrow>
          (let posture = unwrap_or (value_str by ''posture'') [] in
           case posture_default posture of
             None \<Rightarrow> (base, [InRun (UnknownPosture posture)])
           | Some dflt \<Rightarrow>
               let outcomes = value_index by ''outcomes'';
                   authoring = (if value_str outcomes dflt \<noteq> Some base then [InRun (PostureDefault dflt base)] else []);
                   declared = unwrap_or (map_of (rr_postures rr) posture) dflt
               in (case value_str outcomes declared of
                     Some o' \<Rightarrow> (o', authoring)
                   | None \<Rightarrow> (base, authoring @ [InRun (PostureUndefined posture declared)]))))"

definition assert_record :: "json \<Rightarrow> run_record \<Rightarrow> ctk_failure list" where
  "assert_record expect rr =
     (let (want_outcome, fs) = expected_outcome expect rr in
      fs
      @ (if rr_outcome rr \<noteq> want_outcome then [InRun (OutcomeDiffers (rr_outcome rr) want_outcome)] else [])
      @ (case value_get expect ''final_output'' of
           None \<Rightarrow> []
         | Some want \<Rightarrow>
             if value_eq (rr_final_output rr) want then [] else [InRun (OutputDiffers (rr_final_output rr) want)])
      @ (case value_array expect ''tool_invocations'' of
           None \<Rightarrow> []
         | Some want \<Rightarrow>
             if values_eq (rr_tool_invocations rr) want then []
             else [InRun (InvocationsDiffer (rr_tool_invocations rr) want)])
      @ map (InRun \<circ> ToolInvoked)
          (filter (\<lambda>name. list_ex (\<lambda>inv. value_str inv ''name'' = Some name) (rr_tool_invocations rr))
            (value_strings expect ''tool_not_invoked'')))"

definition assert_identities :: "json \<Rightarrow> run_record \<Rightarrow> ctk_failure list" where
  "assert_identities expect rr =
     (case value_bool expect ''identities_equal'' of
        None \<Rightarrow> []
      | Some want_equal \<Rightarrow>
          if rr_identities rr = [] then [InRun NoIdentities]
          else
            let all_equal = list_all (\<lambda>(i, e). i = e) (rr_identities rr) in
            if want_equal \<and> \<not> all_equal then
              [InRun (IdentitiesDiffer (map fst (filter (\<lambda>(_, i, e). i \<noteq> e) (enumerate 0 (rr_identities rr)))))]
            else if \<not> want_equal \<and> all_equal then [InRun IdentitiesEqual]
            else [])"

section \<open>Records\<close>

definition record_failures :: "nat \<Rightarrow> string \<Rightarrow> json \<Rightarrow> json \<Rightarrow> ctk_failure list" where
  "record_failures ri ip e r =
     (case value_object e ''assert'' of
        None \<Rightarrow> []
      | Some preds \<Rightarrow>
          concat (map (\<lambda>(path, want).
            case lookup r path of
              None \<Rightarrow> [AtRecord ri ip (NotResolved path)]
            | Some got \<Rightarrow> if value_eq got want then [] else [AtRecord ri ip (Differs path got want)]) preds))
     @ concat (map (\<lambda>path. case lookup r path of None \<Rightarrow> [] | Some got \<Rightarrow> [AtRecord ri ip (Present path got)])
         (value_strings e ''absent''))
     @ map (AtRecord ri ip \<circ> Absent) (filter (\<lambda>path. lookup r path = None) (value_strings e ''present''))"

fun match_records :: "json list \<Rightarrow> nat \<Rightarrow> json list \<Rightarrow> ctk_failure list" where
  "match_records [] i rs = []"
| "match_records (e # es) i rs =
     (let want = unwrap_or (value_str e IP) [] in
      case seek want i rs of
        None \<Rightarrow> [RecordNotFound want]
      | Some (j, r, rs') \<Rightarrow> record_failures j want e r @ match_records es (j + 1) rs')"

definition assert_records :: "json \<Rightarrow> run_record \<Rightarrow> ctk_failure list" where
  "assert_records expect rr =
     (case value_array expect ''records'' of
        None \<Rightarrow> []
      | Some expected \<Rightarrow> if rr_records rr = [] then [NoRecords] else match_records expected 0 (rr_records rr))"

section \<open>Loading, messages, order\<close>

text \<open>The flag says whether the remaining assertions are skipped.\<close>

definition assert_load :: "json \<Rightarrow> json list \<Rightarrow> run_record \<Rightarrow> bool \<times> ctk_failure list" where
  "assert_load expect recorded rr =
     (case rr_load rr of
        None \<Rightarrow> if value_get expect ''load'' \<noteq> None then (True, [InLoad NoLoad]) else (False, [])
      | Some got \<Rightarrow>
          (let fs = (if ld_paths_equivalent got = Some False then [InLoad PathsDiverged] else []) in
           case value_get expect ''load'' of
             None \<Rightarrow> if ld_outcome got \<noteq> ''accepted'' then (True, fs @ [InLoad LoadRefused]) else (False, fs)
           | Some want \<Rightarrow>
               let want_outcome = unwrap_or (as_str (value_index want ''outcome'')) ''accepted'';
                   fs1 = fs
                     @ (if ld_outcome got \<noteq> want_outcome then [InLoad (LoadOutcome (ld_outcome got) want_outcome)] else [])
                     @ (case value_str want ''class'' of
                          None \<Rightarrow> []
                        | Some c \<Rightarrow> if ld_class got \<noteq> Some c then [InLoad (LoadClass (ld_class got) c)] else [])
                     @ (case value_bool want ''paths_equivalent'' of
                          None \<Rightarrow> []
                        | Some pe \<Rightarrow>
                            if ld_paths_equivalent got \<noteq> Some pe then [InLoad (LoadPaths (ld_paths_equivalent got) pe)] else [])
               in if want_outcome = ''refused''
                  then (True, fs1 @ (if recorded \<noteq> [] then [InLoad (RefusedRecorded (length recorded))] else [])
                    @ (if rr_records rr \<noteq> [] then [InLoad (RefusedRecords (length (rr_records rr)))] else []))
                  else (False, fs1)))"

definition assert_host_messages :: "json \<Rightarrow> run_record \<Rightarrow> ctk_failure list" where
  "assert_host_messages expect rr =
     map NoHostMessage
       (filter (\<lambda>n. \<not> list_ex (contains_str n) (rr_host_messages rr))
         (value_strings expect ''host_messages_must_contain''))"

definition assert_sequence :: "json list \<Rightarrow> ctk_failure list" where
  "assert_sequence recorded =
     (let seq = List.map_filter (\<lambda>c. value_i64 c ''sequence'') recorded;
          sorted = remdups_adj (sort seq)
      in if seq \<noteq> sorted \<or> length sorted \<noteq> length recorded then [NotIncreasing seq] else [])"

definition should_skip :: "json \<Rightarrow> string list \<Rightarrow> string list option" where
  "should_skip vector harness_caps =
     (let missing = filter (\<lambda>c. c \<notin> set harness_caps) (value_strings vector ''capabilities'')
      in if missing = [] then None else Some missing)"

section \<open>The assertion pass\<close>

record vector_result =
  vr_id :: string
  vr_title :: string
  vr_part :: string
  vr_status :: string
  vr_detail :: string
  vr_failures :: "ctk_failure list"

definition vector_result :: "json \<Rightarrow> ctk_failure list \<Rightarrow> vector_result" where
  "vector_result vector failures =
     \<lparr>vr_id = unwrap_or (as_str (value_index vector ''id'')) [],
      vr_title = unwrap_or (as_str (value_index vector ''title'')) [],
      vr_part = unwrap_or (value_str vector ''part'') [],
      vr_status = (if failures = [] then ''pass'' else ''fail''),
      vr_detail = [], vr_failures = failures\<rparr>"

definition assert_vector :: "(json \<Rightarrow> string) \<Rightarrow> json \<Rightarrow> json list \<Rightarrow> run_record \<Rightarrow> vector_result" where
  "assert_vector jprint vector recorded rr =
     (let expect = value_index vector ''expect''; (finished, fs) = assert_load expect recorded rr in
      if finished then vector_result vector fs
      else vector_result vector
        (fs @ assert_interceptions jprint expect recorded @ assert_record expect rr @ assert_records expect rr
          @ assert_host_messages expect rr @ assert_sequence recorded @ assert_identities expect rr))"

end
