(* ===== verification/Ctk_Laws.thy ===== *)
theory Ctk_Laws
  imports Ctk_Engine "HOL-Library.Sublist"
begin

text \<open>
  What the assertion pass means: the forward scan against subsequences, the order check against
  strict order, and for each group of assertions the condition under which it reports nothing.
\<close>

named_theorems assertions \<open>when a group of assertions reports nothing\<close>

lemma unwrap_or_simps [simp]: "unwrap_or None d = d" "unwrap_or (Some a) d = a"
  by (simp_all add: unwrap_or_def)

lemma starts_with_prefix: "starts_with n s \<longleftrightarrow> prefix n s"
  unfolding starts_with_def prefix_def by (metis append_eq_conv_conj append_take_drop_id)

lemma contains_str_sublist: "contains_str n s \<longleftrightarrow> sublist n s"
  by (induction s) (auto simp: sublist_Cons_right starts_with_prefix simp del: prefix_Cons)

section \<open>The forward scan\<close>

abbreviation point :: "json \<Rightarrow> string option" where
  "point v \<equiv> value_str v IP"

definition wanted :: "json \<Rightarrow> string" where
  "wanted e = unwrap_or (point e) []"

lemma seek_Some:
  "seek want i rs = Some (j, r, rs') \<longleftrightarrow>
     (\<exists>skipped. rs = skipped @ r # rs' \<and> j = i + length skipped \<and> point r = Some want
        \<and> (\<forall>s\<in>set skipped. point s \<noteq> Some want))"
proof (induction rs arbitrary: i)
  case (Cons a rs)
  show ?case
  proof (cases "point a = Some want")
    case True
    then show ?thesis by (auto simp: Cons_eq_append_conv)
  next
    case False
    then have "seek want i (a # rs) = seek want (i + 1) rs" by simp
    also have "(seek want (i + 1) rs = Some (j, r, rs')) \<longleftrightarrow> (\<exists>skipped. a # rs = skipped @ r # rs'
        \<and> j = i + length skipped \<and> point r = Some want \<and> (\<forall>s\<in>set skipped. point s \<noteq> Some want))"
      unfolding Cons.IH using False
      by (auto simp: Cons_eq_append_conv intro: exI [where x = "a # _"])
    finally show ?thesis .
  qed
qed simp

lemma seek_None: "seek want i rs = None \<longleftrightarrow> Some want \<notin> point ` set rs"
  by (induction rs arbitrary: i) auto

lemma subseq_skip:
  "x \<notin> set ys \<Longrightarrow> subseq (x # xs) (ys @ x # zs) \<longleftrightarrow> subseq xs zs"
  by (induction ys) auto

text \<open>The scan finds every expected point in order exactly when they form a subsequence.\<close>

lemma loose_pairs_iff:
  "res_ok (loose_pairs es i rs) \<longleftrightarrow> subseq (map (\<lambda>e. Some (wanted e)) es) (map point rs)"
proof (induction es arbitrary: i rs)
  case (Cons e es)
  show ?case
  proof (cases "seek (wanted e) i rs")
    case None
    then have "Some (wanted e) \<notin> set (map point rs)" by (auto simp: seek_None)
    moreover have "Some (wanted e) \<in> set (map point rs)"
      if sub: "subseq (map (\<lambda>e. Some (wanted e)) (e # es)) (map point rs)"
    proof -
      obtain y where "y \<in> set (map point rs)" "Some (wanted e) = y"
        using list_emb_set [OF sub, of "Some (wanted e)"] by auto
      then show ?thesis by simp
    qed
    ultimately have "\<not> subseq (map (\<lambda>e. Some (wanted e)) (e # es)) (map point rs)" by blast
    moreover have "\<not> res_ok (loose_pairs (e # es) i rs)" using None by (simp add: wanted_def)
    ultimately show ?thesis by (simp only: simp_thms)
  next
    case (Some t)
    obtain j r rs' where t: "t = (j, r, rs')" by (cases t)
    with Some obtain skipped where s: "rs = skipped @ r # rs'" "point r = Some (wanted e)"
      "\<forall>s\<in>set skipped. point s \<noteq> Some (wanted e)"
      by (auto simp: seek_Some)
    then have "Some (wanted e) \<notin> set (map point skipped)" by auto
    from subseq_skip [OF this, of "map (\<lambda>e. Some (wanted e)) es" "map point rs'"] s
    have "subseq (map (\<lambda>e. Some (wanted e)) (e # es)) (map point rs) \<longleftrightarrow>
        subseq (map (\<lambda>e. Some (wanted e)) es) (map point rs')" by simp
    with Cons.IH [of "j + 1" rs'] Some t show ?thesis
      by (cases "loose_pairs es (j + 1) rs'") (simp_all add: wanted_def)
  qed
qed simp

lemma loose_pairs_Inr:
  assumes "loose_pairs es i rs = Inr ps"
  shows "map fst ps = es" and "subseq (map snd ps) rs" and "\<forall>(e, r)\<in>set ps. point r = Some (wanted e)"
proof -
  have "map fst ps = es \<and> subseq (map snd ps) rs \<and> (\<forall>(e, r)\<in>set ps. point r = Some (wanted e))"
    using assms
  proof (induction es arbitrary: i rs ps)
    case (Cons e es)
    then obtain j r rs' qs where s: "seek (wanted e) i rs = Some (j, r, rs')"
      and q: "loose_pairs es (j + 1) rs' = Inr qs" and ps: "ps = (e, r) # qs"
      by (auto simp: wanted_def res_bind_Inr_iff Let_def split: option.splits)
    from s obtain skipped where "rs = skipped @ r # rs'" "point r = Some (wanted e)"
      by (auto simp: seek_Some)
    with Cons.IH [OF q] ps show ?case by (auto intro: list_emb_append2)
  qed simp
  then show "map fst ps = es" "subseq (map snd ps) rs" "\<forall>(e, r)\<in>set ps. point r = Some (wanted e)"
    by blast+
qed

section \<open>Each group of assertions\<close>

definition required_met :: "json \<Rightarrow> bool" where
  "required_met r \<longleftrightarrow>
     (\<exists>m. as_object r = Some m \<and> (\<forall>k\<in>set REQUIRED_FIELDS. contains_key m k) \<and> validate_envelope m = Inr ())"

lemma validate_required_Nil [assertions]: "validate_required r = [] \<longleftrightarrow> required_met r"
  by (auto simp: validate_required_def required_met_def Let_def filter_empty_conv res_ok_iff split: option.split)

definition path_met :: "json \<Rightarrow> string \<times> json \<Rightarrow> bool" where
  "path_met r p \<longleftrightarrow> (\<exists>got. lookup r (fst p) = Some got \<and> value_eq got (snd p))"

lemma predicate_failures_Nil [assertions]:
  "predicate_failures ip r preds = [] \<longleftrightarrow> (\<forall>p\<in>set preds. path_met r p)"
proof -
  have "(case p of (path, want) \<Rightarrow> (case lookup r path of
         None \<Rightarrow> [AtContext ip (NotResolved path)]
       | Some got \<Rightarrow> if value_eq got want then [] else [AtContext ip (Differs path got want)])) = []
      \<longleftrightarrow> path_met r p" for p
    by (cases p) (simp add: path_met_def split: option.split)
  then show ?thesis by (simp only: predicate_failures_def concat_map_Nil)
qed

text \<open>An expected entry against the context it is paired with.\<close>

definition entry_met :: "(json \<Rightarrow> string) \<Rightarrow> json \<Rightarrow> json \<Rightarrow> bool" where
  "entry_met jprint e r \<longleftrightarrow>
     (value_bool e ''context_must_validate'' \<noteq> Some False \<longrightarrow> required_met r)
     \<and> (\<forall>preds p. value_object e ''context'' = Some preds \<and> p \<in> set preds \<longrightarrow> path_met r p)
     \<and> (\<forall>n\<in>set (value_strings e ''context_must_contain''). sublist n (jprint r))
     \<and> (\<forall>n\<in>set (value_strings e ''context_must_not_contain''). \<not> sublist n (jprint r))"

lemma entry_failures_Nil [assertions]: "entry_failures jprint e r = [] \<longleftrightarrow> entry_met jprint e r"
proof -
  have "unwrap_or (value_bool e ''context_must_validate'') True \<longleftrightarrow>
      value_bool e ''context_must_validate'' \<noteq> Some False"
    by (cases "value_bool e ''context_must_validate''") auto
  then show ?thesis
    by (auto simp: entry_failures_def entry_met_def content_failures_def Let_def assertions
        contains_str_sublist filter_empty_conv split: option.split)
qed

definition expected_of :: "json \<Rightarrow> json list" where
  "expected_of expect = unwrap_or (as_array (value_index expect ''interceptions'')) []"

definition strict_of :: "json \<Rightarrow> bool" where
  "strict_of expect = unwrap_or (value_bool expect ''sequence_strict'') True"

definition interceptions_met :: "(json \<Rightarrow> string) \<Rightarrow> json \<Rightarrow> json list \<Rightarrow> bool" where
  "interceptions_met jprint expect recorded \<longleftrightarrow>
     (\<exists>pairs. pair_up (strict_of expect) (expected_of expect) recorded = Inr pairs
        \<and> (\<forall>(e, r)\<in>set pairs. entry_met jprint e r))
     \<and> (\<forall>n\<in>set (value_strings expect ''interceptions_absent''). n \<notin> set (points_of recorded))"

lemma assert_interceptions_Nil [assertions]:
  "assert_interceptions jprint expect recorded = [] \<longleftrightarrow> interceptions_met jprint expect recorded"
  by (auto simp: assert_interceptions_def interceptions_met_def expected_of_def strict_of_def Let_def
      assertions filter_empty_conv split: sum.split)

lemma remdups_adj_strict: "sorted xs \<Longrightarrow> sorted_wrt (<) (remdups_adj (xs::int list))"
  by (induction xs rule: remdups_adj.induct) auto

lemma sequence_strict: "xs = remdups_adj (sort xs) \<longleftrightarrow> sorted_wrt (<) (xs::int list)"
proof
  assume "xs = remdups_adj (sort xs)"
  then show "sorted_wrt (<) xs" using remdups_adj_strict [of "sort xs"] by simp
next
  assume "sorted_wrt (<) xs"
  then have "sorted xs" "distinct xs" by (simp_all add: strict_sorted_iff)
  then show "xs = remdups_adj (sort xs)" by (simp add: sorted_sort_id remdups_adj_distinct)
qed

text \<open>The recorded contexts carry strictly increasing sequence numbers.\<close>

definition sequence_met :: "json list \<Rightarrow> bool" where
  "sequence_met recorded \<longleftrightarrow>
     (\<exists>seq. map (\<lambda>c. value_i64 c ''sequence'') recorded = map Some seq \<and> sorted_wrt (<) seq)"

lemma map_filter_all:
  "length (List.map_filter f xs) = length xs \<longleftrightarrow> map f xs = map Some (List.map_filter f xs)"
proof (induction xs)
  case (Cons x xs)
  have "length (List.map_filter f xs) \<le> length xs"
    by (simp add: List.map_filter_def)
  with Cons show ?case by (cases "f x") (auto simp: List.map_filter_simps)
qed (simp add: List.map_filter_simps)

lemma assert_sequence_Nil [assertions]: "assert_sequence recorded = [] \<longleftrightarrow> sequence_met recorded"
proof -
  let ?f = "\<lambda>c. value_i64 c ''sequence''" and ?seq = "List.map_filter (\<lambda>c. value_i64 c ''sequence'') recorded"
  have "assert_sequence recorded = [] \<longleftrightarrow> sorted_wrt (<) ?seq \<and> length ?seq = length recorded"
    by (auto simp: assert_sequence_def Let_def sequence_strict [symmetric])
  also have "\<dots> \<longleftrightarrow> sequence_met recorded"
  proof
    assume "sorted_wrt (<) ?seq \<and> length ?seq = length recorded"
    then show "sequence_met recorded" unfolding sequence_met_def map_filter_all by blast
  next
    assume "sequence_met recorded"
    then obtain seq where s: "map ?f recorded = map Some seq" "sorted_wrt (<) seq"
      by (auto simp: sequence_met_def)
    have "List.map_filter ?f xs = seq" if "map ?f xs = map Some seq" for xs
      using that by (induction xs arbitrary: seq) (auto simp: List.map_filter_simps Cons_eq_map_conv)
    with s have "?seq = seq" by blast
    with s show "sorted_wrt (<) ?seq \<and> length ?seq = length recorded" by (metis length_map)
  qed
  finally show ?thesis .
qed

section \<open>The run, the records, loading\<close>

text \<open>The outcome the vector asks for under the postures the host declared.\<close>

definition outcome_of :: "json \<Rightarrow> run_record \<Rightarrow> string \<Rightarrow> bool" where
  "outcome_of expect rr want \<longleftrightarrow>
     (let base = unwrap_or (as_str (value_index expect ''run_outcome'')) [] in
      case value_get expect ''run_outcome_by_posture'' of
        None \<Rightarrow> want = base
      | Some by \<Rightarrow>
          \<exists>dflt. posture_default (unwrap_or (value_str by ''posture'') []) = Some dflt
            \<and> value_str (value_index by ''outcomes'') dflt = Some base
            \<and> value_str (value_index by ''outcomes'')
                (unwrap_or (map_of (rr_postures rr) (unwrap_or (value_str by ''posture'') [])) dflt) = Some want)"

lemma expected_outcome_Nil: "expected_outcome expect rr = (want, []) \<longleftrightarrow> outcome_of expect rr want"
  by (auto simp: expected_outcome_def outcome_of_def Let_def split: option.splits if_splits)

definition run_met :: "json \<Rightarrow> run_record \<Rightarrow> bool" where
  "run_met expect rr \<longleftrightarrow>
     outcome_of expect rr (rr_outcome rr)
     \<and> (\<forall>want. value_get expect ''final_output'' = Some want \<longrightarrow> value_eq (rr_final_output rr) want)
     \<and> (\<forall>want. value_array expect ''tool_invocations'' = Some want \<longrightarrow> values_eq (rr_tool_invocations rr) want)
     \<and> (\<forall>name\<in>set (value_strings expect ''tool_not_invoked'').
          \<forall>inv\<in>set (rr_tool_invocations rr). value_str inv ''name'' \<noteq> Some name)"

lemma assert_record_Nil [assertions]: "assert_record expect rr = [] \<longleftrightarrow> run_met expect rr"
proof -
  obtain want fs where o': "expected_outcome expect rr = (want, fs)" by (cases "expected_outcome expect rr")
  have "fs = [] \<and> rr_outcome rr = want \<longleftrightarrow> outcome_of expect rr (rr_outcome rr)"
    using expected_outcome_Nil [of expect rr "rr_outcome rr"] o' by auto
  moreover have "assert_record expect rr = [] \<longleftrightarrow> (fs = [] \<and> rr_outcome rr = want)
      \<and> (\<forall>want. value_get expect ''final_output'' = Some want \<longrightarrow> value_eq (rr_final_output rr) want)
      \<and> (\<forall>want. value_array expect ''tool_invocations'' = Some want \<longrightarrow> values_eq (rr_tool_invocations rr) want)
      \<and> (\<forall>name\<in>set (value_strings expect ''tool_not_invoked'').
          \<forall>inv\<in>set (rr_tool_invocations rr). value_str inv ''name'' \<noteq> Some name)"
    by (auto simp: assert_record_def o' filter_empty_conv list_ex_iff split: option.splits)
  ultimately show ?thesis by (simp only: run_met_def)
qed

definition record_met :: "json \<Rightarrow> json \<Rightarrow> bool" where
  "record_met e r \<longleftrightarrow>
     (\<forall>preds p. value_object e ''assert'' = Some preds \<and> p \<in> set preds \<longrightarrow> path_met r p)
     \<and> (\<forall>path\<in>set (value_strings e ''absent''). lookup r path = None)
     \<and> (\<forall>path\<in>set (value_strings e ''present''). lookup r path \<noteq> None)"

lemma record_failures_Nil [assertions]: "record_failures ri ip e r = [] \<longleftrightarrow> record_met e r"
proof -
  have p: "(case p of (path, want) \<Rightarrow> (case lookup r path of
         None \<Rightarrow> [AtRecord ri ip (NotResolved path)]
       | Some got \<Rightarrow> if value_eq got want then [] else [AtRecord ri ip (Differs path got want)])) = []
      \<longleftrightarrow> path_met r p" for p
    by (cases p) (simp add: path_met_def split: option.split)
  have a: "(case lookup r path of None \<Rightarrow> [] | Some got \<Rightarrow> [AtRecord ri ip (Present path got)]) = []
      \<longleftrightarrow> lookup r path = None" for path
    by (simp split: option.split)
  show ?thesis
    unfolding record_failures_def record_met_def append_is_Nil_conv concat_map_Nil a map_is_Nil_conv filter_empty_conv
    by (auto simp: concat_map_Nil p split: option.split)
qed

lemma match_records_Nil: "match_records es i rs = [] \<longleftrightarrow>
    (\<exists>ps. loose_pairs es i rs = Inr ps \<and> (\<forall>(e, r)\<in>set ps. record_met e r))"
proof (induction es arbitrary: i rs)
  case (Cons e es)
  show ?case
  proof (cases "seek (wanted e) i rs")
    case None
    then show ?thesis by (simp add: wanted_def)
  next
    case (Some t)
    obtain j r rs' where "t = (j, r, rs')" by (cases t)
    with Some have s: "seek (unwrap_or (point e) []) i rs = Some (j, r, rs')" by (simp add: wanted_def)
    have "match_records (e # es) i rs = [] \<longleftrightarrow> record_met e r \<and> match_records es (j + 1) rs' = []"
      by (simp add: s assertions Let_def)
    also have "\<dots> \<longleftrightarrow> (\<exists>ps. loose_pairs (e # es) i rs = Inr ps \<and> (\<forall>(e, r)\<in>set ps. record_met e r))"
      unfolding Cons.IH by (auto simp: s Let_def res_bind_Inr_iff)
    finally show ?thesis .
  qed
qed simp

definition records_met :: "json \<Rightarrow> run_record \<Rightarrow> bool" where
  "records_met expect rr \<longleftrightarrow>
     (\<forall>expected. value_array expect ''records'' = Some expected \<longrightarrow>
        rr_records rr \<noteq> []
        \<and> (\<exists>ps. loose_pairs expected 0 (rr_records rr) = Inr ps \<and> (\<forall>(e, r)\<in>set ps. record_met e r)))"

lemma assert_records_Nil [assertions]: "assert_records expect rr = [] \<longleftrightarrow> records_met expect rr"
  by (simp add: assert_records_def records_met_def match_records_Nil split: option.split)

definition messages_met :: "json \<Rightarrow> run_record \<Rightarrow> bool" where
  "messages_met expect rr \<longleftrightarrow>
     (\<forall>n\<in>set (value_strings expect ''host_messages_must_contain''). \<exists>m\<in>set (rr_host_messages rr). sublist n m)"

lemma assert_host_messages_Nil [assertions]: "assert_host_messages expect rr = [] \<longleftrightarrow> messages_met expect rr"
  by (simp add: assert_host_messages_def messages_met_def filter_empty_conv list_ex_iff contains_str_sublist)

definition identities_met :: "json \<Rightarrow> run_record \<Rightarrow> bool" where
  "identities_met expect rr \<longleftrightarrow>
     (\<forall>eq. value_bool expect ''identities_equal'' = Some eq \<longrightarrow>
        rr_identities rr \<noteq> [] \<and> eq = (\<forall>(i, e)\<in>set (rr_identities rr). i = e))"

lemma assert_identities_Nil [assertions]: "assert_identities expect rr = [] \<longleftrightarrow> identities_met expect rr"
  by (auto simp: assert_identities_def identities_met_def Let_def list_all_iff split: option.split)

text \<open>The declaration loaded as the vector says, and the run is then asserted.\<close>

definition load_met :: "json \<Rightarrow> run_record \<Rightarrow> bool" where
  "load_met expect rr \<longleftrightarrow>
     (case (rr_load rr, value_get expect ''load'') of
        (None, want) \<Rightarrow> want = None
      | (Some got, None) \<Rightarrow> ld_paths_equivalent got \<noteq> Some False \<and> ld_outcome got = ''accepted''
      | (Some got, Some want) \<Rightarrow>
          ld_paths_equivalent got \<noteq> Some False
          \<and> ld_outcome got = unwrap_or (as_str (value_index want ''outcome'')) ''accepted''
          \<and> (\<forall>c. value_str want ''class'' = Some c \<longrightarrow> ld_class got = Some c)
          \<and> (\<forall>pe. value_bool want ''paths_equivalent'' = Some pe \<longrightarrow> ld_paths_equivalent got = Some pe))"

text \<open>The vector asks for a refused declaration.\<close>

definition refusal_wanted :: "json \<Rightarrow> bool" where
  "refusal_wanted expect \<longleftrightarrow>
     (\<exists>want. value_get expect ''load'' = Some want \<and> as_str (value_index want ''outcome'') = Some ''refused'')"

lemma assert_load_Nil [assertions]:
  "assert_load expect recorded rr = (finished, []) \<longleftrightarrow>
     load_met expect rr \<and> finished = refusal_wanted expect
       \<and> (refusal_wanted expect \<longrightarrow> recorded = [] \<and> rr_records rr = [])"
proof -
  have d: "unwrap_or v ''accepted'' = ''refused'' \<longleftrightarrow> v = Some ''refused''" for v
    by (cases v) simp_all
  show ?thesis
    by (cases "rr_load rr"; cases "value_get expect ''load''")
       (auto simp: assert_load_def load_met_def refusal_wanted_def Let_def d split: option.split)
qed

section \<open>The assertion pass\<close>

definition vector_met :: "(json \<Rightarrow> string) \<Rightarrow> json \<Rightarrow> json list \<Rightarrow> run_record \<Rightarrow> bool" where
  "vector_met jprint expect recorded rr \<longleftrightarrow>
     load_met expect rr
     \<and> (if refusal_wanted expect then recorded = [] \<and> rr_records rr = []
        else interceptions_met jprint expect recorded \<and> run_met expect rr \<and> records_met expect rr
          \<and> messages_met expect rr \<and> sequence_met recorded \<and> identities_met expect rr)"

definition passes :: "vector_result \<Rightarrow> bool" where
  "passes r \<longleftrightarrow> vr_status r = ''pass''"

lemma vector_result_passes: "passes (vector_result v fs) \<longleftrightarrow> fs = []"
  by (simp add: passes_def vector_result_def)

lemma assert_vector_met:
  "passes (assert_vector jprint vector recorded rr) \<longleftrightarrow> vector_met jprint (value_index vector ''expect'') recorded rr"
proof -
  let ?e = "value_index vector ''expect''"
  obtain finished fs where l: "assert_load ?e recorded rr = (finished, fs)" by (cases "assert_load ?e recorded rr")
  let ?rest = "interceptions_met jprint ?e recorded \<and> run_met ?e rr \<and> records_met ?e rr
      \<and> messages_met ?e rr \<and> sequence_met recorded \<and> identities_met ?e rr"
  have p: "passes (assert_vector jprint vector recorded rr) \<longleftrightarrow> fs = [] \<and> (finished \<or> ?rest)"
    by (simp add: assert_vector_def Let_def l vector_result_passes assertions)
  show ?thesis
  proof (cases "fs = []")
    case True
    with assert_load_Nil [of ?e recorded rr finished] l have "load_met ?e rr" "finished = refusal_wanted ?e"
      "refusal_wanted ?e \<longrightarrow> recorded = [] \<and> rr_records rr = []" by simp_all
    with p True show ?thesis by (simp add: vector_met_def)
  next
    case False
    with assert_load_Nil [of ?e recorded rr "refusal_wanted ?e"] l
    have "\<not> (load_met ?e rr \<and> (refusal_wanted ?e \<longrightarrow> recorded = [] \<and> rr_records rr = []))" by simp
    with p False show ?thesis by (auto simp: vector_met_def)
  qed
qed

text \<open>Strict mode, seen through the points alone.\<close>

lemma pair_up_strict:
  "pair_up True es rs = Inr ps \<longleftrightarrow> points_of rs = points_of es \<and> ps = zip es rs"
  by (auto simp: pair_up_def)

lemma points_of_append: "points_of (xs @ ys) = points_of xs @ points_of ys"
  by (simp add: points_of_def List.map_filter_def)

lemma points_of_pointless: "(\<forall>x\<in>set xs. point x = None) \<Longrightarrow> points_of xs = []"
  by (induction xs) (simp_all add: points_of_def List.map_filter_simps)

lemma points_of_length: "\<forall>x\<in>set xs. point x \<noteq> None \<Longrightarrow> length (points_of xs) = length xs"
  by (induction xs) (auto simp: points_of_def List.map_filter_simps split: option.split)

lemma points_of_map: "\<forall>x\<in>set xs. point x \<noteq> None \<Longrightarrow> map point xs = map Some (points_of xs)"
  by (induction xs) (auto simp: points_of_def List.map_filter_simps split: option.split)

lemma points_of_le: "length (points_of xs) \<le> length xs"
  by (simp add: points_of_def List.map_filter_def)

end
