(* ===== verification/Ctk_Properties.thy ===== *)
theory Ctk_Properties
  imports Ctk_Laws
begin

text \<open>
  The properties of the conformance engine (\<open>ctk_engine.rs\<close>), each with a concrete vector.
\<close>

section \<open>Paths\<close>

text \<open>
  C30: The byte loop of \<open>lookup\<close> always stops, on every path, malformed ones included, and what it
  returns is what the path denotes: the tokens between dots and brackets are read as members, the bracketed
  numbers as indices, from left to right, and anything that does not resolve gives \<open>None\<close>.
\<close>

theorem lookup_returns:
  "\<exists>t. lookup_loop root dotted = Some t \<and> \<not> lookup_running dotted t \<and> lk_cur t = walk root [] dotted"
proof -
  let ?s0 = "\<lparr>lk_cur = Some root, lk_i = 0, lk_start = 0\<rparr>"
  obtain t where t: "lookup_loop root dotted = Some t"
    using lookup_terminates [of dotted ?s0] by (auto simp: lookup_loop_def)
  then have "\<not> lookup_running dotted t" unfolding lookup_loop_def by (rule while_option_stop)
  with t lookup_walk [of root dotted] show ?thesis by (auto simp: lookup_def)
qed

text \<open>
  A path written from steps is followed step by step. For members with no dot or bracket in their
  name and indices below \<open>2^64\<close>, the text with dots between members and brackets around indices is
  looked up as the sequence of these accesses.
\<close>

theorem written_path_followed:
  assumes "list_all step_ok steps"
  shows "lookup root (path_text steps) = follow root steps"
  using assms by (rule lookup_path)

theorem written_path_followed_witness:
  "lookup (JObj [(''a'', JArr [JNull, JObj [(''b'', JBool True)]])]) ''a[1].b'' = Some (JBool True)"
proof -
  have "dec 1 = ''1''" by code_simp
  then have "path_text [Key ''a'', At 1, Key ''b''] = ''a[1].b''" by simp
  with written_path_followed [of "[Key ''a'', At 1, Key ''b'']"
      "JObj [(''a'', JArr [JNull, JObj [(''b'', JBool True)]])]"]
  show ?thesis by (simp add: value_get_def value_at_def)
qed

section \<open>Pairing\<close>

text \<open>
  C31: The forward scan of the loose mode is complete. It pairs every expected entry with a recorded
  context exactly when the expected points are a subsequence of the recorded ones; the pairs then keep the
  expected entries in order, take the contexts from left to right, and agree on the point.
\<close>

theorem loose_scan_exact:
  "((\<exists>ps. pair_up False es rs = Inr ps) \<longleftrightarrow> subseq (map (\<lambda>e. Some (wanted e)) es) (map point rs))
   \<and> (\<forall>ps. pair_up False es rs = Inr ps \<longrightarrow>
        map fst ps = es \<and> subseq (map snd ps) rs \<and> list_all (\<lambda>(e, r). point r = Some (wanted e)) ps)"
proof (rule conjI)
  show "(\<exists>ps. pair_up False es rs = Inr ps) \<longleftrightarrow> subseq (map (\<lambda>e. Some (wanted e)) es) (map point rs)"
    using loose_pairs_iff [of es 0 rs] by (simp add: pair_up_def res_ok_iff)
  show "\<forall>ps. pair_up False es rs = Inr ps \<longrightarrow>
     map fst ps = es \<and> subseq (map snd ps) rs \<and> list_all (\<lambda>(e, r). point r = Some (wanted e)) ps"
    using loose_pairs_Inr [of es 0 rs] by (simp add: pair_up_def list_all_iff)
qed

definition at_point :: "string \<Rightarrow> json" where
  "at_point p = JObj [(''interception_point'', JStr p)]"

lemma at_point [simp]: "point (at_point p) = Some p" "wanted (at_point p) = p"
  by (simp_all add: at_point_def value_str_def value_get_def IP_def wanted_def)

theorem loose_scan_exact_witness:
  "\<exists>ps. pair_up False [at_point ''output''] [at_point ''input'', at_point ''output''] = Inr ps
     \<and> map fst ps = [at_point ''output'']"
  using loose_scan_exact [of "[at_point ''output'']" "[at_point ''input'', at_point ''output'']"] by auto

section \<open>The verdict on a vector\<close>


text \<open>
  No vector that demands a refusal passes over a run. When it passes, the loader reported a refusal
  with the demanded class, no construction path diverged, and neither a context nor a record exists.
\<close>

theorem passing_refusal_ran_nothing:
  assumes "passes (assert_vector jprint vector recorded rr)"
    and "refusal_wanted (value_index vector ''expect'')"
  shows "recorded = []" "rr_records rr = []"
    and "\<exists>got. rr_load rr = Some got \<and> ld_outcome got = ''refused'' \<and> ld_paths_equivalent got \<noteq> Some False
      \<and> (\<forall>want c. value_get (value_index vector ''expect'') ''load'' = Some want
            \<and> value_str want ''class'' = Some c \<longrightarrow> ld_class got = Some c)"
proof -
  from assms have m: "load_met (value_index vector ''expect'') rr" and "recorded = []" "rr_records rr = []"
    by (simp_all add: assert_vector_met vector_met_def)
  then show "recorded = []" "rr_records rr = []" by simp_all
  from assms(2) m show "\<exists>got. rr_load rr = Some got \<and> ld_outcome got = ''refused''
      \<and> ld_paths_equivalent got \<noteq> Some False
      \<and> (\<forall>want c. value_get (value_index vector ''expect'') ''load'' = Some want
            \<and> value_str want ''class'' = Some c \<longrightarrow> ld_class got = Some c)"
    by (cases "rr_load rr") (auto simp: refusal_wanted_def load_met_def)
qed

definition idle_run :: run_record where
  "idle_run = \<lparr>rr_outcome = ''error'', rr_final_output = JNull, rr_tool_invocations = [], rr_error = None,
     rr_identities = [], rr_records = [], rr_postures = [],
     rr_load = Some \<lparr>ld_outcome = ''refused'', ld_class = Some ''c'', ld_paths_equivalent = Some True, ld_detail = None\<rparr>,
     rr_host_messages = []\<rparr>"

definition refusal_vector :: json where
  "refusal_vector = JObj [(''expect'', JObj [(''load'', JObj [(''class'', JStr ''c''), (''outcome'', JStr ''refused'')])])]"

lemmas value_simps = value_index_def value_get_def value_str_def value_bool_def value_array_def
  value_object_def value_strings_def

theorem passing_refusal_ran_nothing_witness:
  "passes (assert_vector (\<lambda>_. []) refusal_vector [] idle_run) \<and> rr_records idle_run = []"
proof -
  have e: "value_index refusal_vector ''expect'' =
      JObj [(''load'', JObj [(''class'', JStr ''c''), (''outcome'', JStr ''refused'')])]"
    by (simp add: refusal_vector_def value_simps)
  have w: "refusal_wanted (value_index refusal_vector ''expect'')"
    unfolding e by (simp add: refusal_wanted_def value_simps)
  have "load_met (value_index refusal_vector ''expect'') idle_run"
    unfolding e by (simp add: load_met_def idle_run_def value_simps)
  with w have p: "passes (assert_vector (\<lambda>_. []) refusal_vector [] idle_run)"
    by (simp add: assert_vector_met vector_met_def idle_run_def)
  with passing_refusal_ran_nothing(2) [OF p w] show ?thesis by simp
qed

text \<open>
  C32: In strict mode a passing run is the expected one. When every expected entry and every recorded
  context names its point, the recorded points are the expected ones in order, each context meets the
  assertions of the entry at its place, and the sequence numbers rise strictly.
\<close>

theorem strict_pass_is_expected_run:
  assumes "passes (assert_vector jprint vector recorded rr)"
    and "\<not> refusal_wanted (value_index vector ''expect'')" "strict_of (value_index vector ''expect'')"
    and "\<forall>e\<in>set (expected_of (value_index vector ''expect'')). point e \<noteq> None"
    and "\<forall>r\<in>set recorded. point r \<noteq> None"
  shows "map point recorded = map point (expected_of (value_index vector ''expect''))
    \<and> list_all2 (entry_met jprint) (expected_of (value_index vector ''expect'')) recorded
    \<and> sequence_met recorded"
proof (intro conjI)
  let ?es = "expected_of (value_index vector ''expect'')"
  from assms(1,2) have i: "interceptions_met jprint (value_index vector ''expect'') recorded"
    and "sequence_met recorded"
    by (simp_all add: assert_vector_met vector_met_def)
  then show "sequence_met recorded" by simp
  from i assms(3) have p: "points_of recorded = points_of ?es"
    and m: "\<forall>(e, r)\<in>set (zip ?es recorded). entry_met jprint e r"
    by (auto simp: interceptions_met_def pair_up_strict)
  have "length recorded = length ?es"
    using p points_of_length [OF assms(4)] points_of_length [OF assms(5)] by simp
  with m show "list_all2 (entry_met jprint) ?es recorded"
    by (auto simp: list_all2_iff)
  show "map point recorded = map point ?es"
    using p by (simp only: points_of_map [OF assms(4)] points_of_map [OF assms(5)])
qed

text \<open>
  The strict mode does not see a context without an interception point. If a run passes a strict
  vector, the same run with one more context passes too, whatever that context holds, as long as it names no
  point and carries a higher sequence number: it is left out of the compared sequence and paired with nothing,
  so it is never validated.
\<close>

theorem pointless_context_passes:
  assumes "passes (assert_vector jprint vector recorded rr)"
    and "\<not> refusal_wanted (value_index vector ''expect'')" "strict_of (value_index vector ''expect'')"
    and "\<forall>e\<in>set (expected_of (value_index vector ''expect'')). point e \<noteq> None"
    and "point extra = None" "value_i64 extra ''sequence'' = Some n"
    and "\<forall>c\<in>set recorded. \<exists>m<n. value_i64 c ''sequence'' = Some m"
  shows "passes (assert_vector jprint vector (recorded @ [extra]) rr)"
proof -
  let ?expect = "value_index vector ''expect''" and ?f = "\<lambda>c. value_i64 c ''sequence''"
  let ?es = "expected_of ?expect"
  from assms(1,2) have v: "vector_met jprint ?expect recorded rr"
    and i: "interceptions_met jprint ?expect recorded" and s: "sequence_met recorded"
    by (simp_all add: assert_vector_met vector_met_def)
  from i assms(3) have p: "points_of recorded = points_of ?es" by (auto simp: interceptions_met_def pair_up_strict)
  have q: "points_of (recorded @ [extra]) = points_of recorded"
    using assms(5) by (simp add: points_of_append points_of_pointless)
  have "length ?es \<le> length recorded"
    using points_of_length [OF assms(4)] points_of_le [of recorded] p by simp
  then have "zip ?es (recorded @ [extra]) = zip ?es recorded" by (simp add: zip_append2)
  with i assms(3) p q have "interceptions_met jprint ?expect (recorded @ [extra])"
    by (simp add: interceptions_met_def pair_up_strict)
  moreover have "sequence_met (recorded @ [extra])"
  proof -
    obtain seq where seq: "map ?f recorded = map Some seq" "sorted_wrt (<) seq" using s by (auto simp: sequence_met_def)
    have "\<forall>m\<in>set seq. m < n"
    proof
      fix m assume "m \<in> set seq"
      then have "Some m \<in> set (map ?f recorded)" by (simp add: seq(1))
      with assms(7) show "m < n" by auto
    qed
    with seq assms(6) have "map ?f (recorded @ [extra]) = map Some (seq @ [n])" "sorted_wrt (<) (seq @ [n])"
      by (simp_all add: sorted_wrt_append)
    then show ?thesis unfolding sequence_met_def by blast
  qed
  ultimately show ?thesis using v assms(2) by (simp add: assert_vector_met vector_met_def)
qed

definition silent_run :: run_record where
  "silent_run = idle_run\<lparr>rr_outcome := ''completed'', rr_load := None\<rparr>"

definition silent_vector :: json where
  "silent_vector = JObj [(''expect'', JObj [(''run_outcome'', JStr ''completed'')])]"

theorem pointless_context_passes_witness:
  "passes (assert_vector (\<lambda>_. []) silent_vector [JObj [(''sequence'', JNum (PosInt 1))]] silent_run)"
proof -
  let ?e = "JObj [(''run_outcome'', JStr ''completed'')]"
  have e: "value_index silent_vector ''expect'' = ?e"
    by (simp add: silent_vector_def value_simps)
  have x: "expected_of ?e = []" "strict_of ?e" "\<not> refusal_wanted ?e"
    by (simp_all add: expected_of_def strict_of_def refusal_wanted_def value_simps)
  have "load_met ?e silent_run" "run_met ?e silent_run" "records_met ?e silent_run" "messages_met ?e silent_run"
    "identities_met ?e silent_run" "sequence_met []"
    by (simp_all add: load_met_def run_met_def outcome_of_def records_met_def messages_met_def identities_met_def
        sequence_met_def silent_run_def idle_run_def value_simps)
  moreover have "interceptions_met (\<lambda>_. []) ?e []"
    using x by (simp add: interceptions_met_def pair_up_strict value_simps)
  ultimately have p: "passes (assert_vector (\<lambda>_. []) silent_vector [] silent_run)"
    using x by (simp add: assert_vector_met vector_met_def e)
  have "passes (assert_vector (\<lambda>_. []) silent_vector ([] @ [JObj [(''sequence'', JNum (PosInt 1))]]) silent_run)"
    by (rule pointless_context_passes [OF p, where n = 1])
       (simp_all only: e x, simp_all add: value_i64_def value_str_def value_get_def IP_def)
  then show ?thesis by simp
qed

definition strict_vector :: json where
  "strict_vector = JObj [(''expect'', JObj
     [(''interceptions'', JArr [JObj [(''context_must_validate'', JBool False), (''interception_point'', JStr ''input'')]]),
      (''run_outcome'', JStr ''completed'')])]"

theorem strict_pass_is_expected_run_witness:
  "passes (assert_vector (\<lambda>_. []) strict_vector
     [JObj [(''interception_point'', JStr ''input''), (''sequence'', JNum (PosInt 1))]] silent_run)
   \<and> sequence_met [JObj [(''interception_point'', JStr ''input''), (''sequence'', JNum (PosInt 1))]]"
proof -
  let ?x = "JObj [(''context_must_validate'', JBool False), (''interception_point'', JStr ''input'')]"
  let ?e = "JObj [(''interceptions'', JArr [?x]), (''run_outcome'', JStr ''completed'')]"
  let ?r = "JObj [(''interception_point'', JStr ''input''), (''sequence'', JNum (PosInt 1))]"
  have e: "value_index strict_vector ''expect'' = ?e"
    by (simp add: strict_vector_def value_simps)
  have x: "expected_of ?e = [?x]" "strict_of ?e" "\<not> refusal_wanted ?e"
    by (simp_all add: expected_of_def strict_of_def refusal_wanted_def value_simps)
  have "load_met ?e silent_run" "run_met ?e silent_run" "records_met ?e silent_run" "messages_met ?e silent_run"
    "identities_met ?e silent_run"
    by (simp_all add: load_met_def run_met_def outcome_of_def records_met_def messages_met_def identities_met_def
        silent_run_def idle_run_def value_simps)
  moreover have "sequence_met [?r]"
    by (auto simp: sequence_met_def value_i64_def value_simps intro: exI [of _ "[1]"])
  moreover have "interceptions_met (\<lambda>_. []) ?e [?r]"
    using x by (simp add: interceptions_met_def pair_up_strict value_simps points_of_def List.map_filter_simps
        entry_met_def IP_def)
  ultimately have p: "passes (assert_vector (\<lambda>_. []) strict_vector [?r] silent_run)"
    using x by (simp add: assert_vector_met vector_met_def e)
  have "sequence_met [?r]"
    by (rule strict_pass_is_expected_run [OF p, THEN conjunct2, THEN conjunct2]) (simp_all only: e x, simp_all add: value_str_def value_get_def IP_def)
  with p show ?thesis by simp
qed

end
