(* ===== verification/Ctk_Scripts.thy ===== *)
theory Ctk_Scripts
  imports Ctk_Engine Verdict_Wire Decl_Registry
begin

text \<open>
  \<open>ctk.rs\<close>, the scripted host code of a conformance vector: the interceptors and the
  approval resolver that replay its rules, the redactor, and the registry a declaration vector
  references. What a scripted interceptor records is the list of its calls, so it is read from
  the log of an emission and not stored. A panic inside a call is \<open>None\<close>.
\<close>

section \<open>The scripted interceptor\<close>

definition invalid_verdict :: verdict where
  "invalid_verdict = allow\<lparr>v_decision := Transform\<rparr>"

datatype scripted = SVerdict verdict | SRaise | SHang | SCancel

text \<open>The allow the in-place mutation fault answers.\<close>

definition mutated_json :: json where
  "mutated_json = JObj [(''decision'', JStr ''allow''), (''reason'', JStr ''ctk:mutated'')]"

definition fault_of :: "json \<Rightarrow> string option" where
  "fault_of wire = value_str wire ''__ctk_fault__''"

definition evaluate :: "externs \<Rightarrow> json list \<Rightarrow> object \<Rightarrow> scripted option" where
  "evaluate x rules ctx =
     (let wire = scripted_intercept rules (JObj ctx) in
      case spec_of_context ctx of
        None \<Rightarrow> None
      | Some spec \<Rightarrow>
          (case fault_of wire of
             Some f \<Rightarrow>
               if f = ''mutate'' then
                 (case verdict_from_wire (ext_f64 x) spec mutated_json of Inl _ \<Rightarrow> None | Inr v \<Rightarrow> Some (SVerdict v))
               else if f = ''raise'' then Some SRaise
               else if f = ''hang'' then Some SHang
               else if f = ''cancel'' then Some SCancel
               else Some (SVerdict invalid_verdict)
           | None \<Rightarrow>
               Some (SVerdict (case verdict_from_wire (ext_f64 x) spec wire of Inl _ \<Rightarrow> invalid_verdict | Inr v \<Rightarrow> v))))"

text \<open>Milliseconds. A call that sleeps the grace overruns exactly a smaller bound.\<close>

definition HANG_GRACE :: nat where
  "HANG_GRACE = 10000"

definition scripted_interceptor :: "externs \<Rightarrow> json list \<Rightarrow> std_interceptor" where
  "scripted_interceptor x rules =
     \<lparr>run = (\<lambda>_ ctx. case evaluate x rules ctx of
         None \<Rightarrow> None
       | Some (SVerdict v) \<Rightarrow> Some v
       | Some SRaise \<Rightarrow> None
       | Some SHang \<Rightarrow> Some allow
       | Some SCancel \<Rightarrow> Some invalid_verdict),
      overruns = (\<lambda>_ ctx d. evaluate x rules ctx = Some SHang \<and> d < HANG_GRACE)\<rparr>"

definition scripted_managed :: "externs \<Rightarrow> json list \<Rightarrow> managed_interceptor" where
  "scripted_managed x rules = (\<lambda>_ ctx d. case evaluate x rules ctx of
       None \<Rightarrow> None
     | Some (SVerdict v) \<Rightarrow> Some (MVerdict v)
     | Some SRaise \<Rightarrow> None
     | Some SHang \<Rightarrow> Some (if opt_holds (\<lambda>d. d < HANG_GRACE) d then MTimeout else MVerdict allow)
     | Some SCancel \<Rightarrow> Some MCancelled)"

section \<open>The scripted resolver\<close>

definition approval_outcome_of :: "json \<Rightarrow> approval_outcome" where
  "approval_outcome_of out =
     (let o' = value_str out ''outcome'' in
      if o' = Some ''approve'' then Approve else if o' = Some ''reject'' then Reject else Unresolved)"

definition scripted_answer :: "externs \<Rightarrow> json list \<Rightarrow> approval_request \<Rightarrow> approval_resolution option" where
  "scripted_answer x rules q =
     (let out = scripted_resolve x rules (JObj (q_context q)) (unwrap_or (q_context_identity q) []) in
      if value_get out ''__ctk_fault__'' \<noteq> None then
        Some \<lparr>a_outcome = Approve, a_context_identity = q_context_identity q, a_verdict = Some invalid_verdict\<rparr>
      else
        case spec_of_context (q_context q) of
          None \<Rightarrow> None
        | Some spec \<Rightarrow>
            (let echoed = unwrap_or (value_str out ''context_identity'') [];
                 identity = (if echoed = [] \<and> q_context_identity q = None then None else Some echoed)
             in case value_get out ''verdict'' of
                  None \<Rightarrow> Some \<lparr>a_outcome = approval_outcome_of out, a_context_identity = identity, a_verdict = None\<rparr>
                | Some v \<Rightarrow>
                    (case verdict_from_wire (ext_f64 x) spec v of
                       Inl _ \<Rightarrow> None
                     | Inr rv \<Rightarrow>
                         Some \<lparr>a_outcome = approval_outcome_of out, a_context_identity = identity,
                               a_verdict = Some rv\<rparr>)))"

definition scripted_resolver :: "externs \<Rightarrow> json list \<Rightarrow> resolver" where
  "scripted_resolver x rules =
     \<lparr>resolve_call = (\<lambda>_ q. scripted_answer x rules q), resolver_overruns = (\<lambda>_ _ _. False)\<rparr>"

section \<open>The scripts of a vector\<close>

record scripts =
  sc_scripts :: "json list list"
  sc_approval :: "json list"
  sc_redact :: "string list"

definition scripts_of :: "json \<Rightarrow> scripts" where
  "scripts_of vector =
     \<lparr>sc_scripts =
        (case value_array vector ''interceptor_scripts'' of
           Some ls \<Rightarrow> map (\<lambda>l. unwrap_or (as_array l) []) ls
         | None \<Rightarrow> [unwrap_or (as_array (value_index vector ''interceptor_script'')) []]),
      sc_approval = unwrap_or (value_array vector ''approval_script'') [],
      sc_redact = value_strings vector ''redact_for_approval''\<rparr>"

definition interceptor_at :: "externs \<Rightarrow> scripts \<Rightarrow> nat \<Rightarrow> std_interceptor option" where
  "interceptor_at x sc i =
     (if i < length (sc_scripts sc) then Some (scripted_interceptor x (sc_scripts sc ! i)) else None)"

definition interceptors_of :: "externs \<Rightarrow> scripts \<Rightarrow> std_interceptor list" where
  "interceptors_of x sc = List.map_filter (interceptor_at x sc) [0..<length (sc_scripts sc)]"

definition resolver_of :: "externs \<Rightarrow> scripts \<Rightarrow> resolver option" where
  "resolver_of x sc = (if sc_approval sc \<noteq> [] then Some (scripted_resolver x (sc_approval sc)) else None)"

text \<open>A path that does not resolve is left alone.\<close>

definition redact_step :: "string \<Rightarrow> object \<Rightarrow> object" where
  "redact_step path c =
     (case apply_transform_to_ctx c \<lparr>t_path = path, t_value = JStr ''[redacted]''\<rparr> of Inl _ \<Rightarrow> c | Inr c' \<Rightarrow> c')"

definition redact_paths :: "object \<Rightarrow> string list \<Rightarrow> object" where
  "redact_paths ctx paths = fold redact_step paths ctx"

section \<open>The registry of a declaration vector\<close>

text \<open>The script a binding's configuration selects.\<close>

definition select_script :: "scripts \<Rightarrow> json \<Rightarrow> binding_context \<Rightarrow> string + json list" where
  "select_script sc config c =
     (case Option.bind (value_get config ''script'') as_u64 of
        None \<Rightarrow> Inl ''config.script must be an unsigned integer index''
      | Some i \<Rightarrow>
          if i < length (sc_scripts sc) then Inr (sc_scripts sc ! i)
          else Inl (''config.script '' @ dec i @ '' is out of range for binding '' @ bc_id c))"

text \<open>\<open>expect\<close> on a registration: the panic is \<open>Inl\<close>.\<close>

definition scripts_registry :: "externs \<Rightarrow> scripts \<Rightarrow> host_surface \<Rightarrow> registry_error + host_registry" where
  "scripts_registry x sc surface =
     res_bind (register_kind ''ctk.scripted''
       (\<lambda>_ config c. Some (map_sum id (scripted_interceptor x) (select_script sc config c)))
       (for_conformance surface)) (\<lambda>r1.
     res_bind (register_managed_kind ''ctk.managed''
       (\<lambda>_ config c. Some (map_sum id (scripted_managed x) (select_script sc config c))) r1) (\<lambda>r2.
     res_bind (register_identity_provider ''ctk-fault'' (\<lambda>_. None) r2) (\<lambda>r3.
     res_bind (register_approval_resolver ''ctk-scripted'' (scripted_resolver x (sc_approval sc)) r3) (\<lambda>r4.
       register_approval_redactor ''ctk-redact'' (\<lambda>ctx. Some (redact_paths ctx (sc_redact sc))) r4))))"

end
