(* ===== verification/Record_Wire.thy ===== *)
theory Record_Wire
  imports Decl_Builder Verdict_Wire Emission
begin

text \<open>
  \<open>types.rs\<close>, the wire form of an interception record, as its derived \<open>Serialize\<close>
  writes it through \<open>serde_json::to_value\<close>: an absent optional member is left out or written
  as null, as the field's attribute says.
\<close>

definition u32_json :: "nat \<Rightarrow> json" where
  "u32_json n = JNum (PosInt (of_nat n))"

definition put_when :: "bool \<Rightarrow> string \<Rightarrow> json \<Rightarrow> object \<Rightarrow> object" where
  "put_when c k v m = (if c then obj_insert k v m else m)"

definition trace_json :: "trace_context \<Rightarrow> json" where
  "trace_json t = JObj (put_str ''span_id'' (span_id t) (put_str ''trace_id'' (trace_id t) []))"

definition summary_json :: "verdict_summary \<Rightarrow> json" where
  "summary_json s =
     JObj (put_str ''substituted_for'' (s_substituted_for s)
          (put_str ''name'' (s_name s)
          (put_str ''reason'' (s_reason s)
          (obj_insert ''decision'' (JStr (decision_str (s_decision s)))
          (obj_insert ''index'' (u32_json (s_index s)) [])))))"

text \<open>The members every record has, and those it has only with a value.\<close>

definition record_core :: "interception_record \<Rightarrow> object" where
  "record_core r =
     obj_insert ''interceptors_registered'' (u32_json (r_registered r))
    (obj_insert ''composition'' (JObj (composition_object (r_composition r)))
    (obj_insert ''decided_by'' (case r_decided_by r of None \<Rightarrow> JNull | Some i \<Rightarrow> u32_json i)
    (obj_insert ''sequence'' (JNum (i64_number (r_sequence r)))
    (obj_insert ''session_id'' (JStr (r_session_id r))
    (obj_insert ''identity_provider'' (nullable_str (r_identity_provider r))
    (obj_insert ''enforced_identity'' (nullable_str (r_enforced_identity r))
    (obj_insert ''input_identity'' (nullable_str (r_input_identity r))
    (obj_insert ''verdict'' (verdict_json (r_verdict r))
    (obj_insert ''mode'' (JStr (mode_wire (r_mode r)))
    (obj_insert ''interception_point'' (JStr (point_str (r_point r))) []))))))))))"

definition record_object :: "interception_record \<Rightarrow> object" where
  "record_object r =
     put_str ''resolved_by'' (r_resolved_by r)
    (put_opt ''fold_truncated'' (map_option JBool (r_fold_truncated r))
    (put_when (r_verdicts r \<noteq> []) ''verdicts'' (JArr (map summary_json (r_verdicts r)))
    (put_str ''declaration'' (r_declaration r)
    (put_opt ''trace'' (map_option trace_json (r_trace r))
    (put_str ''timestamp'' (r_timestamp r) (record_core r))))))"

definition record_json :: "interception_record \<Rightarrow> json" where
  "record_json r = JObj (record_object r)"

text \<open>Each member, read back.\<close>

lemma put_str_read: "obj_get (put_str k v m) k' = (if k' = k \<and> v \<noteq> None then map_option JStr v else obj_get m k')"
  by (simp add: put_str_def split: option.split)

lemma put_when_read: "obj_get (put_when c k v m) k' = (if k' = k \<and> c then Some v else obj_get m k')"
  by (simp add: put_when_def)

lemma record_members:
  "obj_get (record_object r) ''interception_point'' = Some (JStr (point_str (r_point r)))"
  "obj_get (record_object r) ''mode'' = Some (JStr (mode_wire (r_mode r)))"
  "obj_get (record_object r) ''verdict'' = Some (verdict_json (r_verdict r))"
  "obj_get (record_object r) ''sequence'' = Some (JNum (i64_number (r_sequence r)))"
  "obj_get (record_object r) ''input_identity'' = Some (nullable_str (r_input_identity r))"
  "obj_get (record_object r) ''enforced_identity'' = Some (nullable_str (r_enforced_identity r))"
  "obj_get (record_object r) ''resolved_by'' = map_option JStr (r_resolved_by r)"
  "obj_get (record_object r) ''fold_truncated'' = map_option JBool (r_fold_truncated r)"
  "obj_get (record_object r) ''declaration'' = map_option JStr (r_declaration r)"
  by (simp_all add: record_object_def record_core_def put_str_read put_when_read)

end
