(* ===== verification/Ctk_Reference.thy ===== *)
theory Ctk_Reference
  imports Ctk_Scripts Record_Wire Builder Dispatch_Order
begin

text \<open>
  \<open>ctk.rs\<close>, the reference harness: the in-memory agent loop over one emitter and one context
  builder. \<open>clock\<close> is the builder's timestamp provider, asked once for each context. A call of
  the agent ends in a panic (\<open>None\<close>), in a block, or in its value. What the principal was told is
  read from the notifications in the log. \<open>rf_emissions\<close> is a history variable: each emission of the
  session with the context it handed back.
\<close>

section \<open>The session\<close>

record reference =
  rf_emitter :: emitter
  rf_builder :: builder
  rf_tool_log :: "json list"
  rf_log :: "event list"
  rf_emissions :: "(interception_record \<times> object) list"

definition start_session :: "nat \<Rightarrow> emitter \<Rightarrow> reference" where
  "start_session counter em =
     \<lparr>rf_emitter = em,
      rf_builder = new_builder (e_spec em) ''ref-agent'' ''reference-agent'' (''sess-'' @ dec counter),
      rf_tool_log = [], rf_log = [], rf_emissions = []\<rparr>"

text \<open>One context built and emitted.\<close>

definition emit_built ::
  "externs \<Rightarrow> (64 word \<Rightarrow> string) \<Rightarrow> (string \<Rightarrow> builder \<Rightarrow> object \<times> builder) \<Rightarrow> reference
     \<Rightarrow> (interception_record + object) \<times> reference" where
  "emit_built x clock build rf =
     (let (ctx, b) = build (clock (bl_seq (rf_builder rf))) (rf_builder rf);
          (res, em, ctx', log) = emit x (rf_emitter rf) ctx (rf_log rf);
          rec = (case res of Inl rec \<Rightarrow> rec | Inr eo \<Rightarrow> eo_record eo)
      in (case res of Inl rec \<Rightarrow> Inl rec | Inr _ \<Rightarrow> Inr ctx',
          rf\<lparr>rf_emitter := em, rf_builder := b, rf_log := log,
             rf_emissions := rf_emissions rf @ [(rec, ctx')]\<rparr>))"

section \<open>Tools\<close>

definition list_of :: "json \<Rightarrow> json list" where
  "list_of v = unwrap_or (as_array v) []"

definition behaves :: "json \<Rightarrow> json \<Rightarrow> bool" where
  "behaves args behavior =
     (case value_get behavior ''when_args'' of None \<Rightarrow> True | Some w \<Rightarrow> value_eq w args)"

definition invoke_tool :: "json \<Rightarrow> string \<Rightarrow> json \<Rightarrow> (json \<times> bool) option" where
  "invoke_tool scenario name args =
     Option.bind (find (\<lambda>t. as_str (value_index t ''name'') = Some name) (list_of (value_index scenario ''tools'')))
       (\<lambda>spec. map_option (\<lambda>b. (value_index b ''return'', unwrap_or (value_bool b ''is_error'') False))
          (find (behaves args) (list_of (value_index spec ''behavior''))))"

definition tool_entry :: "string \<Rightarrow> json \<Rightarrow> json" where
  "tool_entry name args = JObj [(''args'', args), (''name'', JStr name)]"

definition tool_message :: "json \<Rightarrow> json" where
  "tool_message content = JObj [(''content'', content), (''role'', JStr ''tool'')]"

definition str_at :: "json \<Rightarrow> string \<Rightarrow> string" where
  "str_at v k = unwrap_or (as_str (value_index v k)) []"

text \<open>\<open>ctx[..]\<close> on a map panics when the member is absent.\<close>

definition do_tool_call ::
  "externs \<Rightarrow> (64 word \<Rightarrow> string) \<Rightarrow> json \<Rightarrow> json \<Rightarrow> reference
     \<Rightarrow> ((interception_record + json) \<times> reference) option" where
  "do_tool_call x clock scenario tc rf =
     (let call_id = str_at tc ''id''; name = str_at tc ''name'' in
      case emit_built x clock (pre_tool_call call_id name (value_index tc ''args'')) rf of
        (Inl blocked, rf1) \<Rightarrow> Some (Inl blocked, rf1)
      | (Inr ctx, rf1) \<Rightarrow>
          Option.bind (obj_get ctx ''tool_call'') (\<lambda>call.
            let args = value_index call ''args'' in
            Option.bind (invoke_tool scenario name args) (\<lambda>(value, is_error).
              let rf2 = rf1\<lparr>rf_tool_log := rf_tool_log rf1 @ [tool_entry name args]\<rparr> in
              Some (case emit_built x clock (post_tool_call call_id name args value is_error) rf2 of
                      (Inl blocked, rf3) \<Rightarrow> (Inl blocked, rf3)
                    | (Inr _, rf3) \<Rightarrow> (Inr (tool_message value), rf3)))))"

definition blocked_message :: "interception_record \<Rightarrow> json" where
  "blocked_message rec = tool_message (JStr (''blocked: '' @ unwrap_or (v_reason (r_verdict rec)) []))"

fun tool_calls ::
  "externs \<Rightarrow> (64 word \<Rightarrow> string) \<Rightarrow> json \<Rightarrow> json list \<Rightarrow> json list \<Rightarrow> reference
     \<Rightarrow> (json list \<times> reference) option" where
  "tool_calls x clock scenario [] messages rf = Some (messages, rf)"
| "tool_calls x clock scenario (tc # tcs) messages rf =
     Option.bind (do_tool_call x clock scenario tc rf) (\<lambda>(res, rf1).
       tool_calls x clock scenario tcs
         (messages @ [case res of Inl blocked \<Rightarrow> blocked_message blocked | Inr m \<Rightarrow> m]) rf1)"

section \<open>The agent loop\<close>

definition assistant_message :: "json \<Rightarrow> json" where
  "assistant_message content =
     JObj [(''content'', if content = JNull then JStr [] else content), (''role'', JStr ''assistant'')]"

text \<open>The steps of the model script; a response without tool calls ends the loop.\<close>

fun model_steps ::
  "externs \<Rightarrow> (64 word \<Rightarrow> string) \<Rightarrow> json \<Rightarrow> json list \<Rightarrow> json list \<Rightarrow> reference
     \<Rightarrow> ((interception_record + json) \<times> reference) option" where
  "model_steps x clock scenario [] messages rf = Some (Inr JNull, rf)"
| "model_steps x clock scenario (st # steps) messages rf =
     (let resp = value_index st ''respond'' in
      case emit_built x clock (pre_model_call ''mock'' messages) rf of
        (Inl blocked, rf1) \<Rightarrow> Some (Inl blocked, rf1)
      | (Inr ctx, rf1) \<Rightarrow>
          Option.bind (obj_get ctx ''messages'') (\<lambda>m.
            let messages1 = unwrap_or (as_array m) messages;
                calls = list_of (value_index resp ''tool_calls'')
            in case emit_built x clock (post_model_call ''mock'' (value_index resp ''content'') calls
                   (str_at resp ''finish_reason'')) rf1 of
                 (Inl blocked, rf2) \<Rightarrow> Some (Inl blocked, rf2)
               | (Inr _, rf2) \<Rightarrow>
                   if calls = [] then Some (Inr (value_index resp ''content''), rf2)
                   else Option.bind (tool_calls x clock scenario calls messages1 rf2) (\<lambda>(messages2, rf3).
                     model_steps x clock scenario steps
                       (messages2 @ [assistant_message (value_index resp ''content'')]) rf3)))"

definition tool_names :: "json \<Rightarrow> string list" where
  "tool_names scenario =
     sort (List.map_filter (\<lambda>t. as_str (value_index t ''name'')) (list_of (value_index scenario ''tools'')))"

definition run_inner ::
  "externs \<Rightarrow> (64 word \<Rightarrow> string) \<Rightarrow> json \<Rightarrow> reference
     \<Rightarrow> ((interception_record + json) \<times> reference) option" where
  "run_inner x clock scenario rf =
     (case emit_built x clock (agent_startup (tool_names scenario)) rf of
        (Inl blocked, rf1) \<Rightarrow> Some (Inl blocked, rf1)
      | (Inr _, rf1) \<Rightarrow>
          (let inp = value_index scenario ''input''; content = value_index inp ''content'';
               role = unwrap_or (as_str (value_index inp ''role'')) ''user''
           in case emit_built x clock (input content role) rf1 of
                (Inl blocked, rf2) \<Rightarrow> Some (Inl blocked, rf2)
              | (Inr _, rf2) \<Rightarrow>
                  Option.bind (model_steps x clock scenario (list_of (value_index scenario ''model_script''))
                      [JObj [(''content'', content), (''role'', JStr role)]] rf2) (\<lambda>(res, rf3).
                    case res of
                      Inl blocked \<Rightarrow> Some (Inl blocked, rf3)
                    | Inr final \<Rightarrow>
                        if final = JNull then Some (Inr final, rf3)
                        else case emit_built x clock (output_ctx final) rf3 of
                          (Inl blocked, rf4) \<Rightarrow> Some (Inl blocked, rf4)
                        | (Inr ctx, rf4) \<Rightarrow>
                            Option.bind (obj_get ctx ''output'') (\<lambda>out.
                              Some (Inr (value_index out ''content''), rf4)))))"

section \<open>The run record\<close>

definition host_messages :: "event list \<Rightarrow> string list" where
  "host_messages log = List.map_filter (\<lambda>e. case e of Notified n \<Rightarrow> Some (n_message n) | _ \<Rightarrow> None) log"

definition identity_pair :: "interception_record \<Rightarrow> string option \<times> string option" where
  "identity_pair r = (r_input_identity r, r_enforced_identity r)"

text \<open>The shutdown context is emitted after every run; its verdict blocks nothing.\<close>

definition shutdown :: "externs \<Rightarrow> (64 word \<Rightarrow> string) \<Rightarrow> string \<Rightarrow> reference \<Rightarrow> reference" where
  "shutdown x clock reason rf =
     (let (ctx, b) = agent_shutdown reason (clock (bl_seq (rf_builder rf))) (rf_builder rf);
          (rec, em, ctx', log) = emit_unchecked x (rf_emitter rf) ctx (rf_log rf)
      in rf\<lparr>rf_emitter := em, rf_builder := b, rf_log := log,
            rf_emissions := rf_emissions rf @ [(rec, ctx')]\<rparr>)"

definition reference_record :: "string \<Rightarrow> json \<Rightarrow> reference \<Rightarrow> run_record" where
  "reference_record outcome final rf =
     (let recs = e_records (rf_emitter rf) in
      \<lparr>rr_outcome = outcome, rr_final_output = final, rr_tool_invocations = rf_tool_log rf, rr_error = None,
       rr_identities = map identity_pair recs, rr_records = map record_json recs, rr_postures = [],
       rr_load = None, rr_host_messages = host_messages (rf_log rf)\<rparr>)"

definition reference_run ::
  "externs \<Rightarrow> (64 word \<Rightarrow> string) \<Rightarrow> json \<Rightarrow> reference \<Rightarrow> (run_record \<times> reference) option" where
  "reference_run x clock scenario rf =
     map_option (\<lambda>(res, rf1).
       case res of
         Inr final \<Rightarrow>
           (let rf2 = shutdown x clock ''completed'' rf1 in (reference_record ''completed'' final rf2, rf2))
       | Inl _ \<Rightarrow>
           (let rf2 = shutdown x clock ''error'' rf1 in (reference_record ''blocked'' JNull rf2, rf2)))
       (run_inner x clock scenario rf)"

text \<open>What the first active registration was shown.\<close>

definition recorded_contexts :: "event list \<Rightarrow> json list" where
  "recorded_contexts log =
     List.map_filter (\<lambda>(i, ctx). if i = 0 then Some (JObj ctx) else None) (invocations log)"

end
