(* ===== verification/Ctk_Reference_Laws.thy ===== *)
theory Ctk_Reference_Laws
  imports Ctk_Reference Ctk_Laws Emission_Laws
begin

text \<open>
  The reference agent as a step relation, and what holds of every session: the contexts the
  emissions hand back, the sequence numbers, the calls of the recording interceptor, and the tools.
\<close>

section \<open>What an emission keeps\<close>

text \<open>The members stay, and a tool call keeps its name.\<close>

definition tool_name :: "object \<Rightarrow> json" where
  "tool_name c = (case obj_get c ''tool_call'' of None \<Rightarrow> JNull | Some call \<Rightarrow> value_index call ''name'')"

definition members_kept :: "object \<Rightarrow> object \<Rightarrow> bool" where
  "members_kept c d \<longleftrightarrow> (\<forall>k. obj_get c k \<noteq> None \<longrightarrow> obj_get d k \<noteq> None) \<and> tool_name d = tool_name c"

lemma members_kept_refl [simp]: "members_kept c c"
  by (simp add: members_kept_def)

lemma members_kept_trans: "members_kept a b \<Longrightarrow> members_kept b c \<Longrightarrow> members_kept a c"
  by (auto simp: members_kept_def)

lemma tool_name_insert:
  "tool_name (obj_insert k v c) = (if k = ''tool_call'' then value_index v ''name'' else tool_name c)"
  by (simp add: tool_name_def)

lemma value_index_JObj: "value_index (JObj m) k = (case obj_get m k of None \<Rightarrow> JNull | Some v \<Rightarrow> v)"
  by (simp add: value_index_def value_get_def)

lemma write_nested_kept: "inner \<noteq> ''name'' \<Longrightarrow> members_kept c (write_nested outer inner v c)"
  by (auto simp: write_nested_def members_kept_def tool_name_insert value_index_JObj tool_name_def
      split: option.split json.split)

lemma write_back_kept: "members_kept c (write_back_target ip v c)"
  by (cases ip) (simp_all add: write_nested_kept, simp_all add: members_kept_def tool_name_insert)

lemma apply_transform_kept: "apply_transform_to_ctx c t = Inr c' \<Longrightarrow> members_kept c c'"
proof -
  assume "apply_transform_to_ctx c t = Inr c'"
  then obtain ip v where c': "c' = write_back_target ip v (obj_insert ''target'' v c)"
    by (auto simp: apply_transform_to_ctx_def res_bind_Inr_iff split: if_splits)
  have "members_kept c (obj_insert ''target'' v c)" by (simp add: members_kept_def tool_name_insert)
  with c' show ?thesis using members_kept_trans write_back_kept by blast
qed

interpretation members: emission_frame "\<lambda>x em s t. members_kept (fst s) (fst t)"
  by unfold_locales (auto elim!: fold_transform_cases intro: members_kept_trans apply_transform_kept)

text \<open>Every interceptor of the emission sees the envelope of its context.\<close>

definition calls_same :: "object \<times> event list \<Rightarrow> object \<times> event list \<Rightarrow> bool" where
  "calls_same s t \<longleftrightarrow>
     same_envelope (fst s) (fst t)
     \<and> (\<exists>new. invocations (snd t) = invocations (snd s) @ new \<and> (\<forall>(i, c)\<in>set new. same_envelope (fst s) c))"

lemma calls_same_trans:
  assumes "calls_same s t" "calls_same t u"
  shows "calls_same s u"
proof -
  from assms obtain n1 n2 where n: "invocations (snd t) = invocations (snd s) @ n1"
    "invocations (snd u) = invocations (snd t) @ n2" "\<forall>(i, c)\<in>set n1. same_envelope (fst s) c"
    "\<forall>(i, c)\<in>set n2. same_envelope (fst t) c" and e: "same_envelope (fst s) (fst t)" "same_envelope (fst t) (fst u)"
    unfolding calls_same_def by blast
  have "\<forall>(i, c)\<in>set (n1 @ n2). same_envelope (fst s) c"
    using n(3,4) same_envelope_trans [OF e(1)] by fastforce
  with n(1,2) same_envelope_trans [OF e] show ?thesis unfolding calls_same_def by (metis append.assoc)
qed

interpretation calls: emission_frame "\<lambda>x em s t. calls_same s t"
proof unfold_locales
  show "calls_same s s" for s by (simp add: calls_same_def)
  show "calls_same s t \<Longrightarrow> calls_same t u \<Longrightarrow> calls_same s u" for s t u by (rule calls_same_trans)
  show "fold_transform em c v = (v', c') \<Longrightarrow> calls_same (c, l) (c', l)" for em c v v' c' l
    by (auto elim!: fold_transform_cases simp: calls_same_def dest: apply_transform_envelope)
  show "invoke x em c i b l = (st, l') \<Longrightarrow> calls_same (c, l) (c, l')" for x em c i b l st l'
    by (simp add: calls_same_def invoke_invocations)
  show "consult x em c v l = (k, l') \<Longrightarrow> calls_same (c, l) (c, l')" for x em c v l k l'
    by (simp add: calls_same_def consult_invocations)
qed

text \<open>One emission: the interceptors are called at most once each, on contexts of the same envelope.\<close>

lemma emit_calls:
  assumes "emit_unchecked x em ctx log = (rec, em', ctx', log')"
  obtains new where "invocations log' = invocations log @ new" "\<forall>(i, c)\<in>set new. same_envelope ctx c"
    "distinct (map fst new)"
  using assms
proof (cases rule: emit_context)
  case 1
  then show ?thesis using that [of "[]"] by auto
next
  case (2 d log1)
  have "calls_same (ctx, log) (ctx', log1)" by (rule calls.R_dispatch [OF 2(1)])
  then obtain new where new: "invocations log1 = invocations log @ new" "\<forall>(i, c)\<in>set new. same_envelope ctx c"
    by (auto simp: calls_same_def)
  from dispatch_in_order [of em ctx log x] 2(1) obtain k where
    "map fst (invocations log1) = map fst (invocations log) @ [0..<k]"
    by (auto simp: outcome_in_order_def in_order_def)
  with new have "distinct (map fst new)" by simp
  with new 2(2) show ?thesis using that [of new] by auto
qed

lemma emit_kept:
  assumes "emit_unchecked x em ctx log = (rec, em', ctx', log')"
  shows "members_kept ctx ctx'"
  using assms by (rule emit_context) (auto dest: members.R_dispatch)

lemma emit_emitter:
  assumes "emit_unchecked x em ctx log = (rec, em', ctx', log')"
  shows "e_max_records em' = e_max_records em"
    and "e_max_records em = None \<Longrightarrow> e_records em' = e_records em @ [rec]"
proof -
  obtain r l where d: "deliver r em l = (rec, em', log')"
    using assms by (auto simp: emit_unchecked_def Let_def split: prod.splits)
  from arg_cong [OF deliver_config(2) [OF d], of e_max_records]
  show "e_max_records em' = e_max_records em" by simp
  show "e_max_records em = None \<Longrightarrow> e_records em' = e_records em @ [rec]"
    using d by (auto simp: deliver_def Let_def)
qed

lemma emit_record:
  assumes "emit_unchecked x em ctx log = (rec, em', ctx', log')"
  shows "r_point rec = (case interception_point_of ctx of Inr p \<Rightarrow> p | Inl _ \<Rightarrow> AgentStartup)"
    and "r_sequence rec = (case get_i64 ctx ''sequence'' of None \<Rightarrow> -1 | Some n \<Rightarrow> n)"
proof -
  obtain v m meta where r: "rec = finalize x ctx' v m meta"
    using assms by (auto simp: emit_unchecked_def Let_def deliver_record split: prod.splits dest!: deliver_config(1))
  have e: "same_envelope ctx ctx'" by (rule emit_same_envelope [OF assms])
  have f: "r_point rec = (case interception_point_of ctx' of Inr p \<Rightarrow> p | Inl _ \<Rightarrow> AgentStartup)"
    "r_sequence rec = (case get_i64 ctx' ''sequence'' of None \<Rightarrow> -1 | Some n \<Rightarrow> n)"
    by (simp_all add: r finalize_def Let_def split_beta)
  show "r_point rec = (case interception_point_of ctx of Inr p \<Rightarrow> p | Inl _ \<Rightarrow> AgentStartup)"
    using f(1) by (simp only: same_envelope_point [OF e])
  have "get_i64 ctx' ''sequence'' = get_i64 ctx ''sequence''"
    using same_envelope_get [OF e, of "''sequence''"] by (simp add: get_i64_def mutable_members_def)
  with f(2) show "r_sequence rec = (case get_i64 ctx ''sequence'' of None \<Rightarrow> -1 | Some n \<Rightarrow> n)" by simp
qed

section \<open>Steps of the agent\<close>

text \<open>A builder call that makes contexts of the point.\<close>

definition builds_at :: "interception_point \<Rightarrow> (string \<Rightarrow> builder \<Rightarrow> object \<times> builder) \<Rightarrow> bool" where
  "builds_at p build \<longleftrightarrow> (\<forall>now b. builds b p (fst (build now b)) (snd (build now b)))"

lemma builds_at_points [simp]:
  "builds_at AgentStartup (agent_startup tools)" "builds_at Input (input content role)"
  "builds_at PreModelCall (pre_model_call model msgs)"
  "builds_at PostModelCall (post_model_call model content calls finish)"
  "builds_at PreToolCall (pre_tool_call cid name args)"
  "builds_at PostToolCall (post_tool_call cid name args val err)"
  "builds_at Output (output_ctx content)" "builds_at AgentShutdown (agent_shutdown reason)"
  by (auto simp: builds_at_def intro: builds.intros)

inductive agent_step ::
  "externs \<Rightarrow> (64 word \<Rightarrow> string) \<Rightarrow> json \<Rightarrow> reference \<Rightarrow> reference \<Rightarrow> bool" for x clock scenario where
  built: "builds_at p build \<Longrightarrow> p \<noteq> PreToolCall \<Longrightarrow> emit_built x clock build rf = (res, rf') \<Longrightarrow>
    agent_step x clock scenario rf rf'"
| refused: "emit_built x clock (pre_tool_call cid name args) rf = (Inl blocked, rf') \<Longrightarrow>
    agent_step x clock scenario rf rf'"
| ran: "emit_built x clock (pre_tool_call cid name args) rf = (Inr ctx, rf') \<Longrightarrow>
    obj_get ctx ''tool_call'' = Some call \<Longrightarrow>
    invoke_tool scenario name (value_index call ''args'') = Some r \<Longrightarrow>
    agent_step x clock scenario rf
      (rf'\<lparr>rf_tool_log := rf_tool_log rf' @ [tool_entry name (value_index call ''args'')]\<rparr>)"

abbreviation agent_steps ::
  "externs \<Rightarrow> (64 word \<Rightarrow> string) \<Rightarrow> json \<Rightarrow> reference \<Rightarrow> reference \<Rightarrow> bool" where
  "agent_steps x clock scenario \<equiv> (agent_step x clock scenario)\<^sup>*\<^sup>*"

lemma context_steps:
  "emit_built x clock build rf = (res, rf') \<Longrightarrow> builds_at p build \<Longrightarrow> p \<noteq> PreToolCall \<Longrightarrow>
     agent_steps x clock scenario rf rf'"
  by (rule r_into_rtranclp) (rule agent_step.built)

lemma do_tool_call_steps:
  assumes "do_tool_call x clock scenario tc rf = Some (res, rf')"
  shows "agent_steps x clock scenario rf rf'"
proof -
  let ?build = "pre_tool_call (str_at tc ''id'') (str_at tc ''name'') (value_index tc ''args'')"
  obtain r1 rf1 where e: "emit_built x clock ?build rf = (r1, rf1)" by (cases "emit_built x clock ?build rf")
  show ?thesis
  proof (cases r1)
    case (Inl blocked)
    with assms e have "rf' = rf1" by (simp add: do_tool_call_def Let_def)
    with e Inl show ?thesis by (blast intro: agent_step.refused)
  next
    case (Inr ctx)
    with assms e obtain call r where call: "obj_get ctx ''tool_call'' = Some call"
      and r: "invoke_tool scenario (str_at tc ''name'') (value_index call ''args'') = Some r"
      by (auto simp: do_tool_call_def Let_def bind_eq_Some_conv)
    let ?rf2 = "rf1\<lparr>rf_tool_log := rf_tool_log rf1 @ [tool_entry (str_at tc ''name'') (value_index call ''args'')]\<rparr>"
    have "agent_step x clock scenario rf ?rf2"
      using e Inr call r by (auto intro: agent_step.ran)
    moreover obtain r3 rf3 where e2: "emit_built x clock (post_tool_call (str_at tc ''id'') (str_at tc ''name'')
        (value_index call ''args'') (fst r) (snd r)) ?rf2 = (r3, rf3)" (is "?e = _") by (cases ?e)
    with assms e Inr call r have "rf' = rf3"
      by (cases r3) (simp_all add: do_tool_call_def Let_def split_beta)
    with e2 have "agent_steps x clock scenario ?rf2 rf'"
      by (auto intro: context_steps [where p = PostToolCall])
    ultimately show ?thesis by (rule converse_rtranclp_into_rtranclp)
  qed
qed

lemma tool_calls_steps:
  "tool_calls x clock scenario tcs msgs rf = Some (msgs', rf') \<Longrightarrow> agent_steps x clock scenario rf rf'"
proof (induction tcs arbitrary: msgs rf)
  case (Cons tc tcs)
  then obtain res rf1 msgs1 where "do_tool_call x clock scenario tc rf = Some (res, rf1)"
    "tool_calls x clock scenario tcs msgs1 rf1 = Some (msgs', rf')"
    by (auto simp: bind_eq_Some_conv)
  with Cons.IH do_tool_call_steps show ?case by (meson rtranclp_trans)
qed simp

text \<open>One turn of the model: blocked, answered, or followed by tool calls.\<close>

lemma model_turn:
  assumes "model_steps x clock scenario (st # steps) msgs rf = Some (res, rf')"
  obtains (pre_blocked) blocked where
      "emit_built x clock (pre_model_call ''mock'' msgs) rf = (Inl blocked, rf')" "res = Inl blocked"
  | (post_blocked) ctx rf1 build blocked where
      "emit_built x clock (pre_model_call ''mock'' msgs) rf = (Inr ctx, rf1)" "builds_at PostModelCall build"
      "emit_built x clock build rf1 = (Inl blocked, rf')" "res = Inl blocked"
  | (answered) ctx rf1 build ctx2 where
      "emit_built x clock (pre_model_call ''mock'' msgs) rf = (Inr ctx, rf1)" "builds_at PostModelCall build"
      "emit_built x clock build rf1 = (Inr ctx2, rf')"
      "res = Inr (value_index (value_index st ''respond'') ''content'')"
  | (called) ctx rf1 build ctx2 rf2 calls msgs1 msgs2 rf3 msgs3 where
      "emit_built x clock (pre_model_call ''mock'' msgs) rf = (Inr ctx, rf1)" "builds_at PostModelCall build"
      "emit_built x clock build rf1 = (Inr ctx2, rf2)"
      "tool_calls x clock scenario calls msgs1 rf2 = Some (msgs2, rf3)"
      "model_steps x clock scenario steps msgs3 rf3 = Some (res, rf')"
proof -
  obtain r1 rf1 where e1: "emit_built x clock (pre_model_call ''mock'' msgs) rf = (r1, rf1)"
    by (cases "emit_built x clock (pre_model_call ''mock'' msgs) rf")
  show thesis
  proof (cases r1)
    case (Inl blocked)
    with assms e1 show thesis by (intro pre_blocked) (auto simp: Let_def)
  next
    case (Inr ctx)
    let ?resp = "value_index st ''respond''"
    let ?calls = "list_of (value_index ?resp ''tool_calls'')"
    let ?build = "post_model_call ''mock'' (value_index ?resp ''content'') ?calls (str_at ?resp ''finish_reason'')"
    from assms e1 Inr obtain m where m: "obj_get ctx ''messages'' = Some m"
      by (auto simp: Let_def bind_eq_Some_conv)
    obtain r2 rf2 where e2: "emit_built x clock ?build rf1 = (r2, rf2)" by (cases "emit_built x clock ?build rf1")
    show thesis
    proof (cases r2)
      case b: (Inl blocked)
      have at: "builds_at PostModelCall ?build" by simp
      from assms e1 Inr m e2 b have "rf' = rf2" "res = Inl blocked" by (auto simp: Let_def)
      with post_blocked [OF e1 [unfolded Inr] at] e2 b show thesis by simp
    next
      case c: (Inr ctx2)
      have at: "builds_at PostModelCall ?build" by simp
      show thesis
      proof (cases "?calls = []")
        case True
        with assms e1 Inr m e2 c have "rf' = rf2" "res = Inr (value_index ?resp ''content'')"
          by (auto simp: Let_def)
        with answered [OF e1 [unfolded Inr] at] e2 c show thesis by simp
      next
        case False
        with assms e1 Inr m e2 c obtain msgs2 rf3 where
          "tool_calls x clock scenario ?calls (unwrap_or (as_array m) msgs) rf2 = Some (msgs2, rf3)"
          "model_steps x clock scenario steps (msgs2 @ [assistant_message (value_index ?resp ''content'')]) rf3
            = Some (res, rf')"
          by (auto simp: Let_def bind_eq_Some_conv)
        with called [OF e1 [unfolded Inr] at] e2 c show thesis by simp
      qed
    qed
  qed
qed

lemma model_steps_steps:
  "model_steps x clock scenario steps msgs rf = Some (res, rf') \<Longrightarrow> agent_steps x clock scenario rf rf'"
proof (induction steps arbitrary: msgs rf)
  case (Cons st steps)
  from Cons.prems show ?case
  proof (cases rule: model_turn)
    case (pre_blocked blocked)
    from context_steps [OF pre_blocked(1), of PreModelCall] show ?thesis by simp
  next
    case (post_blocked ctx rf1 build blocked)
    then have "agent_steps x clock scenario rf rf1" "agent_steps x clock scenario rf1 rf'"
      by (auto intro: context_steps [where p = PreModelCall] context_steps [where p = PostModelCall])
    then show ?thesis by (rule rtranclp_trans)
  next
    case (answered ctx rf1 build ctx2)
    then have "agent_steps x clock scenario rf rf1" "agent_steps x clock scenario rf1 rf'"
      by (auto intro: context_steps [where p = PreModelCall] context_steps [where p = PostModelCall])
    then show ?thesis by (rule rtranclp_trans)
  next
    case (called ctx rf1 build ctx2 rf2 calls msgs1 msgs2 rf3 msgs3)
    then have "agent_steps x clock scenario rf rf1" "agent_steps x clock scenario rf1 rf2"
      by (auto intro: context_steps [where p = PreModelCall] context_steps [where p = PostModelCall])
    with tool_calls_steps [OF called(4)] Cons.IH [OF called(5)] show ?thesis by (meson rtranclp_trans)
  qed
qed simp

text \<open>A context built and emitted, in terms of the emission.\<close>

lemma emit_built_cases:
  assumes "emit_built x clock build rf = (res, rf')" "builds_at p build"
  obtains ctx b rec em ctx' log where "builds (rf_builder rf) p ctx b"
    "build (clock (bl_seq (rf_builder rf))) (rf_builder rf) = (ctx, b)"
    "emit_unchecked x (rf_emitter rf) ctx (rf_log rf) = (rec, em, ctx', log)"
    "rf' = rf\<lparr>rf_emitter := em, rf_builder := b, rf_log := log, rf_emissions := rf_emissions rf @ [(rec, ctx')]\<rparr>"
    "res = (if proceeds rec then Inr ctx' else Inl rec)"
proof -
  obtain ctx b where b: "build (clock (bl_seq (rf_builder rf))) (rf_builder rf) = (ctx, b)"
    by (cases "build (clock (bl_seq (rf_builder rf))) (rf_builder rf)")
  obtain rec em ctx' log where e: "emit_unchecked x (rf_emitter rf) ctx (rf_log rf) = (rec, em, ctx', log)"
    by (cases "emit_unchecked x (rf_emitter rf) ctx (rf_log rf)")
  have "builds (rf_builder rf) p ctx b" using assms(2) b unfolding builds_at_def by (metis fst_conv snd_conv)
  moreover have "rf' = rf\<lparr>rf_emitter := em, rf_builder := b, rf_log := log, rf_emissions := rf_emissions rf @ [(rec, ctx')]\<rparr>"
    "res = (if proceeds rec then Inr ctx' else Inl rec)"
    using assms(1) by (auto simp: emit_built_def b emit_def e)
  ultimately show thesis using that b e by blast
qed

lemma shutdown_emits: "\<exists>res. emit_built x clock (agent_shutdown reason) rf = (res, shutdown x clock reason rf)"
  by (auto simp: emit_built_def shutdown_def emit_def Let_def split_beta)

text \<open>How the agent loop ends.\<close>

lemma run_inner_cases:
  assumes "run_inner x clock scenario rf = Some (res, rf')"
  obtains (startup_blocked) blocked where
      "emit_built x clock (agent_startup (tool_names scenario)) rf = (Inl blocked, rf')" "res = Inl blocked"
  | (input_blocked) ctx rf1 content role blocked where
      "emit_built x clock (agent_startup (tool_names scenario)) rf = (Inr ctx, rf1)"
      "emit_built x clock (input content role) rf1 = (Inl blocked, rf')" "res = Inl blocked"
  | (loop) ctx rf1 content role ctx2 rf2 msgs q rf3 where
      "emit_built x clock (agent_startup (tool_names scenario)) rf = (Inr ctx, rf1)"
      "emit_built x clock (input content role) rf1 = (Inr ctx2, rf2)"
      "model_steps x clock scenario (list_of (value_index scenario ''model_script'')) msgs rf2 = Some (q, rf3)"
      "(\<exists>blocked. q = Inl blocked \<and> res = Inl blocked \<and> rf' = rf3)
        \<or> q = Inr JNull \<and> res = Inr JNull \<and> rf' = rf3
        \<or> (\<exists>final blocked. q = Inr final \<and> res = Inl blocked
              \<and> emit_built x clock (output_ctx final) rf3 = (Inl blocked, rf'))
        \<or> (\<exists>final ctx3 out. q = Inr final \<and> res = Inr (value_index out ''content'')
              \<and> emit_built x clock (output_ctx final) rf3 = (Inr ctx3, rf') \<and> obj_get ctx3 ''output'' = Some out)"
proof -
  let ?inp = "value_index scenario ''input''"
  let ?content = "value_index ?inp ''content''" and ?role = "unwrap_or (as_str (value_index ?inp ''role'')) ''user''"
  let ?msgs = "[JObj [(''content'', ?content), (''role'', JStr ?role)]]"
  let ?steps = "list_of (value_index scenario ''model_script'')"
  obtain r1 rf1 where e1: "emit_built x clock (agent_startup (tool_names scenario)) rf = (r1, rf1)" (is "?e = _")
    by (cases ?e)
  obtain r2 rf2 where e2: "emit_built x clock (input ?content ?role) rf1 = (r2, rf2)" (is "?e = _") by (cases ?e)
  show thesis
  proof (cases r1)
    case (Inl blocked)
    with assms e1 startup_blocked show thesis by (simp add: run_inner_def)
  next
    case i1: (Inr ctx)
    show thesis
    proof (cases r2)
      case (Inl blocked)
      with assms e1 e2 i1 input_blocked show thesis by (simp add: run_inner_def Let_def)
    next
      case i2: (Inr ctx2)
      show thesis
      proof (cases "model_steps x clock scenario ?steps ?msgs rf2")
        case None
        with assms e1 e2 i1 i2 show thesis by (simp add: run_inner_def Let_def)
      next
        case (Some t)
        obtain q rf3 where m: "model_steps x clock scenario ?steps ?msgs rf2 = Some (q, rf3)"
          using Some by (cases t) simp
        have run: "(case q of
              Inl blocked \<Rightarrow> Some (Inl blocked, rf3)
            | Inr final \<Rightarrow>
                if final = JNull then Some (Inr final, rf3)
                else case emit_built x clock (output_ctx final) rf3 of
                  (Inl blocked, rf4) \<Rightarrow> Some (Inl blocked, rf4)
                | (Inr ctx, rf4) \<Rightarrow>
                    Option.bind (obj_get ctx ''output'') (\<lambda>out. Some (Inr (value_index out ''content''), rf4)))
            = Some (res, rf')"
          using assms e1 e2 i1 i2 m by (simp add: run_inner_def Let_def)
        have "(\<exists>blocked. q = Inl blocked \<and> res = Inl blocked \<and> rf' = rf3)
          \<or> q = Inr JNull \<and> res = Inr JNull \<and> rf' = rf3
          \<or> (\<exists>final blocked. q = Inr final \<and> res = Inl blocked
                \<and> emit_built x clock (output_ctx final) rf3 = (Inl blocked, rf'))
          \<or> (\<exists>final ctx3 out. q = Inr final \<and> res = Inr (value_index out ''content'')
                \<and> emit_built x clock (output_ctx final) rf3 = (Inr ctx3, rf') \<and> obj_get ctx3 ''output'' = Some out)"
        proof (cases q)
          case (Inl blocked)
          with run show ?thesis by auto
        next
          case (Inr final)
          obtain r4 rf4 where "emit_built x clock (output_ctx final) rf3 = (r4, rf4)"
            by (cases "emit_built x clock (output_ctx final) rf3")
          with run Inr show ?thesis by (cases r4) (auto split: if_splits simp: bind_eq_Some_conv)
        qed
        then show thesis by (rule loop [OF e1 [unfolded i1] e2 [unfolded i2] m])
      qed
    qed
  qed
qed

lemma run_inner_steps:
  assumes "run_inner x clock scenario rf = Some (res, rf')"
  shows "agent_steps x clock scenario rf rf'"
proof -
  from assms show ?thesis
  proof (cases rule: run_inner_cases)
    case (startup_blocked blocked)
    then show ?thesis by (auto intro: context_steps [where p = AgentStartup])
  next
    case (input_blocked ctx rf1 content role blocked)
    then have "agent_steps x clock scenario rf rf1" "agent_steps x clock scenario rf1 rf'"
      by (auto intro: context_steps [where p = AgentStartup] context_steps [where p = Input])
    then show ?thesis by (rule rtranclp_trans)
  next
    case (loop ctx rf1 content role ctx2 rf2 msgs q rf3)
    then have "agent_steps x clock scenario rf rf1" "agent_steps x clock scenario rf1 rf2"
      by (auto intro: context_steps [where p = AgentStartup] context_steps [where p = Input])
    moreover have "agent_steps x clock scenario rf2 rf3" by (rule model_steps_steps [OF loop(3)])
    moreover have "agent_steps x clock scenario rf3 rf'"
      using loop(4) by (auto intro: context_steps [where p = Output])
    ultimately show ?thesis by (meson rtranclp_trans)
  qed
qed

section \<open>The invariant of a session\<close>

definition tool_of :: "object \<Rightarrow> json" where
  "tool_of ctx =
     (case obj_get ctx ''tool_call'' of
        None \<Rightarrow> JNull
      | Some call \<Rightarrow> JObj [(''args'', value_index call ''args''), (''name'', value_index call ''name'')])"

definition permitted_tool :: "interception_record \<times> object \<Rightarrow> bool" where
  "permitted_tool e \<longleftrightarrow> r_point (fst e) = PreToolCall \<and> proceeds (fst e)"

definition sequence_of :: "json \<Rightarrow> int option" where
  "sequence_of c = value_i64 c ''sequence''"

definition numbered :: "reference \<Rightarrow> bool" where
  "numbered rf \<longleftrightarrow> map (r_sequence \<circ> fst) (rf_emissions rf) = map int [0..<length (rf_emissions rf)]"

definition calls_numbered :: "reference \<Rightarrow> bool" where
  "calls_numbered rf \<longleftrightarrow>
     (\<exists>seqs. map sequence_of (recorded_contexts (rf_log rf)) = map Some seqs \<and> sorted_wrt (<) seqs
        \<and> (\<forall>s\<in>set seqs. s < int (length (rf_emissions rf))))"

definition tools_permitted :: "reference \<Rightarrow> bool" where
  "tools_permitted rf \<longleftrightarrow> rf_tool_log rf = map (tool_of \<circ> snd) (filter permitted_tool (rf_emissions rf))"

definition records_kept :: "emitter \<Rightarrow> reference \<Rightarrow> bool" where
  "records_kept em0 rf \<longleftrightarrow>
     e_max_records (rf_emitter rf) = e_max_records em0
     \<and> (e_max_records em0 = None \<longrightarrow>
          e_records (rf_emitter rf) = e_records em0 @ map fst (rf_emissions rf))"

definition session_ok :: "builder \<Rightarrow> emitter \<Rightarrow> reference \<Rightarrow> bool" where
  "session_ok b0 em0 rf \<longleftrightarrow>
     rf_builder rf = b0\<lparr>bl_seq := of_nat (length (rf_emissions rf))\<rparr>
     \<and> records_kept em0 rf
     \<and> (length (rf_emissions rf) \<le> 2 ^ 63 \<longrightarrow> numbered rf \<and> calls_numbered rf \<and> tools_permitted rf)"

lemma recorded_append:
  "invocations l' = invocations l @ new \<Longrightarrow> recorded_contexts l' =
     recorded_contexts l @ List.map_filter (\<lambda>(i, ctx). if i = 0 then Some (JObj ctx) else None) new"
  by (simp add: recorded_contexts_def List.map_filter_def)

lemma recorded_once:
  assumes "distinct (map fst new)"
  shows "List.map_filter (\<lambda>(i, ctx). if i = 0 then Some (JObj ctx) else None) new
    \<in> {[]} \<union> {[JObj c] | c. (0, c) \<in> set new}"
  using assms
proof (induction new)
  case (Cons p new)
  obtain i c where p: "p = (i, c)" by (cases p)
  show ?case
  proof (cases "i = 0")
    case True
    have "List.map_filter (\<lambda>(i, ctx). if i = 0 then Some (JObj ctx) else None) new = []"
      using Cons.prems p True by (induction new) (auto simp: List.map_filter_simps)
    with p True show ?thesis by (simp add: List.map_filter_simps)
  next
    case False
    with Cons p show ?thesis by (auto simp: List.map_filter_simps)
  qed
qed (simp add: List.map_filter_simps)

text \<open>The parts that every emission advances.\<close>

lemma emission_numbers:
  assumes b0: "builder_ok b0" and ok: "session_ok b0 em0 rf"
    and at: "builds_at p build" and e: "emit_built x clock build rf = (res, rf')"
  obtains rec ctx' where "rf_emissions rf' = rf_emissions rf @ [(rec, ctx')]" "rf_tool_log rf' = rf_tool_log rf"
    "rf_builder rf' = b0\<lparr>bl_seq := of_nat (length (rf_emissions rf'))\<rparr>" "records_kept em0 rf'"
    "res = (if proceeds rec then Inr ctx' else Inl rec)"
    "length (rf_emissions rf') \<le> 2 ^ 63 \<longrightarrow> numbered rf' \<and> calls_numbered rf' \<and> r_point rec = p"
proof -
  let ?n = "length (rf_emissions rf)"
  from e at obtain ctx b rec em ctx' log where bs: "builds (rf_builder rf) p ctx b"
    and em: "emit_unchecked x (rf_emitter rf) ctx (rf_log rf) = (rec, em, ctx', log)"
    and rf': "rf' = rf\<lparr>rf_emitter := em, rf_builder := b, rf_log := log, rf_emissions := rf_emissions rf @ [(rec, ctx')]\<rparr>"
    and res: "res = (if proceeds rec then Inr ctx' else Inl rec)"
    by (rule emit_built_cases)
  have n': "length (rf_emissions rf') = Suc ?n" by (simp add: rf')
  have bld: "rf_builder rf = b0\<lparr>bl_seq := of_nat ?n\<rparr>" using ok by (simp add: session_ok_def)
  have b: "rf_builder rf' = b0\<lparr>bl_seq := of_nat (length (rf_emissions rf'))\<rparr>"
    using builds_seq [OF bs] bld by (simp add: rf' add.commute)
  have k: "records_kept em0 rf'"
    using ok emit_emitter [OF em]
    by (simp add: session_ok_def records_kept_def rf')
  have "numbered rf' \<and> calls_numbered rf' \<and> r_point rec = p" if short: "length (rf_emissions rf') \<le> 2 ^ 63"
  proof -
    from short n' have n: "?n < 2 ^ 63" by simp
    have "builder_ok (rf_builder rf)" using b0 n by (simp add: bld builder_ok_def unat_of_nat)
    with builds_core [OF bs] obtain t now where core: "core_ok (rf_builder rf) p t now ctx" by blast
    then have sq: "get_i64 ctx ''sequence'' = Some (int ?n)"
      using n by (simp add: core_ok_def get_i64_def bld unat_of_nat uint_nat)
    have pt: "interception_point_of ctx = Inr p"
      using core by (cases p) (simp_all add: core_ok_def interception_point_of_def get_str_def point_from_str_def POINTS_def)
    from ok n have old: "numbered rf" "calls_numbered rf" by (simp_all add: session_ok_def)
    have "numbered rf'"
      using old(1) emit_record(2) [OF em] sq by (simp add: numbered_def rf')
    moreover have "r_point rec = p" using emit_record(1) [OF em] pt by simp
    moreover have "calls_numbered rf'"
    proof -
      from em obtain new where new: "invocations log = invocations (rf_log rf) @ new"
        "\<forall>(i, c)\<in>set new. same_envelope ctx c" "distinct (map fst new)" by (rule emit_calls)
      obtain seqs where seqs: "map sequence_of (recorded_contexts (rf_log rf)) = map Some seqs"
        "sorted_wrt (<) seqs" "\<forall>s\<in>set seqs. s < int ?n" using old(2) by (auto simp: calls_numbered_def)
      from recorded_once [OF new(3)] recorded_append [OF new(1)]
      consider "recorded_contexts log = recorded_contexts (rf_log rf)"
        | c where "(0, c) \<in> set new" "recorded_contexts log = recorded_contexts (rf_log rf) @ [JObj c]" by auto
      then show ?thesis
      proof cases
        case 1
        with seqs show ?thesis by (auto simp: calls_numbered_def rf')
      next
        case (2 c)
        from new(2) 2(1) have "same_envelope ctx c" by auto
        then have "obj_get c ''sequence'' = obj_get ctx ''sequence''"
          by (rule same_envelope_get) (simp add: mutable_members_def)
        with sq have "sequence_of (JObj c) = Some (int ?n)"
          by (simp add: sequence_of_def value_i64_def value_get_def get_i64_def)
        with seqs 2(2) have "map sequence_of (recorded_contexts log) = map Some (seqs @ [int ?n])"
          "sorted_wrt (<) (seqs @ [int ?n])" "\<forall>s\<in>set (seqs @ [int ?n]). s < int (Suc ?n)"
          by (auto simp: sorted_wrt_append)
        then show ?thesis unfolding calls_numbered_def rf' by (auto simp del: map_append)
      qed
    qed
    ultimately show ?thesis by simp
  qed
  then show thesis using that [of rec ctx'] b k res by (simp add: rf')
qed

text \<open>What a permitted context keeps of what the builder put in.\<close>

lemma permitted_members:
  assumes e: "emit_built x clock build rf = (Inr ctx, rf')" and "builds_at p build"
    and b: "build (clock (bl_seq (rf_builder rf))) (rf_builder rf) = (ctx0, b)"
  shows "members_kept ctx0 ctx"
proof -
  from e assms(2) obtain ctx1 b1 rec em ctx' log where "build (clock (bl_seq (rf_builder rf))) (rf_builder rf) = (ctx1, b1)"
    "emit_unchecked x (rf_emitter rf) ctx1 (rf_log rf) = (rec, em, ctx', log)"
    "Inr ctx = (if proceeds rec then Inr ctx' else Inl rec)"
    by (rule emit_built_cases)
  with b emit_kept show ?thesis by (auto split: if_splits)
qed

lemma permitted_tool_call:
  assumes "emit_built x clock (pre_tool_call cid name args) rf = (Inr ctx, rf')"
  obtains call where "obj_get ctx ''tool_call'' = Some call" "value_index call ''name'' = JStr name"
proof -
  obtain ctx0 b where b: "pre_tool_call cid name args (clock (bl_seq (rf_builder rf))) (rf_builder rf) = (ctx0, b)"
    by (cases "pre_tool_call cid name args (clock (bl_seq (rf_builder rf))) (rf_builder rf)")
  have "members_kept ctx0 ctx" by (rule permitted_members [OF assms builds_at_points(5) b])
  moreover have "obj_get ctx0 ''tool_call'' = Some (tool_call_json cid name args)"
    using b by (auto simp: pre_tool_call_def split_beta)
  ultimately show thesis using that
    by (auto simp: members_kept_def tool_name_def tool_call_json_def value_index_JObj split: option.splits)
qed

lemma agent_step_ok:
  assumes "agent_step x clock scenario rf rf'" and b0: "builder_ok b0" and ok: "session_ok b0 em0 rf"
  shows "session_ok b0 em0 rf'"
  using assms(1)
proof cases
  case (built p build res)
  obtain rec ctx where
    n: "rf_emissions rf' = rf_emissions rf @ [(rec, ctx)]" "rf_tool_log rf' = rf_tool_log rf"
    "rf_builder rf' = b0\<lparr>bl_seq := of_nat (length (rf_emissions rf'))\<rparr>" "records_kept em0 rf'"
    "res = (if proceeds rec then Inr ctx else Inl rec)"
    "length (rf_emissions rf') \<le> 2 ^ 63 \<longrightarrow> numbered rf' \<and> calls_numbered rf' \<and> r_point rec = p"
    by (rule emission_numbers [OF b0 ok built(1,3)], rule that)
  moreover have "tools_permitted rf'" if "length (rf_emissions rf') \<le> 2 ^ 63"
    using n(1,2) n(6) that built(2) ok that by (simp add: session_ok_def tools_permitted_def permitted_tool_def)
  ultimately show ?thesis by (simp add: session_ok_def)
next
  case (refused cid name args blocked)
  obtain rec ctx where
    n: "rf_emissions rf' = rf_emissions rf @ [(rec, ctx)]" "rf_tool_log rf' = rf_tool_log rf"
    "rf_builder rf' = b0\<lparr>bl_seq := of_nat (length (rf_emissions rf'))\<rparr>" "records_kept em0 rf'"
    "Inl blocked = (if proceeds rec then Inr ctx else Inl rec)"
    "length (rf_emissions rf') \<le> 2 ^ 63 \<longrightarrow> numbered rf' \<and> calls_numbered rf' \<and> r_point rec = PreToolCall"
    by (rule emission_numbers [OF b0 ok builds_at_points(5) refused], rule that)
  moreover have "tools_permitted rf'" if "length (rf_emissions rf') \<le> 2 ^ 63"
    using n(1,2,5) ok that by (simp add: session_ok_def tools_permitted_def permitted_tool_def split: if_splits)
  ultimately show ?thesis by (simp add: session_ok_def)
next
  case (ran cid name args ctx rf1 call r)
  obtain rec ctx1 where
    n: "rf_emissions rf1 = rf_emissions rf @ [(rec, ctx1)]" "rf_tool_log rf1 = rf_tool_log rf"
    "rf_builder rf1 = b0\<lparr>bl_seq := of_nat (length (rf_emissions rf1))\<rparr>" "records_kept em0 rf1"
    "Inr ctx = (if proceeds rec then Inr ctx1 else Inl rec)"
    "length (rf_emissions rf1) \<le> 2 ^ 63 \<longrightarrow> numbered rf1 \<and> calls_numbered rf1 \<and> r_point rec = PreToolCall"
    by (rule emission_numbers [OF b0 ok builds_at_points(5) ran(2)], rule that)
  from permitted_tool_call [OF ran(2)] ran(3) have "value_index call ''name'' = JStr name" by auto
  with ran(3) have t: "tool_of ctx = tool_entry name (value_index call ''args'')"
    by (simp add: tool_of_def tool_entry_def)
  from n(5) have p: "proceeds rec" "ctx1 = ctx" by (simp_all split: if_splits)
  have "tools_permitted rf'" if "length (rf_emissions rf1) \<le> 2 ^ 63"
    using n(1,2) n(6) that p t ok that
    by (simp add: ran(1) session_ok_def tools_permitted_def permitted_tool_def)
  with n show ?thesis
    by (simp add: ran(1) session_ok_def records_kept_def numbered_def calls_numbered_def)
qed

lemma agent_steps_ok:
  "agent_steps x clock scenario rf rf' \<Longrightarrow> builder_ok b0 \<Longrightarrow> session_ok b0 em0 rf \<Longrightarrow> session_ok b0 em0 rf'"
  by (induction rule: rtranclp_induct) (auto intro: agent_step_ok)

lemma new_builder_ok: "builder_ok (new_builder spec ''ref-agent'' ''reference-agent'' (''sess-'' @ dec n))"
  by (simp add: builder_ok_def new_builder_def non_empty_str_def framework_ok_def framework_char_def get_str_def
      is_lower_def is_digit_def byte_def)

lemma start_session_ok:
  "e_records em = [] \<Longrightarrow> session_ok (rf_builder (start_session n em)) em (start_session n em)"
  by (simp add: session_ok_def start_session_def new_builder_def records_kept_def numbered_def calls_numbered_def
      tools_permitted_def recorded_contexts_def List.map_filter_simps)

text \<open>A run: the loop and the shutdown.\<close>

lemma reference_run_cases:
  assumes "reference_run x clock scenario rf = Some (rr, rf')"
  obtains res rf1 reason q where "run_inner x clock scenario rf = Some (res, rf1)"
    "emit_built x clock (agent_shutdown reason) rf1 = (q, rf')"
    "rr = (case res of Inr final \<Rightarrow> reference_record ''completed'' final rf'
      | Inl _ \<Rightarrow> reference_record ''blocked'' JNull rf')"
proof -
  from assms obtain res rf1 where r: "run_inner x clock scenario rf = Some (res, rf1)"
    and c: "(rr, rf') = (case res of
         Inr final \<Rightarrow>
           (let rf2 = shutdown x clock ''completed'' rf1 in (reference_record ''completed'' final rf2, rf2))
       | Inl _ \<Rightarrow>
           (let rf2 = shutdown x clock ''error'' rf1 in (reference_record ''blocked'' JNull rf2, rf2)))"
    by (auto simp: reference_run_def)
  show thesis
  proof (cases res)
    case (Inl blocked)
    obtain q where "emit_built x clock (agent_shutdown ''error'') rf1 = (q, shutdown x clock ''error'' rf1)"
      using shutdown_emits by blast
    with that [OF r] c Inl show thesis by (simp add: Let_def)
  next
    case (Inr final)
    obtain q where "emit_built x clock (agent_shutdown ''completed'') rf1 = (q, shutdown x clock ''completed'' rf1)"
      using shutdown_emits by blast
    with that [OF r] c Inr show thesis by (simp add: Let_def)
  qed
qed

lemma reference_run_ok:
  assumes "reference_run x clock scenario (start_session n em) = Some (rr, rf')" "e_records em = []"
  shows "session_ok (rf_builder (start_session n em)) em rf'"
  using assms(1)
proof (rule reference_run_cases)
  fix res rf1 reason q
  assume "run_inner x clock scenario (start_session n em) = Some (res, rf1)"
    and s: "emit_built x clock (agent_shutdown reason) rf1 = (q, rf')"
  then have "agent_steps x clock scenario (start_session n em) rf1" by (intro run_inner_steps)
  moreover have "agent_steps x clock scenario rf1 rf'" using context_steps [OF s, of AgentShutdown] by simp
  ultimately have "agent_steps x clock scenario (start_session n em) rf'" by (rule rtranclp_trans)
  moreover have "builder_ok (rf_builder (start_session n em))" 
    unfolding start_session_def reference.simps by (rule new_builder_ok)
  ultimately show ?thesis using start_session_ok [OF assms(2)] by (rule agent_steps_ok)
qed

section \<open>How a run ends\<close>

text \<open>The last emission of the loop, and whether the guarded action went ahead.\<close>

lemma emit_built_last:
  assumes "emit_built x clock build rf = (res, rf')" "builds_at p build"
  obtains rec ctx where "rf_emissions rf' = rf_emissions rf @ [(rec, ctx)]"
    "res = (if proceeds rec then Inr ctx else Inl rec)"
  using assms by (auto elim!: emit_built_cases)

lemma emit_built_blocked:
  assumes "emit_built x clock build rf = (Inl blocked, rf')" "builds_at p build"
  shows "\<exists>before ctx. rf_emissions rf' = before @ [(blocked, ctx)] \<and> \<not> proceeds blocked"
  using assms by (rule emit_built_last) (auto split: if_splits)

lemma model_steps_blocked:
  "model_steps x clock scenario steps msgs rf = Some (Inl blocked, rf') \<Longrightarrow>
     \<exists>before ctx. rf_emissions rf' = before @ [(blocked, ctx)] \<and> \<not> proceeds blocked"
proof (induction steps arbitrary: msgs rf)
  case (Cons st steps)
  from Cons.prems show ?case
  proof (cases rule: model_turn)
    case (pre_blocked b)
    then show ?thesis using emit_built_blocked [of x clock _ rf b rf' PreModelCall] by auto
  next
    case (post_blocked ctx rf1 build b)
    then show ?thesis using emit_built_blocked [of x clock build rf1 b rf' PostModelCall] by auto
  next
    case (called ctx rf1 build ctx2 rf2 calls msgs1 msgs2 rf3 msgs3)
    then show ?thesis using Cons.IH by blast
  qed simp
qed simp

lemma run_inner_blocked:
  assumes "run_inner x clock scenario rf = Some (Inl blocked, rf')"
  shows "\<exists>before ctx. rf_emissions rf' = before @ [(blocked, ctx)] \<and> \<not> proceeds blocked"
  using assms
proof (cases rule: run_inner_cases)
  case (startup_blocked b)
  then show ?thesis using emit_built_blocked [of x clock _ rf b rf' AgentStartup] by auto
next
  case (input_blocked ctx rf1 content role b)
  then show ?thesis using emit_built_blocked [of x clock _ rf1 b rf' Input] by auto
next
  case (loop ctx rf1 content role ctx2 rf2 msgs q rf3)
  from loop(4) consider "q = Inl blocked" "rf' = rf3"
    | final where "emit_built x clock (output_ctx final) rf3 = (Inl blocked, rf')" by auto
  then show ?thesis
  proof cases
    case 1
    with loop(3) model_steps_blocked show ?thesis by blast
  next
    case 2
    then show ?thesis using emit_built_blocked [of x clock _ rf3 blocked rf' Output] by auto
  qed
qed

lemma run_inner_output:
  assumes "run_inner x clock scenario rf = Some (Inr final, rf')" "final \<noteq> JNull"
  shows "\<exists>before rec ctx out. rf_emissions rf' = before @ [(rec, ctx)] \<and> proceeds rec
    \<and> obj_get ctx ''output'' = Some out \<and> final = value_index out ''content''"
  using assms(1)
proof (cases rule: run_inner_cases)
  case (loop ctx rf1 content role ctx2 rf2 msgs q rf3)
  with assms(2) obtain f ctx3 out where "emit_built x clock (output_ctx f) rf3 = (Inr ctx3, rf')"
    "obj_get ctx3 ''output'' = Some out" "final = value_index out ''content''" by auto
  moreover from this(1) obtain rec ctx4 where "rf_emissions rf' = rf_emissions rf3 @ [(rec, ctx4)]"
    "Inr ctx3 = (if proceeds rec then Inr ctx4 else Inl rec)"
    by (rule emit_built_last [where p = Output]) simp
  ultimately show ?thesis by (auto split: if_splits)
qed simp_all

section \<open>The run returns\<close>

text \<open>The tool calls a scenario scripts, and how many emissions a session can have.\<close>

definition step_calls :: "json \<Rightarrow> json list" where
  "step_calls st = list_of (value_index (value_index st ''respond'') ''tool_calls'')"

definition model_script :: "json \<Rightarrow> json list" where
  "model_script scenario = list_of (value_index scenario ''model_script'')"

definition tools_answer :: "json \<Rightarrow> bool" where
  "tools_answer scenario \<longleftrightarrow>
     (\<forall>st\<in>set (model_script scenario). \<forall>tc\<in>set (step_calls st). \<forall>args.
        invoke_tool scenario (str_at tc ''name'') args \<noteq> None)"

definition session_size :: "json \<Rightarrow> nat" where
  "session_size scenario = 4 + (\<Sum>st\<leftarrow>model_script scenario. 2 + 2 * length (step_calls st))"

lemma do_tool_call_returns:
  assumes "\<forall>args. invoke_tool scenario (str_at tc ''name'') args \<noteq> None"
  shows "\<exists>res rf'. do_tool_call x clock scenario tc rf = Some (res, rf')
    \<and> length (rf_emissions rf') \<le> length (rf_emissions rf) + 2"
proof -
  let ?build = "pre_tool_call (str_at tc ''id'') (str_at tc ''name'') (value_index tc ''args'')"
  obtain r1 rf1 where e: "emit_built x clock ?build rf = (r1, rf1)" by (cases "emit_built x clock ?build rf")
  have n1: "length (rf_emissions rf1) = length (rf_emissions rf) + 1"
    using e builds_at_points(5) by (rule emit_built_last) simp
  show ?thesis
  proof (cases r1)
    case (Inl blocked)
    with e n1 show ?thesis by (simp add: do_tool_call_def Let_def)
  next
    case (Inr ctx)
    with e have e': "emit_built x clock ?build rf = (Inr ctx, rf1)" by simp
    then obtain call where call: "obj_get ctx ''tool_call'' = Some call" by (rule permitted_tool_call)
    from assms obtain val err where r: "invoke_tool scenario (str_at tc ''name'') (value_index call ''args'') = Some (val, err)"
      by fastforce
    let ?rf2 = "rf1\<lparr>rf_tool_log := rf_tool_log rf1 @ [tool_entry (str_at tc ''name'') (value_index call ''args'')]\<rparr>"
    let ?post = "post_tool_call (str_at tc ''id'') (str_at tc ''name'') (value_index call ''args'') val err"
    obtain r3 rf3 where e3: "emit_built x clock ?post ?rf2 = (r3, rf3)" by (cases "emit_built x clock ?post ?rf2")
    have "length (rf_emissions rf3) = length (rf_emissions ?rf2) + 1"
      using e3 builds_at_points(6) by (rule emit_built_last) simp
    with n1 show ?thesis using e' call r e3 by (cases r3) (simp_all add: do_tool_call_def Let_def)
  qed
qed

lemma tool_calls_returns:
  "\<forall>tc\<in>set tcs. \<forall>args. invoke_tool scenario (str_at tc ''name'') args \<noteq> None \<Longrightarrow>
     \<exists>msgs' rf'. tool_calls x clock scenario tcs msgs rf = Some (msgs', rf')
       \<and> length (rf_emissions rf') \<le> length (rf_emissions rf) + 2 * length tcs"
proof (induction tcs arbitrary: msgs rf)
  case (Cons tc tcs)
  from Cons.prems obtain res rf1 where d: "do_tool_call x clock scenario tc rf = Some (res, rf1)"
    "length (rf_emissions rf1) \<le> length (rf_emissions rf) + 2"
    using do_tool_call_returns [of scenario tc x clock rf] by auto
  let ?msgs = "msgs @ [case res of Inl blocked \<Rightarrow> blocked_message blocked | Inr m \<Rightarrow> m]"
  from Cons.IH [of ?msgs rf1] Cons.prems obtain msgs' rf' where
    "tool_calls x clock scenario tcs ?msgs rf1 = Some (msgs', rf')"
    "length (rf_emissions rf') \<le> length (rf_emissions rf1) + 2 * length tcs" by auto
  with d show ?case by simp
qed simp

lemma permitted_member:
  assumes "emit_built x clock build rf = (Inr ctx, rf')" "builds_at p build"
    and "\<And>now b. obj_get (fst (build now b)) k \<noteq> None"
  shows "\<exists>v. obj_get ctx k = Some v"
proof -
  obtain ctx0 b where b: "build (clock (bl_seq (rf_builder rf))) (rf_builder rf) = (ctx0, b)"
    by (cases "build (clock (bl_seq (rf_builder rf))) (rf_builder rf)")
  from permitted_members [OF assms(1,2) b] assms(3) [of "clock (bl_seq (rf_builder rf))" "rf_builder rf"] b
  show ?thesis by (auto simp: members_kept_def)
qed

lemma model_steps_returns:
  assumes "\<forall>st\<in>set steps. \<forall>tc\<in>set (step_calls st). \<forall>args. invoke_tool scenario (str_at tc ''name'') args \<noteq> None"
  shows "\<exists>res rf'. model_steps x clock scenario steps msgs rf = Some (res, rf')
    \<and> length (rf_emissions rf') \<le> length (rf_emissions rf) + (\<Sum>st\<leftarrow>steps. 2 + 2 * length (step_calls st))"
  using assms
proof (induction steps arbitrary: msgs rf)
  case (Cons st steps)
  let ?resp = "value_index st ''respond''"
  let ?post = "post_model_call ''mock'' (value_index ?resp ''content'') (step_calls st) (str_at ?resp ''finish_reason'')"
  obtain r1 rf1 where e1: "emit_built x clock (pre_model_call ''mock'' msgs) rf = (r1, rf1)" (is "?e = _")
    by (cases ?e)
  have n1: "length (rf_emissions rf1) = length (rf_emissions rf) + 1"
    using e1 builds_at_points(3) by (rule emit_built_last) simp
  show ?case
  proof (cases r1)
    case (Inl blocked)
    with e1 n1 show ?thesis by simp
  next
    case (Inr ctx)
    obtain m where m: "obj_get ctx ''messages'' = Some m"
    proof -
      have "\<exists>v. obj_get ctx ''messages'' = Some v"
        by (rule permitted_member [OF e1 [unfolded Inr] builds_at_points(3)]) (simp add: pre_model_call_def Let_def split_beta)
      with that show thesis by blast
    qed
    obtain r2 rf2 where e2: "emit_built x clock ?post rf1 = (r2, rf2)" (is "?e = _") by (cases ?e)
    have n2: "length (rf_emissions rf2) = length (rf_emissions rf1) + 1"
      using e2 builds_at_points(4) by (rule emit_built_last) simp
    note run = model_steps.simps(2) [of x clock scenario st steps msgs rf, unfolded Let_def step_calls_def [symmetric]]
    show ?thesis
    proof (cases r2)
      case b: (Inl blocked)
      with e1 e2 Inr m n1 n2 show ?thesis unfolding run by simp
    next
      case c: (Inr ctx2)
      show ?thesis
      proof (cases "step_calls st = []")
        case True
        with e1 e2 Inr m n1 n2 c show ?thesis unfolding run by simp
      next
        case False
        obtain msgs2 rf3 where t: "tool_calls x clock scenario (step_calls st) (unwrap_or (as_array m) msgs) rf2 = Some (msgs2, rf3)"
          "length (rf_emissions rf3) \<le> length (rf_emissions rf2) + 2 * length (step_calls st)"
          using tool_calls_returns [of "step_calls st" scenario x clock "unwrap_or (as_array m) msgs" rf2] Cons.prems by auto
        let ?msgs = "msgs2 @ [assistant_message (value_index ?resp ''content'')]"
        obtain res rf' where r: "model_steps x clock scenario steps ?msgs rf3 = Some (res, rf')"
          "length (rf_emissions rf') \<le> length (rf_emissions rf3) + (\<Sum>st\<leftarrow>steps. 2 + 2 * length (step_calls st))"
          using Cons.IH [of ?msgs rf3] Cons.prems by auto
        have "model_steps x clock scenario (st # steps) msgs rf = Some (res, rf')"
          unfolding run using e1 e2 Inr m c False t(1) r(1) by simp
        with n1 n2 t(2) r(2) show ?thesis by simp
      qed
    qed
  qed
qed simp

lemma run_inner_returns:
  assumes "tools_answer scenario"
  shows "\<exists>res rf'. run_inner x clock scenario rf = Some (res, rf')
    \<and> length (rf_emissions rf') + 1 \<le> length (rf_emissions rf) + session_size scenario"
proof -
  let ?inp = "value_index scenario ''input''"
  let ?content = "value_index ?inp ''content''" and ?role = "unwrap_or (as_str (value_index ?inp ''role'')) ''user''"
  let ?msgs = "[JObj [(''content'', ?content), (''role'', JStr ?role)]]"
  obtain r1 rf1 where e1: "emit_built x clock (agent_startup (tool_names scenario)) rf = (r1, rf1)" (is "?e = _")
    by (cases ?e)
  have n1: "length (rf_emissions rf1) = length (rf_emissions rf) + 1"
    using e1 builds_at_points(1) by (rule emit_built_last) simp
  obtain r2 rf2 where e2: "emit_built x clock (input ?content ?role) rf1 = (r2, rf2)" (is "?e = _") by (cases ?e)
  have n2: "length (rf_emissions rf2) = length (rf_emissions rf1) + 1"
    using e2 builds_at_points(2) by (rule emit_built_last) simp
  obtain q rf3 where m: "model_steps x clock scenario (list_of (value_index scenario ''model_script'')) ?msgs rf2 = Some (q, rf3)"
    and n3: "length (rf_emissions rf3) + 4 \<le> length (rf_emissions rf2) + session_size scenario"
    using model_steps_returns [of "model_script scenario" scenario x clock ?msgs rf2] assms
    by (auto simp: tools_answer_def session_size_def model_script_def)
  show ?thesis
  proof (cases "\<exists>ctx1 ctx2 final. r1 = Inr ctx1 \<and> r2 = Inr ctx2 \<and> q = Inr final \<and> final \<noteq> JNull")
    case False
    with e1 e2 m n1 n2 n3 show ?thesis
      by (cases r1; cases r2; cases q) (simp_all add: run_inner_def Let_def session_size_def)
  next
    case True
    then obtain ctx1 ctx2 final where c: "r1 = Inr ctx1" "r2 = Inr ctx2" "q = Inr final" "final \<noteq> JNull" by blast
    obtain r4 rf4 where e4: "emit_built x clock (output_ctx final) rf3 = (r4, rf4)" (is "?e = _") by (cases ?e)
    have n4: "length (rf_emissions rf4) = length (rf_emissions rf3) + 1"
      using e4 builds_at_points(7) by (rule emit_built_last) simp
    show ?thesis
    proof (cases r4)
      case (Inl blocked)
      with e1 e2 m c e4 n1 n2 n3 n4 show ?thesis by (simp add: run_inner_def Let_def)
    next
      case (Inr ctx4)
      have "\<exists>v. obj_get ctx4 ''output'' = Some v"
        by (rule permitted_member [OF e4 [unfolded Inr] builds_at_points(7)]) (simp add: output_ctx_def Let_def split_beta)
      with Inr e1 e2 m c e4 n1 n2 n3 n4 show ?thesis by (auto simp: run_inner_def Let_def)
    qed
  qed
qed

lemma reference_run_returns:
  assumes "tools_answer scenario"
  shows "\<exists>rr rf'. reference_run x clock scenario rf = Some (rr, rf')
    \<and> length (rf_emissions rf') \<le> length (rf_emissions rf) + session_size scenario"
proof -
  obtain res rf1 where r: "run_inner x clock scenario rf = Some (res, rf1)"
    "length (rf_emissions rf1) + 1 \<le> length (rf_emissions rf) + session_size scenario"
    using run_inner_returns [OF assms] by blast
  have n: "length (rf_emissions (shutdown x clock reason rf1)) = length (rf_emissions rf1) + 1" for reason
    by (simp add: shutdown_def split_beta Let_def)
  from r n show ?thesis by (cases res) (simp_all add: reference_run_def Let_def)
qed

end
