(* ===== verification/Ctk_Run_Properties.thy ===== *)
theory Ctk_Run_Properties
  imports Ctk_Reference_Laws Samples
begin

text \<open>
  The properties of the conformance runner's scripted host code and of its reference agent
  (\<open>ctk.rs\<close>), each with a concrete instance.
\<close>

section \<open>Scripted faults\<close>

text \<open>The reason a fault of a script is recorded with, by the path the interceptor is registered on.\<close>

definition fault_reason :: "bool \<Rightarrow> string \<Rightarrow> host_error option" where
  "fault_reason managed f =
     (if f = ''raise'' then Some InterceptorFailed
      else if f = ''hang'' then Some InterceptorTimeout
      else if f = ''malformed_verdict'' then Some VerdictInvalid
      else if f = ''cancel'' then Some (if managed then InterceptorFailed else VerdictInvalid)
      else None)"

definition plays :: "externs \<Rightarrow> json list \<Rightarrow> bool \<Rightarrow> bound \<Rightarrow> bool" where
  "plays x rules managed b \<longleftrightarrow>
     b_interceptor b = (if managed then Managed (scripted_managed x rules) else Standard (scripted_interceptor x rules))"

lemma scripted_intercept_first:
  "scripted_intercept rules ctx = (case find (rule_fires ctx) rules of None \<Rightarrow> allow_json | Some r \<Rightarrow> rule_answer r)"
  by (induction rules) (auto simp: rule_fires_def)

lemma invalid_verdict_refused: "validate fx s invalid_verdict = Inl VerdictInvalid"
  by (simp add: validate_def invalid_verdict_def allow_def opt_holds_def)

lemma bare_transform_refused:
  "\<exists>e. verdict_from_wire fx s (JObj [(''decision'', JStr ''transform'')]) = Inl e"
proof -
  have "decision_from_wire [(''decision'', JStr ''transform'')] = Inr Transform"
    by (simp add: decision_from_wire_def get_str_def)
  then have "verdict_from_wire fx s (JObj [(''decision'', JStr ''transform'')]) \<noteq> Inr v" for v
    by (auto simp: verdict_from_wire_def res_bind_Inr_iff transform_from_wire_def split: if_splits)
  then show ?thesis by (cases "verdict_from_wire fx s (JObj [(''decision'', JStr ''transform'')])") auto
qed

text \<open>
  C39: The faults a vector scripts reach the failures they are named for. When the first rule that fires
  carries a fault, an interceptor registered to deny on errors settles as the deny the specification gives
  it: a raise is a failed interceptor on both paths, a hang beyond a bound shorter than the grace a timeout
  (of the emitter's own timer on the standard path), a verdict without its transform body is invalid, and a
  cancellation is a failed interceptor on the managed path and, having no such outcome, an invalid verdict on
  the standard one.
\<close>

theorem scripted_faults_surface:
  assumes "find (rule_fires (JObj ctx)) rules = Some rule" "value_str rule ''fault'' = Some f"
    and "fault_reason managed f = Some e" "spec_of_context ctx = Some s"
    and "plays x rules managed b" "b_on_error b = OE_Deny"
    and "f = ''hang'' \<Longrightarrow> opt_holds (\<lambda>d. d < HANG_GRACE) (limit em b) \<and> (managed \<or> e_tokio em)"
    and "invoke x em ctx i b log = (st, log')"
  shows "\<exists>d. st_verdict st = host_error e d"
proof -
  have wire: "scripted_intercept rules (JObj ctx) = rule_answer rule"
    by (simp add: scripted_intercept_first assms(1))
  have ev: "evaluate x rules ctx =
      Some (if f = ''raise'' then SRaise else if f = ''hang'' then SHang
        else if f = ''cancel'' then SCancel else SVerdict invalid_verdict)"
  proof -
    from assms(3) consider "f = ''raise''" | "f = ''hang''" | "f = ''malformed_verdict''" | "f = ''cancel''"
      by (auto simp: fault_reason_def split: if_splits)
    then show ?thesis
      using assms(2,4) bare_transform_refused [of "ext_f64 x" s]
      by cases (auto simp: evaluate_def Let_def wire rule_answer_def fault_of_def fault_json_def value_str_def
          value_get_def)
  qed
  obtain c where call: "call_isolated em b ctx log = c" by simp
  have "(\<exists>d k. c = Inl \<lparr>cf_reason = e, cf_detail = d, cf_continuable = k\<rparr>)
      \<or> c = Inr invalid_verdict \<and> e = VerdictInvalid"
    using assms(3,5,7) ev call
    by (cases managed)
       (auto simp: fault_reason_def plays_def call_isolated_def scripted_managed_def scripted_interceptor_def
         covered_def opt_holds_def split: if_splits option.splits)
  then show ?thesis
  proof (elim disjE exE conjE)
    fix d k assume "c = Inl \<lparr>cf_reason = e, cf_detail = d, cf_continuable = k\<rparr>"
    with assms(6,8) call show ?thesis by (auto simp: invoke_def settle_def Let_def)
  next
    assume "c = Inr invalid_verdict" "e = VerdictInvalid"
    with assms(6,8) call show ?thesis
      by (auto simp: invoke_def settle_def Let_def invalid_verdict_refused covered_def)
  qed
qed

definition raising_rule :: json where
  "raising_rule = JObj [(''at'', JStr ''output''), (''fault'', JStr ''raise'')]"

definition raising :: bound where
  "raising = bind (scripted_interceptor sample_externs [raising_rule])"

theorem scripted_faults_surface_witness:
  "\<exists>d. st_verdict (fst (invoke sample_externs (new_emitter False Draft Enforce None) (ctx_with ''hi'') 0 raising []))
    = host_error InterceptorFailed d"
proof -
  obtain st log' where i: "invoke sample_externs (new_emitter False Draft Enforce None) (ctx_with ''hi'') 0 raising []
      = (st, log')" (is "?i = _") by (cases ?i)
  have "rule_fires (JObj (ctx_with ''hi'')) raising_rule"
    by (simp add: rule_fires_def raising_rule_def ctx_with_def value_str_def value_get_def value_object_def
        matches_def IP_def)
  then have f: "find (rule_fires (JObj (ctx_with ''hi''))) [raising_rule] = Some raising_rule" by simp
  have "\<exists>d. st_verdict st = host_error InterceptorFailed d"
    by (rule scripted_faults_surface [OF f _ _ sample_spec _ _ _ i, where f = "''raise''" and managed = False])
       (simp_all add: raising_rule_def raising_def bind_def plays_def fault_reason_def value_str_def value_get_def)
  with i show ?thesis by simp
qed

section \<open>The reference agent\<close>

text \<open>
  C14: The reference agent runs a tool only when its emission permits it. The tool invocations of a run are
  exactly the calls of those contexts at \<open>pre_tool_call\<close> whose record lets the host proceed, in order,
  each with the arguments the context was handed back with, so a redaction of the arguments is what the tool
  sees and a blocked call never reaches it.
\<close>

theorem tools_run_only_when_permitted:
  assumes "reference_run x clock scenario (start_session n em) = Some (rr, rf')" "e_records em = []"
    and "length (rf_emissions rf') \<le> 2 ^ 63"
  shows "rr_tool_invocations rr =
    map (tool_of \<circ> snd) (filter (\<lambda>(rec, ctx). r_point rec = PreToolCall \<and> proceeds rec) (rf_emissions rf'))"
proof -
  have "tools_permitted rf'"
    using reference_run_ok [OF assms(1,2)] assms(3) by (simp add: session_ok_def)
  moreover have "rr_tool_invocations rr = rf_tool_log rf'"
    using assms(1)
    by (rule reference_run_cases) (auto simp: reference_record_def Let_def split: sum.splits)
  moreover have "permitted_tool = (\<lambda>(rec, ctx). r_point rec = PreToolCall \<and> proceeds rec)"
    by (auto simp: permitted_tool_def fun_eq_iff)
  ultimately show ?thesis by (simp add: tools_permitted_def)
qed

text \<open>A scenario with one tool call.\<close>

definition tool_scenario :: json where
  "tool_scenario = JObj
     [(''input'', JObj [(''content'', JStr ''go'')]),
      (''model_script'', JArr [JObj [(''respond'', JObj [(''tool_calls'', JArr
         [JObj [(''id'', JStr ''1''), (''name'', JStr ''t'')]])])]]),
      (''tools'', JArr [JObj [(''behavior'', JArr [JObj [(''return'', JStr ''ok'')]]), (''name'', JStr ''t'')]])]"

lemma tool_scenario: "tools_answer tool_scenario" "session_size tool_scenario = 8"
proof -
  have m: "model_script tool_scenario =
      [JObj [(''respond'', JObj [(''tool_calls'', JArr [JObj [(''id'', JStr ''1''), (''name'', JStr ''t'')]])])]]"
    by (simp add: model_script_def tool_scenario_def list_of_def value_index_def value_get_def)
  show "session_size tool_scenario = 8"
    by (simp add: session_size_def m step_calls_def list_of_def value_index_def value_get_def)
  show "tools_answer tool_scenario"
    by (simp add: tools_answer_def m step_calls_def list_of_def value_index_def value_get_def str_at_def)
       (simp add: invoke_tool_def tool_scenario_def list_of_def value_index_def value_get_def behaves_def)
qed

definition any_emitter :: emitter where
  "any_emitter = new_emitter False Draft Enforce None"

lemma tool_run:
  obtains rr rf' where
    "reference_run sample_externs (\<lambda>_. ''now'') tool_scenario (start_session 1 any_emitter) = Some (rr, rf')"
    "e_records any_emitter = []" "length (rf_emissions rf') \<le> 2 ^ 63"
proof -
  obtain rr rf' where r: "reference_run sample_externs (\<lambda>_. ''now'') tool_scenario (start_session 1 any_emitter) = Some (rr, rf')"
    and "length (rf_emissions rf') \<le> length (rf_emissions (start_session 1 any_emitter)) + session_size tool_scenario"
    using reference_run_returns [OF tool_scenario(1)] by blast
  then have "length (rf_emissions rf') \<le> 8" by (simp add: tool_scenario(2) start_session_def)
  then have "length (rf_emissions rf') \<le> 2 ^ 63" by (rule order_trans) simp
  with r that show thesis by (simp add: any_emitter_def new_emitter_def)
qed

theorem tools_run_only_when_permitted_witness:
  "\<exists>rr rf'. reference_run sample_externs (\<lambda>_. ''now'') tool_scenario (start_session 1 any_emitter) = Some (rr, rf')
    \<and> length (rr_tool_invocations rr) \<le> length (rf_emissions rf')"
proof (rule tool_run)
  fix rr rf'
  assume r: "reference_run sample_externs (\<lambda>_. ''now'') tool_scenario (start_session 1 any_emitter) = Some (rr, rf')"
    and "e_records any_emitter = []" "length (rf_emissions rf') \<le> 2 ^ 63"
  from tools_run_only_when_permitted [OF this] r show ?thesis by (auto intro!: exI)
qed



text \<open>
  The outcome of a run is what its emissions decided. A run is reported as blocked only when the
  last emission before the shutdown did not let the host proceed, and then it has no output. An output of a
  completed run is the content of the context its output emission permitted and handed back.
\<close>

theorem outcome_is_decided:
  assumes "reference_run x clock scenario (start_session n em) = Some (rr, rf')"
  shows "rr_outcome rr = ''blocked'' \<longrightarrow> rr_final_output rr = JNull
      \<and> (\<exists>before blocked ctx last. rf_emissions rf' = before @ [(blocked, ctx), last] \<and> \<not> proceeds blocked)"
    and "rr_outcome rr = ''completed'' \<and> rr_final_output rr \<noteq> JNull \<longrightarrow>
      (\<exists>before rec ctx out last. rf_emissions rf' = before @ [(rec, ctx), last] \<and> proceeds rec
         \<and> obj_get ctx ''output'' = Some out \<and> rr_final_output rr = value_index out ''content'')"
    and "rr_outcome rr \<in> {''blocked'', ''completed''}"
proof -
  from assms obtain res rf1 reason q where r: "run_inner x clock scenario (start_session n em) = Some (res, rf1)"
    and s: "emit_built x clock (agent_shutdown reason) rf1 = (q, rf')"
    and rr: "rr = (case res of Inr final \<Rightarrow> reference_record ''completed'' final rf'
      | Inl _ \<Rightarrow> reference_record ''blocked'' JNull rf')"
    by (rule reference_run_cases)
  obtain last where last: "rf_emissions rf' = rf_emissions rf1 @ [last]"
    using s builds_at_points(8) by (rule emit_built_last) simp
  show "rr_outcome rr = ''blocked'' \<longrightarrow> rr_final_output rr = JNull
      \<and> (\<exists>before blocked ctx last. rf_emissions rf' = before @ [(blocked, ctx), last] \<and> \<not> proceeds blocked)"
  proof (cases res)
    case (Inl blocked)
    from run_inner_blocked [OF r [unfolded Inl]] Inl rr last show ?thesis
      by (auto simp: reference_record_def Let_def)
  qed (simp add: rr reference_record_def Let_def)
  show "rr_outcome rr = ''completed'' \<and> rr_final_output rr \<noteq> JNull \<longrightarrow>
      (\<exists>before rec ctx out last. rf_emissions rf' = before @ [(rec, ctx), last] \<and> proceeds rec
         \<and> obj_get ctx ''output'' = Some out \<and> rr_final_output rr = value_index out ''content'')"
  proof (cases res)
    case (Inr final)
    have o': "rr_final_output rr = final" by (simp add: rr Inr reference_record_def Let_def)
    show ?thesis
    proof
      assume "rr_outcome rr = ''completed'' \<and> rr_final_output rr \<noteq> JNull"
      with o' have "final \<noteq> JNull" by simp
      from run_inner_output [OF r [unfolded Inr] this] last o'
      show "\<exists>before rec ctx out last. rf_emissions rf' = before @ [(rec, ctx), last] \<and> proceeds rec
         \<and> obj_get ctx ''output'' = Some out \<and> rr_final_output rr = value_index out ''content''" by auto
    qed
  qed (simp add: rr reference_record_def Let_def)
  show "rr_outcome rr \<in> {''blocked'', ''completed''}"
    by (cases res) (simp_all add: rr reference_record_def Let_def)
qed

theorem outcome_is_decided_witness:
  "\<exists>rr rf'. reference_run sample_externs (\<lambda>_. ''now'') tool_scenario (start_session 1 any_emitter) = Some (rr, rf')
    \<and> rr_outcome rr \<in> {''blocked'', ''completed''}"
proof (rule tool_run)
  fix rr rf'
  assume r: "reference_run sample_externs (\<lambda>_. ''now'') tool_scenario (start_session 1 any_emitter) = Some (rr, rf')"
  from outcome_is_decided(3) [OF r] r show ?thesis by blast
qed

text \<open>
  The reference agent never panics and never hangs when its tools answer. If every tool the model
  script calls is in the scenario with a behaviour for any arguments, a run returns, from any session state,
  whatever the interceptors, the resolver and the clock do, within two emissions for each model step, two for
  each tool call and four around them.
\<close>

theorem agent_returns:
  assumes "tools_answer scenario"
  shows "\<exists>rr rf'. reference_run x clock scenario rf = Some (rr, rf')
    \<and> length (rf_emissions rf') \<le> length (rf_emissions rf) + session_size scenario"
  using assms by (rule reference_run_returns)

theorem agent_returns_witness:
  "\<exists>rr rf'. reference_run sample_externs (\<lambda>_. ''now'') tool_scenario (start_session 1 any_emitter) = Some (rr, rf')
    \<and> length (rf_emissions rf') \<le> 8"
  using agent_returns [OF tool_scenario(1), of sample_externs "\<lambda>_. ''now''" "start_session 1 any_emitter"]
  by (simp add: tool_scenario(2) start_session_def)

end
