(* ===== verification/Ffi_Ctk.thy ===== *)
theory Ffi_Ctk
  imports Ffi_Surface Ctk_Engine
begin

text \<open>
  \<open>ffi_surface.rs\<close>, the conformance engine over JSON text: the bindings evaluate a vector's
  scripts and its assertions with the same engine as the Rust runner. The decoders of rule lists,
  capability lists and run records are the arguments \<open>de_rules\<close>, \<open>de_caps\<close> and
  \<open>de_run\<close>; results are the values the code then serializes.
\<close>

definition ctk_scripted_intercept ::
  "decoders \<Rightarrow> (string \<Rightarrow> json list option) \<Rightarrow> string \<Rightarrow> string \<Rightarrow> ffi_error + json" where
  "ctk_scripted_intercept de de_rules rules_json ctx_json =
     res_bind (or_err (HostCode ContextInvalid) (de_rules rules_json)) (\<lambda>rules.
     res_bind (parse_json de ctx_json) (\<lambda>ctx. Inr (scripted_intercept rules ctx)))"

definition ctk_scripted_resolve ::
  "externs \<Rightarrow> decoders \<Rightarrow> (string \<Rightarrow> json list option) \<Rightarrow> string \<Rightarrow> string \<Rightarrow> string \<Rightarrow> ffi_error + json" where
  "ctk_scripted_resolve x de de_rules rules_json ctx_json identity =
     res_bind (or_err (HostCode ContextInvalid) (de_rules rules_json)) (\<lambda>rules.
     res_bind (parse_json de ctx_json) (\<lambda>ctx. Inr (scripted_resolve x rules ctx identity)))"

text \<open>\<open>None\<close> is the serialized null: no skip.\<close>

definition ctk_should_skip ::
  "decoders \<Rightarrow> (string \<Rightarrow> string list option) \<Rightarrow> string \<Rightarrow> string \<Rightarrow> ffi_error + string list option" where
  "ctk_should_skip de de_caps vector_json harness_caps_json =
     res_bind (parse_json de vector_json) (\<lambda>vector.
     res_bind (or_err (HostCode ContextInvalid) (de_caps harness_caps_json)) (\<lambda>caps.
       Inr (should_skip vector caps)))"

definition ctk_assert ::
  "(json \<Rightarrow> string) \<Rightarrow> decoders \<Rightarrow> (string \<Rightarrow> json list option) \<Rightarrow> (string \<Rightarrow> run_record option)
     \<Rightarrow> string \<Rightarrow> string \<Rightarrow> string \<Rightarrow> ffi_error + vector_result" where
  "ctk_assert jprint de de_rules de_run vector_json recorded_json run_record_json =
     res_bind (parse_json de vector_json) (\<lambda>vector.
     res_bind (or_err (HostCode ContextInvalid) (de_rules recorded_json)) (\<lambda>recorded.
     res_bind (or_err (HostCode ContextInvalid) (de_run run_record_json)) (\<lambda>rr.
       Inr (assert_vector jprint vector recorded rr))))"

lemma ctk_assert_Inr:
  "ctk_assert jprint de de_rules de_run v rs rr = Inr r \<Longrightarrow>
     \<exists>vector recorded run. de_value de v = Some vector \<and> de_rules rs = Some recorded \<and> de_run rr = Some run
       \<and> r = assert_vector jprint vector recorded run"
  by (auto simp: ctk_assert_def parse_json_def or_err_def split: option.splits)

end
