(* ===== verification/C_Abi.thy ===== *)
theory C_Abi
  imports Ffi_Ctk Decl_Builder
begin

text \<open>
  \<open>ffi/src/lib.rs\<close>, the C boundary over \<open>ffi_surface\<close>: marshalling of arguments,
  panics, results and their release. A pointer argument is \<open>None\<close> when it is null and otherwise the
  bytes up to the terminating NUL. A closure run under \<open>catch_unwind\<close> ends in a result or in a panic with
  its payload; an entry point whose own code panics aborts the process (\<open>None\<close>). The serializers of
  the results and the wording of error details are fields of \<open>printers\<close>. The core functions
  as modelled do not panic.
\<close>

section \<open>Results\<close>

record ah_result =
  ah_ok :: bool
  ah_value :: string
  ah_code :: "string option"

type_synonym out = "string \<times> string + string"

text \<open>\<open>CString::new\<close>: no interior NUL.\<close>

definition c_string :: "string \<Rightarrow> string option" where
  "c_string s = (if CHR 0x00 \<in> set s then None else Some s)"

definition c_string_or :: "string \<Rightarrow> string \<Rightarrow> string" where
  "c_string_or s fallback = (case c_string s of None \<Rightarrow> fallback | Some c \<Rightarrow> c)"

definition marshal_code :: string where
  "marshal_code = ''marshal_error''"

definition boxed :: "out \<Rightarrow> ah_result" where
  "boxed r =
     (case res_bind r (\<lambda>v. case c_string v of
             Some c \<Rightarrow> Inr c
           | None \<Rightarrow> Inl (marshal_code, ''result contains an interior NUL byte'')) of
        Inr c \<Rightarrow> \<lparr>ah_ok = True, ah_value = c, ah_code = None\<rparr>
      | Inl (code, detail) \<Rightarrow>
          \<lparr>ah_ok = False, ah_value = c_string_or detail ''detail contained an interior NUL byte'',
           ah_code = Some (c_string_or code marshal_code)\<rparr>)"

definition from_c :: "string \<times> string option \<Rightarrow> string \<times> string + string" where
  "from_c arg =
     (let (what, p) = arg in
      case p of
        None \<Rightarrow> Inr []
      | Some s \<Rightarrow> if utf8_ok s then Inr s else Inl (marshal_code, what @ '': argument is not valid UTF-8''))"

section \<open>Panics\<close>

text \<open>A payload that is a \<open>&str\<close> or a \<open>String\<close>, or another value.\<close>

datatype payload = Message string | OtherPayload

datatype 'a unwind = Finished 'a | Unwound payload

text \<open>\<open>String::truncate\<close> panics when the new length is not on a character boundary.\<close>

definition char_boundary :: "nat \<Rightarrow> string \<Rightarrow> bool" where
  "char_boundary n s \<longleftrightarrow> n = 0 \<or> n = length s \<or> n < length s \<and> \<not> cont (s ! n)"

definition str_truncate :: "nat \<Rightarrow> string \<Rightarrow> string option" where
  "str_truncate n s = (if n \<le> length s then if char_boundary n s then Some (take n s) else None else Some s)"

definition guarded :: "out unwind \<Rightarrow> ah_result option" where
  "guarded c =
     (case c of
        Finished r \<Rightarrow> Some (boxed r)
      | Unwound p \<Rightarrow>
          map_option (\<lambda>msg. boxed (Inl (''panic'', ''core panicked: '' @ msg)))
            (str_truncate 200 (case p of Message s \<Rightarrow> s | OtherPayload \<Rightarrow> ''non-string panic payload'')))"

section \<open>The entry points\<close>

record printers =
  pr_detail :: "string list \<Rightarrow> ffi_error \<Rightarrow> string"
  pr_json :: "json \<Rightarrow> string"
  pr_verdict :: "verdict \<Rightarrow> string"
  pr_aggregate :: "aggregate_out \<Rightarrow> string"
  pr_record :: "interception_record \<Rightarrow> string"
  pr_substitute :: "substitute_out \<Rightarrow> string"
  pr_managed :: "managed_out \<Rightarrow> string"
  pr_skip :: "string list option \<Rightarrow> string"
  pr_versions :: "string \<times> string list \<times> string list \<times> (string \<times> string \<times> string list) list \<Rightarrow> string"
  pr_resolved :: "resolved_declaration \<Rightarrow> string"
  pr_result :: "vector_result \<Rightarrow> string"

definition error_code :: "ffi_error \<Rightarrow> string" where
  "error_code e =
     (case e of HostCode h \<Rightarrow> host_error_str h | MarshalError \<Rightarrow> marshal_code
      | DeclCode d \<Rightarrow> class_code (de_class d))"

text \<open>The text of a core result, for the arguments it was computed from.\<close>

definition core_text :: "printers \<Rightarrow> ('a \<Rightarrow> string) \<Rightarrow> string list \<Rightarrow> ffi_error + 'a \<Rightarrow> out" where
  "core_text pr print args r =
     (case r of Inl e \<Rightarrow> Inl (error_code e, pr_detail pr args e) | Inr a \<Rightarrow> Inr (print a))"

definition core_out ::
  "printers \<Rightarrow> ('a \<Rightarrow> string) \<Rightarrow> string list \<Rightarrow> ffi_error + 'a \<Rightarrow> out unwind" where
  "core_out pr print args r = Finished (core_text pr print args r)"

text \<open>
  Every entry point: each argument marshalled, then the core function under the guard, whether it
  returns or panics.
\<close>

definition entry_point :: "(string \<times> string option) list \<Rightarrow> (string list \<Rightarrow> out unwind) \<Rightarrow> ah_result option" where
  "entry_point args f =
     guarded (case traverse from_c args of Inl e \<Rightarrow> Finished (Inl e) | Inr a \<Rightarrow> f a)"

definition ah_canonical_json where
  "ah_canonical_json x de pr value_json =
     entry_point [(''value_json'', value_json)]
       (\<lambda>a. core_out pr id a (ffi_canonical_json x de (a ! 0)))"

definition ah_context_identity where
  "ah_context_identity x de pr ctx_json =
     entry_point [(''ctx_json'', ctx_json)] (\<lambda>a. core_out pr id a (ffi_context_identity x de (a ! 0)))"

definition ah_validate_verdict where
  "ah_validate_verdict x de pr spec verdict_str =
     entry_point [(''spec'', spec), (''verdict_json'', verdict_str)]
       (\<lambda>a. core_out pr (pr_verdict pr) a (ffi_validate_verdict x de (a ! 0) (a ! 1)))"

definition ah_normalize_interceptor_response where
  "ah_normalize_interceptor_response x de pr spec response_json =
     entry_point [(''spec'', spec), (''response_json'', response_json)]
       (\<lambda>a. core_out pr (pr_json pr) a (normalize_interceptor_response x de (a ! 0) (a ! 1)))"

definition ah_validate_envelope where
  "ah_validate_envelope de pr ctx_json =
     entry_point [(''ctx_json'', ctx_json)] (\<lambda>a. core_out pr (\<lambda>_. []) a (ffi_validate_envelope de (a ! 0)))"

definition ah_apply_transform where
  "ah_apply_transform de pr target_json path value_json =
     entry_point [(''target_json'', target_json), (''path'', path), (''value_json'', value_json)]
       (\<lambda>a. core_out pr (pr_json pr) a (ffi_apply_transform de (a ! 0) (a ! 1) (a ! 2)))"

definition ah_apply_transform_ctx where
  "ah_apply_transform_ctx de pr ctx_json path value_json =
     entry_point [(''ctx_json'', ctx_json), (''path'', path), (''value_json'', value_json)]
       (\<lambda>a. core_out pr (\<lambda>m. pr_json pr (JObj m)) a (ffi_apply_transform_ctx de (a ! 0) (a ! 1) (a ! 2)))"

definition ah_validate_transform_ctx where
  "ah_validate_transform_ctx de pr ctx_json path value_json =
     entry_point [(''ctx_json'', ctx_json), (''path'', path), (''value_json'', value_json)]
       (\<lambda>a. core_out pr (\<lambda>_. ''null'') a (ffi_validate_transform_ctx de (a ! 0) (a ! 1) (a ! 2)))"

definition ah_finalize where
  "ah_finalize x de pr ctx_json verdict_str mode options_json =
     entry_point [(''ctx_json'', ctx_json), (''verdict_json'', verdict_str), (''mode'', mode),
         (''options_json'', options_json)]
       (\<lambda>a. core_out pr (pr_record pr) a (ffi_finalize x de (a ! 0) (a ! 1) (a ! 2) (a ! 3)))"

definition ah_compose_aggregate where
  "ah_compose_aggregate x de pr spec composition_json verdicts_json =
     entry_point [(''spec'', spec), (''composition_json'', composition_json), (''verdicts_json'', verdicts_json)]
       (\<lambda>a. core_out pr (pr_aggregate pr) a (compose_aggregate x de (a ! 0) (a ! 1) (a ! 2)))"

definition ah_control_failure_substitute where
  "ah_control_failure_substitute de pr request_json =
     entry_point [(''request_json'', request_json)]
       (\<lambda>a. core_out pr (pr_substitute pr) a (ffi_control_failure_substitute de (a ! 0)))"

definition ah_managed_outcome where
  "ah_managed_outcome x de pr spec outcome_json =
     entry_point [(''spec'', spec), (''outcome_json'', outcome_json)]
       (\<lambda>a. core_out pr (pr_managed pr) a (ffi_managed_outcome x de (a ! 0) (a ! 1)))"

definition ah_ctk_scripted_intercept where
  "ah_ctk_scripted_intercept de de_rules pr rules_json ctx_json =
     entry_point [(''rules_json'', rules_json), (''ctx_json'', ctx_json)]
       (\<lambda>a. core_out pr (pr_json pr) a (ctk_scripted_intercept de de_rules (a ! 0) (a ! 1)))"

definition ah_ctk_scripted_resolve where
  "ah_ctk_scripted_resolve x de de_rules pr rules_json ctx_json identity =
     entry_point [(''rules_json'', rules_json), (''ctx_json'', ctx_json), (''identity'', identity)]
       (\<lambda>a. core_out pr (pr_json pr) a (ctk_scripted_resolve x de de_rules (a ! 0) (a ! 1) (a ! 2)))"

definition ah_ctk_should_skip where
  "ah_ctk_should_skip de de_caps pr vector_json harness_caps_json =
     entry_point [(''vector_json'', vector_json), (''harness_caps_json'', harness_caps_json)]
       (\<lambda>a. core_out pr (pr_skip pr) a (ctk_should_skip de de_caps (a ! 0) (a ! 1)))"

definition ah_declaration_versions where
  "ah_declaration_versions pr = entry_point [] (\<lambda>_. Finished (Inr (pr_versions pr ffi_declaration_versions)))"

definition ah_declaration_resolve where
  "ah_declaration_resolve de pr document_json host_json =
     entry_point [(''document_json'', document_json), (''host_json'', host_json)]
       (\<lambda>a. core_out pr (pr_resolved pr) a (ffi_declaration_resolve de (a ! 0) (a ! 1)))"

definition ah_ctk_assert where
  "ah_ctk_assert jprint de de_rules de_run pr vector_json recorded_json run_record_json =
     entry_point [(''vector_json'', vector_json), (''recorded_json'', recorded_json),
         (''run_record_json'', run_record_json)]
       (\<lambda>a. core_out pr (pr_result pr) a (ctk_assert jprint de de_rules de_run (a ! 0) (a ! 1) (a ! 2)))"

section \<open>Allocation\<close>

text \<open>
  \<open>into_raw\<close> hands a block to the caller, \<open>from_raw\<close> and \<open>drop\<close> take it back. A heap
  maps addresses to blocks; null is \<open>None\<close>.
\<close>

datatype block = CBytes string | ResultBox bool nat "nat option"

record heap =
  hp_next :: nat
  hp_blocks :: "nat \<rightharpoonup> block"

definition into_raw :: "block \<Rightarrow> heap \<Rightarrow> nat \<times> heap" where
  "into_raw b h = (hp_next h, \<lparr>hp_next = hp_next h + 1, hp_blocks = (hp_blocks h)(hp_next h \<mapsto> b)\<rparr>)"

definition drop_raw :: "nat \<Rightarrow> heap \<Rightarrow> heap" where
  "drop_raw a h = h\<lparr>hp_blocks := (hp_blocks h)(a := None)\<rparr>"

definition hand_out :: "ah_result \<Rightarrow> heap \<Rightarrow> nat \<times> heap" where
  "hand_out r h =
     (let (v, h1) = into_raw (CBytes (ah_value r)) h;
          (c, h2) = (case ah_code r of
                       None \<Rightarrow> (None, h1)
                     | Some code \<Rightarrow> (let (c, h2) = into_raw (CBytes code) h1 in (Some c, h2)))
      in into_raw (ResultBox (ah_ok r) v c) h2)"

text \<open>The pointer is null or was handed out and not freed yet; anything else is undefined in the code.\<close>

definition ah_free_result :: "nat option \<Rightarrow> heap \<Rightarrow> heap" where
  "ah_free_result p h =
     (case p of
        None \<Rightarrow> h
      | Some a \<Rightarrow>
          (case hp_blocks h a of
             Some (ResultBox _ v c) \<Rightarrow>
               (case c of None \<Rightarrow> drop_raw v (drop_raw a h) | Some c' \<Rightarrow> drop_raw c' (drop_raw v (drop_raw a h)))
           | _ \<Rightarrow> h))"

end
