(* ===== verification/Ctk_Builder.thy ===== *)
theory Ctk_Builder
  imports Decl_Builder Ctk_Engine
begin

text \<open>
  \<open>ctk.rs\<close>, the code path of a declaration document: \<open>builder_from_value\<close> writes the
  document again through the typed setters of \<open>DeclarationBuilder\<close>, member by member, and falls back
  to the raw setter where a section has something the setters cannot say. A section that is not typed is
  \<open>Inl NotTyped\<close> (the code's \<open>None\<close>), a panicking setter \<open>Inl SetterPanic\<close>.
\<close>

section \<open>Results\<close>

datatype not_typed = NotTyped | SetterPanic

type_synonym typed = "not_typed + decl_builder"

definition set_by :: "decl_builder option \<Rightarrow> typed" where
  "set_by r = (case r of None \<Rightarrow> Inl SetterPanic | Some b \<Rightarrow> Inr b)"

definition or_raw :: "'a option \<Rightarrow> not_typed + 'a" where
  "or_raw v = (case v of None \<Rightarrow> Inl NotTyped | Some a \<Rightarrow> Inr a)"

text \<open>One member after the other.\<close>

fun each_member :: "(string \<Rightarrow> json \<Rightarrow> decl_builder \<Rightarrow> typed) \<Rightarrow> object \<Rightarrow> decl_builder \<Rightarrow> typed" where
  "each_member f [] b = Inr b"
| "each_member f ((k, v) # m) b = res_bind (f k v b) (each_member f m)"

definition only_keys :: "string list \<Rightarrow> object \<Rightarrow> bool" where
  "only_keys ks m \<longleftrightarrow> list_all (\<lambda>(k, _). k \<in> set ks) m"

section \<open>The configuration\<close>

definition composition_member :: "string \<times> json \<Rightarrow> composition_config \<Rightarrow> not_typed + composition_config" where
  "composition_member kv cfg =
     (let (k, v) = kv in
      if k = ''profile'' then Inr cfg
      else res_bind (or_raw (as_str v)) (\<lambda>s.
        if k = ''on_approval'' \<and> s = ''stop'' then Inr (cfg\<lparr>on_approval := Some Stop\<rparr>)
        else if k = ''on_approval'' \<and> s = ''resume'' then Inr (cfg\<lparr>on_approval := Some Resume\<rparr>)
        else if k = ''on_disagreement'' \<and> s = ''deny'' then Inr (cfg\<lparr>on_disagreement := Some SP_Deny\<rparr>)
        else if k = ''on_disagreement'' \<and> s = ''approval'' then Inr (cfg\<lparr>on_disagreement := Some SP_Approval\<rparr>)
        else if k = ''on_transform_conflict'' \<and> s = ''deny'' then Inr (cfg\<lparr>on_transform_conflict := Some SP_Deny\<rparr>)
        else if k = ''on_transform_conflict'' \<and> s = ''approval''
          then Inr (cfg\<lparr>on_transform_conflict := Some SP_Approval\<rparr>)
        else Inl NotTyped))"

fun composition_members :: "object \<Rightarrow> composition_config \<Rightarrow> not_typed + composition_config" where
  "composition_members [] cfg = Inr cfg"
| "composition_members (kv # m) cfg = res_bind (composition_member kv cfg) (composition_members m)"

definition COMPOSITION_MEMBERS :: "string list" where
  "COMPOSITION_MEMBERS = [''profile'', ''on_approval'', ''on_disagreement'', ''on_transform_conflict'']"

definition typed_composition :: "object \<Rightarrow> not_typed + composition_config" where
  "typed_composition m =
     (if \<not> only_keys COMPOSITION_MEMBERS m then Inl NotTyped
      else
        let cfg = default_composition\<lparr>on_approval := None\<rparr> in
        res_bind (case obj_get m ''profile'' of
                    None \<Rightarrow> Inr cfg
                  | Some (JStr p) \<Rightarrow> res_bind (or_raw (profile_from_wire p)) (\<lambda>pr. Inr (cfg\<lparr>profile := pr\<rparr>))
                  | Some _ \<Rightarrow> Inl NotTyped) (composition_members m))"

definition approval_member :: "string \<Rightarrow> json \<Rightarrow> decl_builder \<Rightarrow> typed" where
  "approval_member k v b =
     res_bind (case v of JNull \<Rightarrow> Inr None | JStr s \<Rightarrow> Inr (Some s) | _ \<Rightarrow> Inl NotTyped) (\<lambda>name.
       if k = ''resolver'' then set_by (decl_approval_resolver name b)
       else if k = ''redactor'' then set_by (decl_approval_redactor name b)
       else Inl NotTyped)"

text \<open>\<open>Value::Null\<close> or a number with \<open>is_u64\<close>.\<close>

definition typed_u64 :: "json \<Rightarrow> not_typed + 64 word option" where
  "typed_u64 v =
     (case v of JNull \<Rightarrow> Inr None
      | _ \<Rightarrow> (case as_u64 v of None \<Rightarrow> Inl NotTyped | Some n \<Rightarrow> Inr (Some (of_nat n))))"

definition timeout_member :: "string \<Rightarrow> json \<Rightarrow> decl_builder \<Rightarrow> typed" where
  "timeout_member k v b =
     res_bind (typed_u64 v) (\<lambda>ms.
       if k = ''interceptor_ms'' then set_by (decl_interceptor_timeout ms b)
       else if k = ''approval_resolver_ms'' then set_by (decl_resolver_timeout ms b)
       else Inl NotTyped)"

definition posture_section :: "object \<Rightarrow> decl_builder \<Rightarrow> typed" where
  "posture_section p b =
     (if length p \<noteq> 1 then Inl NotTyped
      else
        let s = get_str p ''tool_seam_host_error'' in
        if s = Some ''continue'' then set_by (decl_tool_seam SeamContinue b)
        else if s = Some ''terminate'' then set_by (decl_tool_seam SeamTerminate b)
        else Inl NotTyped)"

definition failure_section :: "object \<Rightarrow> decl_builder \<Rightarrow> typed" where
  "failure_section fl b =
     (if length fl \<noteq> 1 then Inl NotTyped
      else res_bind (or_raw (Option.bind (get_str fl ''on_error'') on_error_from_wire)) (\<lambda>e.
        set_by (decl_failure_on_error e b)))"

definition records_section :: "object \<Rightarrow> decl_builder \<Rightarrow> typed" where
  "records_section r b =
     (if length r \<noteq> 1 then Inl NotTyped
      else res_bind (or_raw (obj_get r ''max_buffered'')) (\<lambda>v.
        res_bind (typed_u64 v) (\<lambda>n. set_by (decl_max_buffered n b))))"

definition configuration_member :: "string \<Rightarrow> json \<Rightarrow> decl_builder \<Rightarrow> typed" where
  "configuration_member k v b =
     (case v of
        JStr s \<Rightarrow>
          if k = ''mode'' then
            (if s = ''enforce'' then set_by (decl_mode Enforce b)
             else if s = ''evaluate_only'' then set_by (decl_mode EvaluateOnly b)
             else Inl NotTyped)
          else if k = ''identity_provider'' then set_by (decl_identity_provider (Some s) b)
          else Inl NotTyped
      | JNull \<Rightarrow> if k = ''identity_provider'' then set_by (decl_identity_provider None b) else Inl NotTyped
      | JObj m \<Rightarrow>
          if k = ''composition'' then res_bind (typed_composition m) (\<lambda>c. set_by (decl_composition c b))
          else if k = ''approval'' then each_member approval_member m b
          else if k = ''posture'' then posture_section m b
          else if k = ''failure'' then failure_section m b
          else if k = ''timeouts'' then each_member timeout_member m b
          else if k = ''records'' then records_section m b
          else Inl NotTyped
      | _ \<Rightarrow> Inl NotTyped)"

definition typed_configuration :: "object \<Rightarrow> decl_builder \<Rightarrow> typed" where
  "typed_configuration = each_member configuration_member"

section \<open>The surface\<close>

text \<open>\<open>collect::<Option<Vec<_>>>\<close>: every item, or nothing.\<close>

definition items_of :: "(json \<Rightarrow> 'a option) \<Rightarrow> json \<Rightarrow> not_typed + 'a list" where
  "items_of f v = res_bind (or_raw (as_array v)) (traverse (\<lambda>i. or_raw (f i)))"

definition typed_points :: "json \<Rightarrow> not_typed + interception_point list" where
  "typed_points = items_of (\<lambda>p. Option.bind (as_str p) point_from_str)"

definition typed_strings :: "json \<Rightarrow> not_typed + string list" where
  "typed_strings = items_of as_str"

text \<open>
  The derived \<open>Deserialize\<close> of \<open>KnobSupport\<close>: an object of the three members, or, as serde reads
  a struct, an array of at most their number; a \<open>BTreeSet\<close> is read from an array.
\<close>

definition knob_set :: "json \<Rightarrow> not_typed + string list" where
  "knob_set v = res_bind (typed_strings v) (\<lambda>ss. Inr (bt_set ss))"

definition KNOBS :: "string list" where
  "KNOBS = [''on_approval'', ''on_disagreement'', ''on_transform_conflict'']"

fun knob_members :: "(string \<times> json) list \<Rightarrow> knob_support \<Rightarrow> not_typed + knob_support" where
  "knob_members [] k = Inr k"
| "knob_members ((knob, v) # m) k =
     (if knob \<in> set KNOBS then res_bind (knob_set v) (\<lambda>vs. knob_members m (knob_put knob vs k)) else Inl NotTyped)"

definition knob_support_of :: "json \<Rightarrow> not_typed + knob_support" where
  "knob_support_of v =
     (case v of
        JObj m \<Rightarrow> knob_members m no_knobs
      | JArr a \<Rightarrow> if length a \<le> length KNOBS then knob_members (zip KNOBS a) no_knobs else Inl NotTyped
      | _ \<Rightarrow> Inl NotTyped)"

definition profile_member :: "string \<Rightarrow> json \<Rightarrow> decl_builder \<Rightarrow> typed" where
  "profile_member name knobs b =
     res_bind (or_raw (profile_from_wire name)) (\<lambda>p.
     res_bind (knob_support_of knobs) (\<lambda>support. set_by (decl_profile p support b)))"

definition surface_member :: "string \<Rightarrow> json \<Rightarrow> decl_builder \<Rightarrow> typed" where
  "surface_member k v b =
     (if k = ''interception_points'' then res_bind (typed_points v) (\<lambda>ps. set_by (decl_points ps b))
      else if k = ''capabilities'' then res_bind (typed_strings v) (\<lambda>cs. set_by (decl_capabilities cs b))
      else if k = ''declaration_versions'' then res_bind (typed_strings v) (\<lambda>vs. set_by (decl_versions vs b))
      else if k = ''profiles'' then res_bind (or_raw (as_object v)) (\<lambda>ps. each_member profile_member ps b)
      else if k = ''buffered_output'' \<or> k = ''exposure_bound'' then Inr b
      else Inl NotTyped)"

definition typed_surface :: "object \<Rightarrow> decl_builder \<Rightarrow> typed" where
  "typed_surface sf b =
     res_bind (case obj_get sf ''buffered_output'' of None \<Rightarrow> Inr None | Some v \<Rightarrow>
         res_bind (or_raw (as_bool v)) (\<lambda>x. Inr (Some x))) (\<lambda>buffered.
     res_bind (case obj_get sf ''exposure_bound'' of None \<Rightarrow> Inr None | Some v \<Rightarrow>
         res_bind (or_raw (as_str v)) (\<lambda>s. Inr (Some s))) (\<lambda>bound.
     res_bind (case buffered of
                 Some x \<Rightarrow> set_by (decl_buffered x bound b)
               | None \<Rightarrow> if bound \<noteq> None then Inl NotTyped else Inr b)
       (each_member surface_member sf)))"

section \<open>The bindings\<close>

definition BINDING_MEMBERS :: "string list" where
  "BINDING_MEMBERS = [''id'', ''kind'', ''config'', ''at'', ''timeout_ms'', ''on_error'']"

definition optional_member :: "object \<Rightarrow> string \<Rightarrow> (json \<Rightarrow> not_typed + 'a) \<Rightarrow> not_typed + 'a option" where
  "optional_member o' k f =
     (case obj_get o' k of None \<Rightarrow> Inr None | Some v \<Rightarrow> res_bind (f v) (\<lambda>a. Inr (Some a)))"

definition typed_binding :: "json \<Rightarrow> decl_builder \<Rightarrow> typed" where
  "typed_binding item b =
     res_bind (or_raw (as_object item)) (\<lambda>o'.
     if \<not> only_keys BINDING_MEMBERS o' then Inl NotTyped
     else
       res_bind (or_raw (get_str o' ''id'')) (\<lambda>bid.
       res_bind (or_raw (get_str o' ''kind'')) (\<lambda>kind.
       res_bind (optional_member o' ''at'' typed_points) (\<lambda>at.
       res_bind (optional_member o' ''timeout_ms'' typed_u64) (\<lambda>timeout.
       res_bind (optional_member o' ''on_error'' (\<lambda>v. or_raw (Option.bind (as_str v) on_error_from_wire))) (\<lambda>on_err.
         set_by (decl_bind_with bid kind (unwrap_or (obj_get o' ''config'') (JObj []))
           \<lparr>bo_at = at, bo_timeout_ms = timeout, bo_on_error = on_err\<rparr> b)))))))"

fun each_binding :: "json list \<Rightarrow> decl_builder \<Rightarrow> typed" where
  "each_binding [] b = Inr b"
| "each_binding (item # items) b = res_bind (typed_binding item b) (each_binding items)"

definition typed_bindings :: "json list \<Rightarrow> decl_builder \<Rightarrow> typed" where
  "typed_bindings items b =
     (if items = [] then set_by (decl_raw ''bindings'' (JArr []) b) else each_binding items b)"

section \<open>The document\<close>

definition extension_member :: "string \<Rightarrow> json \<Rightarrow> decl_builder \<Rightarrow> typed" where
  "extension_member k v b = set_by (decl_extension k v b)"

definition host_typed :: "object \<Rightarrow> bool" where
  "host_typed h \<longleftrightarrow>
     only_keys [''name'', ''version''] h \<and> get_str h ''name'' \<noteq> None
     \<and> (obj_get h ''version'' = None \<or> get_str h ''version'' \<noteq> None)"

text \<open>A section that is not typed is set raw; a panic stays one.\<close>

definition else_raw :: "string \<Rightarrow> json \<Rightarrow> decl_builder \<Rightarrow> typed \<Rightarrow> decl_builder option" where
  "else_raw k v b r =
     (case r of Inr b2 \<Rightarrow> Some b2 | Inl NotTyped \<Rightarrow> decl_raw k v b | Inl SetterPanic \<Rightarrow> None)"

definition document_member :: "string \<Rightarrow> json \<Rightarrow> decl_builder \<Rightarrow> decl_builder option" where
  "document_member k v b =
     (case v of
        JStr s \<Rightarrow>
          if k = ''declaration'' then decl_version s b
          else if k = ''spec'' then decl_spec s b
          else if k = ''id'' then decl_id s b
          else decl_raw k v b
      | JObj m \<Rightarrow>
          if k = ''host'' \<and> host_typed m then decl_host (unwrap_or (get_str m ''name'') []) (get_str m ''version'') b
          else if k = ''configuration'' then else_raw k v b (typed_configuration m b)
          else if k = ''surface'' then else_raw k v b (typed_surface m b)
          else if k = ''extensions'' then else_raw k v b (each_member extension_member m b)
          else decl_raw k v b
      | JArr items \<Rightarrow>
          if k = ''bindings'' then else_raw k v b (typed_bindings items b) else decl_raw k v b
      | _ \<Rightarrow> decl_raw k v b)"

fun document_members :: "object \<Rightarrow> decl_builder \<Rightarrow> decl_builder option" where
  "document_members [] b = Some b"
| "document_members ((k, v) # m) b = Option.bind (document_member k v b) (document_members m)"

definition builder_from_value :: "json \<Rightarrow> decl_builder option" where
  "builder_from_value doc = (case as_object doc of None \<Rightarrow> Some empty_decl | Some m \<Rightarrow> document_members m empty_decl)"

section \<open>The four construction paths\<close>

text \<open>
  \<open>canon\<close> is the canonical text of a resolved form. A written temporary file is seen through
  \<open>written\<close>, which is \<open>None\<close> when it cannot be written.
\<close>

datatype path_key = Accepted string | Refused declaration_error_class

definition path_key :: "(resolved_declaration \<Rightarrow> string) \<Rightarrow> declaration_error + resolved_declaration \<Rightarrow> path_key" where
  "path_key canon r = (case r of Inr d \<Rightarrow> Accepted (canon d) | Inl e \<Rightarrow> Refused (de_class e))"

definition path_outcomes ::
  "(string \<Rightarrow> raw option) \<Rightarrow> (json \<Rightarrow> string) \<Rightarrow> file_view option \<Rightarrow> json \<Rightarrow> host_surface \<Rightarrow> registry_names
     \<Rightarrow> (declaration_error + resolved_declaration) list option" where
  "path_outcomes jparse jprint written doc surface names =
     (let resolved = (\<lambda>d. res_bind d (\<lambda>m. resolve_declaration m surface names)) in
      map_option (\<lambda>b.
        [resolved (from_value jparse jprint doc),
         resolved (from_json jparse (jprint doc)),
         resolved (case written of None \<Rightarrow> Inl (decl_error Unreadable '''') | Some fv \<Rightarrow> from_path jparse fv),
         resolved (decl_build jparse jprint b)])
       (builder_from_value doc))"

definition prove_paths ::
  "(resolved_declaration \<Rightarrow> string) \<Rightarrow> (string \<Rightarrow> raw option) \<Rightarrow> (json \<Rightarrow> string) \<Rightarrow> file_view option \<Rightarrow> json
     \<Rightarrow> host_surface \<Rightarrow> registry_names \<Rightarrow> bool option" where
  "prove_paths canon jparse jprint written doc surface names =
     map_option (\<lambda>os. let keys = map (path_key canon) os in list_all (\<lambda>k. k = hd keys) keys)
       (path_outcomes jparse jprint written doc surface names)"

end
