(* ===== verification/Ctk_Runner.thy ===== *)
theory Ctk_Runner
  imports Ctk_Builder Ctk_Reference
begin

text \<open>
  \<open>ctk.rs\<close>, the runner: one vector against a harness, the conformance report, and the reference
  harness behind that interface. A harness is a record of its methods over a state \<open>'s\<close>; \<open>None\<close>
  is a panic. The contexts the recording interceptor was shown come back with the run, since the
  shared list of the code is filled by the calls of the run. \<open>serde_json::from_value\<close> of a composition
  is the argument \<open>de_comp\<close>.
\<close>

section \<open>The interface of a harness\<close>

record vector_setup =
  vs_scenario :: json
  vs_interceptors :: "std_interceptor list"
  vs_resolver :: "resolver option"
  vs_mode :: enforcement_mode
  vs_composition :: composition_config
  vs_identity :: identity_provider
  vs_redact :: "string list"

record 's harness =
  hn_capabilities :: "'s \<Rightarrow> string list"
  hn_spec :: "'s \<Rightarrow> spec_version"
  hn_tool_seam :: "'s \<Rightarrow> string"
  hn_surface :: "'s \<Rightarrow> host_surface"
  hn_declaration :: "'s \<Rightarrow> json option"
  hn_setup :: "vector_setup \<Rightarrow> 's \<Rightarrow> 's option"
  hn_setup_declared :: "vector_setup \<Rightarrow> json \<Rightarrow> host_registry \<Rightarrow> 's \<Rightarrow> ((declaration_error + unit) \<times> 's) option"
  hn_run :: "'s \<Rightarrow> (run_record \<times> json list \<times> 's) option"
  hn_teardown :: "'s \<Rightarrow> 's"

text \<open>The default methods of the trait.\<close>

definition default_surface :: "bool \<Rightarrow> string list \<Rightarrow> string \<Rightarrow> host_surface" where
  "default_surface tokio caps seam =
     from_capabilities tokio caps (if seam = ''terminate'' then SeamTerminate else SeamContinue)"

definition default_setup_declared :: "'s \<Rightarrow> ((declaration_error + unit) \<times> 's) option" where
  "default_setup_declared s = Some (Inl (decl_error SurfaceUnsupported ''''), s)"

section \<open>One vector\<close>

text \<open>Of a message the data it shows is kept, of a declaration error its class.\<close>

datatype runner_failure = DeclarationRefused declaration_error | Asserted "ctk_failure list"

datatype run_detail = NoDetail | DraftOnly | MissingCapabilities "string list"

record run_result =
  rn_id :: string
  rn_title :: string
  rn_part :: string
  rn_status :: string
  rn_detail :: run_detail
  rn_failures :: runner_failure

text \<open>A result before any assertion: the names of the vector with a status.\<close>

definition unrun :: "json \<Rightarrow> string \<Rightarrow> run_detail \<Rightarrow> runner_failure \<Rightarrow> run_result" where
  "unrun vector status detail failure =
     \<lparr>rn_id = str_at vector ''id'', rn_title = str_at vector ''title'',
      rn_part = unwrap_or (value_str vector ''part'') [], rn_status = status, rn_detail = detail,
      rn_failures = failure\<rparr>"

definition asserted :: "vector_result \<Rightarrow> run_result" where
  "asserted r =
     \<lparr>rn_id = vr_id r, rn_title = vr_title r, rn_part = vr_part r, rn_status = vr_status r,
      rn_detail = NoDetail, rn_failures = Asserted (vr_failures r)\<rparr>"

text \<open>What a harness is assessed against: capabilities, tool seam posture, failure posture.\<close>

definition assessed ::
  "(string \<Rightarrow> raw option) \<Rightarrow> (json \<Rightarrow> string) \<Rightarrow> 's harness \<Rightarrow> 's
     \<Rightarrow> declaration_error + string list \<times> string \<times> string" where
  "assessed jparse jprint h s =
     (case hn_declaration h s of
        None \<Rightarrow> Inr (hn_capabilities h s, hn_tool_seam h s, on_error_str OE_Deny)
      | Some doc \<Rightarrow>
          res_bind (from_value jparse jprint doc) (\<lambda>d.
          res_bind (resolve_surface_only d (hn_surface h s)) (\<lambda>r.
            Inr (rs_capabilities (rd_surface r), tool_seam_str (rc_tool_seam (rd_configuration r)),
                 on_error_str (rc_on_error (rd_configuration r))))))"

definition vector_provider :: "json \<Rightarrow> identity_provider" where
  "vector_provider vector =
     (case value_get vector ''identity_provider'' of
        Some JNull \<Rightarrow> NullIdentity
      | Some (JStr n) \<Rightarrow> if n = ''ctk-fault'' then CustomIdentity ''ctk-fault'' (\<lambda>_. None) else JcsSha256
      | _ \<Rightarrow> JcsSha256)"

definition setup_of :: "externs \<Rightarrow> (json \<Rightarrow> composition_config option) \<Rightarrow> json \<Rightarrow> vector_setup" where
  "setup_of x de_comp vector =
     (let sc = scripts_of vector in
      \<lparr>vs_scenario = value_index vector ''scenario'', vs_interceptors = interceptors_of x sc,
       vs_resolver = resolver_of x sc,
       vs_mode = (if value_str vector ''mode'' = Some ''evaluate_only'' then EvaluateOnly else Enforce),
       vs_composition =
         unwrap_or (Option.bind (value_get vector ''composition'') de_comp) default_composition,
       vs_identity = vector_provider vector, vs_redact = sc_redact sc\<rparr>)"

definition declared_setup :: "vector_setup \<Rightarrow> vector_setup" where
  "declared_setup vs = vs\<lparr>vs_interceptors := [], vs_resolver := None\<rparr>"

definition refused_record :: "declaration_error \<Rightarrow> bool \<Rightarrow> run_record" where
  "refused_record e same =
     \<lparr>rr_outcome = ''error'', rr_final_output = JNull, rr_tool_invocations = [],
      rr_error = Some (class_code (de_class e)), rr_identities = [], rr_records = [], rr_postures = [],
      rr_load = Some \<lparr>ld_outcome = ''refused'', ld_class = Some (class_code (de_class e)),
                     ld_paths_equivalent = Some same, ld_detail = Some (class_code (de_class e))\<rparr>,
      rr_host_messages = []\<rparr>"

definition accepted_load :: "bool \<Rightarrow> load_record" where
  "accepted_load same =
     \<lparr>ld_outcome = ''accepted'', ld_class = None, ld_paths_equivalent = Some same,
      ld_detail = (if same then None else Some ''paths'')\<rparr>"

text \<open>The run of a vector that was not skipped. \<open>prove\<close> is \<open>prove_paths\<close> of the document.\<close>

definition run_declared ::
  "externs \<Rightarrow> 's harness \<Rightarrow> (host_registry \<Rightarrow> bool option) \<Rightarrow> scripts \<Rightarrow> vector_setup \<Rightarrow> json \<Rightarrow> 's
     \<Rightarrow> (run_record \<times> json list \<times> 's) option" where
  "run_declared x h prove sc vs document s =
     (case scripts_registry x sc (hn_surface h s) of
        Inl _ \<Rightarrow> None
      | Inr reg \<Rightarrow>
          Option.bind (prove reg) (\<lambda>same.
          Option.bind (hn_setup_declared h (declared_setup vs) document reg s) (\<lambda>(res, s1).
            case res of
              Inl e \<Rightarrow> Some (refused_record e same, [], hn_teardown h s1)
            | Inr _ \<Rightarrow>
                map_option (\<lambda>(rr, recorded, s2). (rr\<lparr>rr_load := Some (accepted_load same)\<rparr>, recorded, hn_teardown h s2))
                  (hn_run h s1))))"

definition run_field :: "'s harness \<Rightarrow> vector_setup \<Rightarrow> 's \<Rightarrow> (run_record \<times> json list \<times> 's) option" where
  "run_field h vs s =
     Option.bind (hn_setup h vs s) (\<lambda>s1.
       map_option (\<lambda>(rr, recorded, s2). (rr, recorded, hn_teardown h s2)) (hn_run h s1))"

definition run_vector ::
  "externs \<Rightarrow> (resolved_declaration \<Rightarrow> string) \<Rightarrow> (string \<Rightarrow> raw option) \<Rightarrow> (json \<Rightarrow> string)
     \<Rightarrow> (json \<Rightarrow> composition_config option) \<Rightarrow> file_view option \<Rightarrow> 's harness \<Rightarrow> json \<Rightarrow> 's
     \<Rightarrow> (run_result \<times> 's) option" where
  "run_vector x canon jparse jprint de_comp written h vector s =
     (if value_str vector ''introduced_in'' = Some ''draft'' \<and> hn_spec h s \<noteq> Draft
      then Some (unrun vector ''skip'' DraftOnly (Asserted []), s)
      else case assessed jparse jprint h s of
        Inl e \<Rightarrow> Some (unrun vector ''fail'' NoDetail (DeclarationRefused e), s)
      | Inr (caps, posture, on_err) \<Rightarrow>
          case should_skip vector (sort caps) of
            Some missing \<Rightarrow> Some (unrun vector ''skip'' (MissingCapabilities missing) (Asserted []), s)
          | None \<Rightarrow>
            let sc = scripts_of vector; vs = setup_of x de_comp vector in
            map_option (\<lambda>(rr, recorded, s').
              (asserted (assert_vector jprint vector recorded
                 (rr\<lparr>rr_postures := bt_insert ''on_error'' on_err
                    (bt_insert ''tool_seam_host_error'' posture (rr_postures rr))\<rparr>)), s'))
              (case value_get vector ''host_declaration'' of
                 Some document \<Rightarrow>
                   run_declared x h
                     (\<lambda>reg. prove_paths canon jparse jprint written document (hr_surface reg) (registry_names_of reg))
                     sc vs document s
               | None \<Rightarrow> run_field h vs s))"

section \<open>The conformance report\<close>

record part_report =
  pr_part :: string
  pr_passed :: nat
  pr_failed :: nat
  pr_skipped :: nat
  pr_vectors :: "run_result list"

record conformance_report =
  cr_spec :: string
  cr_parts :: "part_report list"
  cr_passed :: nat
  cr_failed :: nat
  cr_skipped :: nat

definition empty_part :: "string \<Rightarrow> part_report" where
  "empty_part p = \<lparr>pr_part = p, pr_passed = 0, pr_failed = 0, pr_skipped = 0, pr_vectors = []\<rparr>"

definition count_result :: "run_result \<Rightarrow> part_report \<Rightarrow> part_report" where
  "count_result r p =
     (let p1 = (if rn_status r = ''pass'' then p\<lparr>pr_passed := pr_passed p + 1\<rparr>
                else if rn_status r = ''skip'' then p\<lparr>pr_skipped := pr_skipped p + 1\<rparr>
                else p\<lparr>pr_failed := pr_failed p + 1\<rparr>)
      in p1\<lparr>pr_vectors := pr_vectors p1 @ [r]\<rparr>)"

definition add_result :: "run_result \<Rightarrow> (string \<times> part_report) list \<Rightarrow> (string \<times> part_report) list" where
  "add_result r parts =
     bt_insert (rn_part r) (count_result r (unwrap_or (map_of parts (rn_part r)) (empty_part (rn_part r)))) parts"

definition DRAFT_NOT_CLAIMABLE :: string where
  "DRAFT_NOT_CLAIMABLE = ''a conformance report cannot name agent-hooks/draft; the draft is never claimed: ''
     @ ''run the vectors for development and report a released version''"

definition conformance_report :: "spec_version \<Rightarrow> run_result list \<Rightarrow> string + conformance_report" where
  "conformance_report spec results =
     (if spec = Draft then Inl DRAFT_NOT_CLAIMABLE
      else
        let parts = fold add_result results [];
            (p, f, s) = fold (\<lambda>(_, part) (p, f, s). (p + pr_passed part, f + pr_failed part, s + pr_skipped part))
              parts (0, 0, 0)
        in Inr \<lparr>cr_spec = spec_wire spec, cr_parts = map snd parts, cr_passed = p, cr_failed = f, cr_skipped = s\<rparr>)"

section \<open>The reference harness\<close>

text \<open>
  \<open>rh_reference\<close> is the parsed \<open>reference.declaration.json\<close>. The interceptors of a field-based
  vector are handed out once each, so a resolver call depends on the calls before it.
  \<open>rh_recorders\<close> names the registrations that play script 0, the one that records.
\<close>

record reference_harness =
  rh_spec :: spec_version
  rh_reference :: object
  rh_scenario :: json
  rh_session :: "reference option"
  rh_counter :: nat
  rh_recorders :: "string list"

definition schema_base :: "spec_version \<Rightarrow> string" where
  "schema_base spec = (case spec of Draft \<Rightarrow> ''draft'' | V0_1 \<Rightarrow> ''v0.1'')"

definition reference_document :: "reference_harness \<Rightarrow> object" where
  "reference_document h =
     (let doc = rh_reference h; surface = unwrap_or (get_object doc ''surface'') [] in
      obj_insert ''surface''
        (JObj (obj_insert ''declaration_versions''
          (JArr (map JStr (declaration_versions (rh_spec h)))) surface))
      (obj_insert ''spec'' (JStr (spec_wire (rh_spec h)))
      (obj_insert ''$schema''
        (JStr (''https://responsibleai.github.io/agent-hooks/schema/'' @ schema_base (rh_spec h)
          @ ''/host-declaration-1.0.schema.json'')) doc)))"

definition REFERENCE_CAPABILITIES :: "string list" where
  "REFERENCE_CAPABILITIES = [''model_calls'', ''tool_calls'', ''int64_json'', ''host_declaration'']"

definition reference_surface :: "bool \<Rightarrow> host_surface" where
  "reference_surface tokio = from_capabilities tokio REFERENCE_CAPABILITIES SeamContinue"

text \<open>The principal channel logs the message and never fails.\<close>

definition with_principal_channel :: "host_registry \<Rightarrow> host_registry" where
  "with_principal_channel = control_failure_notifier (\<lambda>_ _. True)"

definition config_index :: "json \<Rightarrow> nat option" where
  "config_index config = Option.bind (value_get config ''index'') as_u64"

definition instance_kind :: "std_interceptor list \<Rightarrow> kind_resolver" where
  "instance_kind slots = (\<lambda>calls config c. Some (
     case config_index config of
       None \<Rightarrow> Inl ''config.index must be an unsigned integer''
     | Some i \<Rightarrow>
         if i < length slots \<and> \<not> list_ex (\<lambda>(earlier, _). config_index earlier = Some i) calls
         then Inr (slots ! i)
         else Inl (''no interceptor instance '' @ dec i @ '' for binding '' @ bc_id c)))"

definition instance_binding :: "nat \<Rightarrow> json" where
  "instance_binding i = JObj
     [(''config'', JObj [(''index'', JNum (PosInt (of_nat i)))]),
      (''id'', JStr (''interceptor-'' @ dec i)), (''kind'', JStr ''ctk.instance'')]"

definition setup_configuration :: "vector_setup \<Rightarrow> object \<Rightarrow> object" where
  "setup_configuration vs cfg =
     (let provider = (case vs_identity vs of JcsSha256 \<Rightarrow> JStr JCS_SHA256 | NullIdentity \<Rightarrow> JNull
                      | CustomIdentity n _ \<Rightarrow> JStr n);
          approval = [(''redactor'', if vs_redact vs = [] then JNull else JStr ''ctk-redact''),
                      (''resolver'', if vs_resolver vs = None then JNull else JStr ''ctk-scripted'')]
      in obj_insert ''approval'' (JObj approval)
        (obj_insert ''identity_provider'' provider
        (obj_insert ''composition'' (JObj (composition_object (vs_composition vs)))
        (obj_insert ''mode'' (JStr (mode_wire (vs_mode vs))) cfg))))"

text \<open>The registrations in the order of the code, each with an \<open>expect\<close>.\<close>

definition setup_registry :: "host_surface \<Rightarrow> vector_setup \<Rightarrow> registry_error + host_registry" where
  "setup_registry surface vs =
     res_bind (case vs_identity vs of
                 CustomIdentity n f \<Rightarrow> register_identity_provider n f (for_conformance surface)
               | _ \<Rightarrow> Inr (for_conformance surface)) (\<lambda>r1.
     res_bind (case vs_resolver vs of
                 Some r \<Rightarrow> register_approval_resolver ''ctk-scripted'' r r1 | None \<Rightarrow> Inr r1) (\<lambda>r2.
     res_bind (if vs_redact vs = [] then Inr r2
               else register_approval_redactor ''ctk-redact'' (\<lambda>ctx. Some (redact_paths ctx (vs_redact vs))) r2) (\<lambda>r3.
     res_bind (register_kind ''ctk.instance'' (instance_kind (vs_interceptors vs)) r3) (\<lambda>r4.
       Inr (with_principal_channel r4)))))"

definition begin_session :: "json \<Rightarrow> string list \<Rightarrow> emitter \<Rightarrow> reference_harness \<Rightarrow> reference_harness" where
  "begin_session scenario recorders em h =
     h\<lparr>rh_scenario := scenario, rh_recorders := recorders, rh_counter := rh_counter h + 1,
       rh_session := Some (start_session (rh_counter h + 1) em)\<rparr>"

text \<open>The bindings of a declaration vector that select script 0.\<close>

definition script_zero :: "json \<Rightarrow> string list" where
  "script_zero document =
     List.map_filter (\<lambda>b. if Option.bind (value_get (value_index b ''config'') ''script'') as_u64 = Some 0
        then value_str b ''id'' else None) (list_of (value_index document ''bindings''))"

definition recorded_by :: "emitter \<Rightarrow> string list \<Rightarrow> event list \<Rightarrow> json list" where
  "recorded_by em names log =
     List.map_filter (\<lambda>(i, ctx).
        if i < length (active em ctx) \<and> opt_holds (\<lambda>n. n \<in> set names) (b_name (active em ctx ! i))
        then Some (JObj ctx) else None) (invocations log)"

text \<open>\<open>as_object_mut().expect(..)\<close> and the panics on a refused registration or document.\<close>

definition reference_setup ::
  "(string \<Rightarrow> raw option) \<Rightarrow> (json \<Rightarrow> string) \<Rightarrow> bool \<Rightarrow> vector_setup \<Rightarrow> reference_harness
     \<Rightarrow> reference_harness option" where
  "reference_setup jparse jprint tokio vs h =
     Option.bind (get_object (reference_document h) ''configuration'') (\<lambda>cfg.
       case setup_registry (reference_surface tokio) vs of
         Inl _ \<Rightarrow> None
       | Inr reg \<Rightarrow>
           (let doc = obj_insert ''bindings'' (JArr (map instance_binding [0..<length (vs_interceptors vs)]))
                  (obj_insert ''configuration'' (JObj (setup_configuration vs cfg)) (reference_document h))
            in case fst (from_declaration_value jparse jprint tokio (JObj doc) reg) of
                 Some (Inr em) \<Rightarrow> Some (begin_session (vs_scenario vs) [''interceptor-0''] em h)
               | _ \<Rightarrow> None))"

definition reference_setup_declared ::
  "(string \<Rightarrow> raw option) \<Rightarrow> (json \<Rightarrow> string) \<Rightarrow> bool \<Rightarrow> vector_setup \<Rightarrow> json \<Rightarrow> host_registry \<Rightarrow> reference_harness
     \<Rightarrow> ((declaration_error + unit) \<times> reference_harness) option" where
  "reference_setup_declared jparse jprint tokio vs document reg h =
     (case fst (from_declaration_value jparse jprint tokio document (with_principal_channel reg)) of
        None \<Rightarrow> None
      | Some (Inl e) \<Rightarrow> Some (Inl e, h)
      | Some (Inr em) \<Rightarrow> Some (Inr (), begin_session (vs_scenario vs) (script_zero document) em h))"

definition reference_harness_run ::
  "externs \<Rightarrow> (64 word \<Rightarrow> string) \<Rightarrow> reference_harness \<Rightarrow> (run_record \<times> json list \<times> reference_harness) option" where
  "reference_harness_run x clock h =
     Option.bind (rh_session h) (\<lambda>rf.
       map_option (\<lambda>(rr, rf'). (rr, recorded_by (rf_emitter rf') (rh_recorders h) (rf_log rf'), h\<lparr>rh_session := Some rf'\<rparr>))
         (reference_run x clock (rh_scenario h) rf))"

definition reference_teardown :: "reference_harness \<Rightarrow> reference_harness" where
  "reference_teardown h = h\<lparr>rh_session := None\<rparr>"

definition the_reference ::
  "externs \<Rightarrow> (64 word \<Rightarrow> string) \<Rightarrow> (string \<Rightarrow> raw option) \<Rightarrow> (json \<Rightarrow> string) \<Rightarrow> bool \<Rightarrow> reference_harness harness" where
  "the_reference x clock jparse jprint tokio =
     \<lparr>hn_capabilities = (\<lambda>_. REFERENCE_CAPABILITIES), hn_spec = rh_spec, hn_tool_seam = (\<lambda>_. ''continue''),
      hn_surface = (\<lambda>_. reference_surface tokio),
      hn_declaration = (\<lambda>h. Some (JObj (reference_document h))),
      hn_setup = reference_setup jparse jprint tokio,
      hn_setup_declared = reference_setup_declared jparse jprint tokio,
      hn_run = reference_harness_run x clock, hn_teardown = reference_teardown\<rparr>"

end
