(* ===== verification/Native_Bindings.thy ===== *)
theory Native_Bindings
  imports C_Abi Ctk_Runner
begin

text \<open>
  The in-process bindings over \<open>ffi_surface\<close>: \<open>python/src/lib.rs\<close> (PyO3) and
  \<open>typescript/native/lib.rs\<close> (napi), with the wrapper \<open>wrap\<close> of
  \<open>typescript/src/native.ts\<close> that rebuilds an error. Arguments arrive as Rust strings, so nothing
  is marshalled here; what the two frameworks make of a panic is theirs. The printers and decoders are the ones of
  the C boundary.
\<close>

section \<open>Python\<close>

text \<open>The exception carries code and detail as attributes.\<close>

record py_error =
  py_message :: string
  py_code :: string
  py_detail :: string

definition py_map_err :: "string \<times> string \<Rightarrow> py_error" where
  "py_map_err e = (let (code, detail) = e in
     \<lparr>py_message = code @ '': '' @ detail, py_code = code, py_detail = detail\<rparr>)"

definition py_result :: "out \<Rightarrow> py_error + string" where
  "py_result r = (case r of Inl e \<Rightarrow> Inl (py_map_err e) | Inr v \<Rightarrow> Inr v)"

definition py_canonical_json where
  "py_canonical_json x de pr value_json =
     py_result (core_text pr id [value_json]
       (ffi_canonical_json x de value_json))"

definition py_context_identity where
  "py_context_identity x de pr ctx_json =
     py_result (core_text pr id [ctx_json]
       (ffi_context_identity x de ctx_json))"

definition py_validate_verdict where
  "py_validate_verdict x de pr spec verdict_str =
     py_result (core_text pr (pr_verdict pr) [spec, verdict_str]
       (ffi_validate_verdict x de spec verdict_str))"

definition py_normalize_interceptor_response where
  "py_normalize_interceptor_response x de pr spec response_json =
     py_result (core_text pr (pr_json pr) [spec, response_json]
       (normalize_interceptor_response x de spec response_json))"

definition py_validate_envelope where
  "py_validate_envelope de pr ctx_json =
     py_result (core_text pr (\<lambda>_. []) [ctx_json]
       (ffi_validate_envelope de ctx_json))"

definition py_apply_transform where
  "py_apply_transform de pr target_json path value_json =
     py_result (core_text pr (pr_json pr) [target_json, path, value_json]
       (ffi_apply_transform de target_json path value_json))"

definition py_apply_transform_ctx where
  "py_apply_transform_ctx de pr ctx_json path value_json =
     py_result (core_text pr (\<lambda>m. pr_json pr (JObj m)) [ctx_json, path, value_json]
       (ffi_apply_transform_ctx de ctx_json path value_json))"

definition py_validate_transform_ctx where
  "py_validate_transform_ctx de pr ctx_json path value_json =
     py_result (core_text pr (\<lambda>_. ''null'') [ctx_json, path, value_json]
       (ffi_validate_transform_ctx de ctx_json path value_json))"

definition py_finalize where
  "py_finalize x de pr ctx_json verdict_str md options_json =
     py_result (core_text pr (pr_record pr) [ctx_json, verdict_str, md, options_json]
       (ffi_finalize x de ctx_json verdict_str md options_json))"

definition py_compose_aggregate where
  "py_compose_aggregate x de pr spec composition_json verdicts_json =
     py_result (core_text pr (pr_aggregate pr) [spec, composition_json, verdicts_json]
       (compose_aggregate x de spec composition_json verdicts_json))"

definition py_control_failure_substitute where
  "py_control_failure_substitute de pr request_json =
     py_result (core_text pr (pr_substitute pr) [request_json]
       (ffi_control_failure_substitute de request_json))"

definition py_managed_outcome where
  "py_managed_outcome x de pr spec outcome_json =
     py_result (core_text pr (pr_managed pr) [spec, outcome_json]
       (ffi_managed_outcome x de spec outcome_json))"

definition py_declaration_resolve where
  "py_declaration_resolve de pr document_json host_json =
     py_result (core_text pr (pr_resolved pr) [document_json, host_json]
       (ffi_declaration_resolve de document_json host_json))"

definition py_ctk_scripted_intercept where
  "py_ctk_scripted_intercept de de_rules pr rules_json ctx_json =
     py_result (core_text pr (pr_json pr) [rules_json, ctx_json]
       (ctk_scripted_intercept de de_rules rules_json ctx_json))"

definition py_ctk_scripted_resolve where
  "py_ctk_scripted_resolve x de de_rules pr rules_json ctx_json identity =
     py_result (core_text pr (pr_json pr) [rules_json, ctx_json, identity]
       (ctk_scripted_resolve x de de_rules rules_json ctx_json identity))"

definition py_ctk_should_skip where
  "py_ctk_should_skip de de_caps pr vector_json harness_caps_json =
     py_result (core_text pr (pr_skip pr) [vector_json, harness_caps_json]
       (ctk_should_skip de de_caps vector_json harness_caps_json))"

definition py_ctk_assert where
  "py_ctk_assert jprint de de_rules de_run pr vector_json recorded_json run_record_json =
     py_result (core_text pr (pr_result pr) [vector_json, recorded_json, run_record_json]
       (ctk_assert jprint de de_rules de_run vector_json recorded_json run_record_json))"

definition py_declaration_versions :: "printers \<Rightarrow> string" where
  "py_declaration_versions pr = pr_versions pr ffi_declaration_versions"

section \<open>Node\<close>

text \<open>
  The reason of the error joins code and detail with a unit separator; \<open>wrap\<close> splits it at the
  first one, and rethrows an error it cannot split.
\<close>

definition node_map_err :: "string \<times> string \<Rightarrow> string" where
  "node_map_err e = (let (code, detail) = e in code @ CHR 0x1F # detail)"

definition node_result :: "out \<Rightarrow> string + string" where
  "node_result r = (case r of Inl e \<Rightarrow> Inl (node_map_err e) | Inr v \<Rightarrow> Inr v)"

definition node_split :: "string \<Rightarrow> (string \<times> string) option" where
  "node_split msg =
     (let sep = length (takeWhile (\<lambda>c. c \<noteq> CHR 0x1F) msg) in
      if sep < length msg \<and> 0 < sep then Some (take sep msg, drop (sep + 1) msg) else None)"

definition node_canonical_json where
  "node_canonical_json x de pr value_json =
     node_result (core_text pr id [value_json]
       (ffi_canonical_json x de value_json))"

definition node_context_identity where
  "node_context_identity x de pr ctx_json =
     node_result (core_text pr id [ctx_json]
       (ffi_context_identity x de ctx_json))"

definition node_validate_verdict where
  "node_validate_verdict x de pr spec verdict_str =
     node_result (core_text pr (pr_verdict pr) [spec, verdict_str]
       (ffi_validate_verdict x de spec verdict_str))"

definition node_normalize_interceptor_response where
  "node_normalize_interceptor_response x de pr spec response_json =
     node_result (core_text pr (pr_json pr) [spec, response_json]
       (normalize_interceptor_response x de spec response_json))"

definition node_validate_envelope where
  "node_validate_envelope de pr ctx_json =
     node_result (core_text pr (\<lambda>_. []) [ctx_json]
       (ffi_validate_envelope de ctx_json))"

definition node_apply_transform where
  "node_apply_transform de pr target_json path value_json =
     node_result (core_text pr (pr_json pr) [target_json, path, value_json]
       (ffi_apply_transform de target_json path value_json))"

definition node_apply_transform_ctx where
  "node_apply_transform_ctx de pr ctx_json path value_json =
     node_result (core_text pr (\<lambda>m. pr_json pr (JObj m)) [ctx_json, path, value_json]
       (ffi_apply_transform_ctx de ctx_json path value_json))"

definition node_validate_transform_ctx where
  "node_validate_transform_ctx de pr ctx_json path value_json =
     node_result (core_text pr (\<lambda>_. ''null'') [ctx_json, path, value_json]
       (ffi_validate_transform_ctx de ctx_json path value_json))"

definition node_finalize where
  "node_finalize x de pr ctx_json verdict_str md options_json =
     node_result (core_text pr (pr_record pr) [ctx_json, verdict_str, md, options_json]
       (ffi_finalize x de ctx_json verdict_str md options_json))"

definition node_compose_aggregate where
  "node_compose_aggregate x de pr spec composition_json verdicts_json =
     node_result (core_text pr (pr_aggregate pr) [spec, composition_json, verdicts_json]
       (compose_aggregate x de spec composition_json verdicts_json))"

definition node_control_failure_substitute where
  "node_control_failure_substitute de pr request_json =
     node_result (core_text pr (pr_substitute pr) [request_json]
       (ffi_control_failure_substitute de request_json))"

definition node_managed_outcome where
  "node_managed_outcome x de pr spec outcome_json =
     node_result (core_text pr (pr_managed pr) [spec, outcome_json]
       (ffi_managed_outcome x de spec outcome_json))"

definition node_declaration_resolve where
  "node_declaration_resolve de pr document_json host_json =
     node_result (core_text pr (pr_resolved pr) [document_json, host_json]
       (ffi_declaration_resolve de document_json host_json))"

definition node_ctk_scripted_intercept where
  "node_ctk_scripted_intercept de de_rules pr rules_json ctx_json =
     node_result (core_text pr (pr_json pr) [rules_json, ctx_json]
       (ctk_scripted_intercept de de_rules rules_json ctx_json))"

definition node_ctk_scripted_resolve where
  "node_ctk_scripted_resolve x de de_rules pr rules_json ctx_json identity =
     node_result (core_text pr (pr_json pr) [rules_json, ctx_json, identity]
       (ctk_scripted_resolve x de de_rules rules_json ctx_json identity))"

definition node_ctk_should_skip where
  "node_ctk_should_skip de de_caps pr vector_json harness_caps_json =
     node_result (core_text pr (pr_skip pr) [vector_json, harness_caps_json]
       (ctk_should_skip de de_caps vector_json harness_caps_json))"

definition node_ctk_assert where
  "node_ctk_assert jprint de de_rules de_run pr vector_json recorded_json run_record_json =
     node_result (core_text pr (pr_result pr) [vector_json, recorded_json, run_record_json]
       (ctk_assert jprint de de_rules de_run vector_json recorded_json run_record_json))"

definition node_declaration_versions :: "printers \<Rightarrow> string" where
  "node_declaration_versions pr = pr_versions pr ffi_declaration_versions"

text \<open>
  The two functions without a C twin. \<open>jprint\<close> is \<open>Value::to_string\<close>,
  \<open>de_surface\<close> the derived decoder of a surface.
\<close>

definition node_declaration_validate ::
  "decoders \<Rightarrow> (json \<Rightarrow> string) \<Rightarrow> printers \<Rightarrow> string \<Rightarrow> string + string" where
  "node_declaration_validate de jprint pr document_json =
     node_result (core_text pr (\<lambda>doc. jprint (JObj doc)) [document_json]
       (ffi_decl (from_json (de_raw de) document_json)))"

definition surface_resolution ::
  "decoders \<Rightarrow> (string \<Rightarrow> host_surface option) \<Rightarrow> string \<Rightarrow> string \<Rightarrow> ffi_error + resolved_declaration" where
  "surface_resolution de de_surface document_json surface_json =
     res_bind (or_err MarshalError (de_surface surface_json)) (\<lambda>surface.
     if \<not> res_ok (surface_validate surface) then Inl MarshalError
     else
       res_bind (ffi_decl (from_json (de_raw de) document_json)) (\<lambda>document.
         ffi_decl (resolve_surface_only document surface)))"

definition node_declaration_resolve_surface where
  "node_declaration_resolve_surface de de_surface pr document_json surface_json =
     node_result (core_text pr (pr_resolved pr) [document_json, surface_json]
       (surface_resolution de de_surface document_json surface_json))"

end
