(* ===== verification/Resolved_Wire.thy ===== *)
theory Resolved_Wire
  imports Decl_Builder Decl_Laws
begin

text \<open>
  \<open>declaration.rs\<close>, the JSON of a resolved declaration, as its derived \<open>Serialize\<close> writes it
  through \<open>serde_json::to_value\<close>, and \<open>canonical_json\<close>, the text the construction paths are
  compared by; and that equal JSON means equal resolved forms.
\<close>

section \<open>The members\<close>

definition nullable_nat :: "nat option \<Rightarrow> json" where
  "nullable_nat v = (case v of None \<Rightarrow> JNull | Some n \<Rightarrow> JNum (PosInt (of_nat n)))"

definition points_array :: "interception_point list \<Rightarrow> json" where
  "points_array ps = str_array (map point_str ps)"

definition host_info_json :: "host_info \<Rightarrow> json" where
  "host_info_json h = JObj (put_str ''version'' (hi_version h) (obj_insert ''name'' (JStr (hi_name h)) []))"

definition configuration_json :: "resolved_configuration \<Rightarrow> json" where
  "configuration_json c = JObj
     (obj_insert ''records'' (JObj (obj_insert ''max_buffered'' (nullable_nat (rc_max_buffered c)) []))
     (obj_insert ''timeouts'' (JObj
        (obj_insert ''approval_resolver_ms'' (nullable_nat (rt_approval_resolver_ms (rc_timeouts c)))
        (obj_insert ''interceptor_ms'' (nullable_nat (rt_interceptor_ms (rc_timeouts c))) [])))
     (obj_insert ''failure'' (JObj (obj_insert ''on_error'' (JStr (on_error_str (rc_on_error c))) []))
     (obj_insert ''posture'' (JObj (obj_insert ''tool_seam_host_error'' (JStr (tool_seam_str (rc_tool_seam c))) []))
     (obj_insert ''approval'' (JObj
        (obj_insert ''redactor'' (nullable_str (ra_redactor (rc_approval c)))
        (obj_insert ''resolver'' (nullable_str (ra_resolver (rc_approval c))) [])))
     (obj_insert ''identity_provider'' (nullable_str (rc_identity_provider c))
     (obj_insert ''composition'' (JObj (composition_object (rc_composition c)))
     (obj_insert ''mode'' (JStr (mode_wire (rc_mode c))) []))))))))"

text \<open>The map of profiles, each profile's name its key.\<close>

definition profiles_object :: "(composition_profile \<times> knob_support) list \<Rightarrow> object" where
  "profiles_object ps = fold (\<lambda>(p, k). obj_insert (profile_str p) (JObj (knob_object k))) ps []"

definition surface_json :: "resolved_surface \<Rightarrow> json" where
  "surface_json s = JObj
     (obj_insert ''declaration_versions'' (str_array (rs_versions s))
     (put_str ''exposure_bound'' (rs_exposure_bound s)
     (obj_insert ''buffered_output'' (JBool (rs_buffered s))
     (obj_insert ''profiles'' (JObj (profiles_object (rs_profiles s)))
     (obj_insert ''capabilities'' (str_array (rs_capabilities s))
     (obj_insert ''interception_points'' (points_array (rs_points s)) []))))))"

definition resolved_binding_json :: "resolved_binding \<Rightarrow> json" where
  "resolved_binding_json b = JObj
     (obj_insert ''on_error'' (JStr (on_error_str (rb_on_error b)))
     (obj_insert ''timeout_ms'' (nullable_nat (rb_timeout_ms b))
     (obj_insert ''at'' (points_array (rb_at b))
     (obj_insert ''config'' (rb_config b)
     (obj_insert ''kind'' (JStr (rb_kind b))
     (obj_insert ''id'' (JStr (rb_id b)) []))))))"

definition resolved_object :: "resolved_declaration \<Rightarrow> object" where
  "resolved_object r =
     obj_insert ''extensions'' (JObj (rd_extensions r))
     (obj_insert ''bindings'' (JArr (map resolved_binding_json (rd_bindings r)))
     (obj_insert ''surface'' (surface_json (rd_surface r))
     (obj_insert ''configuration'' (configuration_json (rd_configuration r))
     ((case rd_host r of None \<Rightarrow> \<lambda>m. m | Some h \<Rightarrow> obj_insert ''host'' (host_info_json h))
     (put_str ''id'' (rd_id r)
     (obj_insert ''spec'' (JStr (rd_spec r))
     (obj_insert ''declaration'' (JStr (rd_declaration r)) [])))))))"

definition resolved_json :: "resolved_declaration \<Rightarrow> json" where
  "resolved_json r = JObj (resolved_object r)"

definition resolved_canonical :: "externs \<Rightarrow> resolved_declaration \<Rightarrow> string" where
  "resolved_canonical x r = canonical_json (ext_f64 x) (resolved_json r)"

section \<open>Reading back\<close>

named_theorems wire_inject

lemma nullable_inject [wire_inject]:
  "nullable_str a = nullable_str b \<longleftrightarrow> a = b"
  by (cases a; cases b) simp_all

definition word_sized :: "nat option \<Rightarrow> bool" where
  "word_sized v \<longleftrightarrow> opt_all (\<lambda>n. n < 2 ^ 64) v"

lemma nullable_nat_inject:
  assumes "word_sized a" "word_sized b"
  shows "nullable_nat a = nullable_nat b \<longleftrightarrow> a = b"
proof -
  have "n = n'" if "(of_nat n :: 64 word) = of_nat n'" "n < 2 ^ 64" "n' < 2 ^ 64" for n n'
    using arg_cong [OF that(1), of unat] that(2,3) by (simp add: unat_of_nat)
  with assms show ?thesis by (cases a; cases b) (auto simp: nullable_nat_def word_sized_def)
qed

lemma str_array_inject [wire_inject]: "str_array xs = str_array ys \<longleftrightarrow> xs = ys"
proof -
  have "inj JStr" by (simp add: inj_def)
  then show ?thesis by (simp add: str_array_def inj_map_eq_map)
qed

lemma points_array_inject [wire_inject]: "points_array ps = points_array qs \<longleftrightarrow> ps = qs"
proof -
  have "inj point_str" by (simp add: inj_def point_str_inject)
  then show ?thesis by (simp add: points_array_def str_array_inject inj_map_eq_map)
qed

lemma names_inject [wire_inject]:
  "mode_wire a = mode_wire b \<longleftrightarrow> a = b" "on_error_str e = on_error_str f \<longleftrightarrow> e = f"
  "tool_seam_str p = tool_seam_str q \<longleftrightarrow> p = q" "profile_str u = profile_str v \<longleftrightarrow> u = v"
     apply (cases a; cases b; simp)
    apply (cases e; cases f; simp)
   apply (cases p; cases q; simp)
  apply (cases u; cases v; simp)
  done

text \<open>Two objects that are equal agree on every member.\<close>

lemma members_agree: "JObj m = JObj m' \<Longrightarrow> obj_get m k = obj_get m' k"
  by simp

lemma put_str_member: "obj_get (put_str k v m) j = (if j = k \<and> v \<noteq> None then map_option JStr v else obj_get m j)"
  by (simp add: put_str_def split: option.split)

lemma map_JStr_inject [wire_inject]: "map_option JStr a = map_option JStr b \<longleftrightarrow> a = b"
  by (cases a; cases b) simp_all

lemma host_info_inject [wire_inject]: "host_info_json h = host_info_json h' \<longleftrightarrow> h = h'"
proof
  assume "host_info_json h = host_info_json h'"
  note agree = members_agree [OF this [unfolded host_info_json_def]]
  from agree [of "''name''"] agree [of "''version''"] show "h = h'"
    by (simp add: put_str_member wire_inject split: if_splits)
qed simp

lemma composition_inject [wire_inject]: "composition_object c = composition_object d \<longleftrightarrow> c = d"
proof
  let ?doc = "[(''configuration'', JObj [(''composition'', JObj (composition_object c))])]"
  assume "composition_object c = composition_object d"
  then have "sub_configuration ?doc ''composition'' = Some (composition_object c)"
    "sub_configuration ?doc ''composition'' = Some (composition_object d)"
    by (simp_all add: sub_configuration_def get_object_def)
  then show "c = d" using composition_stated by metis
qed simp

lemma knob_object_get:
  "obj_get (knob_object k) knob =
     (if knob \<in> {''on_approval'', ''on_disagreement'', ''on_transform_conflict''} \<and> knob_get k knob \<noteq> []
      then Some (str_array (knob_get k knob)) else None)"
  by (auto simp: knob_object_def knob_get_def)

lemma knob_inject [wire_inject]: "knob_object k = knob_object l \<longleftrightarrow> k = l"
proof
  assume eq: "knob_object k = knob_object l"
  have "knob_get k knob = knob_get l knob" if "knob \<in> {''on_approval'', ''on_disagreement'', ''on_transform_conflict''}" for knob
    using arg_cong [OF eq, of "\<lambda>m. obj_get m knob"] that
    by (auto simp only: knob_object_get wire_inject split: if_splits)
  from this [of "''on_approval''"] this [of "''on_disagreement''"] this [of "''on_transform_conflict''"]
  show "k = l" by (simp add: knob_get_def)
qed simp

text \<open>The profiles of a \<open>BTreeMap\<close>: entries in the order of the profiles.\<close>

lemma profiles_object_get:
  "distinct (map fst ps) \<Longrightarrow>
     obj_get (profiles_object ps) (profile_str p) = map_option (\<lambda>k. JObj (knob_object k)) (map_of ps p)"
proof (induction ps rule: rev_induct)
  case (snoc pk ps)
  obtain q k where pk: "pk = (q, k)" by (cases pk)
  have "map_of ps q = None" using snoc.prems pk by (auto simp: map_of_eq_None_iff)
  then show ?case
    using snoc pk by (auto simp: profiles_object_def map_add_def wire_inject split: option.split)
qed (simp add: profiles_object_def)

lemma profiles_inject:
  assumes "sorted_keys ps" "sorted_keys qs" "profiles_object ps = profiles_object qs"
  shows "ps = qs"
proof (rule sorted_keys_extensional [OF assms(1,2)])
  have d: "distinct (map fst ps)" "distinct (map fst qs)" using assms(1,2) by (simp_all add: sorted_keys_distinct)
  have "map_option (\<lambda>k. JObj (knob_object k)) (map_of ps p) = map_option (\<lambda>k. JObj (knob_object k)) (map_of qs p)" for p
    using profiles_object_get [OF d(1), of p] profiles_object_get [OF d(2), of p] assms(3) by simp
  then show "map_of ps p = map_of qs p" for p
    by (cases "map_of ps p"; cases "map_of qs p") (metis wire_inject json.inject(5) option.map option.inject option.distinct(1))+
qed

section \<open>Equal JSON, equal resolved forms\<close>

text \<open>What makes the JSON faithful: integers of 64 bits, and the profiles in their own order.\<close>

definition wire_ok :: "resolved_declaration \<Rightarrow> bool" where
  "wire_ok r \<longleftrightarrow>
     (let c = rd_configuration r in
      word_sized (rc_max_buffered c) \<and> word_sized (rt_interceptor_ms (rc_timeouts c))
      \<and> word_sized (rt_approval_resolver_ms (rc_timeouts c)))
     \<and> sorted_keys (rs_profiles (rd_surface r))
     \<and> (\<forall>b\<in>set (rd_bindings r). word_sized (rb_timeout_ms b))"

lemma configuration_inject:
  assumes "configuration_json c = configuration_json d"
    and "word_sized (rc_max_buffered c)" "word_sized (rc_max_buffered d)"
    and "word_sized (rt_interceptor_ms (rc_timeouts c))" "word_sized (rt_interceptor_ms (rc_timeouts d))"
    and "word_sized (rt_approval_resolver_ms (rc_timeouts c))" "word_sized (rt_approval_resolver_ms (rc_timeouts d))"
  shows "c = d"
proof -
  note agree = members_agree [OF assms(1) [unfolded configuration_json_def]]
  have a: "rc_mode c = rc_mode d" "rc_composition c = rc_composition d"
    "rc_identity_provider c = rc_identity_provider d"
    using agree [of "''mode''"] agree [of "''composition''"] agree [of "''identity_provider''"]
    by (simp_all add: wire_inject)
  have b: "rc_tool_seam c = rc_tool_seam d" "rc_on_error c = rc_on_error d"
    "rc_max_buffered c = rc_max_buffered d"
    using agree [of "''posture''"] agree [of "''failure''"] agree [of "''records''"] assms(2,3)
    by (simp_all add: wire_inject nullable_nat_inject)
  have "JObj (obj_insert ''redactor'' (nullable_str (ra_redactor (rc_approval c)))
        (obj_insert ''resolver'' (nullable_str (ra_resolver (rc_approval c))) []))
      = JObj (obj_insert ''redactor'' (nullable_str (ra_redactor (rc_approval d)))
        (obj_insert ''resolver'' (nullable_str (ra_resolver (rc_approval d))) []))"
    using agree [of "''approval''"] by (simp del: bt_insert.simps)
  from members_agree [OF this, of "''redactor''"] members_agree [OF this, of "''resolver''"]
  have e: "rc_approval c = rc_approval d" by (simp add: wire_inject)
  have "JObj (obj_insert ''approval_resolver_ms'' (nullable_nat (rt_approval_resolver_ms (rc_timeouts c)))
        (obj_insert ''interceptor_ms'' (nullable_nat (rt_interceptor_ms (rc_timeouts c))) []))
      = JObj (obj_insert ''approval_resolver_ms'' (nullable_nat (rt_approval_resolver_ms (rc_timeouts d)))
        (obj_insert ''interceptor_ms'' (nullable_nat (rt_interceptor_ms (rc_timeouts d))) []))"
    using agree [of "''timeouts''"] by (simp del: bt_insert.simps)
  from members_agree [OF this, of "''approval_resolver_ms''"] members_agree [OF this, of "''interceptor_ms''"]
  have "rc_timeouts c = rc_timeouts d" using assms by (simp add: nullable_nat_inject)
  with a b e show ?thesis by simp
qed

lemma surface_inject:
  assumes "surface_json s = surface_json t" "sorted_keys (rs_profiles s)" "sorted_keys (rs_profiles t)"
  shows "s = t"
proof -
  note agree = members_agree [OF assms(1) [unfolded surface_json_def]]
  have "rs_versions s = rs_versions t" "rs_buffered s = rs_buffered t" "rs_capabilities s = rs_capabilities t"
    "rs_points s = rs_points t" "rs_exposure_bound s = rs_exposure_bound t"
    "profiles_object (rs_profiles s) = profiles_object (rs_profiles t)"
    using agree [of "''declaration_versions''"] agree [of "''buffered_output''"] agree [of "''capabilities''"]
      agree [of "''interception_points''"] agree [of "''exposure_bound''"] agree [of "''profiles''"]
    by (simp_all add: wire_inject put_str_member split: if_splits)
  then show ?thesis using profiles_inject [OF assms(2,3)] by simp
qed

lemma resolved_binding_inject:
  assumes "resolved_binding_json b = resolved_binding_json c" "word_sized (rb_timeout_ms b)" "word_sized (rb_timeout_ms c)"
  shows "b = c"
proof -
  note agree = members_agree [OF assms(1) [unfolded resolved_binding_json_def]]
  show ?thesis
    using agree [of "''id''"] agree [of "''kind''"] agree [of "''config''"] agree [of "''at''"]
      agree [of "''timeout_ms''"] agree [of "''on_error''"] assms(2,3)
    by (simp add: wire_inject nullable_nat_inject)
qed

lemma resolved_json_inject:
  assumes "resolved_json r = resolved_json q" "wire_ok r" "wire_ok q"
  shows "r = q"
proof -
  have host: "obj_get ((case h of None \<Rightarrow> \<lambda>m. m | Some h \<Rightarrow> obj_insert ''host'' (host_info_json h)) m) k
      = (if k = ''host'' \<and> h \<noteq> None then map_option host_info_json h else obj_get m k)" for h m k
    by (cases h) auto
  note agree = members_agree [OF assms(1) [unfolded resolved_json_def resolved_object_def]]
  have a: "rd_declaration r = rd_declaration q" "rd_spec r = rd_spec q" "rd_id r = rd_id q"
    "rd_extensions r = rd_extensions q"
    using agree [of "''declaration''"] agree [of "''spec''"] agree [of "''id''"] agree [of "''extensions''"]
    by (simp_all add: wire_inject put_str_member host split: if_splits)
  have h: "rd_host r = rd_host q"
    using agree [of "''host''"] by (auto simp: wire_inject put_str_member host split: if_splits)
  have "configuration_json (rd_configuration r) = configuration_json (rd_configuration q)"
    "surface_json (rd_surface r) = surface_json (rd_surface q)"
    using agree [of "''configuration''"] agree [of "''surface''"] by (simp_all add: host put_str_member)
  then have c: "rd_configuration r = rd_configuration q" "rd_surface r = rd_surface q"
    using assms(2,3) by (auto simp: wire_ok_def Let_def intro: configuration_inject surface_inject)
  have "map resolved_binding_json (rd_bindings r) = map resolved_binding_json (rd_bindings q)"
    using agree [of "''bindings''"] by (simp add: host put_str_member)
  moreover have "inj_on resolved_binding_json (set (rd_bindings r) \<union> set (rd_bindings q))"
    using assms(2,3) by (auto simp: wire_ok_def inj_on_def intro: resolved_binding_inject)
  ultimately have "rd_bindings r = rd_bindings q" by (rule map_inj_on)
  with a h c show ?thesis by simp
qed

section \<open>Accepted documents\<close>

lemma stated_profiles_sorted: "sorted_keys (stated_profiles ps)"
proof -
  have "sorted_keys out \<Longrightarrow> sorted_keys (stated_profile kv out)" for kv out
    by (auto simp: stated_profile_def sorted_keys_bt_insert split: option.split)
  then have "sorted_keys out \<Longrightarrow> sorted_keys (fold stated_profile ps out)" for out
    by (induction ps arbitrary: out) auto
  then show ?thesis by (simp add: stated_profiles_def)
qed

lemma resolved_wire_ok:
  assumes "from_json jparse text = Inr doc" "resolve_surface_only doc code = Inr r" "sorted_keys (hs_profiles code)"
  shows "wire_ok r"
proof -
  have small: "word_sized v" if "opt_within lo hi v" "hi < 2 ^ 64" for v lo hi
    using that by (force simp: word_sized_def opt_all_def opt_within_def)
  have "MAX_TIMEOUT_MS < 2 ^ 64" "MAX_BUFFERED_RECORDS < 2 ^ 64"
    by (simp_all add: MAX_TIMEOUT_MS_def MAX_BUFFERED_RECORDS_def)
  moreover have "resolved_ok r" using assms(1,2) by (rule resolved_well_formed)
  moreover have "sorted_keys (rs_profiles (rd_surface r))"
    using assms(3) resolve_surface_only_Inr(1) [OF assms(2)]
    by (simp add: fill_def Let_def resolve_surface_def stated_profiles_sorted split: option.split)
  ultimately show ?thesis
    by (auto simp: wire_ok_def resolved_ok_def configuration_ok_def binding_ok_def Let_def intro: small)
qed

end
