(* ===== verification/Ctk_Report_Laws.thy ===== *)
theory Ctk_Report_Laws
  imports Ctk_Runner Ctk_Laws
begin

text \<open>
  Laws of the runner: the fold that groups results by part, the registrations of the CTK, and the
  builder path of a document, whose setters find the members they update absent or of their own
  shape.
\<close>

section \<open>Grouping\<close>

lemma bt_insert_tabulated:
  assumes "sorted_wrt (<) ks"
  shows "bt_insert k v (map (\<lambda>p. (p, g p)) ks) =
    map (\<lambda>p. (p, if p = k then v else g p)) (insort_insert k ks)"
  using assms
proof (induction ks)
  case (Cons p ks)
  show ?case
  proof (cases "k < p")
    case True
    then have "k \<noteq> q" if "q \<in> set (p # ks)" for q using Cons.prems that by auto
    then have "map (\<lambda>p. (p, g p)) (p # ks) = map (\<lambda>p. (p, if p = k then v else g p)) (p # ks)"
      by (intro map_cong) auto
    moreover have "insort_insert k (p # ks) = k # p # ks"
      using True \<open>\<And>q. q \<in> set (p # ks) \<Longrightarrow> k \<noteq> q\<close> by (auto simp: insort_insert_key_def)
    ultimately show ?thesis using True by simp
  next
    case False
    show ?thesis
    proof (cases "k = p")
      case True
      then have "k \<noteq> q" if "q \<in> set ks" for q using Cons.prems that by auto
      then have "map (\<lambda>p. (p, g p)) ks = map (\<lambda>p. (p, if p = k then v else g p)) ks"
        by (intro map_cong) auto
      then show ?thesis using True by (simp add: insort_insert_key_def)
    next
      case other: False
      then have "insort_insert k (p # ks) = p # insort_insert k ks"
        using False by (auto simp: insort_insert_key_def)
      with Cons other False show ?thesis by (simp add: insort_insert_key_def)
    qed
  qed
qed (simp add: insort_insert_key_def)

lemma bt_set_snoc: "bt_set (ks @ [k]) = insort_insert k (bt_set ks)"
proof -
  have "sorted (insort_insert k (bt_set ks))" "distinct (insort_insert k (bt_set ks))"
    using bt_set_sorted [of ks] by (simp_all add: sorted_insort_insert distinct_insort_insert)
  then show ?thesis
    using bt_set_sorted [of "ks @ [k]"] by (intro sorted_distinct_set_unique) (auto simp: set_insort_insert)
qed

lemma bt_set_strict: "sorted_wrt (<) (bt_set ks)"
  using bt_set_sorted [of ks] by (simp add: strict_sorted_iff)

lemma map_of_tabulated: "map_of (map (\<lambda>p. (p, g p)) ks) k = (if k \<in> set ks then Some (g k) else None)"
  by (induction ks) auto

definition with_status :: "string \<Rightarrow> run_result list \<Rightarrow> nat" where
  "with_status st rs = length (filter (\<lambda>r. rn_status r = st) rs)"

definition without_status :: "string list \<Rightarrow> run_result list \<Rightarrow> nat" where
  "without_status sts rs = length (filter (\<lambda>r. rn_status r \<notin> set sts) rs)"

definition of_part :: "string \<Rightarrow> run_result list \<Rightarrow> run_result list" where
  "of_part p rs = filter (\<lambda>r. rn_part r = p) rs"

text \<open>What a part of the report has to say: its results in run order, with their counts.\<close>

definition part_spec :: "run_result list \<Rightarrow> string \<Rightarrow> part_report" where
  "part_spec rs p =
     \<lparr>pr_part = p, pr_passed = with_status ''pass'' (of_part p rs),
      pr_failed = without_status [''pass'', ''skip''] (of_part p rs),
      pr_skipped = with_status ''skip'' (of_part p rs), pr_vectors = of_part p rs\<rparr>"

lemma part_spec_snoc: "part_spec (rs @ [r]) p = (if p = rn_part r then count_result r (part_spec rs p) else part_spec rs p)"
  by (simp add: part_spec_def of_part_def count_result_def with_status_def without_status_def Let_def)

lemma part_spec_empty: "p \<notin> rn_part ` set rs \<Longrightarrow> part_spec rs p = empty_part p"
  by (auto simp: part_spec_def of_part_def empty_part_def with_status_def without_status_def filter_empty_conv)

lemma grouped: "fold add_result rs [] = map (\<lambda>p. (p, part_spec rs p)) (bt_set (map rn_part rs))"
proof (induction rs rule: rev_induct)
  case (snoc r rs)
  have "unwrap_or (map_of (map (\<lambda>p. (p, part_spec rs p)) (bt_set (map rn_part rs))) (rn_part r)) (empty_part (rn_part r))
      = part_spec rs (rn_part r)"
    by (auto simp: map_of_tabulated part_spec_empty)
  with snoc show ?case
    by (simp add: add_result_def bt_insert_tabulated bt_set_strict bt_set_snoc part_spec_snoc cong: if_cong)
qed (simp add: bt_set_def)

lemma counted_once:
  "distinct ks \<Longrightarrow> f ` set xs \<subseteq> set ks \<Longrightarrow> sum_list (map (\<lambda>k. length (filter (\<lambda>x. f x = k) xs)) ks) = length xs"
proof (induction xs)
  case (Cons x xs)
  have "sum_list (map (\<lambda>k. length (filter (\<lambda>x. f x = k) (x # xs))) ks)
      = sum_list (map (\<lambda>k. (if f x = k then 1 else 0)) ks) + sum_list (map (\<lambda>k. length (filter (\<lambda>x. f x = k) xs)) ks)"
    by (simp add: sum_list_addf [symmetric] if_distrib cong: if_cong) (auto intro!: arg_cong [where f = sum_list] map_cong)
  also have "sum_list (map (\<lambda>k. (if f x = k then 1 else 0)) ks) = (1::nat)"
    using Cons.prems by (simp add: sum_list_distinct_conv_sum_set)
  finally show ?case using Cons by simp
qed simp

lemma totals:
  "fold (\<lambda>(_, part) (p, f, s). (p + pr_passed part, f + pr_failed part, s + pr_skipped part)) parts (a, b, c)
     = (a + sum_list (map (pr_passed \<circ> snd) parts), b + sum_list (map (pr_failed \<circ> snd) parts),
        c + sum_list (map (pr_skipped \<circ> snd) parts))"
  by (induction parts arbitrary: a b c) auto

lemma part_totals:
  "sum_list (map (\<lambda>p. pr_passed (part_spec rs p)) (bt_set (map rn_part rs))) = with_status ''pass'' rs"
  "sum_list (map (\<lambda>p. pr_failed (part_spec rs p)) (bt_set (map rn_part rs))) = without_status [''pass'', ''skip''] rs"
  "sum_list (map (\<lambda>p. pr_skipped (part_spec rs p)) (bt_set (map rn_part rs))) = with_status ''skip'' rs"
proof -
  have c: "sum_list (map (\<lambda>p. length (filter P (of_part p rs))) (bt_set (map rn_part rs))) = length (filter P rs)" for P
    using counted_once [of "bt_set (map rn_part rs)" rn_part "filter P rs"] bt_set_sorted [of "map rn_part rs"]
    by (auto simp: of_part_def filter_filter conj_commute)
  show "sum_list (map (\<lambda>p. pr_passed (part_spec rs p)) (bt_set (map rn_part rs))) = with_status ''pass'' rs"
    "sum_list (map (\<lambda>p. pr_failed (part_spec rs p)) (bt_set (map rn_part rs))) = without_status [''pass'', ''skip''] rs"
    "sum_list (map (\<lambda>p. pr_skipped (part_spec rs p)) (bt_set (map rn_part rs))) = with_status ''skip'' rs"
    by (simp_all add: part_spec_def with_status_def without_status_def c)
qed

section \<open>Registration\<close>

lemma ctk_names:
  "valid_kind ''ctk.scripted''" "valid_kind ''ctk.managed''" "valid_kind ''ctk.instance''"
  "kind_first_segment ''ctk.scripted'' = ''ctk''" "kind_first_segment ''ctk.managed'' = ''ctk''"
  "kind_first_segment ''ctk.instance'' = ''ctk''" "valid_reference ''ctk-scripted''" "valid_reference ''ctk-redact''"
  "validate_provider_name ''ctk-fault'' = Inr ()"
  by code_simp+

lemmas registration = register_kind_def register_managed_kind_def check_kind_def register_identity_provider_def
  register_approval_resolver_def register_approval_redactor_def check_reference_def for_conformance_def
  new_registry_def MAX_ID_LEN_def ctk_names

lemma scripts_registered: "\<exists>reg. scripts_registry x sc surface = Inr reg"
  by (simp add: scripts_registry_def registration Let_def)

lemma vector_provider_cases:
  "vector_provider v = NullIdentity \<or> vector_provider v = JcsSha256
     \<or> (\<exists>f. vector_provider v = CustomIdentity ''ctk-fault'' f)"
  by (auto simp: vector_provider_def split: option.split json.split)

lemma setup_registered: "\<exists>reg. setup_registry surface (setup_of x de_comp v) = Inr reg"
  using vector_provider_cases [of v]
  by (auto simp: setup_registry_def setup_of_def registration Let_def with_principal_channel_def
      control_failure_notifier_def split: option.split)

section \<open>The builder path\<close>

text \<open>A typed section that does not panic and, when it is typed, keeps an invariant of the builder.\<close>

definition keeps :: "('a \<Rightarrow> bool) \<Rightarrow> not_typed + 'a \<Rightarrow> bool" where
  "keeps P r = (case r of Inr b \<Rightarrow> P b | Inl e \<Rightarrow> e = NotTyped)"

abbreviation no_panic :: "not_typed + 'a \<Rightarrow> bool" where
  "no_panic \<equiv> keeps (\<lambda>_. True)"

lemma keeps_simps [simp]: "keeps P (Inr b) = P b" "keeps P (Inl NotTyped)"
  by (simp_all add: keeps_def)

lemma keeps_bind: "keeps Q r \<Longrightarrow> (\<And>a. Q a \<Longrightarrow> keeps P (f a)) \<Longrightarrow> keeps P (res_bind r f)"
  by (cases r) (auto simp: keeps_def)

lemma keeps_arg: "no_panic r \<Longrightarrow> (\<And>a. keeps P (f a)) \<Longrightarrow> keeps P (res_bind r f)"
  by (rule keeps_bind)

lemma keeps_each: "(\<And>k v b. P b \<Longrightarrow> keeps P (f k v b)) \<Longrightarrow> P b \<Longrightarrow> keeps P (each_member f m b)"
  by (induction m arbitrary: b) (auto intro!: keeps_bind)

lemma keeps_if: "(c \<Longrightarrow> keeps P x) \<Longrightarrow> (\<not> c \<Longrightarrow> keeps P y) \<Longrightarrow> keeps P (if c then x else y)"
  by simp

lemma or_raw_no_panic [simp]: "no_panic (or_raw v)"
  by (cases v) (simp_all add: or_raw_def)

lemma typed_u64_no_panic [simp]: "no_panic (typed_u64 v)"
  by (simp add: typed_u64_def split: json.split option.split)

lemma traverse_no_panic: "(\<And>i. no_panic (f i)) \<Longrightarrow> no_panic (traverse f xs)"
  by (induction xs) (auto intro!: keeps_arg)

lemma typed_lists_no_panic [simp]: "no_panic (typed_points v)" "no_panic (typed_strings v)"
  by (auto simp: typed_points_def typed_strings_def items_of_def intro!: keeps_arg traverse_no_panic)

lemma knob_members_no_panic: "no_panic (knob_members m k)"
proof (induction m arbitrary: k)
  case (Cons kv m)
  have "no_panic (knob_set v)" for v by (auto simp: knob_set_def intro!: keeps_arg)
  with Cons show ?case by (cases kv) (simp add: keeps_arg)
qed simp

lemma knob_support_no_panic [simp]: "no_panic (knob_support_of v)"
  by (simp add: knob_support_of_def knob_members_no_panic split: json.split)

lemma composition_member_no_panic: "no_panic (composition_member kv cfg)"
  unfolding composition_member_def Let_def split_def by (intro keeps_if keeps_arg) simp_all

lemma typed_composition_no_panic [simp]: "no_panic (typed_composition m)"
proof -
  have "no_panic (composition_members m cfg)" for m cfg
    by (induction m arbitrary: cfg) (auto intro!: keeps_arg composition_member_no_panic)
  then show ?thesis
    by (auto simp: typed_composition_def Let_def intro!: keeps_if keeps_arg split: option.split json.split)
qed

text \<open>The builder while one top-level member is written: the others are as they were.\<close>

definition others_kept :: "string \<Rightarrow> decl_builder \<Rightarrow> decl_builder \<Rightarrow> bool" where
  "others_kept k b0 b \<longleftrightarrow> (\<forall>j. j \<noteq> k \<longrightarrow> obj_get (db_doc b) j = obj_get (db_doc b0) j)"

definition within_member :: "string \<Rightarrow> string list \<Rightarrow> decl_builder \<Rightarrow> decl_builder \<Rightarrow> bool" where
  "within_member k subs b0 b \<longleftrightarrow> others_kept k b0 b \<and> object_or_absent (db_doc b) k
     \<and> list_all (object_or_absent (sub (db_doc b) k)) subs"

lemma put_kept:
  assumes "within_member k subs b0 b" "j \<notin> set subs"
  shows "\<exists>b'. on_doc (in_object k (put_member j v)) b = Some b' \<and> within_member k subs b0 b'"
  using assms
  by (auto simp: within_member_def on_doc_def in_object_eq put_member_def others_kept_def list_all_iff
      object_or_absent_insert sub_insert)

lemma sub_put_kept:
  assumes "within_member k subs b0 b" "j \<in> set subs"
  shows "\<exists>b'. on_doc (in_object k (in_object j (put_member i v))) b = Some b' \<and> within_member k subs b0 b'"
  using assms
  by (auto simp: within_member_def on_doc_def in_object_eq put_member_def others_kept_def list_all_iff
      object_or_absent_insert sub_insert)

lemma set_by_kept: "\<exists>b'. r = Some b' \<and> P b' \<Longrightarrow> keeps P (set_by r)"
  by (auto simp: keeps_def set_by_def)

abbreviation configuring :: "decl_builder \<Rightarrow> decl_builder \<Rightarrow> bool" where
  "configuring \<equiv> within_member ''configuration'' CONFIGURATION_SUBS"

lemma configuration_setters:
  assumes "configuring b0 b"
  shows "keeps (configuring b0) (set_by (decl_mode md b))"
    "keeps (configuring b0) (set_by (decl_identity_provider n b))"
    "keeps (configuring b0) (set_by (decl_composition c b))"
    "keeps (configuring b0) (set_by (decl_approval_resolver n b))"
    "keeps (configuring b0) (set_by (decl_approval_redactor n b))"
    "keeps (configuring b0) (set_by (decl_tool_seam p b))"
    "keeps (configuring b0) (set_by (decl_failure_on_error e b))"
    "keeps (configuring b0) (set_by (decl_interceptor_timeout ms b))"
    "keeps (configuring b0) (set_by (decl_resolver_timeout ms b))"
    "keeps (configuring b0) (set_by (decl_max_buffered ms b))"
  using put_kept [OF assms] sub_put_kept [OF assms]
  by (auto intro!: set_by_kept simp: decl_mode_def decl_identity_provider_def decl_composition_def
      decl_approval_resolver_def decl_approval_redactor_def decl_tool_seam_def decl_failure_on_error_def
      decl_interceptor_timeout_def decl_resolver_timeout_def decl_max_buffered_def configuration_sub_def
      in_configuration_def CONFIGURATION_SUBS_def)

lemma nested_members:
  "configuring b0 b \<Longrightarrow> keeps (configuring b0) (approval_member k v b)"
  "configuring b0 b \<Longrightarrow> keeps (configuring b0) (timeout_member k v b)"
proof -
  assume c: "configuring b0 b"
  have "no_panic (case v of JNull \<Rightarrow> Inr None | JStr s \<Rightarrow> Inr (Some s) | _ \<Rightarrow> Inl NotTyped)"
    by (simp split: json.split)
  then show "keeps (configuring b0) (approval_member k v b)"
    unfolding approval_member_def by (intro keeps_arg keeps_if configuration_setters c) simp_all
  show "keeps (configuring b0) (timeout_member k v b)"
    unfolding timeout_member_def by (intro keeps_arg keeps_if configuration_setters c) simp_all
qed

lemma posture_sections:
  "configuring b0 b \<Longrightarrow> keeps (configuring b0) (posture_section m b)"
  "configuring b0 b \<Longrightarrow> keeps (configuring b0) (failure_section m b)"
  "configuring b0 b \<Longrightarrow> keeps (configuring b0) (records_section m b)"
  unfolding posture_section_def failure_section_def records_section_def Let_def
  by (intro keeps_if keeps_arg configuration_setters; simp)+

lemma configuration_members:
  assumes "configuring b0 b"
  shows "keeps (configuring b0) (configuration_member k v b)"
proof (cases v)
  case (JObj m)
  have "keeps (configuring b0) (configuration_member k (JObj m) b)"
    unfolding configuration_member_def json.case
    by (intro keeps_if keeps_arg keeps_each configuration_setters nested_members posture_sections assms) simp_all
  then show ?thesis by (simp add: JObj)
qed (simp_all add: configuration_member_def configuration_setters assms)

lemma typed_configuration_keeps:
  "configuring b0 b \<Longrightarrow> keeps (configuring b0) (typed_configuration m b)"
  unfolding typed_configuration_def by (intro keeps_each configuration_members)

abbreviation surfacing :: "decl_builder \<Rightarrow> decl_builder \<Rightarrow> bool" where
  "surfacing \<equiv> within_member ''surface'' [''profiles'']"

lemma buffered_kept:
  assumes "surfacing b0 b"
  shows "keeps (surfacing b0) (set_by (decl_buffered x bound b))"
proof -
  have "obj_get (remove_key k o') j = (if j = k then None else obj_get o' j)" for k j o'
    by (induction o') (auto simp: remove_key_def)
  with assms show ?thesis
    by (intro set_by_kept)
      (auto simp: decl_buffered_def in_surface_def within_member_def on_doc_def in_object_eq others_kept_def Let_def
        sub_insert object_or_absent_def get_object_def split: option.splits)
qed

lemma surface_setters:
  assumes "surfacing b0 b"
  shows "keeps (surfacing b0) (set_by (decl_points ps b))"
    "keeps (surfacing b0) (set_by (decl_capabilities cs b))"
    "keeps (surfacing b0) (set_by (decl_versions cs b))"
    "keeps (surfacing b0) (set_by (decl_profile p ks b))"
  using put_kept [OF assms] sub_put_kept [OF assms]
  by (auto intro!: set_by_kept simp: decl_points_def decl_capabilities_def decl_versions_def decl_profile_def in_surface_def)

lemma profile_members: "surfacing b0 b \<Longrightarrow> keeps (surfacing b0) (profile_member k v b)"
  unfolding profile_member_def by (intro keeps_arg surface_setters) simp_all

lemma surface_members: "surfacing b0 b \<Longrightarrow> keeps (surfacing b0) (surface_member k v b)"
  unfolding surface_member_def by (intro keeps_if keeps_arg keeps_each surface_setters profile_members) simp_all

lemma typed_surface_keeps:
  assumes "surfacing b0 b"
  shows "keeps (surfacing b0) (typed_surface sf b)"
proof -
  have opt: "no_panic (case w of None \<Rightarrow> Inr None | Some v \<Rightarrow> res_bind (or_raw (f v)) (\<lambda>x. Inr (Some x)))" for w f
    by (auto intro!: keeps_arg split: option.split)
  have "keeps (surfacing b0) (case buffered of Some x \<Rightarrow> set_by (decl_buffered x bound b)
      | None \<Rightarrow> if bound \<noteq> None then Inl NotTyped else Inr b)" for buffered bound
    using assms by (simp add: buffered_kept split: option.split)
  then show ?thesis
    unfolding typed_surface_def by (intro keeps_arg opt keeps_bind [where Q = "surfacing b0"] keeps_each surface_members)
qed

section \<open>The whole document\<close>

text \<open>The builder while its bindings are written.\<close>

definition binding_list :: "decl_builder \<Rightarrow> decl_builder \<Rightarrow> bool" where
  "binding_list b0 b \<longleftrightarrow> others_kept ''bindings'' b0 b
     \<and> (obj_get (db_doc b) ''bindings'' = None \<or> Option.bind (obj_get (db_doc b) ''bindings'') as_array \<noteq> None)"

lemma bind_kept: "binding_list b0 b \<Longrightarrow> keeps (binding_list b0) (set_by (decl_bind_with i k c opts b))"
  by (intro set_by_kept)
    (auto simp: decl_bind_with_def on_doc_def binding_list_def others_kept_def split: option.splits)

lemma typed_binding_keeps: "binding_list b0 b \<Longrightarrow> keeps (binding_list b0) (typed_binding item b)"
proof -
  have opt: "no_panic (optional_member o' k f)" if "\<And>v. no_panic (f v)" for o' k and f :: "json \<Rightarrow> not_typed + 'a"
    using that by (auto simp: optional_member_def intro!: keeps_arg split: option.split)
  show "binding_list b0 b \<Longrightarrow> keeps (binding_list b0) (typed_binding item b)"
    unfolding typed_binding_def by (intro keeps_arg keeps_if bind_kept opt) simp_all
qed

lemma typed_bindings_keeps:
  assumes "binding_list b0 b"
  shows "keeps (others_kept ''bindings'' b0) (typed_bindings items b)"
proof -
  have "binding_list b0 b \<Longrightarrow> keeps (binding_list b0) (each_binding items b)" for b
    by (induction items arbitrary: b) (auto intro!: keeps_bind [where Q = "binding_list b0"] typed_binding_keeps)
  then have "keeps (binding_list b0) (each_binding items b)" using assms .
  then show ?thesis
    using assms by (auto simp: typed_bindings_def keeps_def binding_list_def others_kept_def set_by_def decl_raw_def
        on_doc_def put_member_def split: sum.splits)
qed

lemma raw_kept: "\<exists>b'. decl_raw k v b = Some b' \<and> others_kept k b b'"
  by (simp add: decl_raw_def on_doc_def put_member_def others_kept_def)

lemma else_raw_kept:
  assumes "keeps (others_kept k b) r"
  shows "\<exists>b'. else_raw k v b r = Some b' \<and> others_kept k b b'"
  using assms raw_kept [of k v b] by (auto simp: else_raw_def keeps_def split: sum.splits not_typed.splits)

lemma keeps_mono: "keeps P r \<Longrightarrow> (\<And>b. P b \<Longrightarrow> Q b) \<Longrightarrow> keeps Q r"
  by (auto simp: keeps_def split: sum.splits)

lemma member_written:
  assumes "obj_get (db_doc b) k = None"
  shows "\<exists>b'. document_member k v b = Some b' \<and> others_kept k b b'"
proof -
  have fresh: "within_member k subs b b" for subs
    using assms by (auto simp: within_member_def others_kept_def object_or_absent_def sub_def get_object_def list_all_iff)
  have into: "keeps (within_member k subs b) r \<Longrightarrow> keeps (others_kept k b) r" for subs r
    by (erule keeps_mono) (simp add: within_member_def)
  have "keeps (within_member ''extensions'' [] b) (each_member extension_member m b)" if k: "k = ''extensions''" for m
  proof (rule keeps_each)
    show "within_member ''extensions'' [] b b'' \<Longrightarrow> keeps (within_member ''extensions'' [] b) (extension_member j w b'')" for j w b''
      unfolding extension_member_def decl_extension_def by (rule set_by_kept, rule put_kept) simp_all
  qed (use fresh [of "[]"] k in simp)
  then have extensions: "k = ''extensions'' \<Longrightarrow>
      \<exists>b'. else_raw k w b (each_member extension_member m b) = Some b' \<and> others_kept k b b'" for w m
    by (intro else_raw_kept into [of "[]"]) auto
  have configuration: "k = ''configuration'' \<Longrightarrow> \<exists>b'. else_raw k w b (typed_configuration m b) = Some b' \<and> others_kept k b b'" for w m
    using fresh by (intro else_raw_kept into [of CONFIGURATION_SUBS]) (auto intro: typed_configuration_keeps)
  have surface: "k = ''surface'' \<Longrightarrow> \<exists>b'. else_raw k w b (typed_surface m b) = Some b' \<and> others_kept k b b'" for w m
    using fresh by (intro else_raw_kept into [of "[''profiles'']"]) (auto intro: typed_surface_keeps)
  have bindings: "k = ''bindings'' \<Longrightarrow> \<exists>b'. else_raw k w b (typed_bindings items b) = Some b' \<and> others_kept k b b'" for w items
    using assms typed_bindings_keeps [of b b] by (intro else_raw_kept) (auto simp: binding_list_def others_kept_def)
  have put: "\<exists>b'. on_doc (put_member k w) b = Some b' \<and> others_kept k b b'" for w
    by (simp add: on_doc_def put_member_def others_kept_def)
  show ?thesis
  proof (cases v)
    case (JStr s)
    then show ?thesis
      using put by (auto simp: document_member_def decl_version_def decl_spec_def decl_id_def decl_raw_def)
  next
    case (JArr items)
    then show ?thesis using bindings raw_kept by (auto simp: document_member_def)
  next
    case (JObj m)
    consider "k = ''host'' \<and> host_typed m" | "k = ''configuration''" | "k = ''surface''" | "k = ''extensions''"
      | "document_member k v b = decl_raw k v b"
      unfolding JObj document_member_def json.case by metis
    then show ?thesis
    proof cases
      case 1
      then show ?thesis using put by (simp add: JObj document_member_def decl_host_def)
    next
      case 4
      then show ?thesis using extensions by (simp add: JObj document_member_def)
    qed (use configuration surface raw_kept in \<open>simp_all add: JObj document_member_def\<close>)
  qed (use raw_kept in \<open>simp_all add: document_member_def\<close>)
qed

lemma document_written:
  assumes "distinct (map fst m)" "\<forall>k\<in>fst ` set m. obj_get (db_doc b) k = None"
  shows "\<exists>b'. document_members m b = Some b' \<and> (\<forall>k. k \<notin> fst ` set m \<longrightarrow> obj_get (db_doc b') k = obj_get (db_doc b) k)"
  using assms
proof (induction m arbitrary: b)
  case (Cons kv m)
  obtain k v where kv: "kv = (k, v)" by (cases kv)
  from Cons.prems kv member_written [of b k v] obtain b1
    where b1: "document_member k v b = Some b1" "others_kept k b b1" by auto
  moreover from b1 Cons.prems kv have "\<forall>j\<in>fst ` set m. obj_get (db_doc b1) j = None"
    by (auto simp: others_kept_def image_iff) force
  ultimately show ?case using Cons.IH [of b1] Cons.prems kv by (auto simp: others_kept_def)
qed simp

lemma builder_written: "distinct (map fst m) \<Longrightarrow> \<exists>b. builder_from_value (JObj m) = Some b"
  using document_written [of m empty_decl] by (auto simp: builder_from_value_def empty_decl_def)

end
