(* ===== verification/Ctk_Report_Properties.thy ===== *)
theory Ctk_Report_Properties
  imports Ctk_Report_Laws Decl_Samples Samples
begin

text \<open>
  The properties of the conformance runner and its report (\<open>ctk.rs\<close>), each with a concrete
  instance: the report of a run, what a pass says, and the code path of a declaration document.
\<close>

section \<open>The report\<close>

text \<open>
  C37: A conformance report never names the draft. For a released version it has one part per name
  found in the results, in name order, each with exactly its results in run order and their counts
  (a status other than pass and skip counts as failed), and its totals are those of all the results.
\<close>

theorem report_partitions_results:
  "conformance_report spec results =
     (if spec = Draft then Inl DRAFT_NOT_CLAIMABLE
      else Inr \<lparr>cr_spec = spec_wire spec, cr_parts = map (part_spec results) (bt_set (map rn_part results)),
             cr_passed = with_status ''pass'' results,
             cr_failed = without_status [''pass'', ''skip''] results,
             cr_skipped = with_status ''skip'' results\<rparr>)"
proof -
  note part_totals [of results]
  moreover have "map (f \<circ> snd) (map (\<lambda>p. (p, part_spec results p)) ks) = map (\<lambda>p. f (part_spec results p)) ks"
    for f :: "part_report \<Rightarrow> nat" and ks by simp
  ultimately show ?thesis
    by (simp add: conformance_report_def grouped totals comp_def Let_def)
qed

section \<open>What a pass says\<close>

definition released :: "'s harness \<Rightarrow> json \<Rightarrow> 's \<Rightarrow> bool" where
  "released h vector s \<longleftrightarrow> (value_str vector ''introduced_in'' = Some ''draft'' \<longrightarrow> hn_spec h s = Draft)"

text \<open>The run the runner makes of a vector it does not skip.\<close>

definition ran ::
  "externs \<Rightarrow> (resolved_declaration \<Rightarrow> string) \<Rightarrow> (string \<Rightarrow> raw option) \<Rightarrow> (json \<Rightarrow> string)
     \<Rightarrow> (json \<Rightarrow> composition_config option) \<Rightarrow> file_view option \<Rightarrow> 's harness \<Rightarrow> json \<Rightarrow> 's
     \<Rightarrow> (run_record \<times> json list \<times> 's) option" where
  "ran x canon jparse jprint de_comp written h vector s =
     (case value_get vector ''host_declaration'' of
        Some document \<Rightarrow>
          run_declared x h
            (\<lambda>reg. prove_paths canon jparse jprint written document (hr_surface reg) (registry_names_of reg))
            (scripts_of vector) (setup_of x de_comp vector) document s
      | None \<Rightarrow> run_field h (setup_of x de_comp vector) s)"

definition with_postures :: "string \<Rightarrow> string \<Rightarrow> run_record \<Rightarrow> run_record" where
  "with_postures posture on_err rr =
     rr\<lparr>rr_postures := bt_insert ''on_error'' on_err (bt_insert ''tool_seam_host_error'' posture (rr_postures rr))\<rparr>"

lemma unrun_status [simp]: "rn_status (unrun v st d f) = st"
  by (simp add: unrun_def)

lemma passing_run:
  assumes "run_vector x canon jparse jprint de_comp written h vector s = Some (r, s')" "rn_status r = ''pass''"
  obtains caps posture on_err rr recorded where "released h vector s"
    "assessed jparse jprint h s = Inr (caps, posture, on_err)"
    "set (value_strings vector ''capabilities'') \<subseteq> set caps"
    "ran x canon jparse jprint de_comp written h vector s = Some (rr, recorded, s')"
    "vector_met jprint (value_index vector ''expect'') recorded (with_postures posture on_err rr)"
proof -
  have rel: "released h vector s" using assms by (auto simp: run_vector_def released_def split: if_splits)
  then have not_draft: "\<not> (value_str vector ''introduced_in'' = Some ''draft'' \<and> hn_spec h s \<noteq> Draft)"
    by (auto simp: released_def)
  show ?thesis
  proof (cases "assessed jparse jprint h s")
    case (Inr a)
    obtain caps posture on_err where a: "a = (caps, posture, on_err)" by (cases a)
    have s: "should_skip vector (sort caps) = None"
      using assms Inr a not_draft by (auto simp: run_vector_def split: option.splits)
    then have caps: "set (value_strings vector ''capabilities'') \<subseteq> set caps"
      by (auto simp: should_skip_def Let_def filter_empty_conv split: if_splits)
    have "map_option (\<lambda>(rr, recorded, s').
        (asserted (assert_vector jprint vector recorded (with_postures posture on_err rr)), s'))
        (ran x canon jparse jprint de_comp written h vector s) = Some (r, s')"
      using assms(1) Inr a not_draft s
      by (simp add: run_vector_def ran_def with_postures_def Let_def cong: option.case_cong)
    then obtain rr recorded where run: "ran x canon jparse jprint de_comp written h vector s = Some (rr, recorded, s')"
      and r: "r = asserted (assert_vector jprint vector recorded (with_postures posture on_err rr))" by auto
    from r assms(2) have "passes (assert_vector jprint vector recorded (with_postures posture on_err rr))"
      by (simp add: asserted_def passes_def)
    with that [OF rel Inr [unfolded a] caps run] show ?thesis by (simp add: assert_vector_met)
  next
    case (Inl e)
    with assms(1) not_draft have "r = unrun vector ''fail'' NoDetail (DeclarationRefused e)"
      by (simp add: run_vector_def)
    with assms(2) show ?thesis by simp
  qed
qed

text \<open>
  A vector passes only for a run the harness made. The harness is of the version the vector needs and
  has the capabilities it names, the run is the one of the emitter the vector configures (through the
  loader where it holds a declaration), and what that run recorded meets everything the vector expects, with the
  postures of the assessed declaration.
\<close>

theorem passing_vector_was_run:
  assumes "run_vector x canon jparse jprint de_comp written h vector s = Some (r, s')" and "rn_status r = ''pass''"
  shows "\<exists>caps posture on_err rr recorded. released h vector s
    \<and> assessed jparse jprint h s = Inr (caps, posture, on_err)
    \<and> set (value_strings vector ''capabilities'') \<subseteq> set caps
    \<and> ran x canon jparse jprint de_comp written h vector s = Some (rr, recorded, s')
    \<and> vector_met jprint (value_index vector ''expect'') recorded (with_postures posture on_err rr)"
  using assms by (rule passing_run) blast

text \<open>
  A harness over a number of calls, that completes a run with no output and refuses every
  declaration as malformed.
\<close>

definition empty_run :: run_record where
  "empty_run =
     \<lparr>rr_outcome = ''completed'', rr_final_output = JNull, rr_tool_invocations = [], rr_error = None,
      rr_identities = [], rr_records = [], rr_postures = [], rr_load = None, rr_host_messages = []\<rparr>"

definition idle_harness :: "nat harness" where
  "idle_harness =
     \<lparr>hn_capabilities = (\<lambda>_. [''tool_calls'', ''model_calls'']), hn_spec = (\<lambda>_. V0_1),
      hn_tool_seam = (\<lambda>_. ''continue''), hn_surface = (\<lambda>_. sample_surface), hn_declaration = (\<lambda>_. None),
      hn_setup = (\<lambda>_ n. Some (n + 1)),
      hn_setup_declared = (\<lambda>_ _ _ n. Some (Inl (decl_error Malformed ''''), n + 1)),
      hn_run = (\<lambda>n. Some (empty_run, [], n + 1)), hn_teardown = (\<lambda>n. n + 1)\<rparr>"

definition idle_vector :: json where
  "idle_vector = JObj
     [(''capabilities'', JArr [JStr ''model_calls'']),
      (''expect'', JObj [(''run_outcome'', JStr ''completed'')]), (''id'', JStr ''idle'')]"

lemma idle_run:
  "\<exists>r. run_vector x canon jparse jprint de_comp written idle_harness idle_vector 0 = Some (r, 3) \<and> rn_status r = ''pass''"
proof -
  let ?rr = "with_postures ''continue'' (on_error_str OE_Deny) empty_run"
  have get: "value_str idle_vector ''introduced_in'' = None" "value_get idle_vector ''host_declaration'' = None"
    "should_skip idle_vector (sort [''tool_calls'', ''model_calls'']) = None" by code_simp+
  have pass: "vr_status (assert_vector jprint idle_vector [] ?rr) = ''pass''"
    by (simp add: assert_vector_def assert_load_def assert_interceptions_def assert_record_def assert_records_def
        assert_host_messages_def assert_sequence_def assert_identities_def expected_outcome_def idle_vector_def
        with_postures_def empty_run_def value_index_def value_get_def value_str_def value_strings_def value_bool_def
        value_array_def value_object_def pair_up_def points_of_def vector_result_def Let_def)
  have "run_field idle_harness vs 0 = Some (empty_run, [], 3)" for vs
    by (simp add: run_field_def idle_harness_def)
  with get pass show ?thesis
    by (simp add: run_vector_def assessed_def idle_harness_def asserted_def Let_def with_postures_def)
qed

theorem passing_vector_was_run_witness:
  "\<exists>caps posture on_err rr recorded. released idle_harness idle_vector 0
    \<and> assessed sample_parse (\<lambda>_. []) idle_harness 0 = Inr (caps, posture, on_err)
    \<and> set (value_strings idle_vector ''capabilities'') \<subseteq> set caps
    \<and> ran sample_externs (\<lambda>_. []) sample_parse (\<lambda>_. []) (\<lambda>_. None) None idle_harness idle_vector 0
        = Some (rr, recorded, 3)
    \<and> vector_met (\<lambda>_. []) (value_index idle_vector ''expect'') recorded (with_postures posture on_err rr)"
proof -
  obtain r where "run_vector sample_externs (\<lambda>_. []) sample_parse (\<lambda>_. []) (\<lambda>_. None) None idle_harness idle_vector 0
      = Some (r, 3)" "rn_status r = ''pass''" using idle_run by blast
  then show ?thesis by (rule passing_vector_was_run)
qed

section \<open>The four construction paths\<close>

lemma run_declared_load:
  assumes "run_declared x h prove sc vs document s = Some (rr, recorded, s')"
  obtains reg same got where "scripts_registry x sc (hn_surface h s) = Inr reg" "prove reg = Some same"
    "rr_load rr = Some got" "ld_paths_equivalent got = Some same"
proof -
  from assms obtain reg where reg: "scripts_registry x sc (hn_surface h s) = Inr reg"
    by (auto simp: run_declared_def split: sum.splits)
  from assms obtain same res s1 where same: "prove reg = Some same"
    "hn_setup_declared h (declared_setup vs) document reg s = Some (res, s1)"
    by (auto simp: run_declared_def reg bind_eq_Some_conv)
  have "\<exists>got. rr_load rr = Some got \<and> ld_paths_equivalent got = Some same"
    using assms by (cases res) (auto simp: run_declared_def reg same refused_record_def accepted_load_def)
  with reg same that show ?thesis by blast
qed

text \<open>
  C23: A vector with a host declaration passes only when the four ways to construct the document agree:
  read as a value, as text, from a file and rebuilt through the builder, it is refused with one class on all
  of them or resolves to one canonical form on all of them, whatever the vector expects.
\<close>

theorem passing_declaration_proved:
  assumes "run_vector x canon jparse jprint de_comp written h vector s = Some (r, s')" and "rn_status r = ''pass''"
    and "value_get vector ''host_declaration'' = Some document"
  shows "\<exists>reg outcomes key. scripts_registry x (scripts_of vector) (hn_surface h s) = Inr reg
    \<and> path_outcomes jparse jprint written document (hr_surface reg) (registry_names_of reg) = Some outcomes
    \<and> length outcomes = 4 \<and> (\<forall>r\<in>set outcomes. path_key canon r = key)"
  using assms(1,2)
proof (cases rule: passing_run)
  case (1 caps posture on_err rr recorded)
  obtain reg same where reg: "scripts_registry x (scripts_of vector) (hn_surface h s) = Inr reg"
    and same: "prove_paths canon jparse jprint written document (hr_surface reg) (registry_names_of reg) = Some same"
    and load: "\<exists>got. rr_load rr = Some got \<and> ld_paths_equivalent got = Some same"
    using 1(4) assms(3) by (simp add: ran_def) (erule run_declared_load, blast)
  from 1(5) load have "same"
    by (auto simp: vector_met_def load_met_def with_postures_def split: option.splits)
  with same obtain outcomes
    where o: "path_outcomes jparse jprint written document (hr_surface reg) (registry_names_of reg) = Some outcomes"
      "list_all (\<lambda>k. k = hd (map (path_key canon) outcomes)) (map (path_key canon) outcomes)"
    by (auto simp: prove_paths_def Let_def)
  from o(1) have "length outcomes = 4" by (auto simp: path_outcomes_def Let_def)
  with reg o show ?thesis by (auto simp: list_all_iff)
qed

text \<open>A document no JSON parser reads, and a vector that expects it refused.\<close>

definition unread_file :: file_view where
  "unread_file = \<lparr>fv_stat = Some (True, 2), fv_bytes = Some ''[]''\<rparr>"

definition refusal_vector :: json where
  "refusal_vector = JObj
     [(''expect'', JObj [(''load'', JObj [(''class'', JStr ''declaration_error:malformed''),
        (''outcome'', JStr ''refused'')])]), (''host_declaration'', JArr [])]"

lemma refusal_run:
  "\<exists>r. run_vector x canon (\<lambda>_. None) (\<lambda>_. ''[]'') de_comp (Some unread_file) idle_harness refusal_vector 0 = Some (r, 2)
     \<and> rn_status r = ''pass''"
proof -
  let ?e = "decl_error Malformed []"
  let ?rr = "with_postures ''continue'' (on_error_str OE_Deny) (refused_record ?e True)"
  obtain reg where reg: "scripts_registry x (scripts_of refusal_vector) (hn_surface idle_harness 0) = Inr reg"
    using scripts_registered by blast
  have r: "read_document unread_file = Inr ''[]''"
  proof -
    have "utf8_ok ''[]''" "\<not> starts_with [CHR 0xEF, CHR 0xBB, CHR 0xBF] ''[]''" by code_simp+
    then show ?thesis by (simp add: read_document_def unread_file_def MAX_DOCUMENT_BYTES_def Let_def)
  qed
  have e: "from_json (\<lambda>_. None) t = Inl ?e" for t
    by (simp add: from_json_def parse_document_def)
  have paths: "prove_paths canon (\<lambda>_. None) (\<lambda>_. ''[]'') (Some unread_file) (JArr []) surface names = Some True" for surface names
    by (simp add: prove_paths_def path_outcomes_def builder_from_value_def path_key_def from_value_def from_path_def
        decl_build_def e r Let_def)
  have get: "value_str refusal_vector ''introduced_in'' = None"
    "value_get refusal_vector ''host_declaration'' = Some (JArr [])"
    "should_skip refusal_vector (sort [''tool_calls'', ''model_calls'']) = None" by code_simp+
  have pass: "vr_status (assert_vector (\<lambda>_. ''[]'') refusal_vector [] ?rr) = ''pass''"
    by (simp add: assert_vector_def assert_load_def refusal_vector_def with_postures_def refused_record_def
        value_index_def value_get_def value_str_def value_bool_def vector_result_def decl_error_def Let_def)
  have "run_declared x idle_harness (\<lambda>reg. Some True) sc vs (JArr []) 0 = Some (refused_record ?e True, [], 2)"
    if "sc = scripts_of refusal_vector" for sc vs
    using reg that by (simp add: run_declared_def idle_harness_def)
  with get pass show ?thesis
    by (simp add: run_vector_def assessed_def paths idle_harness_def asserted_def Let_def with_postures_def)
qed

theorem passing_declaration_proved_witness:
  "\<exists>reg outcomes key. scripts_registry sample_externs (scripts_of refusal_vector) (hn_surface idle_harness 0) = Inr reg
    \<and> path_outcomes (\<lambda>_. None) (\<lambda>_. ''[]'') (Some unread_file) (JArr []) (hr_surface reg) (registry_names_of reg)
        = Some outcomes
    \<and> length outcomes = 4 \<and> (\<forall>r\<in>set outcomes. path_key (\<lambda>_. []) r = key)"
proof -
  obtain r where "run_vector sample_externs (\<lambda>_. []) (\<lambda>_. None) (\<lambda>_. ''[]'') (\<lambda>_. None) (Some unread_file)
      idle_harness refusal_vector 0 = Some (r, 2)" "rn_status r = ''pass''" using refusal_run by blast
  then show ?thesis by (rule passing_declaration_proved) code_simp
qed

text \<open>
  Setting a vector up never panics in the runner. Every registration of the CTK's scripts is
  accepted, so is every registration of the reference harness for a field-based vector, and rebuilding any
  document object through the builder reaches an end, so the four paths are always compared.
\<close>

theorem runner_never_panics:
  assumes "distinct (map fst doc)"
  shows "(\<exists>reg. scripts_registry x (scripts_of vector) surface = Inr reg)
    \<and> (\<exists>reg. setup_registry surface (setup_of x de_comp vector) = Inr reg)
    \<and> prove_paths canon jparse jprint written (JObj doc) surface names \<noteq> None"
  using scripts_registered setup_registered builder_written [OF assms] by (auto simp: prove_paths_def path_outcomes_def Let_def)

theorem runner_never_panics_witness:
  "(\<exists>reg. scripts_registry sample_externs (scripts_of idle_vector) sample_surface = Inr reg)
    \<and> (\<exists>reg. setup_registry sample_surface (setup_of sample_externs (\<lambda>_. None) idle_vector) = Inr reg)
    \<and> prove_paths (\<lambda>_. []) sample_parse (\<lambda>_. sample_text) None (JObj sample_doc) sample_surface
        (registry_names_of sample_registry) \<noteq> None"
  by (rule runner_never_panics) (simp add: sample_doc_def)

section \<open>Repeated points\<close>

definition points_json :: "interception_point list \<Rightarrow> json" where
  "points_json ps = JArr (map (\<lambda>p. JStr (point_str p)) ps)"

lemma typed_points_json: "typed_points (points_json ps) = Inr ps"
proof -
  have "traverse (\<lambda>i. or_raw (Option.bind (as_str i) point_from_str)) (map (\<lambda>p. JStr (point_str p)) ps) = Inr ps"
    by (induction ps) (simp_all add: or_raw_def)
  then show ?thesis by (simp add: typed_points_def items_of_def points_json_def or_raw_def)
qed

lemma or_raw_Some [simp]: "or_raw (Some a) = Inr a"
  by (simp add: or_raw_def)

lemma bt_set_repeat: "bt_set (p # p # ps) = bt_set (p # ps)"
  using bt_set_sorted [of "p # p # ps"] bt_set_sorted [of "p # ps"] by (intro sorted_distinct_set_unique) auto

text \<open>A document whose binding names its points, its text, and the text of what the builder makes of it.\<close>

definition repeat_doc :: object where
  "repeat_doc =
     [(''bindings'', JArr [JObj [(''at'', JArr [JStr ''input'', JStr ''input'']), (''id'', JStr ''scan''),
        (''kind'', JStr ''acme.scan'')]]),
      (''declaration'', JStr ''agent-hooks-declaration/1.1''), (''spec'', JStr ''agent-hooks/draft'')]"

definition rebuilt_doc :: object where
  "rebuilt_doc =
     [(''bindings'', JArr [JObj [(''at'', JArr [JStr ''input'']), (''config'', JObj []), (''id'', JStr ''scan''),
        (''kind'', JStr ''acme.scan'')]]),
      (''declaration'', JStr ''agent-hooks-declaration/1.1''), (''spec'', JStr ''agent-hooks/draft'')]"

definition repeat_print :: "json \<Rightarrow> string" where
  "repeat_print v =
     (if v = JObj repeat_doc
      then ''{\"bindings\":[{\"at\":[\"input\",\"input\"],\"id\":\"scan\",\"kind\":\"acme.scan\"}],'' @
        ''\"declaration\":\"agent-hooks-declaration/1.1\",\"spec\":\"agent-hooks/draft\"}''
      else ''{\"bindings\":[{\"at\":[\"input\"],\"config\":{},\"id\":\"scan\",\"kind\":\"acme.scan\"}],'' @
        ''\"declaration\":\"agent-hooks-declaration/1.1\",\"spec\":\"agent-hooks/draft\"}'')"

definition repeat_raw :: "raw list \<Rightarrow> (string \<times> raw) list \<Rightarrow> raw" where
  "repeat_raw points config =
     RObj [(''bindings'', RArr [RObj ([(''at'', RArr points)] @ config @ [(''id'', RStr ''scan''), (''kind'', RStr ''acme.scan'')])]),
       (''declaration'', RStr ''agent-hooks-declaration/1.1''), (''spec'', RStr ''agent-hooks/draft'')]"

definition repeat_parse :: "string \<Rightarrow> raw option" where
  "repeat_parse t =
     (if t = repeat_print (JObj repeat_doc) then Some (repeat_raw [RStr ''input'', RStr ''input''] [])
      else if t = repeat_print (JObj rebuilt_doc) then Some (repeat_raw [RStr ''input''] [(''config'', RObj [])])
      else None)"

lemma repeat_texts:
  "repeat_print (JObj rebuilt_doc) \<noteq> repeat_print (JObj repeat_doc)"
  "length (repeat_print (JObj repeat_doc)) \<le> MAX_DOCUMENT_BYTES"
  "length (repeat_print (JObj rebuilt_doc)) \<le> MAX_DOCUMENT_BYTES"
proof -
  have "JObj rebuilt_doc \<noteq> JObj repeat_doc" by (simp add: rebuilt_doc_def repeat_doc_def)
  then show "repeat_print (JObj rebuilt_doc) \<noteq> repeat_print (JObj repeat_doc)"
    "length (repeat_print (JObj repeat_doc)) \<le> MAX_DOCUMENT_BYTES"
    "length (repeat_print (JObj rebuilt_doc)) \<le> MAX_DOCUMENT_BYTES"
    by (simp_all add: repeat_print_def MAX_DOCUMENT_BYTES_def)
qed

lemma repeat_refused: "\<exists>e. from_value repeat_parse repeat_print (JObj repeat_doc) = Inl e \<and> de_class e = InvalidField"
proof -
  have l: "load 0 (repeat_raw [RStr ''input'', RStr ''input''] []) = Some (JObj repeat_doc)" by code_simp
  have c: "check_version repeat_doc = Inr ()" "check_spec repeat_doc = Inr ()"
    "check_unknown_fields repeat_doc = Inr ()" by code_simp+
  have "field_findings repeat_doc \<noteq> []"
    by (simp add: field_findings_def repeat_doc_def bindings_fields_def binding_fields_def with_object_def
        string_set_def ALL_POINTS_def insort_insert_key_def Let_def)
  then have "foldl add_new (field_findings repeat_doc) fs \<noteq> []" for fs
    by (induction fs rule: rev_induct) (auto simp: add_new_def)
  then have "\<exists>e. check_fields repeat_parse repeat_doc t = Inl e \<and> de_class e = InvalidField" for t
    by (simp add: check_fields_def refuse_def)
  then obtain e where "check_fields repeat_parse repeat_doc (repeat_print (JObj repeat_doc)) = Inl e"
    "de_class e = InvalidField" by blast
  then show ?thesis
    using repeat_texts(2)
    by (simp add: from_value_def from_json_def parse_document_def repeat_parse_def l c not_less)
qed

lemma rebuilt_accepted: "from_value repeat_parse repeat_print (JObj rebuilt_doc) = Inr rebuilt_doc"
proof -
  have l: "load 0 (repeat_raw [RStr ''input''] [(''config'', RObj [])]) = Some (JObj rebuilt_doc)" by code_simp
  have c: "check_version rebuilt_doc = Inr ()" "check_spec rebuilt_doc = Inr ()"
    "check_unknown_fields rebuilt_doc = Inr ()" "check_consistency rebuilt_doc None = Inr ()" by code_simp+
  have f: "field_findings rebuilt_doc = []"
    by (simp add: field_findings_def rebuilt_doc_def with_string_def with_object_def bindings_fields_def
        binding_fields_def required_string_def sample_names enum_str_def int_or_null_def string_set_def ALL_POINTS_def
        MAX_BINDINGS_def Let_def)
  have s: "scan_integer_tokens repeat_parse [] (repeat_print (JObj rebuilt_doc)) = []" by code_simp
  show ?thesis
    using repeat_texts(1,3)
    by (simp add: from_value_def from_json_def parse_document_def repeat_parse_def l c check_fields_def f s refuse_def not_less)
qed

lemma repeat_diverges:
  "prove_paths canon repeat_parse repeat_print written (JObj repeat_doc) sample_surface (registry_names_of sample_registry)
     = Some False"
proof -
  have b: "map_option finished (builder_from_value (JObj repeat_doc)) = Some rebuilt_doc" by code_simp
  have "case resolve_declaration rebuilt_doc sample_surface (registry_names_of sample_registry) of Inr _ \<Rightarrow> True | Inl _ \<Rightarrow> False"
    by code_simp
  then obtain d where d: "resolve_declaration rebuilt_doc sample_surface (registry_names_of sample_registry) = Inr d"
    by (auto split: sum.splits)
  from b obtain builder where "builder_from_value (JObj repeat_doc) = Some builder" "finished builder = rebuilt_doc" by auto
  with repeat_refused d rebuilt_accepted show ?thesis
    by (auto simp: prove_paths_def path_outcomes_def decl_build_def path_key_def Let_def)
qed

text \<open>
  The builder path accepts what the other construction paths refuse. A binding that states a point
  twice violates the field checks the value, text and file paths make, and rebuilding it through the builder
  gives what the binding without the repetition gives; on a document that is otherwise accepted the comparison
  of the paths therefore fails, whatever the canonical form and the file.
\<close>

theorem repeated_points_lost:
  "typed_binding (JObj (obj_insert ''at'' (points_json (p # p # ps)) o')) b
     = typed_binding (JObj (obj_insert ''at'' (points_json (p # ps)) o')) b
   \<and> binding_fields (i, JObj (obj_insert ''at'' (points_json (p # p # ps)) o')) \<noteq> []
   \<and> prove_paths canon repeat_parse repeat_print written (JObj repeat_doc) sample_surface
       (registry_names_of sample_registry) = Some False"
proof (intro conjI repeat_diverges)
  have "binding_object bid kind config \<lparr>bo_at = Some (p # p # ps), bo_timeout_ms = t, bo_on_error = e\<rparr>
      = binding_object bid kind config \<lparr>bo_at = Some (p # ps), bo_timeout_ms = t, bo_on_error = e\<rparr>" for bid kind config t e
    by (simp add: binding_object_def point_array_def bt_set_repeat Let_def)
  then have bind_repeat: "decl_bind_with bid kind config \<lparr>bo_at = Some (p # p # ps), bo_timeout_ms = t, bo_on_error = e\<rparr> b
      = decl_bind_with bid kind config \<lparr>bo_at = Some (p # ps), bo_timeout_ms = t, bo_on_error = e\<rparr> b" for bid kind config t e
    by (simp add: decl_bind_with_def cong: option.case_cong)
  have keys: "only_keys ks (obj_insert ''at'' v o') = only_keys ks (obj_insert ''at'' w o')" for ks v w
    by (induction o') (auto simp: only_keys_def split: if_splits)
  show "typed_binding (JObj (obj_insert ''at'' (points_json (p # p # ps)) o')) b
     = typed_binding (JObj (obj_insert ''at'' (points_json (p # ps)) o')) b"
    using keys [of BINDING_MEMBERS "points_json (p # p # ps)" "points_json (p # ps)"]
    by (simp add: typed_binding_def get_str_def optional_member_def typed_points_json bind_repeat)
  have "point_str p \<in> point_str ` set ALL_POINTS" by (cases p) (simp_all add: ALL_POINTS_def)
  then show "binding_fields (i, JObj (obj_insert ''at'' (points_json (p # p # ps)) o')) \<noteq> []"
    by (auto simp: binding_fields_def with_object_def string_set_def points_json_def insort_insert_key_def Let_def split: prod.split)
qed

end
