(* ===== verification/Boundary_Properties.thy ===== *)
theory Boundary_Properties
  imports Native_Bindings Resolved_Wire Ctk_Report_Properties
begin

text \<open>
  The properties of the C boundary (\<open>ffi/src/lib.rs\<close>), of the in-process bindings for Python and
  Node, and of the JSON form of a resolved declaration (\<open>declaration.rs\<close>).
\<close>

section \<open>The C boundary\<close>



definition nul_free :: "string \<Rightarrow> bool" where
  "nul_free s \<longleftrightarrow> CHR 0x00 \<notin> set s"













text \<open>A result that is handed out and freed leaves the heap as it was.\<close>

definition fresh_above :: "heap \<Rightarrow> bool" where
  "fresh_above h \<longleftrightarrow> (\<forall>a\<ge>hp_next h. hp_blocks h a = None)"

lemma hand_out_released:
  assumes "fresh_above h" "hand_out r h = (a, h')"
  shows "hp_blocks (ah_free_result (Some a) h') = hp_blocks h" "hp_blocks h' a \<noteq> None" "fresh_above h'"
  using assms
  by (auto simp: hand_out_def into_raw_def ah_free_result_def drop_raw_def fresh_above_def Let_def fun_eq_iff
      split: option.splits prod.splits)


section \<open>The in-process bindings\<close>

lemma node_split_joined:
  "c \<noteq> [] \<Longrightarrow> CHR 0x1F \<notin> set c \<Longrightarrow> node_split (node_map_err (c, d)) = Some (c, d)"
  by (auto simp: node_split_def node_map_err_def takeWhile_append)

lemma error_code_plain: "error_code e \<noteq> []" "CHR 0x1F \<notin> set (error_code e)" "nul_free (error_code e)"
proof -
  have h: "host_error_str h \<noteq> [] \<and> CHR 0x1F \<notin> set (host_error_str h) \<and> nul_free (host_error_str h)" for h
    by (cases h) (simp_all add: nul_free_def)
  have c: "class_code c \<noteq> [] \<and> CHR 0x1F \<notin> set (class_code c) \<and> nul_free (class_code c)" for c
    by (cases c) (simp_all add: nul_free_def)
  show "error_code e \<noteq> []" "CHR 0x1F \<notin> set (error_code e)" "nul_free (error_code e)"
    using h c by (cases e; simp add: error_code_def marshal_code_def nul_free_def)+
qed

text \<open>
  The bindings report alike. An error of the core reaches a Python host as the attributes of the exception, a Node
  host as what \<open>wrap\<close> splits off the reason, and a C host in the result, each time with the code the core
  gave, and with its detail where that holds no NUL; a value reaches all of them as it is, a C host only without NUL.
\<close>

theorem bindings_report_alike:
  "py_result (core_text pr print args (Inl e)) =
      Inl \<lparr>py_message = error_code e @ '': '' @ pr_detail pr args e, py_code = error_code e,
           py_detail = pr_detail pr args e\<rparr>
   \<and> (\<exists>msg. node_result (core_text pr print args (Inl e)) = Inl msg
        \<and> node_split msg = Some (error_code e, pr_detail pr args e))
   \<and> \<not> ah_ok (boxed (core_text pr print args (Inl e)))
   \<and> ah_code (boxed (core_text pr print args (Inl e))) = Some (error_code e)
   \<and> (nul_free (pr_detail pr args e) \<longrightarrow> ah_value (boxed (core_text pr print args (Inl e))) = pr_detail pr args e)
   \<and> py_result (core_text pr print args (Inr a)) = Inr (print a)
   \<and> node_result (core_text pr print args (Inr a)) = Inr (print a)
   \<and> (nul_free (print a) \<longrightarrow>
        boxed (core_text pr print args (Inr a)) = \<lparr>ah_ok = True, ah_value = print a, ah_code = None\<rparr>)"
  using error_code_plain [of e]
  by (simp add: core_text_def py_result_def py_map_err_def node_result_def node_split_joined boxed_def
      c_string_or_def c_string_def nul_free_def)

text \<open>
  What a Node runner reads from its own declaration is what the Rust runner is assessed against: when the surface
  it passes is the one of the harness, the loader refuses with the same error or gives the capabilities, the tool
  seam posture and the failure posture of the same resolved form.
\<close>

lemma node_runner_assessed_alike:
  assumes "hn_declaration h s = Some doc" "de_surface text = Some (hn_surface h s)"
    and "res_ok (surface_validate (hn_surface h s))" "de_raw de = jparse"
  shows "\<exists>res. surface_resolution de de_surface (jprint doc) text = ffi_decl res
    \<and> assessed jparse jprint h s =
        res_bind res (\<lambda>r. Inr (rs_capabilities (rd_surface r), tool_seam_str (rc_tool_seam (rd_configuration r)),
          on_error_str (rc_on_error (rd_configuration r))))"
proof (cases "from_json jparse (jprint doc)")
  case (Inl e)
  with assms show ?thesis
    by (intro exI [of _ "Inl e"]) (simp add: assessed_def surface_resolution_def or_err_def from_value_def)
next
  case (Inr d)
  with assms show ?thesis
    by (intro exI [of _ "resolve_surface_only d (hn_surface h s)"])
      (simp add: assessed_def surface_resolution_def or_err_def from_value_def)
qed

section \<open>The form the construction paths are compared by\<close>

text \<open>
  C36: The JSON of a resolved declaration decides which resolved form it is: whatever documents and hosts
  two resolved forms come from, they are written as the same JSON only when they are equal, so two construction
  paths that agree on it agree on every member.
\<close>

theorem resolved_json_decides:
  assumes "from_json jparse text = Inr doc" "resolve_surface_only doc code = Inr r" "sorted_keys (hs_profiles code)"
    and "from_json jparse' text' = Inr doc'" "resolve_surface_only doc' code' = Inr r'" "sorted_keys (hs_profiles code')"
  shows "(resolved_json r = resolved_json r') = (r = r')"
  using resolved_json_inject resolved_wire_ok [OF assms(1-3)] resolved_wire_ok [OF assms(4-6)] by blast

theorem resolved_json_decides_witness:
  "\<exists>r. resolve_surface_only rebuilt_doc sample_surface = Inr r
     \<and> r \<noteq> sample_resolved \<and> resolved_json r \<noteq> resolved_json sample_resolved"
proof -
  have s: "sorted_keys (hs_profiles sample_surface)" "hr_surface sample_registry = sample_surface"
    by (simp_all add: sample_registry_def new_registry_def sample_surface_def sdk_default_def profile_all_def
        sorted_keys_def less_composition_profile_def)
  have "case resolve_surface_only rebuilt_doc sample_surface of Inr r \<Rightarrow> rd_id r = None | Inl _ \<Rightarrow> False" by code_simp
  then obtain r where r: "resolve_surface_only rebuilt_doc sample_surface = Inr r" "rd_id r = None"
    by (auto split: sum.splits)
  have q: "resolve_surface_only sample_doc sample_surface = Inr sample_resolved"
    using registry_resolve_Inr(1) [OF sample_resolves] s(2) by simp
  have "rd_id sample_resolved \<noteq> None" by code_simp
  with r(2) have "r \<noteq> sample_resolved" by auto
  with resolved_json_decides [OF rebuilt_accepted [unfolded from_value_def] r(1) s(1) sample_accepted q s(1)] r(1)
  show ?thesis by blast
qed

end
