(* ===== verification/Ctk_Vectors.thy ===== *)
theory Ctk_Vectors
  imports Ctk_Runner
begin

text \<open>
  \<open>ctk.rs\<close>, what the runner starts from: the vectors of a directory and a new reference harness
  with its committed declaration. The file system is an argument: the names a directory listing gives (an entry
  that fails or is not UTF-8 is \<open>None\<close>), the text of a file, and the JSON parser.
\<close>

section \<open>Loading vectors\<close>

datatype load_error = NoVectors | LoadIo

definition vector_name :: "string \<Rightarrow> bool" where
  "vector_name n \<longleftrightarrow> starts_with ''AH-CTK-'' n \<and> starts_with (rev ''.json'') (rev n)"

definition load_vectors ::
  "string option list option \<Rightarrow> (string \<Rightarrow> string option) \<Rightarrow> (string \<Rightarrow> json option)
     \<Rightarrow> load_error + json list" where
  "load_vectors dir read_text parse_text =
     (case dir of
        None \<Rightarrow> Inl LoadIo
      | Some es \<Rightarrow>
          (let names = sort (filter vector_name (List.map_filter id es)) in
           if names = [] then Inl NoVectors
           else traverse (\<lambda>n. case Option.bind (read_text n) parse_text of None \<Rightarrow> Inl LoadIo | Some v \<Rightarrow> Inr v) names))"

lemma load_vectors_Inr:
  "load_vectors (Some es) read_text parse_text = Inr vs \<longleftrightarrow>
     vs \<noteq> [] \<and> list_all2 (\<lambda>n v. \<exists>t. read_text n = Some t \<and> parse_text t = Some v)
       (sort (filter vector_name (List.map_filter id es))) vs"
proof -
  have one: "(case Option.bind (read_text n) parse_text of None \<Rightarrow> Inl LoadIo | Some v \<Rightarrow> Inr v) = Inr v
      \<longleftrightarrow> (\<exists>t. read_text n = Some t \<and> parse_text t = Some v)" for n v
    by (cases "read_text n") (auto split: option.split)
  show ?thesis by (auto simp: load_vectors_def Let_def traverse_Inr_iff one)
qed

text \<open>No vectors is an error, never an empty suite.\<close>

lemma load_vectors_empty:
  "load_vectors (Some es) read_text parse_text \<noteq> Inr []"
  by (simp add: load_vectors_Inr)

section \<open>The reference harness\<close>

definition new_reference :: "object \<Rightarrow> spec_version \<Rightarrow> reference_harness" where
  "new_reference declaration spec =
     \<lparr>rh_spec = spec, rh_reference = declaration, rh_scenario = JNull, rh_session = None, rh_counter = 0,
      rh_recorders = []\<rparr>"

text \<open>\<open>ctk/reference.declaration.json\<close>, with sorted members as the parser keeps them.\<close>

definition REFERENCE_DECLARATION :: object where
  "REFERENCE_DECLARATION =
     [(''$schema'', JStr ''https://responsibleai.github.io/agent-hooks/schema/v0.1/host-declaration-1.0.schema.json''),
      (''bindings'', JArr []),
      (''configuration'', JObj
        [(''approval'', JObj [(''redactor'', JNull), (''resolver'', JNull)]),
         (''composition'', JObj [(''on_approval'', JStr ''stop''), (''profile'', JStr ''sequential/first_deny'')]),
         (''identity_provider'', JStr ''jcs-sha256''),
         (''mode'', JStr ''enforce''),
         (''posture'', JObj [(''tool_seam_host_error'', JStr ''continue'')]),
         (''records'', JObj [(''max_buffered'', JNull)]),
         (''timeouts'', JObj [(''approval_resolver_ms'', JNum (PosInt 5000)), (''interceptor_ms'', JNum (PosInt 5000))])]),
      (''declaration'', JStr ''agent-hooks-declaration/1.0''),
      (''extensions'', JObj []),
      (''host'', JObj [(''name'', JStr ''reference-agent''), (''version'', JStr ''0.1.0'')]),
      (''id'', JStr ''reference-agent''),
      (''spec'', JStr ''agent-hooks/0.1''),
      (''surface'', JObj
        [(''buffered_output'', JBool True),
         (''capabilities'', JArr (map JStr [''host_declaration'', ''int64_json'', ''model_calls'', ''tool_calls''])),
         (''declaration_versions'', JArr [JStr ''agent-hooks-declaration/1.0'']),
         (''interception_points'', JArr (map JStr [''agent_startup'', ''input'', ''pre_model_call'', ''post_model_call'',
            ''pre_tool_call'', ''post_tool_call'', ''output'', ''agent_shutdown''])),
         (''profiles'', JObj
           [(''parallel/strictest'', JObj [(''on_transform_conflict'', JArr [JStr ''approval'', JStr ''deny''])]),
            (''parallel/unanimous'', JObj [(''on_disagreement'', JArr [JStr ''approval'', JStr ''deny''])]),
            (''sequential/first_deny'', JObj [(''on_approval'', JArr [JStr ''resume'', JStr ''stop''])]),
            (''sequential/run_all'', JObj [])])])]"

end
