(* ===== verification/Reference_Document.thy ===== *)
theory Reference_Document
  imports Ctk_Report_Laws Ctk_Vectors
begin

text \<open>
  The document the reference harness writes for a vector (\<open>ReferenceHarness::setup\<close> in
  \<open>ctk.rs\<close>): its committed declaration with the mode, composition, provider and interceptors of the vector
  in it. The loader accepts that document and the surface of the harness supports it.
\<close>

section \<open>The document of the reference harness\<close>

definition own_document :: "spec_version \<Rightarrow> object" where
  "own_document spec = reference_document (new_reference REFERENCE_DECLARATION spec)"

definition own_configuration :: object where
  "own_configuration = unwrap_or (get_object REFERENCE_DECLARATION ''configuration'') []"

lemma own_document_of:
  "rh_reference h = REFERENCE_DECLARATION \<Longrightarrow> reference_document h = own_document (rh_spec h)"
  by (simp add: own_document_def reference_document_def new_reference_def)

lemma own_members:
  "obj_get (own_document spec) ''declaration'' = Some (JStr DECLARATION_1_0)"
  "obj_get (own_document spec) ''spec'' = Some (JStr (spec_wire spec))"
  "obj_get (own_document spec) ''id'' = Some (JStr ''reference-agent'')"
  "obj_get (own_document spec) ''configuration'' = Some (JObj own_configuration)"
  "obj_get (own_document spec) ''extensions'' = Some (JObj [])"
  by (cases spec; hypsubst; code_simp)+

lemma own_keys: "fst ` set (own_document spec) = set ROOT_KEYS"
proof -
  have "bt_set (map fst (own_document spec)) = bt_set ROOT_KEYS" by (cases spec; hypsubst; code_simp)
  then show ?thesis by (metis set_bt_set set_map)
qed

lemma own_checks:
  "with_string (obj_get (own_document spec) ''$schema'') ''/$schema'' (\<lambda>_. []) = []"
  "with_object (obj_get (own_document spec) ''host'') ''/host'' host_fields = []"
  "with_object (obj_get (own_document spec) ''surface'') ''/surface'' surface_fields = []"
  "at_object (own_document spec) ''host'' (unknown_in HOST_KEYS ''/host'') = []"
  "at_object (own_document spec) ''surface'' unknown_surface = []"
  by (cases spec; hypsubst; code_simp)+

lemma own_id: "valid_document_id ''reference-agent''"
  by code_simp

text \<open>The document with another configuration and other bindings.\<close>

definition loaded_document :: "spec_version \<Rightarrow> object \<Rightarrow> json list \<Rightarrow> object" where
  "loaded_document spec cfg bs =
     obj_insert ''bindings'' (JArr bs) (obj_insert ''configuration'' (JObj cfg) (own_document spec))"

section \<open>Compositions\<close>

text \<open>A composition states only knobs its profile consults.\<close>

definition consults :: "composition_config \<Rightarrow> bool" where
  "consults c \<longleftrightarrow> (\<forall>(knob, v)\<in>set (composition_knobs c). v \<noteq> None \<longrightarrow> knob \<in> set (consulted_knobs (profile c)))"

definition consulting :: "composition_config list" where
  "consulting =
     map (\<lambda>a. \<lparr>profile = SequentialFirstDeny, on_approval = a, on_disagreement = None, on_transform_conflict = None\<rparr>)
       [None, Some Stop, Some Resume]
     @ [\<lparr>profile = SequentialRunAll, on_approval = None, on_disagreement = None, on_transform_conflict = None\<rparr>]
     @ map (\<lambda>p. \<lparr>profile = ParallelStrictest, on_approval = None, on_disagreement = None, on_transform_conflict = p\<rparr>)
       [None, Some SP_Deny, Some SP_Approval]
     @ map (\<lambda>p. \<lparr>profile = ParallelUnanimous, on_approval = None, on_disagreement = p, on_transform_conflict = None\<rparr>)
       [None, Some SP_Deny, Some SP_Approval]"

lemma consults_all: "consults c \<Longrightarrow> c \<in> set consulting"
proof (cases c)
  case (fields p a d t)
  assume "consults c"
  moreover have "a \<in> {None, Some Stop, Some Resume}" by (cases a; cases "the a") auto
  moreover have "d \<in> {None, Some SP_Deny, Some SP_Approval}" "t \<in> {None, Some SP_Deny, Some SP_Approval}"
    by (cases d; cases "the d"; simp) (cases t; cases "the t"; simp)
  ultimately show ?thesis
    by (cases p) (auto simp: fields consults_def consulting_def composition_knobs_def)
qed

lemma consulting_checked:
  "list_all (\<lambda>c. composition_fields (composition_object c) = []
     \<and> unknown_in COMPOSITION_KEYS ''/configuration/composition'' (composition_object c) = []
     \<and> list_all (\<lambda>knob. contains_key (composition_object c) knob \<longrightarrow> knob \<in> set (consulted_knobs (profile c)))
         [''on_approval'', ''on_disagreement'', ''on_transform_conflict'']) consulting"
  by code_simp


lemma consulting_checks:
  assumes "consults c"
  shows "composition_fields (composition_object c) = []"
    "fst ` set (composition_object c) \<subseteq> set COMPOSITION_KEYS"
    "knob \<in> {''on_approval'', ''on_disagreement'', ''on_transform_conflict''} \<Longrightarrow>
       contains_key (composition_object c) knob \<Longrightarrow> knob \<in> set (consulted_knobs (profile c))"
  using consulting_checked consults_all [OF assms] by (auto simp: list_all_iff)

section \<open>Its configuration for a vector\<close>

lemma own_configuration_get:
  "obj_get own_configuration ''posture'' = Some (JObj [(''tool_seam_host_error'', JStr ''continue'')])"
  "obj_get own_configuration ''failure'' = None"
  "obj_get own_configuration ''timeouts'' =
     Some (JObj [(''approval_resolver_ms'', JNum (PosInt 5000)), (''interceptor_ms'', JNum (PosInt 5000))])"
  "obj_get own_configuration ''records'' = Some (JObj [(''max_buffered'', JNull)])"
  "fst ` set own_configuration = set CONFIGURATION_KEYS - {''failure''}"
  by (auto simp: own_configuration_def REFERENCE_DECLARATION_def get_object_def CONFIGURATION_KEYS_def)

definition approval_names :: "vector_setup \<Rightarrow> object" where
  "approval_names vs =
     [(''redactor'', if vs_redact vs = [] then JNull else JStr ''ctk-redact''),
      (''resolver'', if vs_resolver vs = None then JNull else JStr ''ctk-scripted'')]"

definition provider_json :: "identity_provider \<Rightarrow> json" where
  "provider_json idp = (case idp of JcsSha256 \<Rightarrow> JStr JCS_SHA256 | NullIdentity \<Rightarrow> JNull | CustomIdentity n _ \<Rightarrow> JStr n)"

lemma setup_configuration_get:
  "obj_get (setup_configuration vs own_configuration) k =
     (if k = ''approval'' then Some (JObj (approval_names vs))
      else if k = ''identity_provider'' then Some (provider_json (vs_identity vs))
      else if k = ''composition'' then Some (JObj (composition_object (vs_composition vs)))
      else if k = ''mode'' then Some (JStr (mode_wire (vs_mode vs)))
      else obj_get own_configuration k)"
  by (simp add: setup_configuration_def Let_def approval_names_def provider_json_def)

lemma setup_configuration_keys:
  "fst ` set (setup_configuration vs own_configuration) = set CONFIGURATION_KEYS - {''failure''}"
  by (auto simp: setup_configuration_def Let_def keys_bt_insert own_configuration_get(5) CONFIGURATION_KEYS_def)

text \<open>What a registration of the vector's own provider gives for its name.\<close>

definition provider_named :: "identity_provider \<Rightarrow> bool" where
  "provider_named idp \<longleftrightarrow>
     (case idp of CustomIdentity n _ \<Rightarrow> length n \<le> MAX_ID_LEN \<and> res_ok (validate_provider_name n) | _ \<Rightarrow> True)"

lemma setup_configuration_fields:
  assumes "consults (vs_composition vs)" "provider_named (vs_identity vs)"
  shows "configuration_fields (setup_configuration vs own_configuration) = []"
proof -
  have "provider_fields (Some (provider_json (vs_identity vs))) = []"
    using assms(2) by (cases "vs_identity vs") (simp_all add: provider_fields_def provider_json_def provider_named_def)
  moreover have "concat (map (reference_fields (approval_names vs)) APPROVAL_KEYS) = []"
    by (simp add: APPROVAL_KEYS_def reference_fields_def approval_names_def ctk_names)
  moreover have "enum_str (Some (JStr (mode_wire (vs_mode vs)))) ''/configuration/mode'' [''enforce'', ''evaluate_only''] = []"
    by (cases "vs_mode vs") (simp_all add: enum_str_def with_string_def)
  ultimately show ?thesis
    using consulting_checks(1) [OF assms(1)]
    by (simp add: configuration_fields_def setup_configuration_get own_configuration_get with_object_def enum_str_def
        with_string_def int_or_null_def TIMEOUT_KEYS_def MAX_TIMEOUT_MS_def)
qed

section \<open>Its bindings\<close>

definition instance_bindings :: "nat \<Rightarrow> json list" where
  "instance_bindings n = map instance_binding [0..<n]"

definition binding_object :: "nat \<Rightarrow> object" where
  "binding_object i =
     [(''config'', JObj [(''index'', JNum (PosInt (of_nat i)))]),
      (''id'', JStr (''interceptor-'' @ dec i)), (''kind'', JStr ''ctk.instance'')]"

lemma instance_binding_object: "instance_binding i = JObj (binding_object i)"
  by (simp add: instance_binding_def binding_object_def)

lemma binding_id: "i < MAX_BINDINGS \<Longrightarrow> valid_reference (''interceptor-'' @ dec i)"
proof -
  assume "i < MAX_BINDINGS"
  then have "length (dec i) \<le> 3" by (simp add: length_dec_le MAX_BINDINGS_def)
  moreover have "list_all lower_digit (dec i)"
    by (auto simp: list_all_iff lower_digit_def dest: dec_digits)
  then have "list_all (\<lambda>c. lower_digit c \<or> c = CHR ''_'' \<or> c = CHR ''-'') (dec i)"
    by (auto simp: list_all_iff)
  moreover have "list_all (\<lambda>c. lower_digit c \<or> c = CHR ''_'' \<or> c = CHR ''-'') ''nterceptor-''" "is_lower (CHR ''i'')"
    by code_simp+
  ultimately show ?thesis by (simp add: valid_reference_def valid_reference_segment_def MAX_ID_LEN_def)
qed

lemma instance_binding_fields:
  "i < MAX_BINDINGS \<Longrightarrow> binding_fields (i, instance_binding i) = []"
  by (simp add: binding_fields_def instance_binding_object with_object_def required_string_def binding_object_def
      binding_id [simplified] ctk_names string_set_def int_or_null_def enum_str_def with_string_def Let_def)

lemma instance_binding_known: "unknown_binding doc (i, instance_binding i) = []"
  by (simp add: unknown_binding_def instance_binding_object binding_object_def BINDING_KEYS_def contains_key_def)

lemma enumerate_bindings: "x \<in> set (enumerate 0 (instance_bindings n)) \<Longrightarrow> \<exists>i<n. x = (i, instance_binding i)"
  by (auto simp: instance_bindings_def set_zip enumerate_eq_zip)

lemma binding_findings_instances:
  "\<forall>j\<ge>i. ''interceptor-'' @ dec j \<notin> set ids \<Longrightarrow>
     binding_findings points i ids (map instance_binding [i..<n]) = []"
proof (induction "n - i" arbitrary: i ids)
  case (Suc k)
  then have c: "[i..<n] = i # [Suc i..<n]" by (simp add: upt_conv_Cons)
  have "dec j \<noteq> dec i" if "Suc i \<le> j" for j using that undec_dec by (metis not_less_eq_eq order_refl)
  then have "binding_findings points (Suc i) (insort_insert (''interceptor-'' @ dec i) ids) (map instance_binding [Suc i..<n]) = []"
    using Suc by (intro Suc.hyps(1)) (auto simp: set_insort_insert)
  moreover have "get_str (binding_object i) ''id'' = Some (''interceptor-'' @ dec i)" "point_set (binding_object i) ''at'' = None"
    by (simp_all add: binding_object_def get_str_def point_set_def)
  ultimately show ?case using Suc.prems by (simp add: c instance_binding_object Let_def)
qed simp

section \<open>The loader accepts it\<close>

definition harness_document :: "spec_version \<Rightarrow> vector_setup \<Rightarrow> object" where
  "harness_document spec vs =
     loaded_document spec (setup_configuration vs own_configuration) (instance_bindings (length (vs_interceptors vs)))"

definition loadable :: "vector_setup \<Rightarrow> bool" where
  "loadable vs \<longleftrightarrow>
     consults (vs_composition vs) \<and> provider_named (vs_identity vs) \<and> length (vs_interceptors vs) \<le> MAX_BINDINGS"

lemma loaded_get:
  "obj_get (loaded_document spec cfg bs) k =
     (if k = ''bindings'' then Some (JArr bs) else if k = ''configuration'' then Some (JObj cfg)
      else obj_get (own_document spec) k)"
  "get_object (loaded_document spec cfg bs) k =
     (if k = ''bindings'' then None else if k = ''configuration'' then Some cfg
      else get_object (own_document spec) k)"
  "get_str (loaded_document spec cfg bs) k =
     (if k \<in> {''bindings'', ''configuration''} then None else get_str (own_document spec) k)"
  "document_bindings (loaded_document spec cfg bs) = bs"
  by (simp_all add: loaded_document_def get_object_def get_str_def document_bindings_def)

lemma own_text:
  "get_str (own_document spec) ''declaration'' = Some DECLARATION_1_0"
  "get_str (own_document spec) ''spec'' = Some (spec_wire spec)"
  by (simp_all add: get_str_def own_members)

lemma spec_read: "document_spec (loaded_document spec cfg bs) = Some spec"
  by (simp add: document_spec_def loaded_get own_text)

lemma loaded_versions:
  "check_version (loaded_document spec cfg bs) = Inr ()" "check_spec (loaded_document spec cfg bs) = Inr ()"
  by (cases spec; simp add: check_version_iff check_spec_iff spec_read accepted_declaration_versions_def loaded_get own_text)+

lemma harness_document_known: "loadable vs \<Longrightarrow> unknown_fields (harness_document spec vs) = []"
proof -
  assume l: "loadable vs"
  have keys: "fst ` set (harness_document spec vs) = set ROOT_KEYS"
    by (auto simp: harness_document_def loaded_document_def keys_bt_insert own_keys ROOT_KEYS_def)
  have cfg: "unknown_configuration doc (setup_configuration vs own_configuration) = []" for doc
    using consulting_checks(2) l
    by (auto simp: unknown_configuration_def setup_configuration_keys setup_configuration_get own_configuration_get
        get_object_def contains_key_def loadable_def approval_names_def APPROVAL_KEYS_def POSTURE_KEYS_def
        TIMEOUT_KEYS_def RECORD_KEYS_def)
  have "concat (map (unknown_binding (harness_document spec vs)) (enumerate 0 (document_bindings (harness_document spec vs)))) = []"
    using instance_binding_known by (auto simp: harness_document_def loaded_get dest!: enumerate_bindings)
  with keys cfg own_checks(4,5) [of spec] show ?thesis
    by (simp add: unknown_fields_def harness_document_def loaded_get at_object_def)
qed

lemma harness_document_fields: "loadable vs \<Longrightarrow> field_findings (harness_document spec vs) = []"
proof -
  assume l: "loadable vs"
  have "concat (map binding_fields (enumerate 0 (instance_bindings (length (vs_interceptors vs))))) = []"
    using instance_binding_fields l by (auto simp: loadable_def dest!: enumerate_bindings)
  moreover have "length (instance_bindings n) = n" for n by (simp add: instance_bindings_def)
  ultimately show ?thesis
    using own_checks [of spec] own_id setup_configuration_fields l
    by (simp add: field_findings_def harness_document_def loaded_get own_members with_object_def with_string_def
        bindings_fields_def loadable_def)
qed

text \<open>What the document says of its surface does not depend on configuration and bindings.\<close>

lemma loaded_surface:
  "surface_view_of (loaded_document spec cfg bs) code = surface_view_of (own_document spec) code"
  "resolve_surface (loaded_document spec cfg bs) surface = resolve_surface (own_document spec) surface"
proof -
  show r: "resolve_surface (loaded_document spec cfg bs) surface = resolve_surface (own_document spec) surface" for surface
    by (simp add: resolve_surface_def loaded_get)
  show "surface_view_of (loaded_document spec cfg bs) code = surface_view_of (own_document spec) code"
    by (cases code) (simp_all add: surface_view_of_def loaded_get r)
qed

lemma own_view:
  assumes "code \<in> {None, Some (reference_surface True)}"
  shows "points_findings (surface_view_of (own_document spec) code) = []"
    "''incremental_output'' \<notin> set (or_else (vw_capabilities (surface_view_of (own_document spec) code)) [])"
    "opt_holds (\<lambda>vs. DECLARATION_1_0 \<in> set vs) (vw_versions (surface_view_of (own_document spec) code))"
    "opt_holds (\<lambda>ps. list_all (\<lambda>c. composition_findings (with_knob_defaults c) ps = []) consulting)
       (vw_profiles (surface_view_of (own_document spec) code))"
  using assms by (cases spec; elim insertE emptyE; hypsubst; code_simp)+

lemma reference_surface_facts:
  "surface_validate (reference_surface True) = Inr ()" "DECLARATION_1_0 \<in> set (hs_versions (reference_surface True))"
  "hs_tool_seam (reference_surface True) = SeamContinue" "hs_timeout (reference_surface True) \<noteq> TimeoutUnbounded"
  "list_all (\<lambda>c. composition_findings (with_knob_defaults c) (hs_profiles (reference_surface True)) = []) consulting"
  by code_simp+

lemma own_surface_supported:
  "bt_diff (rs_points (resolve_surface (own_document spec) (reference_surface True))) (hs_points (reference_surface True)) = []"
  "bt_diff (rs_capabilities (resolve_surface (own_document spec) (reference_surface True)))
     (hs_capabilities (reference_surface True)) = []"
  "concat (map (profile_support_findings (hs_profiles (reference_surface True)))
     (rs_profiles (resolve_surface (own_document spec) (reference_surface True)))) = []"
  "bt_diff (rs_versions (resolve_surface (own_document spec) (reference_surface True))) (hs_versions (reference_surface True)) = []"
  "rs_buffered (resolve_surface (own_document spec) (reference_surface True))"
  by (cases spec; hypsubst; code_simp)+

lemma harness_configuration:
  "sub_configuration (harness_document spec vs) ''composition'' = Some (composition_object (vs_composition vs))"
  "sub_configuration (harness_document spec vs) ''approval'' = Some (approval_names vs)"
  "sub_configuration (harness_document spec vs) ''posture'' = Some [(''tool_seam_host_error'', JStr ''continue'')]"
  "stated_composition (harness_document spec vs) = vs_composition vs"
proof -
  show c: "sub_configuration (harness_document spec vs) ''composition'' = Some (composition_object (vs_composition vs))"
    and "sub_configuration (harness_document spec vs) ''approval'' = Some (approval_names vs)"
    and "sub_configuration (harness_document spec vs) ''posture'' = Some [(''tool_seam_host_error'', JStr ''continue'')]"
    by (simp_all add: sub_configuration_def harness_document_def loaded_get get_object_def setup_configuration_get
        own_configuration_get)
  from c show "stated_composition (harness_document spec vs) = vs_composition vs" by (rule composition_stated)
qed

lemma harness_document_consistent:
  assumes "loadable vs" "code \<in> {None, Some (reference_surface True)}"
  shows "consistency_findings (harness_document spec vs) code = []"
proof -
  let ?vw = "surface_view_of (own_document spec) code"
  note view = own_view [OF assms(2), of spec]
  have vw: "surface_view_of (harness_document spec vs) code = ?vw"
    by (simp add: harness_document_def loaded_surface)
  have "incremental_document_findings (harness_document spec vs) ?vw = []"
    using view(2) by (auto simp: incremental_document_findings_def split: option.split)
  moreover have "stray_knobs (harness_document spec vs) = []"
    using consulting_checks(3) assms(1)
    by (simp add: stray_knobs_def harness_configuration loadable_def)
  moreover have "binding_findings points 0 [] (document_bindings (harness_document spec vs)) = []" for points
    by (simp add: harness_document_def loaded_get instance_bindings_def binding_findings_instances)
  moreover have "opt_holds (\<lambda>ps. composition_findings (with_knob_defaults (vs_composition vs)) ps = []) (vw_profiles ?vw)"
    using view(4) consults_all assms(1)
    by (cases "vw_profiles ?vw") (simp_all add: list_all_iff loadable_def)
  moreover have "get_str (harness_document spec vs) ''declaration'' = Some DECLARATION_1_0"
    by (simp add: harness_document_def loaded_get own_text)
  ultimately show ?thesis
    using view(1,3) by (auto simp: consistency_findings_def Let_def vw harness_configuration split: option.splits)
qed

lemma harness_document_accepted:
  assumes "loadable vs"
  shows "check_version (harness_document spec vs) = Inr () \<and> check_spec (harness_document spec vs) = Inr ()
    \<and> unknown_fields (harness_document spec vs) = [] \<and> field_findings (harness_document spec vs) = []
    \<and> consistency_findings (harness_document spec vs) None = []"
  using harness_document_known [OF assms] harness_document_fields [OF assms]
    harness_document_consistent [OF assms, of None] loaded_versions
  by (simp add: harness_document_def)

lemma harness_document_resolves:
  assumes "loadable vs"
  shows "resolve_surface_only (harness_document spec vs) (reference_surface True)
    = Inr (fill (harness_document spec vs) (reference_surface True))"
proof -
  let ?d = "harness_document spec vs" and ?s = "reference_surface True"
  have "rc_composition (fill_configuration ?d) = with_knob_defaults (vs_composition vs)"
    "rc_tool_seam (fill_configuration ?d) = SeamContinue"
    by (simp_all add: fill_configuration_def Let_def harness_configuration get_str_def)
  moreover have "resolve_surface ?d ?s = resolve_surface (own_document spec) ?s"
    by (simp add: harness_document_def loaded_surface)
  moreover have "composition_findings (with_knob_defaults (vs_composition vs)) (hs_profiles ?s) = []"
    using reference_surface_facts(5) consults_all assms by (simp add: list_all_iff loadable_def)
  ultimately have "surface_support_findings ?d (fill ?d ?s) ?s = []"
    using own_surface_supported [of spec] reference_surface_facts(3,4)
    by (simp add: surface_support_findings_def fill_def Let_def)
  moreover have "document_version ?d = DECLARATION_1_0"
    by (simp add: document_version_def harness_document_def loaded_get own_text)
  ultimately show ?thesis
    using harness_document_consistent [OF assms, of "Some ?s"] reference_surface_facts(1,2)
    by (simp add: resolve_surface_only_def check_consistency_def check_surface_def Let_def refuse_def)
qed

end
