(* ===== verification/Ctk_Harness.thy ===== *)
theory Ctk_Harness
  imports Reference_Document Ctk_Run_Properties Decl_Emitter
begin

text \<open>
  The harness as an interface, the trait \<open>Harness\<close> of \<open>ctk.rs\<close>: what the runner relies on to give
  a result for every vector, and the reference harness behind it.
\<close>

section \<open>The registry of a field-based vector\<close>

definition vector_registry :: "host_surface \<Rightarrow> vector_setup \<Rightarrow> host_registry" where
  "vector_registry surface vs =
     \<lparr>hr_surface = surface, hr_allow_reserved = True,
      hr_kinds = [(''ctk.instance'', instance_kind (vs_interceptors vs))], hr_managed_kinds = [],
      hr_identity_providers = (case vs_identity vs of CustomIdentity n f \<Rightarrow> [(n, f)] | _ \<Rightarrow> []),
      hr_approval_resolvers = (case vs_resolver vs of None \<Rightarrow> [] | Some r \<Rightarrow> [(''ctk-scripted'', r)]),
      hr_approval_redactors =
        (if vs_redact vs = [] then [] else [(''ctk-redact'', \<lambda>ctx. Some (redact_paths ctx (vs_redact vs)))]),
      hr_notifier = Some (\<lambda>_ _. True)\<rparr>"

lemma setup_registry_built:
  assumes "provider_named (vs_identity vs)"
  shows "setup_registry surface vs = Inr (vector_registry surface vs)"
proof -
  have p: "(case vs_identity vs of CustomIdentity n f \<Rightarrow> register_identity_provider n f (for_conformance surface)
      | _ \<Rightarrow> Inr (for_conformance surface))
    = Inr ((for_conformance surface)\<lparr>hr_identity_providers := (case vs_identity vs of CustomIdentity n f \<Rightarrow> [(n, f)] | _ \<Rightarrow> [])\<rparr>)"
  proof (cases "vs_identity vs")
    case (CustomIdentity n f)
    with assms obtain u where "validate_provider_name n = Inr u" "length n \<le> MAX_ID_LEN"
      by (auto simp: provider_named_def res_ok_iff)
    then show ?thesis
      by (simp add: CustomIdentity register_identity_provider_def for_conformance_def new_registry_def)
  qed (simp_all add: for_conformance_def new_registry_def)
  have k: "check_kind ''ctk.instance'' reg = Inr ()"
    if "hr_kinds reg = []" "hr_managed_kinds reg = []" "hr_allow_reserved reg" for reg
    using that by (simp add: check_kind_def ctk_names Let_def)
  show ?thesis
    unfolding setup_registry_def p res_bind.simps
    by (cases "vs_resolver vs"; cases "vs_redact vs = []")
      (simp_all add: register_approval_resolver_def register_approval_redactor_def check_reference_def ctk_names
        register_kind_def k for_conformance_def new_registry_def with_principal_channel_def control_failure_notifier_def
        vector_registry_def)
qed

section \<open>Loading the document of a vector\<close>

lemma harness_identity: "identity_of (harness_document spec vs) = as_str (provider_json (vs_identity vs))"
  by (cases "vs_identity vs")
    (simp_all add: identity_of_def harness_document_def loaded_get setup_configuration_get provider_json_def)

lemma harness_bindings:
  "rd_bindings (fill (harness_document spec vs) surface) =
     map (fill_binding (resolve_surface (harness_document spec vs) surface)
         (timeout_of (harness_document spec vs) ''interceptor_ms'' (Some 5000)) (on_error_of (harness_document spec vs)))
       (map binding_object [0..<length (vs_interceptors vs)])"
proof -
  have "List.map_filter as_object (map instance_binding is) = map binding_object is" for "is"
    by (induction "is") (simp_all add: map_filter_simps instance_binding_object)
  then show ?thesis by (simp add: fill_def Let_def harness_document_def loaded_get instance_bindings_def)
qed

lemma instance_filled:
  "rb_kind (fill_binding s ms oe (binding_object i)) = ''ctk.instance''"
  "i < MAX_BINDINGS \<Longrightarrow> config_index (rb_config (fill_binding s ms oe (binding_object i))) = Some i"
  by (simp_all add: fill_binding_def binding_object_def get_str_def config_index_def value_get_def MAX_BINDINGS_def
      unat_of_nat take_bit_nat_eq_self)

lemma harness_document_registered:
  assumes "loadable vs"
  shows "registry_resolve (harness_document spec vs) (vector_registry (reference_surface True) vs)
    = Inr (fill (harness_document spec vs) (reference_surface True))"
proof -
  let ?d = "harness_document spec vs" and ?s = "reference_surface True"
  let ?names = "registry_names_of (vector_registry ?s vs)"
  have n: "nm_identity_providers ?names = (case vs_identity vs of CustomIdentity n f \<Rightarrow> [n] | _ \<Rightarrow> [])"
    "nm_approval_resolvers ?names = (if vs_resolver vs = None then [] else [''ctk-scripted''])"
    "nm_approval_redactors ?names = (if vs_redact vs = [] then [] else [''ctk-redact''])"
    "nm_kinds ?names = [''ctk.instance'']"
    by (simp_all add: registry_names_of_def vector_registry_def bt_set_def split: identity_provider.split option.split)
  have "rc_identity_provider (fill_configuration ?d) = as_str (provider_json (vs_identity vs))"
    "ra_resolver (rc_approval (fill_configuration ?d)) = (if vs_resolver vs = None then None else Some ''ctk-scripted'')"
    "ra_redactor (rc_approval (fill_configuration ?d)) = (if vs_redact vs = [] then None else Some ''ctk-redact'')"
    by (simp_all add: fill_configuration_def Let_def harness_identity harness_configuration approval_names_def get_str_def)
  moreover have "concat (map (\<lambda>(i, b). flag (rb_kind b \<notin> set (nm_kinds ?names)) (binding_ptr i @ ''/kind''))
      (enumerate 0 (rd_bindings (fill ?d ?s)))) = []"
    by (auto simp: n harness_bindings instance_filled set_zip enumerate_eq_zip)
  moreover have "opt_holds (\<lambda>p. p \<noteq> JCS_SHA256 \<and> p \<notin> set (nm_identity_providers ?names))
      (as_str (provider_json (vs_identity vs))) = False"
    by (cases "vs_identity vs") (simp_all add: n provider_json_def)
  moreover have "rd_configuration (fill ?d ?s) = fill_configuration ?d" by (simp add: fill_def Let_def)
  ultimately have "check_names (fill ?d ?s) ?names = Inr ()"
    by (simp add: check_names_def Let_def n res_bind_Inr_iff del: concat_eq_Nil_conv)
  moreover have "hr_surface (vector_registry ?s vs) = ?s" "hr_notifier (vector_registry ?s vs) \<noteq> None"
    by (simp_all add: vector_registry_def)
  ultimately show ?thesis
    using harness_document_resolves [OF assms, of spec]
    by (simp add: registry_resolve_def check_principal_channel_def)
qed

text \<open>The constructor of \<open>ctk.instance\<close> hands out the instances in the order of the bindings.\<close>

lemma instances_built:
  assumes "map_of (hr_kinds reg) ''ctk.instance'' = Some (instance_kind slots)"
    and "\<forall>i<length slots. rb_kind (F i) = ''ctk.instance'' \<and> config_index (rb_config (F i)) = Some i"
    and "\<forall>call\<in>set calls. \<exists>j<i. config_index (fst call) = Some j"
  shows "\<exists>out' calls'. build_bindings reg r k (map F [i..<length slots]) out calls = (Inr out', calls')"
  using assms(3)
proof (induction "length slots - i" arbitrary: i k out calls)
  case (Suc n)
  then have i: "i < length slots" and c: "[i..<length slots] = i # [Suc i..<length slots]" by (simp_all add: upt_conv_Cons)
  have "\<not> list_ex (\<lambda>(earlier, _). config_index earlier = Some i) calls"
    using Suc.prems by (auto simp: list_ex_iff)
  then have "instance_kind slots calls (rb_config (F i)) (binding_context_of r (F i)) = Some (Inr (slots ! i))"
    using assms(2) i by (simp add: instance_kind_def)
  then have b: "call_resolver reg (F i) (binding_context_of r (F i)) calls = Some (Some (Inr (Standard (slots ! i))))"
    using assms(1,2) i by (simp add: call_resolver_def)
  have "\<forall>call\<in>set (calls @ [(rb_config (F i), binding_context_of r (F i))]). \<exists>j<Suc i. config_index (fst call) = Some j"
    using Suc.prems assms(2) i by (auto intro: less_SucI)
  from Suc.hyps(1) [OF _ this] Suc.hyps(2) show ?case by (simp add: c b)
qed simp

lemma harness_document_built:
  assumes "loadable vs"
  shows "\<exists>em. fst (from_declaration tokio (harness_document spec vs) (vector_registry (reference_surface True) vs))
    = Some (Inr em)"
proof -
  let ?d = "harness_document spec vs" and ?s = "reference_surface True"
  let ?reg = "vector_registry ?s vs" and ?r = "fill ?d ?s"
  have n: "length (vs_interceptors vs) \<le> MAX_BINDINGS" "provider_named (vs_identity vs)"
    using assms by (simp_all add: loadable_def)
  have "\<exists>out' calls'. build_bindings ?reg ?r 0 (rd_bindings ?r) [] [] = (Inr out', calls')"
    unfolding harness_bindings map_map
    using n(1) by (intro instances_built) (simp_all add: vector_registry_def instance_filled)
  moreover have "\<exists>v. referenced (hr_approval_resolvers ?reg) (ra_resolver (rc_approval (rd_configuration ?r)))
      ''/configuration/approval/resolver'' = Inr v"
    by (simp add: referenced_def vector_registry_def fill_def Let_def fill_configuration_def harness_configuration
        approval_names_def get_str_def split: option.split)
  moreover have "\<exists>v. referenced (hr_approval_redactors ?reg) (ra_redactor (rc_approval (rd_configuration ?r)))
      ''/configuration/approval/redactor'' = Inr v"
    by (simp add: referenced_def vector_registry_def fill_def Let_def fill_configuration_def harness_configuration
        approval_names_def get_str_def)
  moreover have "\<exists>idp. built_identity ?reg (rc_identity_provider (rd_configuration ?r)) = Inr idp"
    using n(2) by (cases "vs_identity vs")
      (auto simp: built_identity_def vector_registry_def fill_def Let_def fill_configuration_def harness_identity
        provider_json_def provider_named_def res_ok_iff)
  moreover have "spec_from_wire (rd_spec ?r) = Some spec"
    by (simp add: fill_def Let_def harness_document_def loaded_get own_text)
  ultimately show ?thesis
    by (auto simp: from_declaration_def harness_document_registered [OF assms] from_resolved_def Let_def
        split: sum.splits prod.splits)
qed

section \<open>The interface\<close>

text \<open>
  What the runner relies on. \<open>able\<close> holds between vectors, \<open>ready\<close> says which setups the harness
  takes in a state, \<open>begun\<close> that a scenario is set up.
\<close>

locale vector_harness =
  fixes jparse :: "string \<Rightarrow> raw option" and jprint :: "json \<Rightarrow> string"
    and h :: "'s harness"
    and able :: "'s \<Rightarrow> bool" and ready :: "vector_setup \<Rightarrow> 's \<Rightarrow> bool" and begun :: "json \<Rightarrow> 's \<Rightarrow> bool"
  assumes own_declaration: "able s \<Longrightarrow> \<exists>a. assessed jparse jprint h s = Inr a"
    and setup_begins: "able s \<Longrightarrow> ready vs s \<Longrightarrow> \<exists>s'. hn_setup h vs s = Some s' \<and> begun (vs_scenario vs) s'"
    and declared_decides: "able s \<Longrightarrow>
      \<exists>res s'. hn_setup_declared h vs document reg s = Some (res, s')
        \<and> (if res = Inr () then begun (vs_scenario vs) s' else able s')"
    and run_ends: "begun scenario s \<Longrightarrow> tools_answer scenario \<Longrightarrow>
      \<exists>rr recorded s'. hn_run h s = Some (rr, recorded, s') \<and> begun scenario s'"
    and begun_able: "begun scenario s \<Longrightarrow> able s"
    and teardown_able: "able s \<Longrightarrow> able (hn_teardown h s)"
begin

lemma field_returns:
  assumes "able s" "ready vs s" "tools_answer (vs_scenario vs)"
  shows "\<exists>rr recorded s'. run_field h vs s = Some (rr, recorded, s') \<and> able s'"
proof -
  obtain s1 where "hn_setup h vs s = Some s1" "begun (vs_scenario vs) s1" using setup_begins [OF assms(1,2)] by blast
  moreover from this(2) obtain rr recorded s2 where "hn_run h s1 = Some (rr, recorded, s2)" "begun (vs_scenario vs) s2"
    using run_ends assms(3) by blast
  ultimately show ?thesis using teardown_able begun_able by (auto simp: run_field_def)
qed

lemma declared_returns:
  assumes "able s" "tools_answer (vs_scenario vs)" "\<And>reg. prove reg \<noteq> None"
  shows "\<exists>rr recorded s'. run_declared x h prove sc vs document s = Some (rr, recorded, s') \<and> able s'"
proof -
  obtain reg where reg: "scripts_registry x sc (hn_surface h s) = Inr reg" using scripts_registered by blast
  obtain same where same: "prove reg = Some same" using assms(3) by blast
  have scenario: "vs_scenario (declared_setup vs) = vs_scenario vs" by (simp add: declared_setup_def)
  obtain res s1 where d: "hn_setup_declared h (declared_setup vs) document reg s = Some (res, s1)"
    "if res = Inr () then begun (vs_scenario vs) s1 else able s1"
    using declared_decides [OF assms(1)] scenario by metis
  show ?thesis
  proof (cases res)
    case (Inl e)
    with d reg same teardown_able show ?thesis by (simp add: run_declared_def)
  next
    case (Inr u)
    with d have "begun (vs_scenario vs) s1" by simp
    then obtain rr recorded s2 where r: "hn_run h s1 = Some (rr, recorded, s2)" "begun (vs_scenario vs) s2"
      using run_ends [OF _ assms(2)] by blast
    have "able (hn_teardown h s2)" using begun_able teardown_able r(2) by blast
    with d(1) Inr reg same r(1) show ?thesis by (auto simp: run_declared_def)
  qed
qed

text \<open>One vector: a result, and a harness that takes the next one.\<close>

lemma vector_returns:
  assumes "able s" "tools_answer (value_index vector ''scenario'')"
    and "value_get vector ''host_declaration'' = None \<Longrightarrow> ready (setup_of x de_comp vector) s"
    and "\<And>m. value_get vector ''host_declaration'' = Some (JObj m) \<Longrightarrow> distinct (map fst m)"
  shows "\<exists>r s'. run_vector x canon jparse jprint de_comp written h vector s = Some (r, s') \<and> able s'
    \<and> (\<exists>failures. rn_failures r = Asserted failures)"
proof -
  let ?vs = "setup_of x de_comp vector"
  obtain caps posture on_err where a: "assessed jparse jprint h s = Inr (caps, posture, on_err)"
    using own_declaration [OF assms(1)] by auto
  have scenario: "vs_scenario ?vs = value_index vector ''scenario''" by (simp add: setup_of_def Let_def)
  have prove: "prove_paths canon jparse jprint written document surface names \<noteq> None"
    if "value_get vector ''host_declaration'' = Some document" for document surface names
  proof -
    have "builder_from_value document \<noteq> None"
    proof (cases document)
      case (JObj m)
      with assms(4) that builder_written [of m] show ?thesis by auto
    qed (simp_all add: builder_from_value_def)
    then show ?thesis by (simp add: prove_paths_def path_outcomes_def Let_def)
  qed
  have "\<exists>rr recorded s'. able s' \<and> (case value_get vector ''host_declaration'' of
      Some document \<Rightarrow>
        run_declared x h
          (\<lambda>reg. prove_paths canon jparse jprint written document (hr_surface reg) (registry_names_of reg))
          (scripts_of vector) ?vs document s
    | None \<Rightarrow> run_field h ?vs s) = Some (rr, recorded, s')"
  proof (cases "value_get vector ''host_declaration''")
    case None
    with field_returns [OF assms(1), of ?vs] assms(2,3) scenario show ?thesis by auto
  next
    case (Some document)
    let ?prove = "\<lambda>reg. prove_paths canon jparse jprint written document (hr_surface reg) (registry_names_of reg)"
    have "tools_answer (vs_scenario ?vs)" using assms(2) scenario by simp
    from declared_returns [OF assms(1) this, of ?prove x "scripts_of vector" document] prove [OF Some]
    obtain rr recorded s' where "run_declared x h ?prove (scripts_of vector) ?vs document s = Some (rr, recorded, s')"
      "able s'" by blast
    with Some show ?thesis by auto
  qed
  then show ?thesis
    using assms(1) a by (auto simp: run_vector_def Let_def unrun_def asserted_def split: option.splits)
qed

end

section \<open>The reference harness provides it\<close>

text \<open>What the third-party parser and printer do with one document: it reads back, small enough.\<close>

definition reads_back :: "(string \<Rightarrow> raw option) \<Rightarrow> (json \<Rightarrow> string) \<Rightarrow> object \<Rightarrow> bool" where
  "reads_back jparse jprint doc \<longleftrightarrow>
     Option.bind (jparse (jprint (JObj doc))) (load 0) = Some (JObj doc)
     \<and> length (jprint (JObj doc)) \<le> MAX_DOCUMENT_BYTES
     \<and> scan_integer_tokens jparse [] (jprint (JObj doc)) = []"

definition reference_able :: "(string \<Rightarrow> raw option) \<Rightarrow> (json \<Rightarrow> string) \<Rightarrow> reference_harness \<Rightarrow> bool" where
  "reference_able jparse jprint h \<longleftrightarrow>
     rh_reference h = REFERENCE_DECLARATION \<and> reads_back jparse jprint (reference_document h)"

definition reference_ready ::
  "(string \<Rightarrow> raw option) \<Rightarrow> (json \<Rightarrow> string) \<Rightarrow> vector_setup \<Rightarrow> reference_harness \<Rightarrow> bool" where
  "reference_ready jparse jprint vs h \<longleftrightarrow> loadable vs \<and> reads_back jparse jprint (harness_document (rh_spec h) vs)"

definition reference_begun ::
  "(string \<Rightarrow> raw option) \<Rightarrow> (json \<Rightarrow> string) \<Rightarrow> json \<Rightarrow> reference_harness \<Rightarrow> bool" where
  "reference_begun jparse jprint scenario h \<longleftrightarrow>
     reference_able jparse jprint h \<and> rh_scenario h = scenario \<and> rh_session h \<noteq> None"

lemma harness_document_read:
  assumes "loadable vs" "reads_back jparse jprint (harness_document spec vs)"
  shows "from_value jparse jprint (JObj (harness_document spec vs)) = Inr (harness_document spec vs)"
  using assms(2) harness_document_accepted [OF assms(1), of spec]
  by (simp add: from_value_def from_json_def parse_document_def reads_back_def check_unknown_fields_def check_fields_def
      check_consistency_def refuse_def not_less)

text \<open>The committed declaration is the document of the setup that changes nothing.\<close>

definition unchanged_setup :: vector_setup where
  "unchanged_setup =
     \<lparr>vs_scenario = JNull, vs_interceptors = [], vs_resolver = None, vs_mode = Enforce,
      vs_composition = \<lparr>profile = SequentialFirstDeny, on_approval = Some Stop, on_disagreement = None,
        on_transform_conflict = None\<rparr>,
      vs_identity = JcsSha256, vs_redact = []\<rparr>"

lemma unchanged_document: "own_document spec = harness_document spec unchanged_setup"
  by (cases spec; hypsubst; code_simp)

lemma unchanged_loadable: "loadable unchanged_setup"
  by code_simp


lemma reference_loads:
  assumes "reference_able jparse jprint h"
  shows "\<exists>a. assessed jparse jprint (the_reference x clock jparse jprint True) h = Inr a"
proof -
  have b: "reads_back jparse jprint (reference_document h)" and "rh_reference h = REFERENCE_DECLARATION"
    using assms by (simp_all add: reference_able_def)
  then have d: "reference_document h = harness_document (rh_spec h) unchanged_setup"
    by (simp add: own_document_of unchanged_document)
  show ?thesis
    using harness_document_read [OF unchanged_loadable b [unfolded d]]
      harness_document_resolves [OF unchanged_loadable, of "rh_spec h"]
    by (simp add: assessed_def the_reference_def d)
qed

lemma reference_begins:
  assumes "reference_able jparse jprint h" "reference_ready jparse jprint vs h"
  shows "\<exists>em. reference_setup jparse jprint True vs h = Some (begin_session (vs_scenario vs) [''interceptor-0''] em h)"
proof -
  have l: "loadable vs" and b: "reads_back jparse jprint (harness_document (rh_spec h) vs)"
    using assms(2) by (simp_all add: reference_ready_def)
  have d: "reference_document h = own_document (rh_spec h)"
    using assms(1) by (simp add: reference_able_def own_document_of)
  have "get_object (own_document (rh_spec h)) ''configuration'' = Some own_configuration"
    by (simp add: get_object_def own_members)
  moreover obtain em where "fst (from_declaration True (harness_document (rh_spec h) vs)
      (vector_registry (reference_surface True) vs)) = Some (Inr em)"
    using harness_document_built [OF l] by blast
  ultimately show ?thesis
    using l setup_registry_built [of vs "reference_surface True"] harness_document_read [OF l b]
    by (simp add: reference_setup_def d harness_document_def loaded_document_def instance_bindings_def loadable_def
        from_declaration_value_def loaded_declaration_def exI [of _ em])
qed

lemma declaration_decides: "fst (from_declaration_value jparse jprint tokio v reg) \<noteq> None"
proof (cases "from_value jparse jprint v")
  case (Inr doc)
  obtain res calls where run: "from_declaration tokio doc reg = (res, calls)" by force
  have "res \<noteq> None"
    by (rule from_declaration_outcome [OF Inr [unfolded from_value_def] run]) simp_all
  with Inr run show ?thesis by (simp add: from_declaration_value_def loaded_declaration_def)
qed (simp add: from_declaration_value_def loaded_declaration_def)

lemma able_after:
  "reference_able jparse jprint (h\<lparr>rh_session := rf\<rparr>) = reference_able jparse jprint h"
  "reference_able jparse jprint (begin_session scenario names em h) = reference_able jparse jprint h"
  by (simp_all add: reference_able_def reference_document_def begin_session_def)

lemma begun_session:
  "reference_able jparse jprint h \<Longrightarrow> reference_begun jparse jprint scenario (begin_session scenario names em h)"
  unfolding reference_begun_def able_after by (simp add: begin_session_def)

interpretation reference: vector_harness jparse jprint "the_reference x clock jparse jprint True"
  "reference_able jparse jprint" "reference_ready jparse jprint" "reference_begun jparse jprint"
  for x clock jparse jprint
proof
  fix h
  assume a: "reference_able jparse jprint h"
  then show "\<exists>a. assessed jparse jprint (the_reference x clock jparse jprint True) h = Inr a"
    by (rule reference_loads)
  show "reference_able jparse jprint (hn_teardown (the_reference x clock jparse jprint True) h)"
    using a by (simp add: the_reference_def reference_teardown_def able_after)
  fix vs
  {
    assume "reference_ready jparse jprint vs h"
    from reference_begins [OF a this] begun_session [OF a]
    show "\<exists>h'. hn_setup (the_reference x clock jparse jprint True) vs h = Some h'
        \<and> reference_begun jparse jprint (vs_scenario vs) h'"
      by (auto simp: the_reference_def)
  }
  fix document reg
  obtain res where res: "fst (from_declaration_value jparse jprint True document (with_principal_channel reg)) = Some res"
    using declaration_decides by blast
  show "\<exists>res h'. hn_setup_declared (the_reference x clock jparse jprint True) vs document reg h = Some (res, h')
      \<and> (if res = Inr () then reference_begun jparse jprint (vs_scenario vs) h' else reference_able jparse jprint h')"
    using a begun_session [OF a] by (cases res) (simp_all add: the_reference_def reference_setup_declared_def res)
next
  fix scenario h
  assume b: "reference_begun jparse jprint scenario h"
  then show "reference_able jparse jprint h" by (simp add: reference_begun_def)
  assume "tools_answer scenario"
  moreover obtain rf where "rh_session h = Some rf" "rh_scenario h = scenario"
    using b by (auto simp: reference_begun_def)
  ultimately show "\<exists>rr recorded h'. hn_run (the_reference x clock jparse jprint True) h = Some (rr, recorded, h')
      \<and> reference_begun jparse jprint scenario h'"
    using b reference_run_returns [of scenario x clock rf]
    by (auto simp: the_reference_def reference_harness_run_def reference_begun_def able_after)
qed

section \<open>A result for every vector\<close>

text \<open>
  C28: The runner gives a result for a vector on the reference harness, and the harness takes the next vector.
  Between vectors the harness holds its committed declaration, and what its printer writes of that declaration
  the parser reads back. The tools the model script calls are answered; a vector without a declaration states
  a composition its profile consults, a provider name the registry takes and at most 256 interceptors, and its
  document reads back; a vector with one states no key twice. Then the run returns: no registration or document of
  the field-based setup is refused, every interceptor instance is handed out once, no panic leaves the agent, the
  result holds the assertions of the vector (it is never the refusal of the harness's own declaration), and the
  harness is as before.
\<close>

theorem reference_vector_returns:
  assumes "reference_able jparse jprint h"
    and "tools_answer (value_index vector ''scenario'')"
    and "value_get vector ''host_declaration'' = None \<Longrightarrow> reference_ready jparse jprint (setup_of x de_comp vector) h"
    and "\<And>m. value_get vector ''host_declaration'' = Some (JObj m) \<Longrightarrow> distinct (map fst m)"
  shows "\<exists>r h'. run_vector x canon jparse jprint de_comp written (the_reference x clock jparse jprint True) vector h = Some (r, h')
    \<and> reference_able jparse jprint h' \<and> (\<exists>failures. rn_failures r = Asserted failures)"
  using assms by (rule reference.vector_returns)

text \<open>A vector with one interceptor and a tool call.\<close>

fun raw_of :: "json \<Rightarrow> raw" where
  "raw_of JNull = RNull"
| "raw_of (JBool b) = RBool b"
| "raw_of (JNum n) = RNum n"
| "raw_of (JStr t) = RStr t"
| "raw_of (JArr vs) = RArr (map raw_of vs)"
| "raw_of (JObj m) = RObj (map (\<lambda>(k, v). (k, raw_of v)) m)"

definition tool_vector :: json where
  "tool_vector = JObj [(''id'', JStr ''AH-CTK-1''), (''scenario'', tool_scenario)]"

definition tool_document :: object where
  "tool_document = loaded_document V0_1 (setup_configuration unchanged_setup own_configuration) (instance_bindings 1)"

definition two_print :: "json \<Rightarrow> string" where
  "two_print v = (if v = JObj (own_document V0_1) then ''own'' else ''tool'')"

definition two_parse :: "string \<Rightarrow> raw option" where
  "two_parse t = Some (raw_of (JObj (if t = ''own'' then own_document V0_1 else tool_document)))"

lemma documents_read:
  "load 0 (raw_of (JObj (own_document V0_1))) = Some (JObj (own_document V0_1))"
  "load 0 (raw_of (JObj tool_document)) = Some (JObj tool_document)"
  "tool_document \<noteq> own_document V0_1"
  by code_simp+

lemma plain_scan: "scan_integer_tokens two_parse [] ''own'' = []" "scan_integer_tokens two_parse [] ''tool'' = []"
  by code_simp+

lemma tool_vector_setup:
  "harness_document V0_1 (setup_of x de_comp tool_vector) = tool_document" "loadable (setup_of x de_comp tool_vector)"
proof -
  let ?vs = "setup_of x de_comp tool_vector"
  have vs: "vs_mode ?vs = Enforce" "vs_composition ?vs = default_composition" "vs_identity ?vs = JcsSha256"
    "vs_resolver ?vs = None" "vs_redact ?vs = []" "length (vs_interceptors ?vs) = 1"
    by (simp_all add: setup_of_def Let_def tool_vector_def scripts_of_def value_index_def value_get_def value_str_def
        value_array_def value_strings_def vector_provider_def resolver_of_def interceptors_of_def interceptor_at_def
        map_filter_simps)
  have c: "default_composition = vs_composition unchanged_setup" by code_simp
  show "harness_document V0_1 ?vs = tool_document"
    by (simp add: harness_document_def tool_document_def setup_configuration_def vs c unchanged_setup_def)
  show "loadable ?vs"
    using unchanged_loadable c by (simp add: loadable_def vs unchanged_setup_def provider_named_def MAX_BINDINGS_def)
qed

theorem reference_vector_returns_witness:
  "\<exists>r h'. run_vector sample_externs (\<lambda>_. []) two_parse two_print (\<lambda>_. None) None
      (the_reference sample_externs (\<lambda>_. ''now'') two_parse two_print True) tool_vector (new_reference REFERENCE_DECLARATION V0_1)
      = Some (r, h') \<and> (\<exists>failures. rn_failures r = Asserted failures)"
proof -
  let ?h = "new_reference REFERENCE_DECLARATION V0_1"
  have h: "rh_spec ?h = V0_1" "rh_reference ?h = REFERENCE_DECLARATION" by (simp_all add: new_reference_def)
  have "reads_back two_parse two_print (own_document V0_1)" "reads_back two_parse two_print tool_document"
    using documents_read by (simp_all add: reads_back_def two_print_def two_parse_def plain_scan MAX_DOCUMENT_BYTES_def)
  then have "reference_able two_parse two_print ?h" "reference_ready two_parse two_print (setup_of x de_comp tool_vector) ?h" for x de_comp
    using h tool_vector_setup own_document_of [OF h(2)] by (simp_all add: reference_able_def reference_ready_def)
  moreover have "value_index tool_vector ''scenario'' = tool_scenario" "value_get tool_vector ''host_declaration'' = None"
    by (simp_all add: tool_vector_def value_index_def value_get_def)
  ultimately show ?thesis
    using reference_vector_returns [of two_parse two_print ?h tool_vector sample_externs "\<lambda>_. None" "\<lambda>_. []" None "\<lambda>_. ''now''"]
      tool_scenario(1) by auto
qed

end
