(* ===== verification/Spec2Isabelle.thy ===== *)
theory Spec2Isabelle
  imports Samples Component_Properties Declaration_Properties Ffi_Properties Ctk_Properties Ctk_Run_Properties
    Boundary_Properties Ctk_Vectors Ctk_Harness
begin

text \<open>
  Agent hooks: the Rust core, \<open>sdk/rust/core/src\<close>, its conformance kit, and the bindings that
  carry it to other languages (\<open>sdk/rust/ffi\<close>, \<open>sdk/python/src\<close>,
  \<open>sdk/typescript/native\<close>). A host wraps each action of an
  agent in an emission: it hands a JSON context to an emitter, which asks the registered
  interceptors for verdicts, combines them under a composition profile, lets an approval resolver
  lift a liftable deny, applies transforms to the context's target, and returns a record with the
  identities of the context before and after. The action proceeds when the record permits it, or
  whenever the emitter only evaluates.

  \<^bold>\<open>The theories, in the order of the code.\<close>

  \<^item> \<open>Prelude\<close>: result values, prefixes, decimal digits, sorted insertion,
    first-seen unions. \<open>Json\<close>: \<open>serde_json::Value\<close> with objects as
    association lists sorted by key, numbers as 64-bit words.
  \<^item> \<open>Jcs\<close> (\<open>jcs.rs\<close>): the streaming RFC 8785 formatter with its stack of
    half-written objects, against the recursive text of a value.
  \<^item> \<open>Core_Types\<close> (\<open>types.rs\<close>): versions, points, decisions, host errors,
    verdicts and the verdict gate \<open>validate\<close>.
  \<^item> \<open>Path_Subset\<close> (\<open>path.rs\<close>): the transform path parser and the lens it
    denotes; locale \<open>partial_lens\<close>, interpreted on \<open>resolve_segs\<close> and \<open>apply_segs\<close>.
  \<^item> \<open>Canonical\<close> (\<open>canonical.rs\<close>): depth, integer domain, projection,
    envelope check, identity.
  \<^item> \<open>Composition\<close> (\<open>composition.rs\<close>): profiles, knobs, severity, aggregation, unions.
  \<^item> \<open>Enforce\<close> (\<open>enforce.rs\<close>): transform application, the payload-free
    projection, \<open>finalize\<close>.
  \<^item> \<open>Emitter\<close>, \<open>Dispatch\<close>, \<open>Emission\<close>
    (\<open>emitter.rs\<close>): the emitter's state and settings, one interceptor call and its failures, the
    consultation; the four profiles; \<open>emit\<close>, delivery and host failures.
  \<^item> \<open>Verdict_Wire\<close> (\<open>verdict.rs\<close> and the serde derives),
    \<open>Response\<close> (\<open>response.rs\<close>), \<open>Builder\<close>
    (\<open>builder.rs\<close>): the wire forms and the host's context builder.
  \<^item> \<open>Decl_Base\<close>, \<open>Host_Surface\<close>, \<open>Decl_Document\<close>,
    \<open>Decl_Fields\<close>, \<open>Decl_Resolve\<close> (\<open>declaration.rs\<close>): a host declaration
    in the ten steps of its loader: refusals and the host surface, reading and parsing the file, the
    versions and the closed member sets, the constraints of each field and the scan of the raw text, the
    resolved form, consistency and the check against the host.
  \<^item> \<open>Decl_Registry\<close>, \<open>Decl_Emitter\<close> (\<open>HostRegistry\<close>, and
    \<open>from_declaration\<close> in \<open>emitter.rs\<close>): the host's constructors for the kinds a
    declaration may name, and the emitter a declaration builds.
  \<^item> \<open>Decl_Builder\<close> (\<open>DeclarationBuilder\<close>): declarations written by a
    program. \<open>migrate\<close> is in \<open>Decl_Resolve\<close>, its laws in \<open>Decl_Migrate\<close>.
    \<open>Resolved_Wire\<close>: the JSON of a resolved declaration and its canonical text.
  \<^item> \<open>Projection_Scan\<close> (\<open>scan_projection_raw\<close> in \<open>canonical.rs\<close>) and
    \<open>Ffi_Surface\<close> (\<open>ffi_surface.rs\<close>, with \<open>from_json\<close> of \<open>verdict.rs\<close> and
    \<open>response.rs\<close> and \<open>HostDescription\<close>): the core as functions from JSON text, for hosts that run
    their own emitter. \<open>Ffi_Ctk\<close> has its four functions of the conformance kit.
  \<^item> \<open>C_Abi\<close> (\<open>ffi/src/lib.rs\<close>): the C boundary over that surface, with marshalling,
    the panic guard and the ownership of results. \<open>Native_Bindings\<close> (\<open>python/src/lib.rs\<close>,
    \<open>typescript/native/lib.rs\<close>): the in-process bindings and how their errors are rebuilt.
  \<^item> \<open>Ctk_Lookup\<close>, \<open>Ctk_Engine\<close> (\<open>ctk_engine.rs\<close>): dotted-path lookup, the
    scripted interceptor and resolver of a vector, and the pass that asserts what a run recorded.
  \<^item> \<open>Ctk_Scripts\<close>, \<open>Record_Wire\<close>, \<open>Ctk_Reference\<close>, \<open>Ctk_Builder\<close>,
    \<open>Ctk_Runner\<close>, \<open>Ctk_Vectors\<close> (\<open>ctk.rs\<close>; the second is the record's serialization
    in \<open>types.rs\<close>): the scripted host code, the reference agent, documents rebuilt through the builder,
    one vector against a harness, the report, the loading of vectors.

  \<^bold>\<open>The lemma groups.\<close> \<open>Dispatch\<close> states once, as the locale
  \<open>emission_frame\<close>, that a relation kept by folding, invoking and consulting is kept by
  every profile. \<open>Dispatch_Laws\<close> interprets it for the envelope, for \<open>evaluate_only\<close>
  and for the log, and proves \<open>dispatch_sound\<close>: a permit has no deny or an approval behind it.
  \<open>Dispatch_Order\<close> has who is called when; \<open>Emission_Laws\<close> lifts the dispatch facts to
  records and identities and shows that an unforgiven failure blocks; \<open>Emission_Lifecycle\<close> is the
  step relation of a host driving an emitter, its reachable states and their invariant;
  \<open>Calendar\<close> has the Gregorian calendar the clock is compared with;
  \<open>Samples\<close> evaluates concrete emissions for the witnesses. \<open>Component_Properties\<close> holds
  the properties of the components below the emitter, this theory those of whole emissions.

  For the declarations, \<open>Decl_Laws\<close> states what an accepted document contains
  (\<open>resolved_ok\<close>, the type invariant of a resolved declaration) and what its host allowed
  (\<open>within_surface\<close>), and proves each step of the resolution against it; \<open>Decl_Scan\<close>
  gives the texts of JSON values as a grammar and shows that the byte scan for oversized integers agrees
  with it; \<open>Decl_Emitter\<close> shows that the emitter built from a resolved declaration runs what
  was declared, and has the steps of a host that builds one; \<open>Decl_Samples\<close> evaluates one
  declaration for the witnesses, and \<open>Declaration_Properties\<close> holds the properties. A document
  is refused with a list of findings; the model keeps of a finding the JSON pointer and the order, the code adds
  a sentence for the reader.

  For the bindings, \<open>Ffi_Laws\<close> relates each function of the surface to the emitter's own handling
  of the same thing, \<open>Ffi_Properties\<close> holds the properties, and \<open>Boundary_Properties\<close> those of
  the C boundary, the in-process bindings and the resolved JSON. For the conformance kit, \<open>Ctk_Laws\<close>
  states for each group of assertions when it reports nothing, so that a passing vector is a statement about the
  run (\<open>vector_met\<close>); \<open>Ctk_Reference_Laws\<close> has the reference agent as a step relation whose
  invariant interprets \<open>emission_frame\<close> twice more; \<open>Ctk_Report_Laws\<close> has the fold that groups
  results and the totality of rebuilding a document. \<open>Reference_Document\<close> shows that the loader accepts
  what the reference harness writes of a vector and that its surface supports it; \<open>Ctk_Harness\<close> states the
  trait \<open>Harness\<close> as the locale \<open>vector_harness\<close>, proves the runner total over it, and interprets it on
  \<open>the_reference\<close>: its registry is complete, every interceptor instance is handed out once, and its agent
  returns. \<open>Ctk_Properties\<close>,
  \<open>Ctk_Run_Properties\<close> and \<open>Ctk_Report_Properties\<close> hold the properties.

  \<^bold>\<open>Effects.\<close> Interceptors, the resolver, the notifier and the redactor are host code. Each is
  an argument: a function of the log of host calls so far (so it may keep state) that returns a value or
  \<open>None\<close>, a panic. The log is state of the model only; the properties use it to say who was
  called, with what, and in which order. Futures are awaited one after the other, so an emission is
  sequential code; a timeout is the callback's \<open>overruns\<close> answer, heeded when the build has
  \<open>tokio-timeout\<close>. An operation returns its result with the changed emitter, context and log.

  \<^bold>\<open>Parameters.\<close> \<open>externs\<close> holds what the crate takes from elsewhere: the
  SHA-256 hash and the shortest decimal text of a double (\<open>ryu_js\<close>); no property assumes anything of
  either. Of \<open>serde_json\<close> the model has the order of its formatter calls, sorted
  objects and the decoding of string literals, as documented. For the declarations its text parser is the
  argument \<open>jparse\<close> and its printer \<open>jprint\<close>; what the file system answers for a path is a
  \<open>file_view\<close>. For the surface the readers of arguments are the record \<open>decoders\<close>, the
  reader of raw members \<open>raw_reader\<close>, and at the C boundary the writers are the record
  \<open>printers\<close>; the conformance kit takes the clock, the decoders of compositions, rules and run records, and
  the canonical text \<open>canon\<close> of a resolved form as arguments. The kind constructors a host registers are functions
  of the calls made so far, as every callback; and the Cargo feature \<open>tokio-timeout\<close> is a
  boolean argument, where the code tests it.

  \<^bold>\<open>Bounds.\<close> Strings are lists of UTF-8 bytes. Indices of registrations are naturals, which
  agrees with \<open>u32\<close> below \<open>2^32\<close> registrations, and so is the count of dropped records.
  The builder's counter, JSON numbers and the
  path index bound keep their 64 bits. No definition uses fuel: the depth loop, the raw scan, the path
  parser and the eviction loop are proved to terminate. The lookup loop of the conformance kit is a
  \<open>while_option\<close>, with \<open>lookup_returns\<close> for its end. The reference agent recurses over the model
  script; statements on its numbering need fewer than \<open>2^63\<close> emissions, which \<open>reference_run_returns\<close> bounds
  by the size of the scenario. A panic is the result \<open>None\<close> of the operation, and at the C boundary an
  \<open>unwind\<close>; \<open>HANG_GRACE\<close> is the ten seconds after which a scripted hang gives up.

  \<^bold>\<open>Not modelled.\<close> The wording of findings, details and assertion failures, of which the
  place and the kind are kept; the text parser and printer of \<open>serde_json\<close> and the derived readers of
  arguments, which are parameters; the Serializer plumbing of the JCS formatter and its raw-value fragments, which an
  in-memory value never reaches; \<open>Debug\<close> and \<open>Display\<close>; registering modules and converting strings
  in PyO3 and napi; the wall clock, directory walks and temporary files, of which only what they answer
  appears. The SDKs written in Python, TypeScript, Go and C# over these bindings are other programs.
\<close>

section \<open>Where a permit comes from\<close>

text \<open>
  C1: Fail closed. When \<open>emit\<close> lets an action proceed in enforce mode, the context
  passed the envelope check under this emitter's version, the input identity was computed,
  at least one interceptor was active, and the combined verdict of the dispatch permits.
\<close>

theorem emit_fail_closed:
  assumes "emit x em ctx log = (Inr out, em', ctx', log')" and "e_mode em = Enforce"
  shows "validate_envelope ctx = Inr () \<and> spec_of_context ctx = Some (e_spec em)
    \<and> res_ok (identity_compute x (e_identity em) ctx) \<and> active em ctx \<noteq> []
    \<and> permits (v_decision (d_combined (fst (dispatch x em ctx log))))"
proof -
  obtain rec em1 c1 l1 where e: "emit_unchecked x em ctx log = (rec, em1, c1, l1)"
    by (cases "emit_unchecked x em ctx log")
  with assms have p: "permits (v_decision (r_verdict rec))"
    by (auto simp: emit_def proceeds_def emit_mode split: if_splits)
  from e p obtain i d log1 where f: "validate_envelope ctx = Inr ()" "spec_of_context ctx = Some (e_spec em)"
    "identity_compute x (e_identity em) ctx = Inr i" and d: "dispatch x em ctx log = (d, c1, log1)"
    and pd: "permits (v_decision (d_combined d))"
    by (rule emit_permit)
  have "active em ctx \<noteq> []"
  proof
    assume "active em ctx = []"
    with d pd show False by (auto simp: dispatch_def synthesized_def)
  qed
  with f d pd show ?thesis by simp
qed

theorem emit_fail_closed_witness:
  "\<exists>out em' ctx' log'.
     emit sample_externs (sample_emitter run_all_config Enforce None [scripted allow, scripted redact])
       (ctx_with ''hi'') [] = (Inr out, em', ctx', log')
     \<and> active (sample_emitter run_all_config Enforce None [scripted allow, scripted redact]) (ctx_with ''hi'') \<noteq> []"
proof -
  let ?em = "sample_emitter run_all_config Enforce None [scripted allow, scripted redact]"
  obtain d where d: "dispatch sample_externs ?em (ctx_with ''hi'') [] =
      (d, ctx_with ''x'', [Invoked 0 (ctx_with ''hi''), Invoked 1 (ctx_with ''hi'')])"
    "v_decision (d_combined d) = Transform" using sample_run_all by blast
  obtain rec em' c l where e: "emit_unchecked sample_externs ?em (ctx_with ''hi'') [] = (rec, em', c, l)"
    by (cases "emit_unchecked sample_externs ?em (ctx_with ''hi'') []")
  from sample_outcome(3) [OF d(1) e refl] d(2) e obtain out where
    o: "emit sample_externs ?em (ctx_with ''hi'') [] = (Inr out, em', c, l)"
    by (auto simp: emit_def proceeds_def)
  from emit_fail_closed [OF o] o show ?thesis by auto
qed

text \<open>
  C2: The basis of a permit. A permitting record either has no denying verdict among its
  interceptors and no consultation took place, or the record says \<open>approval\<close> and
  the resolver was asked during this emission and answered under the rules of
  \<open>approval_given\<close>: an approve outcome, the request's identity echoed, a permit
  that passes the verdict gate, for a liftable deny, in enforce mode.
\<close>

theorem permit_basis:
  assumes "emit_unchecked x em ctx log = (rec, em', ctx', log')" and "permits (v_decision (r_verdict rec))"
  shows "r_resolved_by rec = None \<and> (\<forall>s\<in>set (r_verdicts rec). s_decision s \<noteq> Deny)
      \<and> consultations log' = consultations log
    \<or> r_resolved_by rec = Some ''approval'' \<and> approved_since x em log log'"
proof -
  from assms obtain i d log1 where d: "dispatch x em ctx log = (d, ctx', log1)"
    and pd: "permits (v_decision (d_combined d))"
    and rec: "r_verdicts rec = d_verdicts d" "r_resolved_by rec = d_resolved_by d"
    and log: "log' = log1 \<or> log' = log1 @ [Delivered rec]"
    by (rule emit_permit)
  from dispatch_sound [of x em ctx log] d obtain vs where
    vs: "map s_decision (d_verdicts d) = map v_decision vs"
    and s: "sound x em ctx log vs (d_combined d) (d_resolved_by d) ctx' log1"
    by (auto simp: sound_outcome_def)
  have dec: "(\<forall>s\<in>set (d_verdicts d). s_decision s \<noteq> Deny)" if "no_deny vs"
  proof -
    have "\<forall>k\<in>set (map s_decision (d_verdicts d)). k \<noteq> Deny" using that by (simp add: vs no_deny_def)
    then show ?thesis by simp
  qed
  have app: "approved_since x em log log'" if "approved_since x em log log1"
    using that log approved_since_append by auto
  from s pd log rec dec app show ?thesis by (auto simp: sound_def)
qed

theorem permit_basis_witness:
  "\<exists>rec em' ctx' log'.
     run_sample (first_deny_config Stop) Enforce (Some (echoing Approve allow))
       [scripted (escalate None None), scripted allow] = (rec, em', ctx', log')
     \<and> permits (v_decision (r_verdict rec)) \<and> r_resolved_by rec = Some ''approval''
     \<and> (\<exists>l. approved_since sample_externs (sample_emitter (first_deny_config Stop) Enforce
          (Some (echoing Approve allow)) [scripted (escalate None None), scripted allow]) [] l)"
proof -
  let ?em = "sample_emitter (first_deny_config Stop) Enforce (Some (echoing Approve allow))
    [scripted (escalate None None), scripted allow]"
  obtain d q where d: "dispatch sample_externs ?em (ctx_with ''hi'') [] =
      (d, ctx_with ''hi'', [Invoked 0 (ctx_with ''hi''), Consulted q])"
    "v_decision (d_combined d) = Allow" "d_resolved_by d = Some ''approval''" using sample_approved by blast
  obtain rec em' c l where e: "emit_unchecked sample_externs ?em (ctx_with ''hi'') [] = (rec, em', c, l)"
    by (cases "emit_unchecked sample_externs ?em (ctx_with ''hi'') []")
  note o = sample_outcome [OF d(1) e]
  have p: "permits (v_decision (r_verdict rec))" using o(3) [OF refl] d(2) by simp
  from permit_basis [OF e p] o(4) d(3) e p show ?thesis by (auto simp: run_sample_def)
qed

section \<open>What never reaches an interceptor\<close>

text \<open>
  A context that fails the envelope check, names another version, or has no identity
  is denied before dispatch: no host code is called (at most the record is delivered to the
  sink), the context is untouched, the record has a host-synthesized deny, no summaries and no identities.
\<close>

theorem rejected_before_dispatch:
  assumes "emit_unchecked x em ctx log = (rec, em', ctx', log')"
    and "precheck em ctx \<noteq> None \<or> \<not> res_ok (identity_compute x (e_identity em) ctx)"
  shows "ctx' = ctx \<and> (log' = log \<or> log' = log @ [Delivered rec]) \<and> r_verdicts rec = []
    \<and> \<not> permits (v_decision (r_verdict rec)) \<and> r_input_identity rec = None"
proof -
  have early: "r_verdicts fin = [] \<and> \<not> permits (v_decision (r_verdict fin)) \<and> r_input_identity fin = None"
    if "fin = finalize x ctx (d_combined (synthesized e m)) (e_mode em) (emission_meta x em ei None (synthesized e m) ctx)"
    for fin e m ei
    using that finalize_input_identity [of x ctx "d_combined (synthesized e m)" "e_mode em"
        "emission_meta x em ei None (synthesized e m) ctx"]
    by (simp add: synthesized_def finalize_deny)
  show ?thesis
  proof (cases "precheck em ctx")
    case (Some d)
    then obtain m where d: "d = synthesized ContextInvalid m" by (auto dest: precheck_denies)
    from assms(1) Some have "ctx' = ctx" and "log' = log \<or> log' = log @ [Delivered rec]"
      and "rec = finalize x ctx (d_combined d) (e_mode em) (emission_meta x em True None d ctx)"
      by (auto simp: emit_unchecked_early Let_def split: prod.splits dest!: deliver_shape)
    with early [of rec ContextInvalid m True] d show ?thesis by simp
  next
    case None
    with assms(2) obtain e m where i: "identity_compute x (e_identity em) ctx = Inl (e, m)"
      by (cases "identity_compute x (e_identity em) ctx") auto
    from assms(1) emit_unchecked_no_identity [OF None i]
    have "ctx' = ctx" and "log' = log \<or> log' = log @ [Delivered rec]"
      and "rec = finalize x ctx (d_combined (synthesized e (Some m))) (e_mode em)
        (emission_meta x em False None (synthesized e (Some m)) ctx)"
      by (auto simp: Let_def split: prod.splits dest!: deliver_shape)
    with early [of rec e "Some m" False] show ?thesis by simp
  qed
qed

theorem rejected_before_dispatch_witness:
  "\<exists>rec em' ctx' log'.
     emit_unchecked sample_externs (sample_emitter run_all_config Enforce None [scripted allow]) [] []
       = (rec, em', ctx', log')
     \<and> ctx' = [] \<and> r_verdicts rec = [] \<and> \<not> permits (v_decision (r_verdict rec))"
proof -
  let ?em = "sample_emitter run_all_config Enforce None [scripted allow]"
  obtain rec em' c l where e: "emit_unchecked sample_externs ?em [] [] = (rec, em', c, l)"
    by (cases "emit_unchecked sample_externs ?em [] []")
  have "precheck ?em [] \<noteq> None"
    by (simp add: precheck_def validate_envelope_def spec_of_context_def get_str_def env_err_def)
  with rejected_before_dispatch [OF e] e show ?thesis by auto
qed

text \<open>With no interceptor active at the context's point the emission is denied with
  \<open>host_error:no_interceptor\<close> under every profile, and nobody is called.
\<close>

theorem no_interceptor_denies:
  assumes "active em ctx = []"
  shows "dispatch x em ctx log = (synthesized NoInterceptor None, ctx, log)
    \<and> v_decision (d_combined (fst (dispatch x em ctx log))) = Deny
    \<and> v_reason (d_combined (fst (dispatch x em ctx log))) = Some ''host_error:no_interceptor''"
  using assms by (simp add: dispatch_def synthesized_def)

theorem no_interceptor_denies_witness:
  "dispatch sample_externs (sample_emitter run_all_config Enforce None []) (ctx_with ''hi'') []
     = (synthesized NoInterceptor None, ctx_with ''hi'', [])"
  using no_interceptor_denies [of "sample_emitter run_all_config Enforce None []" "ctx_with ''hi''"] by simp

section \<open>Evaluate only\<close>

text \<open>
  C15: In \<open>evaluate_only\<close> mode an emission leaves the context unchanged, never
  consults the resolver, and always lets the host proceed.
\<close>

theorem evaluate_only_observes:
  assumes "emit x em ctx log = (r, em', ctx', log')" and "e_mode em = EvaluateOnly"
  shows "ctx' = ctx \<and> consultations log' = consultations log \<and> (\<exists>out. r = Inr out)"
proof -
  obtain rec em1 c1 l1 where e: "emit_unchecked x em ctx log = (rec, em1, c1, l1)"
    by (cases "emit_unchecked x em ctx log")
  with assms emit_evaluate_only [OF e] emit_mode [OF e] show ?thesis
    by (auto simp: emit_def proceeds_def)
qed

theorem evaluate_only_observes_witness:
  "fst (snd (snd (emit sample_externs
      (sample_emitter run_all_config EvaluateOnly None [scripted redact, crashing]) (ctx_with ''hi'') [])))
    = ctx_with ''hi''"
proof -
  let ?em = "sample_emitter run_all_config EvaluateOnly None [scripted redact, crashing]"
  obtain r em' c l where e: "emit sample_externs ?em (ctx_with ''hi'') [] = (r, em', c, l)"
    by (cases "emit sample_externs ?em (ctx_with ''hi'') []")
  from evaluate_only_observes [OF e] e show ?thesis by simp
qed

section \<open>Identities and the context\<close>

text \<open>
  C5: Identity binding under the default provider. The record's input identity is the
  identity of the context before the emission, its enforced identity the identity of the
  context the host gets back, whichever shortcut computed it; a permitting record has both.
\<close>

theorem identities_bind:
  assumes "emit_unchecked x em ctx log = (rec, em', ctx', log')" and "e_identity em = JcsSha256"
  shows "r_input_identity rec \<in> {None} \<union> Some ` {i. context_identity x ctx = Inr i}
    \<and> r_enforced_identity rec \<in> {None} \<union> Some ` {i. context_identity x ctx' = Inr i}
    \<and> (permits (v_decision (r_verdict rec)) \<longrightarrow>
         r_input_identity rec \<noteq> None \<and> r_enforced_identity rec \<noteq> None)"
proof -
  have "r_input_identity rec \<in> {None} \<union> Some ` {i. context_identity x ctx = Inr i}"
    using emit_jcs_identities(1) [OF assms] by (cases "r_input_identity rec") auto
  moreover have "r_enforced_identity rec \<in> {None} \<union> Some ` {i. context_identity x ctx' = Inr i}"
    using emit_jcs_identities(2) [OF assms] by (cases "r_enforced_identity rec") auto
  ultimately show ?thesis using emit_permit_identities [OF assms] by simp
qed

theorem identities_bind_witness:
  "\<exists>rec em' log'.
     run_sample run_all_config Enforce None [scripted allow, scripted redact] = (rec, em', ctx_with ''x'', log')
     \<and> r_input_identity rec = Some (sample_id ''hi'') \<and> r_enforced_identity rec = Some (sample_id ''x'')"
proof -
  let ?em = "sample_emitter run_all_config Enforce None [scripted allow, scripted redact]"
  obtain d where d: "dispatch sample_externs ?em (ctx_with ''hi'') [] =
      (d, ctx_with ''x'', [Invoked 0 (ctx_with ''hi''), Invoked 1 (ctx_with ''hi'')])"
    "v_decision (d_combined d) = Transform" using sample_run_all by blast
  obtain rec em' c l where e: "emit_unchecked sample_externs ?em (ctx_with ''hi'') [] = (rec, em', c, l)"
    by (cases "emit_unchecked sample_externs ?em (ctx_with ''hi'') []")
  note o = sample_outcome [OF d(1) e]
  have "permits (v_decision (r_verdict rec))" using o(3) [OF refl] d(2) by simp
  with identities_bind [OF e] o(1) e show ?thesis by (auto simp: run_sample_def sample_identity)
qed

text \<open>
  C7: Whatever the interceptors and the resolver return, an emission changes no context
  member outside the target and the members it aliases; in particular the point, the
  version, the agent and the session stay.
\<close>

theorem envelope_frame:
  assumes "emit_unchecked x em ctx log = (rec, em', ctx', log')" and "k \<notin> set mutable_members"
  shows "obj_get ctx' k = obj_get ctx k"
  using emit_same_envelope [OF assms(1)] assms(2) by (rule same_envelope_get)

theorem envelope_frame_witness:
  "obj_get (fst (snd (snd (run_sample run_all_config Enforce None [scripted allow, scripted redact])))) ''agent''
    = obj_get (ctx_with ''hi'') ''agent''"
proof -
  let ?em = "sample_emitter run_all_config Enforce None [scripted allow, scripted redact]"
  obtain rec em' c l where e: "emit_unchecked sample_externs ?em (ctx_with ''hi'') [] = (rec, em', c, l)"
    by (cases "emit_unchecked sample_externs ?em (ctx_with ''hi'') []")
  from envelope_frame [OF e, of "''agent''"] e show ?thesis
    by (simp add: run_sample_def mutable_members_def)
qed

section \<open>Who is called\<close>

text \<open>
  Order. Dispatch calls a prefix of the active registrations, each once and in
  registration order, and the outcome has exactly one summary per call, with its index.
\<close>

theorem calls_in_order:
  "\<exists>k \<le> length (active em ctx).
     map fst (invocations (snd (snd (dispatch x em ctx log)))) = map fst (invocations log) @ [0..<k]
     \<and> map s_index (d_verdicts (fst (dispatch x em ctx log))) = [0..<k]"
  using dispatch_in_order [of em ctx log x]
  by (auto simp: outcome_in_order_def in_order_def split: prod.splits)

text \<open>
  C17: Isolation. Under the parallel profiles every active interceptor is called, all of
  them on the context as it was before the emission.
\<close>

theorem parallel_isolation:
  assumes "\<not> is_sequential (profile (e_composition em))"
  shows "invocations (snd (snd (dispatch x em ctx log)))
    = invocations log @ map (\<lambda>j. (j, ctx)) [0..<length (active em ctx)]"
proof (cases "active em ctx = []")
  case True
  then show ?thesis by (simp add: dispatch_def)
next
  case False
  let ?act = "active em ctx"
  obtain all subs l1 where r: "parallel_loop x em ctx 0 ?act [] [] log = (all, subs, l1)"
    by (cases "parallel_loop x em ctx 0 ?act [] [] log")
  obtain d c2 l2 where d: "dispatch_parallel x em ctx ?act log = (d, c2, l2)"
    by (cases "dispatch_parallel x em ctx ?act log")
  have "dispatch x em ctx log = (d, c2, l2)"
    using assms d False by (cases "profile (e_composition em)") (simp_all add: dispatch_def)
  moreover have "invocations l2 = invocations l1"
    using d r by (auto simp: dispatch_parallel_def split: if_splits
        dest: aggregate_invocations unanimous_invocations)
  ultimately show ?thesis using parallel_loop_invocations [OF r] by simp
qed

theorem parallel_isolation_witness:
  "invocations (snd (snd (dispatch sample_externs
      (sample_emitter (strictest_config SP_Deny) Enforce None [scripted redact, scripted allow])
      (ctx_with ''hi'') [])))
    = [(0, ctx_with ''hi''), (1, ctx_with ''hi'')]"
  using parallel_isolation [of "sample_emitter (strictest_config SP_Deny) Enforce None
      [scripted redact, scripted allow]" sample_externs "ctx_with ''hi''" "[]"]
  by (simp add: strictest_config_def default_bare_def)

section \<open>Failing controls\<close>

text \<open>
  C3: A control that fails blocks the action: if an active registration's calls always
  fail (panic, timeout, cancellation, managed failure) and its \<open>on_error\<close> does not
  cover the failure, then no emission permits, whatever the other interceptors and the
  resolver do, under \<open>run_all\<close>, \<open>strictest\<close>, \<open>first_deny\<close> with
  \<open>resume\<close>, and \<open>unanimous\<close> unless disagreement goes to approval.
\<close>

theorem failing_control_blocks:
  assumes "emit_unchecked x em ctx log = (rec, em', ctx', log')"
    and "b \<in> set (active em ctx)" "fails_closed em b" "strict_knobs (e_composition em)"
  shows "\<not> permits (v_decision (r_verdict rec))"
proof
  assume "permits (v_decision (r_verdict rec))"
  with assms(1) obtain d log1 where d: "dispatch x em ctx log = (d, ctx', log1)"
    and "permits (v_decision (d_combined d))"
    by (rule emit_permit)
  with dispatch_fails_closed [OF assms(2-4) d] show False by simp
qed

theorem failing_control_blocks_witness:
  "\<not> permits (v_decision (r_verdict (fst
     (run_sample run_all_config Enforce None [crashing, scripted allow]))))"
proof -
  let ?em = "sample_emitter run_all_config Enforce None [crashing, scripted allow]"
  obtain rec em' c l where e: "emit_unchecked sample_externs ?em (ctx_with ''hi'') [] = (rec, em', c, l)"
    by (cases "emit_unchecked sample_externs ?em (ctx_with ''hi'') []")
  have "fails_closed ?em (bind crashing)"
    by (simp add: fails_closed_def call_isolated_def bind_def crashing_def covered_def)
  moreover have "strict_knobs (e_composition ?em)"
    by (simp add: strict_knobs_def run_all_config_def default_bare_def)
  ultimately show ?thesis
    using failing_control_blocks [OF e, of "bind crashing"] e by (simp add: run_sample_def)
qed



text \<open>
  C20: Every emitter a host can reach through registration, configuration and emissions
  keeps its posture invariant: a registration with \<open>on_error: continue\<close> implies a
  notifier and a version that defines it, no custom provider poses as \<open>jcs-sha256\<close>, and
  every buffered record is payload-free. So a continued failure is always announced first.
\<close>

theorem reachable_posture:
  assumes "reachable x em"
  shows "(\<forall>b\<in>set (e_interceptors em). b_on_error b = OE_Continue \<longrightarrow>
        e_notifier em \<noteq> None \<and> has_failure_posture (e_spec em))
    \<and> (\<forall>name f. e_identity em = CustomIdentity name f \<longrightarrow> name \<noteq> JCS_SHA256)
    \<and> (\<forall>r\<in>set (e_records em). payload_free (r_verdict r))"
proof -
  have "starts_with ''jcs'' JCS_SHA256" by (simp add: JCS_SHA256_def starts_with_def)
  with reachable_inv [OF assms] show ?thesis
    by (auto simp: emitter_inv_def posture_ok_def provider_ok_def)
qed

theorem reachable_posture_witness:
  "\<exists>em. reachable sample_externs em \<and> e_interceptors em \<noteq> []
     \<and> (\<forall>b\<in>set (e_interceptors em). b_on_error b = OE_Continue \<longrightarrow> e_notifier em \<noteq> None)"
proof -
  let ?em0 = "set_control_failure_notifier (\<lambda>_ _. True) (new_emitter False Draft Enforce None)"
  let ?opts = "\<lparr>o_name = None, o_at = None, o_on_error = OE_Continue\<rparr>"
  obtain em where em: "register_with_options crashing ?opts ?em0 = Inr em" and ne: "e_interceptors em \<noteq> []"
    by (auto simp: register_with_options_def push_bound_def unsealed_def set_control_failure_notifier_def
        new_emitter_def)
  have r: "reachable sample_externs em"
    by (rule reachable.step [OF reachable.step [OF reachable.start host_step.notifier]
          host_step.registration_options [OF em]])
  from reachable_posture [OF r] r ne show ?thesis by blast
qed



section \<open>The approval seam\<close>

text \<open>
  C6: The echo rule. A resolution substitutes a permit only for a liftable deny, in
  enforce mode, at a point other than shutdown, and only if the resolver answered approve,
  echoed the identity of exactly the context it was shown, and gave a permit that passes the
  verdict gate. Anything else the resolver says leaves a deny.
\<close>

theorem approval_needs_echo:
  assumes "consult x em ctx v log = (Substituted w permitted, log')"
  shows "(if permitted then \<exists>q. log' = log @ [Consulted q] \<and> q_verdict q = v \<and> approval_given x em log q w
          else v_decision w = Deny)
    \<and> is_liftable v \<and> e_mode em = Enforce \<and> get_str ctx ''interception_point'' \<noteq> Some ''agent_shutdown''"
proof -
  have "is_liftable v \<and> e_mode em = Enforce \<and> get_str ctx ''interception_point'' \<noteq> Some ''agent_shutdown''"
    using assms by (auto simp: consult_def split: if_splits)
  moreover have "if permitted then \<exists>q. log' = log @ [Consulted q] \<and> q_verdict q = v \<and> approval_given x em log q w
      else v_decision w = Deny"
    using assms consult_approved [of x em ctx v log w log'] consult_rejected(1) [of x em ctx v log w log']
    by (cases permitted) auto
  ultimately show ?thesis by simp
qed

theorem approval_needs_echo_witness:
  "\<exists>log'. consult sample_externs (sample_emitter run_all_config Enforce (Some (echoing Approve allow)) [])
      (ctx_with ''hi'') (escalate None None) [] = (Substituted allow True, log')
    \<and> length log' = 1"
proof -
  let ?em = "sample_emitter run_all_config Enforce (Some (echoing Approve allow)) []"
  obtain log' where c: "consult sample_externs ?em (ctx_with ''hi'') (escalate None None) []
      = (Substituted allow True, log')"
    by (simp add: sample_eval sample_identity)
  from approval_needs_echo [OF c] c show ?thesis by auto
qed

text \<open>
  Except under \<open>first_deny\<close> with \<open>resume\<close>, one dispatch asks the resolver
  at most once.
\<close>

theorem resolver_asked_once:
  assumes "profile (e_composition em) = SequentialFirstDeny \<longrightarrow> on_approval (e_composition em) \<noteq> Some Resume"
  shows "length (consultations (snd (snd (dispatch x em ctx log)))) \<le> Suc (length (consultations log))"
  using dispatch_once [OF _ assms, of x ctx log] by (cases "dispatch x em ctx log") auto

theorem resolver_asked_once_witness:
  "length (consultations (snd (snd (dispatch sample_externs
      (sample_emitter (first_deny_config Stop) Enforce (Some (echoing Approve allow))
        [scripted (escalate None None), scripted (escalate None None)]) (ctx_with ''hi'') [])))) \<le> 1"
  using resolver_asked_once [of "sample_emitter (first_deny_config Stop) Enforce (Some (echoing Approve allow))
      [scripted (escalate None None), scripted (escalate None None)]" sample_externs "ctx_with ''hi''" "[]"]
  by (simp add: first_deny_config_def default_bare_def)

section \<open>The record stream\<close>

text \<open>
  C38: The buffer. Delivering a record keeps every record or drops some of the oldest, counts each
  dropped one, appends the new one last, and never exceeds the configured maximum (at least one).
\<close>

theorem buffer_bounded:
  assumes "deliver rec em log = (rec', em', log')"
  shows "rec' = rec \<and> (\<exists>k. e_records em' = drop k (e_records em) @ [rec] \<and> k \<le> length (e_records em)
      \<and> e_records_dropped em' = e_records_dropped em + k
      \<and> (case e_max_records em of None \<Rightarrow> k = 0 | Some m \<Rightarrow> length (e_records em') \<le> max m 1))"
  using deliver_config(1) [OF assms] deliver_buffer [OF assms] by simp

theorem buffer_bounded_witness:
  "\<exists>em' log'. deliver (fst (run_sample run_all_config Enforce None []))
      ((sample_emitter run_all_config Enforce None [])
        \<lparr>e_max_records := Some 1, e_records := replicate 3 (fst (run_sample run_all_config Enforce None []))\<rparr>) []
      = (fst (run_sample run_all_config Enforce None []), em', log')
    \<and> length (e_records em') \<le> 1"
proof -
  let ?r = "fst (run_sample run_all_config Enforce None [])"
  let ?em = "(sample_emitter run_all_config Enforce None [])\<lparr>e_max_records := Some 1, e_records := replicate 3 ?r\<rparr>"
  obtain r em' l where d: "deliver ?r ?em [] = (r, em', l)" by (cases "deliver ?r ?em []")
  from buffer_bounded [OF d] deliver_config(2) [OF d] d show ?thesis by (auto split: option.splits)
qed

text \<open>
  A host projection failure is recorded in the rejection shape: the record denies with
  \<open>host_error:context_invalid\<close>, has no identities, no summaries and nobody who decided, names
  the point it was given, carries the session, the 64-bit sequence number and the timestamp the host
  gave, and \<open>-1\<close> and the empty session where it gave none.
\<close>

theorem host_failure_recorded:
  assumes "\<forall>n. hf_sequence hf = Some n \<longrightarrow> - (2 ^ 63) \<le> n \<and> n < 2 ^ 63"
  shows "\<exists>rec em' log'. record_host_failure x em p hf log = (rec, em', log')
    \<and> is_context_invalid (r_verdict rec) \<and> r_input_identity rec = None \<and> r_enforced_identity rec = None
    \<and> r_verdicts rec = [] \<and> r_decided_by rec = None \<and> r_point rec = p
    \<and> r_session_id rec = (case hf_session_id hf of None \<Rightarrow> [] | Some s \<Rightarrow> s)
    \<and> r_sequence rec = (case hf_sequence hf of None \<Rightarrow> -1 | Some n \<Rightarrow> n) \<and> r_timestamp rec = hf_timestamp hf"
proof -
  obtain rec em' log' where d: "record_host_failure x em p hf log = (rec, em', log')"
    by (cases "record_host_failure x em p hf log")
  define c where "c = failure_basis p hf"
  define v where "v = host_error ContextInvalid (hf_detail hf)"
  obtain meta where meta: "rec = finalize x c v (e_mode em) meta" "m_verdicts meta = []" "m_decided_by meta = None"
    using d unfolding record_host_failure_def Let_def c_def v_def
    by (auto dest!: deliver_shape)
  have get: "obj_get c ''spec'' = None" "obj_get c ''interception_point'' = Some (JStr (point_str p))"
    "get_object c ''session'' = map_option (\<lambda>s. [(''id'', JStr s)]) (hf_session_id hf)"
    "obj_get c ''sequence'' = map_option (\<lambda>n. JNum (i64_number n)) (hf_sequence hf)"
    "get_str c ''timestamp'' = hf_timestamp hf"
    by (simp_all add: c_def failure_basis_def Let_def get_object_def get_str_def split: option.split)
  have id: "get_str [(''id'', JStr s)] ''id'' = Some s" for s by (simp add: get_str_def)
  have bad: "validate_envelope c = Inl (env_err ''spec'' ''a supported wire string (agent-hooks/0.1 or agent-hooks/draft)'')"
    by (simp add: validate_envelope_def spec_of_context_def get_str_def get)
  have ip: "interception_point_of c = Inr p"
    by (cases p) (simp_all add: interception_point_of_def get_str_def get point_from_str_def POINTS_def)
  have "r_decided_by rec = None \<and> r_point rec = p
    \<and> r_session_id rec = (case hf_session_id hf of None \<Rightarrow> [] | Some s \<Rightarrow> s)
    \<and> r_sequence rec = (case hf_sequence hf of None \<Rightarrow> -1 | Some n \<Rightarrow> n) \<and> r_timestamp rec = hf_timestamp hf"
    using meta bad ip assms i64_number_value
    by (auto simp: finalize_def enforced_arm_def v_def session_id_of_def get id get_i64_def
        split: option.split)
  with finalize_envelope_bad [OF bad, of x v "e_mode em" meta] meta d show ?thesis by simp
qed

theorem host_failure_recorded_witness:
  "\<exists>rec em' log'. record_host_failure sample_externs (sample_emitter run_all_config Enforce None [])
      Output \<lparr>hf_detail = None, hf_session_id = Some ''s'', hf_sequence = Some 7, hf_timestamp = None\<rparr> []
      = (rec, em', log') \<and> r_sequence rec = 7 \<and> r_session_id rec = ''s''"
  using host_failure_recorded [of "\<lparr>hf_detail = None, hf_session_id = Some ''s'', hf_sequence = Some 7,
      hf_timestamp = None\<rparr>" sample_externs "sample_emitter run_all_config Enforce None []" Output "[]"]
  by auto

text \<open>
  Under \<open>run_all\<close> a transform that fails to apply ends the loop, and the interceptors after
  it are never called, but the outcome leaves \<open>fold_truncated\<close> unset, where the record's
  documentation and section 7.4 of the specification have it \<open>true\<close>.
\<close>

theorem run_all_truncation_unmarked:
  "\<exists>d. dispatch sample_externs
       (sample_emitter run_all_config Enforce None
         [scripted (redact\<lparr>v_transform := Some \<lparr>t_path = ''$target.missing'', t_value = JNull\<rparr>\<rparr>), scripted allow])
       (ctx_with ''hi'') [] = (d, ctx_with ''hi'', [Invoked 0 (ctx_with ''hi'')])
     \<and> d_fold_truncated d = None \<and> v_decision (d_combined d) = Deny"
proof -
  have "parse ''$target.missing'' = Inr [Member ''missing'']"
    by (simp add: parse_def strip_prefix_def starts_with_def parse_segs.simps is_member_char_def is_alnum_def
        is_lower_def is_upper_def is_digit_def byte_def)
  then have "apply_transform_to_ctx (ctx_with ''hi'') \<lparr>t_path = ''$target.missing'', t_value = JNull\<rparr>
      = Inl TransformInvalid"
    by (simp add: apply_transform_to_ctx_def sample_point sample_target apply_path_def contains_key_def)
  then show ?thesis by (simp add: sample_eval)
qed

end
